(* ===== verification/Prelude.thy ===== *)
theory Prelude
  imports Main "HOL-Library.State_Monad" "HOL-Library.Multiset"
begin

text \<open>
  The base of the library: effectful Go code as a state monad over an opaque outside world and a
  log of what the code did, a small trace logic over that log, and the helper lemmas the components
  share.

  \<^item> A value of type \<open>('s, 'e, 'a) io\<close> is Go code that returns an \<open>'a\<close>. It runs in a \<open>world\<close>: the
    outside (\<open>'s\<close>: API server, other controllers, clocks, of which the code knows nothing but the
    answers it gets) and the log of events (\<open>'e\<close>: every call with its answer).
  \<^item> \<open>outcome m R\<close> says that every run of \<open>m\<close>, in every world, appends events \<open>es\<close> to the log and
    returns a value \<open>a\<close> with \<open>R a es\<close>. It is a total-correctness statement for every behaviour of
    the outside, since the outside is an arbitrary function of its own state.
  \<^item> \<open>preceded G B es\<close> says that no \<open>B\<close> event happens in \<open>es\<close> before a \<open>G\<close> event did;
    \<open>guarded T G B es\<close> that every \<open>B\<close> event comes after one that fits an object which the log up to
    there shows to be at hand.
\<close>

section \<open>Effectful code\<close>

record ('s, 'e) world =
  outside :: 's
  log :: "'e list"

type_synonym ('s, 'e, 'a) io = "(('s, 'e) world, 'a) state"

abbreviation return :: "'a \<Rightarrow> ('s, 'e, 'a) io" where
  "return \<equiv> State_Monad.return"

text \<open>A call to the outside: it may change the outside at will, and it is logged with its answer.\<close>

definition query :: "('s \<Rightarrow> 'r \<times> 's) \<Rightarrow> ('r \<Rightarrow> 'e) \<Rightarrow> ('s, 'e, 'r) io" where
  "query f ev = State (\<lambda>w. case f (outside w) of (r, s) \<Rightarrow>
     (r, w\<lparr>outside := s, log := log w @ [ev r]\<rparr>))"

text \<open>A call whose answer is used but that the log does not record (a clock, a library helper).\<close>

definition ask :: "('s \<Rightarrow> 'r \<times> 's) \<Rightarrow> ('s, 'e, 'r) io" where
  "ask f = State (\<lambda>w. case f (outside w) of (r, s) \<Rightarrow> (r, w\<lparr>outside := s\<rparr>))"

text \<open>A fire-and-forget effect: a recorded Kubernetes event, an incremented metric.\<close>

definition emit :: "'e \<Rightarrow> ('s, 'e, unit) io" where
  "emit e = State (\<lambda>w. ((), w\<lparr>log := log w @ [e]\<rparr>))"

text \<open>A \<^verbatim>\<open>for\<close> loop over a slice whose body cannot leave the loop.\<close>

fun for_each :: "('a \<Rightarrow> ('s, 'e, unit) io) \<Rightarrow> 'a list \<Rightarrow> ('s, 'e, unit) io" where
  "for_each f [] = return ()"
| "for_each f (x # xs) = do { _ \<leftarrow> f x; for_each f xs }"

text \<open>A \<^verbatim>\<open>for\<close> loop that threads a value (the Go code assigns to a variable of the outer scope).\<close>

fun fold_io :: "('a \<Rightarrow> 'b \<Rightarrow> ('s, 'e, 'b) io) \<Rightarrow> 'a list \<Rightarrow> 'b \<Rightarrow> ('s, 'e, 'b) io" where
  "fold_io f [] b = return b"
| "fold_io f (x # xs) b = do { b' \<leftarrow> f x b; fold_io f xs b' }"

text \<open>Running a program, one step at a time (for evaluating it in a concrete world).\<close>

named_theorems run_simps \<open>rules that evaluate a run\<close>

lemma run_bind [run_simps]:
  "run_state (State_Monad.bind m f) w = (case run_state m w of (a, w') \<Rightarrow> run_state (f a) w')"
  by (cases "run_state m w") simp

lemma run_return [run_simps]: "run_state (return a) w = (a, w)"
  by simp

lemma run_query [run_simps]: "run_state (query f ev) w =
    (case f (outside w) of (r, s) \<Rightarrow> (r, w\<lparr>outside := s, log := log w @ [ev r]\<rparr>))"
  by (simp add: query_def)

lemma run_ask [run_simps]:
  "run_state (ask f) w = (case f (outside w) of (r, s) \<Rightarrow> (r, w\<lparr>outside := s\<rparr>))"
  by (simp add: ask_def)

lemma run_emit [run_simps]: "run_state (emit e) w = ((), w\<lparr>log := log w @ [e]\<rparr>)"
  by (simp add: emit_def)

text \<open>Only the first step of a program is evaluated at a time.\<close>

lemma bind_cong_weak: "m = m' \<Longrightarrow> State_Monad.bind m f = State_Monad.bind m' f"
  by simp

section \<open>The trace logic\<close>

definition outcome :: "('s, 'e, 'a) io \<Rightarrow> ('a \<Rightarrow> 'e list \<Rightarrow> bool) \<Rightarrow> bool" where
  "outcome m R \<longleftrightarrow> (\<forall>w. \<exists>es. log (snd (run_state m w)) = log w @ es \<and> R (fst (run_state m w)) es)"

text \<open>The events a run appends, and the value it returns.\<close>

definition events :: "('s, 'e, 'a) io \<Rightarrow> ('s, 'e) world \<Rightarrow> 'e list" where
  "events m w = drop (length (log w)) (log (snd (run_state m w)))"

definition result :: "('s, 'e, 'a) io \<Rightarrow> ('s, 'e) world \<Rightarrow> 'a" where
  "result m w = fst (run_state m w)"

named_theorems outcome_intro \<open>rules that take an outcome statement apart\<close>

lemma outcomeD:
  assumes "outcome m R"
  shows "R (result m w) (events m w)"
  using assms unfolding outcome_def events_def result_def
  by (metis append_eq_conv_conj)

lemma outcome_mono:
  assumes "outcome m R" "\<And>a es. R a es \<Longrightarrow> Q a es"
  shows "outcome m Q"
  using assms unfolding outcome_def by blast

lemma outcome_conj:
  assumes "outcome m R" "outcome m Q"
  shows "outcome m (\<lambda>a es. R a es \<and> Q a es)"
  using assms unfolding outcome_def by (metis same_append_eq)

text \<open>The value of an outcome is one the program answers somewhere.\<close>

lemma outcome_result:
  "outcome m R \<Longrightarrow> outcome m (\<lambda>a es. R a es \<and> (\<exists>w. a = result m w))"
  unfolding outcome_def result_def by blast

lemma outcome_return [outcome_intro]: "R a [] \<Longrightarrow> outcome (return a) R"
  by (simp add: outcome_def)

lemma outcome_bind [outcome_intro]:
  assumes "outcome m (\<lambda>a es. outcome (f a) (\<lambda>b es'. R b (es @ es')))"
  shows "outcome (State_Monad.bind m f) R"
  unfolding outcome_def
proof
  fix w
  obtain a w' where m: "run_state m w = (a, w')" by (cases "run_state m w")
  with assms obtain es where es: "log w' = log w @ es"
    and f: "outcome (f a) (\<lambda>b es'. R b (es @ es'))"
    unfolding outcome_def [of m] by (metis fst_conv snd_conv)
  from f obtain es' where "log (snd (run_state (f a) w')) = log w' @ es'"
    and "R (fst (run_state (f a) w')) (es @ es')"
    unfolding outcome_def by blast
  with es show "\<exists>es. log (snd (run_state (State_Monad.bind m f) w)) = log w @ es
      \<and> R (fst (run_state (State_Monad.bind m f) w)) es"
    by (intro exI [of _ "es @ es'"]) (simp add: m)
qed

lemma outcome_query [outcome_intro]: "(\<And>r. R r [ev r]) \<Longrightarrow> outcome (query f ev) R"
  by (simp add: outcome_def query_def split: prod.splits)

lemma outcome_ask [outcome_intro]: "(\<And>r. R r []) \<Longrightarrow> outcome (ask f) R"
  by (simp add: outcome_def ask_def split: prod.splits)

lemma outcome_emit [outcome_intro]: "R () [e] \<Longrightarrow> outcome (emit e) R"
  by (simp add: outcome_def emit_def)

text \<open>Using a proved outcome of a called operation inside a proof about its caller.\<close>

lemma outcome_call:
  assumes "outcome m Q" "\<And>a es. Q a es \<Longrightarrow> outcome (f a) (\<lambda>b es'. R b (es @ es'))"
  shows "outcome (State_Monad.bind m f) R"
  by (rule outcome_bind, rule outcome_mono [OF assms(1)]) (rule assms(2))

lemma outcome_for_each:
  assumes "\<And>x. x \<in> set xs \<Longrightarrow> outcome (f x) (\<lambda>_ es. \<forall>e\<in>set es. A e)"
  shows "outcome (for_each f xs) (\<lambda>_ es. \<forall>e\<in>set es. A e)"
  using assms
proof (induction xs)
  case Nil
  show ?case by (auto intro!: outcome_return)
next
  case (Cons x xs)
  have "outcome (for_each f xs) (\<lambda>_ es. \<forall>e\<in>set es. A e)"
    using Cons by simp
  then show ?case
    by (auto intro!: outcome_call [OF Cons.prems [of x]] elim!: outcome_mono)
qed

section \<open>Order of events\<close>

fun preceded :: "('e \<Rightarrow> bool) \<Rightarrow> ('e \<Rightarrow> bool) \<Rightarrow> 'e list \<Rightarrow> bool" where
  "preceded G B [] = True"
| "preceded G B (e # es) = (\<not> B e \<and> (G e \<or> preceded G B es))"

lemma preceded_append:
  "preceded G B (xs @ ys) \<longleftrightarrow> preceded G B xs \<and> ((\<exists>x\<in>set xs. G x) \<or> preceded G B ys)"
  by (induction xs) auto

lemma preceded_none: "(\<And>e. e \<in> set es \<Longrightarrow> \<not> B e) \<Longrightarrow> preceded G B es"
  by (induction es) auto

text \<open>What \<open>preceded\<close> means: the reading by positions in the log.\<close>

lemma preceded_iff:
  "preceded G B es \<longleftrightarrow> (\<forall>i < length es. B (es ! i) \<longrightarrow> (\<exists>j < i. G (es ! j)))"
proof (induction es)
  case Nil
  show ?case by simp
next
  case (Cons e es)
  have "(\<forall>i < length (e # es). B ((e # es) ! i) \<longrightarrow> (\<exists>j < i. G ((e # es) ! j))) \<longleftrightarrow>
      \<not> B e \<and> (\<forall>i < length es. B (es ! i) \<longrightarrow> G e \<or> (\<exists>j < i. G (es ! j)))"
    by (simp add: All_less_Suc2 Ex_less_Suc2)
  then show ?case using Cons.IH by auto
qed

lemma preceded_mono:
  "preceded G B es \<Longrightarrow> (\<And>e. G e \<Longrightarrow> G' e) \<Longrightarrow> (\<And>e. B' e \<Longrightarrow> B e) \<Longrightarrow> preceded G' B' es"
  by (induction es) auto

text \<open>
  An order that is bound to an object the log itself shows: every \<open>B\<close> event comes after an event that
  fits (\<open>G a\<close>) an object \<open>a\<close> which the log up to there shows to be at hand (\<open>T\<close>).
\<close>

definition guarded :: "('e list \<Rightarrow> 'o \<Rightarrow> bool) \<Rightarrow> ('o \<Rightarrow> 'e \<Rightarrow> bool) \<Rightarrow> ('e \<Rightarrow> bool) \<Rightarrow> 'e list \<Rightarrow> bool" where
  "guarded T G B es \<longleftrightarrow>
     (\<forall>xs e ys. es = xs @ e # ys \<longrightarrow> B e \<longrightarrow> (\<exists>a. T xs a \<and> (\<exists>g\<in>set xs. G a g)))"

lemma guarded_none: "(\<And>e. e \<in> set es \<Longrightarrow> \<not> B e) \<Longrightarrow> guarded T G B es"
  by (auto simp: guarded_def)

lemma preceded_split: "preceded G B (xs @ e # ys) \<Longrightarrow> B e \<Longrightarrow> \<exists>g\<in>set xs. G g"
  by (auto simp: preceded_append)

text \<open>An order that holds for the object at hand once the quiet start of the log has shown it.\<close>

lemma guarded_after:
  assumes "\<And>e. e \<in> set pre \<Longrightarrow> \<not> B e" "T pre a" "\<And>xs ys. T xs a \<Longrightarrow> T (xs @ ys) a"
    and "preceded (G a) B es"
  shows "guarded T G B (pre @ es)"
  unfolding guarded_def
proof (intro allI impI)
  fix xs e ys
  assume split: "pre @ es = xs @ e # ys" and "B e"
  with assms(1) have "length pre \<le> length xs"
    by (auto simp: append_eq_append_conv2 append_eq_Cons_conv)
  with split obtain us where "xs = pre @ us" "es = us @ e # ys"
    by (auto simp: append_eq_append_conv2)
  with assms(2,3) preceded_split [of "G a" B us e ys] assms(4) \<open>B e\<close>
  show "\<exists>a. T xs a \<and> (\<exists>g\<in>set xs. G a g)" by auto
qed

section \<open>Maps\<close>

lemma map_add_upd_eq: "m k = Some v \<Longrightarrow> m(k \<mapsto> v) = m"
  by (rule ext) simp

end
