(* ===== verification/GoStd.thy ===== *)
theory GoStd
  imports Prelude
begin

text \<open>
  The parts of Go's standard library the operator computes with: decimal formatting and parsing
  (\<open>strconv\<close>), instants and durations (\<open>time\<close>), quoting and error wrapping (\<open>fmt\<close>). An instant is
  the number of nanoseconds since Go's zero time, so that \<open>Time.IsZero\<close> is \<open>= 0\<close> and \<open>Time.Truncate\<close>
  (which Go defines from the zero time) is a remainder. A duration is a signed 64-bit number of
  nanoseconds; multiplication wraps around, \<open>Time.Sub\<close> saturates. Locations are UTC.
\<close>

section \<open>64-bit integers\<close>

definition wrap64 :: "int \<Rightarrow> int" where
  "wrap64 x = (x + 2 ^ 63) mod 2 ^ 64 - 2 ^ 63"

definition maxInt64 :: int where "maxInt64 = 2 ^ 63 - 1"
definition minInt64 :: int where "minInt64 = - (2 ^ 63)"

lemma wrap64_id: "minInt64 \<le> x \<Longrightarrow> x \<le> maxInt64 \<Longrightarrow> wrap64 x = x"
  by (simp add: wrap64_def minInt64_def maxInt64_def)

lemma wrap64_range: "minInt64 \<le> wrap64 x \<and> wrap64 x \<le> maxInt64"
proof -
  have "0 \<le> (x + 2 ^ 63) mod 2 ^ 64" "(x + 2 ^ 63) mod 2 ^ 64 < 2 ^ 64" by simp_all
  then show ?thesis unfolding wrap64_def minInt64_def maxInt64_def by simp
qed

text \<open>Go's integer division truncates towards zero.\<close>

definition goDiv :: "int \<Rightarrow> int \<Rightarrow> int" where
  "goDiv a b = sgn a * sgn b * (\<bar>a\<bar> div \<bar>b\<bar>)"

lemma goDiv_nonneg: "0 \<le> a \<Longrightarrow> 0 < b \<Longrightarrow> goDiv a b = a div b"
  by (cases "a = 0") (simp_all add: goDiv_def)

section \<open>Decimal numbers\<close>

definition digit :: "nat \<Rightarrow> char" where
  "digit d = char_of (48 + d)"

fun showNat :: "nat \<Rightarrow> string" where
  "showNat n = (if n < 10 then [digit n] else showNat (n div 10) @ [digit (n mod 10)])"

declare showNat.simps [simp del]

definition showInt :: "int \<Rightarrow> string" where
  "showInt i = (if i < 0 then CHR ''-'' # showNat (nat (- i)) else showNat (nat i))"

definition isDigit :: "char \<Rightarrow> bool" where
  "isDigit c \<longleftrightarrow> 48 \<le> (of_char c :: nat) \<and> (of_char c :: nat) \<le> 57"

definition digitVal :: "char \<Rightarrow> nat" where
  "digitVal c = of_char c - 48"

definition digitsVal :: "string \<Rightarrow> nat" where
  "digitsVal s = foldl (\<lambda>acc c. 10 * acc + digitVal c) 0 s"

datatype num_error = ErrSyntax | ErrRange

text \<open>\<open>strconv.ParseInt(s, 10, bits)\<close>; \<open>strconv.Atoi\<close> is the 64-bit case on the operator's platforms.\<close>

definition parseInt :: "nat \<Rightarrow> string \<Rightarrow> num_error + int" where
  "parseInt bits s =
     (let (neg, ds) = (case s of [] \<Rightarrow> (False, [])
                       | c # cs \<Rightarrow> if c = CHR ''-'' then (True, cs)
                                   else if c = CHR ''+'' then (False, cs) else (False, s))
      in if ds = [] \<or> \<not> list_all isDigit ds then Inl ErrSyntax
         else let v = int (digitsVal ds)
              in if neg then (if v \<le> 2 ^ (bits - 1) then Inr (- v) else Inl ErrRange)
                 else (if v < 2 ^ (bits - 1) then Inr v else Inl ErrRange))"

abbreviation atoi :: "string \<Rightarrow> num_error + int" where
  "atoi \<equiv> parseInt 64"

lemma parseInt_range:
  "parseInt bits s = Inr i \<Longrightarrow> - (2 ^ (bits - 1)) \<le> i \<and> i < 2 ^ (bits - 1)"
  by (auto simp: parseInt_def Let_def split: list.splits if_splits prod.splits
      intro: le_less_trans [of _ 0] order_trans [of _ 0])

lemma of_char_digit: "d < 10 \<Longrightarrow> (of_char (digit d) :: nat) = 48 + d"
  by (simp add: digit_def)

lemma isDigit_digit [simp]: "d < 10 \<Longrightarrow> isDigit (digit d)"
  by (simp add: isDigit_def of_char_digit)

lemma digitVal_digit [simp]: "d < 10 \<Longrightarrow> digitVal (digit d) = d"
  by (simp add: digitVal_def of_char_digit)

lemma digitsVal_snoc: "digitsVal (s @ [c]) = 10 * digitsVal s + digitVal c"
  by (simp add: digitsVal_def)

lemma showNat_digits: "list_all isDigit (showNat n)"
proof (induction n rule: showNat.induct)
  case (1 n)
  then show ?case by (subst showNat.simps) auto
qed

lemma showNat_nonempty [simp]: "showNat n \<noteq> []"
  by (subst showNat.simps) simp

lemma digitsVal_showNat [simp]: "digitsVal (showNat n) = n"
proof (induction n rule: showNat.induct)
  case (1 n)
  then show ?case
    by (subst showNat.simps) (auto simp: digitsVal_snoc digitsVal_def [of "[_]"])
qed

lemma hd_showNat_digit: "isDigit (hd (showNat n))"
  using showNat_digits [of n] showNat_nonempty [of n] by (cases "showNat n") auto

lemma not_isDigit_signs: "\<not> isDigit (CHR ''-'')" "\<not> isDigit (CHR ''+'')"
    "\<not> isDigit (CHR ''h'')" "\<not> isDigit (CHR ''m'')" "\<not> isDigit (CHR ''l'')"
  by (simp_all add: isDigit_def)

lemma parseInt_showInt:
  assumes "- (2 ^ (bits - 1)) \<le> i" "i < 2 ^ (bits - 1)"
  shows "parseInt bits (showInt i) = Inr i"
proof (cases "i < 0")
  case True
  then show ?thesis using assms
    by (simp add: parseInt_def showInt_def showNat_digits)
next
  case False
  obtain c cs where s: "showNat (nat i) = c # cs"
    by (cases "showNat (nat i)") auto
  then have "isDigit c" using hd_showNat_digit [of "nat i"] by simp
  then have "c \<noteq> CHR ''-''" "c \<noteq> CHR ''+''" using not_isDigit_signs by auto
  moreover have "list_all isDigit (c # cs)" "digitsVal (c # cs) = nat i"
    using showNat_digits [of "nat i"] digitsVal_showNat [of "nat i"] s by simp_all
  ultimately show ?thesis using False assms s
    by (auto simp: parseInt_def showInt_def)
qed

lemma showNat_inject [simp]: "showNat m = showNat n \<longleftrightarrow> m = n"
  by (metis digitsVal_showNat)

section \<open>Instants and durations\<close>

type_synonym instant = int
type_synonym duration = int

abbreviation isZero :: "instant \<Rightarrow> bool" where
  "isZero t \<equiv> t = 0"

definition second :: duration where "second = 1000000000"
definition minute :: duration where "minute = 60 * second"
definition hour :: duration where "hour = 60 * minute"

lemmas duration_units = second_def minute_def hour_def

definition mulDuration :: "int \<Rightarrow> duration \<Rightarrow> duration" where
  "mulDuration n d = wrap64 (n * d)"

definition timeSub :: "instant \<Rightarrow> instant \<Rightarrow> duration" where
  "timeSub t u = max minInt64 (min maxInt64 (t - u))"

definition truncateTime :: "duration \<Rightarrow> instant \<Rightarrow> instant" where
  "truncateTime d t = (if d \<le> 0 then t else t - t mod d)"

text \<open>A nil pointer to a \<open>metav1.Time\<close> is zero too.\<close>

fun isZeroPtr :: "instant option \<Rightarrow> bool" where
  "isZeroPtr None = True"
| "isZeroPtr (Some t) = isZero t"

section \<open>Strings and errors\<close>

text \<open>
  What the operator's errors are made of: an error of the API machinery (a reason and a text), a
  plain \<open>fmt.Errorf\<close>, a wrapped error (\<open>%w\<close>), and \<open>errors.Join\<close>. The predicates of \<open>apierrors\<close> look
  through wrapping.
\<close>

datatype api_reason = NotFound | AlreadyExists | ConflictReason | NoMatch | OtherReason

datatype api_error = ApiError (reason_of: api_reason) (text_of: string)

datatype err =
    Api api_error
  | Errorf string
  | Wrapf string err
  | Joined "err list"

fun errText :: "err \<Rightarrow> string" where
  "errText (Api e) = text_of e"
| "errText (Errorf s) = s"
| "errText (Wrapf s e) = s @ '': '' @ errText e"
| "errText (Joined es) = concat (List.map (\<lambda>(i, t). (if i = 0 then [] else [CHR 10]) @ t)
     (enumerate 0 (List.map errText es)))"

fun apiReasonOf :: "err \<Rightarrow> api_reason option" where
  "apiReasonOf (Api e) = Some (reason_of e)"
| "apiReasonOf (Errorf s) = None"
| "apiReasonOf (Wrapf s e) = apiReasonOf e"
| "apiReasonOf (Joined es) =
     (case filter (\<lambda>r. r \<noteq> None) (List.map apiReasonOf es) of [] \<Rightarrow> None | r # _ \<Rightarrow> r)"

abbreviation isNotFound :: "api_error \<Rightarrow> bool" where
  "isNotFound e \<equiv> reason_of e = NotFound"

abbreviation isAlreadyExists :: "api_error \<Rightarrow> bool" where
  "isAlreadyExists e \<equiv> reason_of e = AlreadyExists"

abbreviation isConflict :: "api_error \<Rightarrow> bool" where
  "isConflict e \<equiv> reason_of e = ConflictReason"

text \<open>A value between apostrophes, as the messages write names.\<close>

definition sq :: "string \<Rightarrow> string" where
  "sq s = CHR 39 # s @ [CHR 39]"

text \<open>\<open>%q\<close> on the printable ASCII text of Kubernetes names and phases.\<close>

definition quote :: "string \<Rightarrow> string" where
  "quote s = CHR 34 # concat (List.map (\<lambda>c. if c = CHR 34 \<or> c = CHR 92 then [CHR 92, c] else [c]) s)
     @ [CHR 34]"

text \<open>The text of a \<open>*strconv.NumError\<close> of the function \<open>fn\<close>.\<close>

definition numErrorOf :: "string \<Rightarrow> string \<Rightarrow> num_error \<Rightarrow> string" where
  "numErrorOf fn s e = ''strconv.'' @ fn @ '': parsing '' @ quote s @ '': '' @
     (case e of ErrSyntax \<Rightarrow> ''invalid syntax'' | ErrRange \<Rightarrow> ''value out of range'')"

end
