(* ===== verification/Kube.thy ===== *)
theory Kube
  imports GoStd
begin

text \<open>
  The Kubernetes side of the model. The operator's own code only sees objects (records) and the
  answers of the clients and helper libraries it is given; those libraries are not part of the
  repository, so they are a parameter: an \<open>'s env\<close> is a record of functions over the opaque outside
  \<open>'s\<close>. A function may answer anything and change the outside at will, which covers API errors,
  conflicts, other controllers and users acting between two calls. Where a lemma needs documented
  behaviour of a library, it takes one of the named laws at the end (\<open>meta_laws\<close>,
  \<open>finalizer_laws\<close>) as a hypothesis.

  Every call that goes through the API, every recorded Kubernetes event and every metric is an
  \<open>event\<close> of the log.
\<close>

section \<open>Objects\<close>

text \<open>\<open>metav1.Condition\<close>; the condition types are the constants of the CRD libraries.\<close>

datatype cond_type =
    ConditionSucceeded | ConditionPrepared | ConditionProviderSucceeded
  | ConditionCanceled | ConditionDeleting | ConditionWorkloadsRecovered
  | ConditionAccepted | ConditionReady | OtherCondition string

datatype cond_status = ConditionTrue | ConditionFalse | ConditionUnknown | OtherStatus string

record condition =
  c_type :: cond_type
  c_status :: cond_status
  c_reason :: string
  c_message :: string
  c_transition :: instant
  c_generation :: int

definition newCondition :: "cond_type \<Rightarrow> cond_status \<Rightarrow> string \<Rightarrow> string \<Rightarrow> condition" where
  "newCondition t s r m = \<lparr>c_type = t, c_status = s, c_reason = r, c_message = m,
     c_transition = 0, c_generation = 0\<rparr>"

lemma newCondition_simps [simp]:
  "c_type (newCondition t s r m) = t" "c_status (newCondition t s r m) = s"
  "c_reason (newCondition t s r m) = r" "c_message (newCondition t s r m) = m"
  "c_transition (newCondition t s r m) = 0" "c_generation (newCondition t s r m) = 0"
  by (simp_all add: newCondition_def)

text \<open>The deprecated scalar status of backups and restores.\<close>

datatype legacy_status =
  StatusNew | StatusInProgress | StatusCompleted | StatusFailed | StatusDeleting | OtherLegacy string

record owner_ref =
  ow_apiVersion :: string
  ow_kind :: string
  ow_name :: string
  ow_uid :: string
  ow_controller :: bool
  ow_blockDeletion :: bool

type_synonym key = "string \<times> string" \<comment> \<open>namespace and name\<close>

record obj_meta =
  o_namespace :: string
  o_name :: string
  o_uid :: string
  o_resourceVersion :: string
  o_generation :: int
  o_labels :: "string \<rightharpoonup> string"
  o_annotations :: "string \<rightharpoonup> string"
  o_finalizers :: "string list"
  o_owners :: "owner_ref list"
  o_creation :: instant
  o_deletion :: "instant option"

abbreviation keyOf :: "('a) obj_meta_scheme \<Rightarrow> key" where
  "keyOf x \<equiv> (o_namespace x, o_name x)"

definition newMeta :: "string \<Rightarrow> string \<Rightarrow> obj_meta" where
  "newMeta n nm = \<lparr>o_namespace = n, o_name = nm, o_uid = [], o_resourceVersion = [],
     o_generation = 0, o_labels = Map.empty, o_annotations = Map.empty, o_finalizers = [],
     o_owners = [], o_creation = 0, o_deletion = None\<rparr>"

text \<open>\<open>Backup\<close> of the k8s-backup-lib.\<close>

record backup_status =
  conditions :: "condition list"
  startTimestamp :: instant
  completionTimestamp :: instant
  legacyStatus :: legacy_status

definition emptyBackupStatus :: backup_status where
  "emptyBackupStatus = \<lparr>conditions = [], startTimestamp = 0, completionTimestamp = 0,
     legacyStatus = OtherLegacy []\<rparr>"

record backup = obj_meta +
  b_provider :: string
  b_synced :: bool
  b_status :: backup_status

text \<open>\<open>Backup\<close>, \<open>DeleteBackupRequest\<close>, \<open>BackupStorageLocation\<close> and \<open>Restore\<close> of Velero.\<close>

datatype velero_backup_phase =
    BackupPhaseNone \<comment> \<open>the empty phase\<close>
  | BackupPhaseNew | BackupPhaseFailedValidation | BackupPhaseInProgress
  | BackupPhaseWaitingForPluginOperations | BackupPhaseWaitingForPluginOperationsPartiallyFailed
  | BackupPhaseFinalizing | BackupPhaseFinalizingPartiallyFailed
  | BackupPhaseCompleted | BackupPhasePartiallyFailed | BackupPhaseFailed
  | BackupPhaseOther string \<comment> \<open>\<open>Deleting\<close> and whatever a Velero version adds\<close>

fun backupPhaseText :: "velero_backup_phase \<Rightarrow> string" where
  "backupPhaseText BackupPhaseNone = []"
| "backupPhaseText BackupPhaseNew = ''New''"
| "backupPhaseText BackupPhaseFailedValidation = ''FailedValidation''"
| "backupPhaseText BackupPhaseInProgress = ''InProgress''"
| "backupPhaseText BackupPhaseWaitingForPluginOperations = ''WaitingForPluginOperations''"
| "backupPhaseText BackupPhaseWaitingForPluginOperationsPartiallyFailed =
     ''WaitingForPluginOperationsPartiallyFailed''"
| "backupPhaseText BackupPhaseFinalizing = ''Finalizing''"
| "backupPhaseText BackupPhaseFinalizingPartiallyFailed = ''FinalizingPartiallyFailed''"
| "backupPhaseText BackupPhaseCompleted = ''Completed''"
| "backupPhaseText BackupPhasePartiallyFailed = ''PartiallyFailed''"
| "backupPhaseText BackupPhaseFailed = ''Failed''"
| "backupPhaseText (BackupPhaseOther s) = s"

datatype label_selector = MatchLabel string string | MatchExists string

record velero_backup_spec =
  includedNamespaces :: "string list"
  includedResources :: "string list"
  orLabelSelectors :: "label_selector list"
  ttl :: duration
  storageLocation :: string
  defaultVolumesToFsBackup :: "bool option"

text \<open>\<open>vs_rest\<close> stands for the status fields the operator does not read (empty when they are zero).\<close>

record velero_backup_status =
  vs_phase :: velero_backup_phase
  vs_start :: "instant option"
  vs_completion :: "instant option"
  vs_rest :: string

definition emptyVeleroBackupStatus :: velero_backup_status where
  "emptyVeleroBackupStatus = \<lparr>vs_phase = BackupPhaseNone, vs_start = None, vs_completion = None,
     vs_rest = []\<rparr>"

record velero_backup = obj_meta +
  vb_spec :: velero_backup_spec
  vb_status :: velero_backup_status

abbreviation vb_phase :: "velero_backup \<Rightarrow> velero_backup_phase" where
  "vb_phase v \<equiv> vs_phase (vb_status v)"

record delete_request = obj_meta +
  dr_backupName :: string
  dr_phase :: string
  dr_errors :: "string list"

record storage_location = obj_meta +
  sl_phase :: string

text \<open>The phases of Velero's \<open>DeleteBackupRequest\<close> and \<open>BackupStorageLocation\<close> the code compares with.\<close>

definition DeleteBackupRequestPhaseProcessed :: string where
  "DeleteBackupRequestPhaseProcessed = ''Processed''"

definition BackupStorageLocationPhaseAvailable :: string where
  "BackupStorageLocationPhaseAvailable = ''Available''"

text \<open>Deployments, stateful sets, replica sets and replication controllers: the fields read here.\<close>

record workload = obj_meta +
  w_replicas :: "int option"
  w_observedGeneration :: int
  w_statusReplicas :: int
  w_ready :: int
  w_available :: int
  w_updated :: int
  w_unavailable :: int

record lease = obj_meta +
  l_holderIdentity :: "string option"
  l_acquireTime :: "instant option"
  l_renewTime :: "instant option"
  l_transitions :: "int option"

record config_map = obj_meta +
  cm_data :: "string \<rightharpoonup> string"

text \<open>The dogu list of a blueprint is only ever serialized; \<open>bp_dogus\<close> stands for it.\<close>

record blueprint = obj_meta +
  bp_displayName :: string
  bp_dogus :: string

text \<open>\<open>Restore\<close> of the k8s-backup-lib and of Velero.\<close>

record restore_status =
  rst_conditions :: "condition list"
  rst_legacy :: legacy_status

definition emptyRestoreStatus :: restore_status where
  "emptyRestoreStatus = \<lparr>rst_conditions = [], rst_legacy = OtherLegacy []\<rparr>"

record restore = obj_meta +
  re_backupName :: string
  re_status :: restore_status

datatype velero_restore_phase =
    RestorePhaseNone \<comment> \<open>the empty phase\<close>
  | RestorePhaseNew | RestorePhaseFailedValidation | RestorePhaseInProgress
  | RestorePhaseWaitingForPluginOperations | RestorePhaseWaitingForPluginOperationsPartiallyFailed
  | RestorePhaseFinalizing | RestorePhaseFinalizingPartiallyFailed
  | RestorePhaseCompleted | RestorePhasePartiallyFailed | RestorePhaseFailed
  | RestorePhaseOther string

fun restorePhaseText :: "velero_restore_phase \<Rightarrow> string" where
  "restorePhaseText RestorePhaseNone = []"
| "restorePhaseText RestorePhaseNew = ''New''"
| "restorePhaseText RestorePhaseFailedValidation = ''FailedValidation''"
| "restorePhaseText RestorePhaseInProgress = ''InProgress''"
| "restorePhaseText RestorePhaseWaitingForPluginOperations = ''WaitingForPluginOperations''"
| "restorePhaseText RestorePhaseWaitingForPluginOperationsPartiallyFailed =
     ''WaitingForPluginOperationsPartiallyFailed''"
| "restorePhaseText RestorePhaseFinalizing = ''Finalizing''"
| "restorePhaseText RestorePhaseFinalizingPartiallyFailed = ''FinalizingPartiallyFailed''"
| "restorePhaseText RestorePhaseCompleted = ''Completed''"
| "restorePhaseText RestorePhasePartiallyFailed = ''PartiallyFailed''"
| "restorePhaseText RestorePhaseFailed = ''Failed''"
| "restorePhaseText (RestorePhaseOther s) = s"

record velero_restore_spec =
  vsp_backupName :: string
  vsp_existingResourcePolicy :: string
  vsp_modifierGroup :: "string option"
  vsp_modifierKind :: string
  vsp_modifierName :: string

record velero_restore = obj_meta +
  vre_spec :: velero_restore_spec
  vre_phase :: velero_restore_phase

text \<open>
  What the cleanup deletes: dogus, and objects of other kinds of which only the metadata matters
  (\<open>Unstructured\<close> in Go).
\<close>

type_synonym dogu = obj_meta

record unstructured = obj_meta +
  un_kind :: string

text \<open>
  \<open>BackupSchedule\<close> of the k8s-backup-lib and the \<open>CronJob\<close> that carries it out. \<open>ss_rest\<close>, \<open>pt_rest\<close> and
  \<open>cj_rest\<close> stand for the fields the operator neither reads nor sets itself.
\<close>

record schedule_status =
  ss_conditions :: "condition list"
  ss_rest :: string

record backup_schedule = obj_meta +
  bs_schedule :: string
  bs_provider :: string
  bs_status :: schedule_status

record pod_template =
  pt_imagePullSecrets :: "string list"
  pt_rest :: string

record cron_job = obj_meta +
  cj_schedule :: string
  cj_podTemplate :: pod_template
  cj_rest :: string

datatype workload_kind = Deployment | StatefulSet | ReplicaSet | ReplicationController

section \<open>Calls and events\<close>

text \<open>The options the operator uses: the preconditions UID and resource version, or foreground propagation.\<close>

datatype delete_options = DeleteOptions "string option" "string option" | PropagationForeground

abbreviation noOptions :: delete_options where
  "noOptions \<equiv> DeleteOptions None None"

datatype 'o call =
    Get key "api_error + 'o"
  | ListIn string "string list" "api_error + 'o list"
  | Create 'o "api_error + 'o"
  | Update 'o "api_error + 'o"
  | Patch 'o 'o "api_error + 'o"
  | PatchStatus 'o 'o "api_error + 'o"
  | UpdateStatus 'o "api_error + 'o"
  | Delete 'o delete_options "api_error + unit"

text \<open>
  \<open>controllerutil.CreateOrPatch\<close>: what it answers, what it leaves in the object it was given, and (for
  the log) the object it found and the one it sent to the API, if any.
\<close>

datatype operation_result =
  OperationResultNone | OperationResultCreated | OperationResultUpdated | OtherOperation string

record sync_answer =
  sy_operation :: operation_result
  sy_error :: "err option"
  sy_object :: cron_job
  sy_found :: "cron_job option"
  sy_written :: "cron_job option"

text \<open>Calls of the controller manager (\<open>ctrl.Manager\<close>): registering controllers and checks, starting.\<close>

datatype manager_call = SetupController string | AddHealthzCheck string | AddReadyzCheck string | StartManager

datatype counter =
    BackupReconcileTotal
  | RestoreReconcileTotal
  | BackupStatusTransitionsTotal string string legacy_status
  | BackupConditionTransitionsTotal string string cond_type cond_status cond_status
  | RestoreStatusTransitionsTotal string string legacy_status string
  | RestoreConditionTransitionsTotal string string string cond_type cond_status cond_status
  | InvalidLeaseTotal string string

datatype event_type = EventTypeNormal | EventTypeWarning

datatype event =
    OnBackup "backup call"
  | OnVeleroBackup "velero_backup call"
  | OnDeleteRequest "delete_request call"
  | OnLease "lease call"
  | OnStorageLocation "storage_location call"
  | OnWorkload workload_kind "workload call"
  | OnConfigMap "config_map call"
  | OnBlueprint "blueprint call"
  | OnRestore "restore call"
  | OnVeleroRestore "velero_restore call"
  | OnDogu "dogu call"
  | OnAdditional string "unstructured call" \<comment> \<open>the resource, as \<open>secrets\<close>\<close>
  | MaintenanceStatus "api_error + bool"
  | MaintenanceActivate string string bool "api_error option"
  | MaintenanceDeactivate bool "api_error option"
  | OnSchedule "backup_schedule call"
  | OnCronJob "cron_job call"
  | SyncCronJob cron_job sync_answer
  | OnManager manager_call "err option"
  | Recorded event_type string string string \<comment> \<open>type, reason, action, note\<close>
  | MetricAdd counter nat

type_synonym ('s, 'a) prog = "('s, event, 'a) io"

text \<open>Calls that only read, and events that change nothing outside the operator.\<close>

fun readOnly :: "'o call \<Rightarrow> bool" where
  "readOnly (Get k r) = True"
| "readOnly (ListIn n ls r) = True"
| "readOnly c = False"

fun observing :: "event \<Rightarrow> bool" where
  "observing (OnBackup c) = readOnly c"
| "observing (OnVeleroBackup c) = readOnly c"
| "observing (OnDeleteRequest c) = readOnly c"
| "observing (OnLease c) = readOnly c"
| "observing (OnStorageLocation c) = readOnly c"
| "observing (OnWorkload k c) = readOnly c"
| "observing (OnConfigMap c) = readOnly c"
| "observing (OnBlueprint c) = readOnly c"
| "observing (OnRestore c) = readOnly c"
| "observing (OnVeleroRestore c) = readOnly c"
| "observing (OnDogu c) = readOnly c"
| "observing (OnAdditional k c) = readOnly c"
| "observing (MaintenanceStatus r) = True"
| "observing (MaintenanceActivate t x f r) = False"
| "observing (MaintenanceDeactivate f r) = False"
| "observing (OnSchedule c) = readOnly c"
| "observing (OnCronJob c) = readOnly c"
| "observing (SyncCronJob x a) = False"
| "observing (OnManager c r) = False"
| "observing (Recorded t r a n) = True"
| "observing (MetricAdd c n) = True"

section \<open>The outside\<close>

record ('s, 'o) resource =
  r_get :: "key \<Rightarrow> 's \<Rightarrow> (api_error + 'o) \<times> 's"
  r_list :: "string \<Rightarrow> string list \<Rightarrow> 's \<Rightarrow> (api_error + 'o list) \<times> 's"
  r_create :: "'o \<Rightarrow> 's \<Rightarrow> (api_error + 'o) \<times> 's"
  r_update :: "'o \<Rightarrow> 's \<Rightarrow> (api_error + 'o) \<times> 's"
  r_patch :: "'o \<Rightarrow> 'o \<Rightarrow> 's \<Rightarrow> (api_error + 'o) \<times> 's"
  r_patchStatus :: "'o \<Rightarrow> 'o \<Rightarrow> 's \<Rightarrow> (api_error + 'o) \<times> 's"
  r_updateStatus :: "'o \<Rightarrow> 's \<Rightarrow> (api_error + 'o) \<times> 's"
  r_delete :: "'o \<Rightarrow> delete_options \<Rightarrow> 's \<Rightarrow> (api_error + unit) \<times> 's"

record 's env =
  backups :: "('s, backup) resource"
  veleroBackups :: "('s, velero_backup) resource"
  deleteRequests :: "('s, delete_request) resource"
  leases :: "('s, lease) resource"
  storageLocations :: "('s, storage_location) resource"
  workloads :: "workload_kind \<Rightarrow> ('s, workload) resource"
  configMaps :: "('s, config_map) resource"
  blueprints :: "('s, blueprint) resource"
  restores :: "('s, restore) resource"
  veleroRestores :: "('s, velero_restore) resource"
  doguResources :: "('s, dogu) resource"
  additionalResources :: "string \<Rightarrow> ('s, unstructured) resource"
  schedules :: "('s, backup_schedule) resource"
  cronJobs :: "('s, cron_job) resource"
  \<comment> \<open>\<open>controllerutil.CreateOrPatch\<close> with its mutate function, and \<open>SetControllerReference\<close>\<close>
  createOrPatch :: "cron_job \<Rightarrow> (cron_job \<Rightarrow> err + cron_job) \<Rightarrow> 's \<Rightarrow> sync_answer \<times> 's"
  setControllerReference :: "backup_schedule \<Rightarrow> cron_job \<Rightarrow> err + owner_ref list"
  \<comment> \<open>the methods of \<open>BackupSchedule\<close>, the cron parser and the regular expression of image tags\<close>
  cronJobName :: "backup_schedule \<Rightarrow> string"
  cronJobPodTemplate :: "backup_schedule \<Rightarrow> string \<Rightarrow> string \<Rightarrow> pod_template"
  parseStandard :: "string \<Rightarrow> err option"
  imageTagMatches :: "string \<Rightarrow> err + bool"
  \<comment> \<open>the controller manager\<close>
  managerCall :: "manager_call \<Rightarrow> 's \<Rightarrow> err option \<times> 's"
  \<comment> \<open>the maintenance mode adapter of the k8s-registry-lib\<close>
  mm_getStatus :: "'s \<Rightarrow> (api_error + bool) \<times> 's"
  mm_activeOnError :: "api_error \<Rightarrow> bool" \<comment> \<open>the flag \<open>GetStatus\<close> answers together with an error\<close>
  mm_activate :: "string \<Rightarrow> string \<Rightarrow> bool \<Rightarrow> 's \<Rightarrow> api_error option \<times> 's"
  mm_deactivate :: "bool \<Rightarrow> 's \<Rightarrow> api_error option \<times> 's"
  \<comment> \<open>the clock (\<open>time.Now\<close>, \<open>metav1.NowMicro\<close>)\<close>
  clock_now :: "'s \<Rightarrow> instant \<times> 's"
  \<comment> \<open>\<open>k8s.io/apimachinery/pkg/api/meta\<close>: conditions\<close>
  findStatusCondition :: "condition list \<Rightarrow> cond_type \<Rightarrow> condition option"
  isStatusConditionTrue :: "condition list \<Rightarrow> cond_type \<Rightarrow> bool"
  setStatusConditionAt :: "condition list \<Rightarrow> condition \<Rightarrow> 's \<Rightarrow> condition list \<times> 's"
  \<comment> \<open>\<open>controllerutil\<close>: finalizers; the flag tells whether the list changed\<close>
  addFinalizer :: "string list \<Rightarrow> string \<Rightarrow> string list \<times> bool"
  removeFinalizer :: "string list \<Rightarrow> string \<Rightarrow> string list \<times> bool"
  containsFinalizer :: "string list \<Rightarrow> string \<Rightarrow> bool"
  \<comment> \<open>\<open>metav1.GetControllerOf\<close> on the owner references of an object\<close>
  getControllerOf :: "owner_ref list \<Rightarrow> owner_ref option"
  \<comment> \<open>\<open>retry.RetryOnConflict\<close>: how often \<open>retry.DefaultRetry\<close> tries again\<close>
  conflictRetries :: nat
  \<comment> \<open>string constants of the CRD libraries by their Go names, and the texts of the scalar status\<close>
  libConstant :: "string \<Rightarrow> string"
  legacyText :: "legacy_status \<Rightarrow> string"
  \<comment> \<open>\<open>ces-commons-lib\<close> and \<open>json.Marshal\<close> on the dogus of a blueprint\<close>
  isNotFoundError :: "api_error \<Rightarrow> bool"
  marshalDogus :: "string \<Rightarrow> err + string"
  \<comment> \<open>the order in which a \<^verbatim>\<open>range\<close> loop over a Go map visits the keys, see \<open>arrange\<close>\<close>
  mapOrder :: "'s \<Rightarrow> nat list \<times> 's"
  \<comment> \<open>the scheduler: which waiting goroutines poll next (up to the deadline of their context), whether
    that deadline has passed, and whether a \<^verbatim>\<open>select\<close> takes the first of two ready cases\<close>
  polls :: "'s \<Rightarrow> nat list \<times> 's"
  deadlinePassed :: "'s \<Rightarrow> bool \<times> 's"
  selectsFirst :: "'s \<Rightarrow> bool \<times> 's"

section \<open>Calls of the code\<close>

text \<open>\<open>ctrl.Result\<close> and the error of a reconciliation.\<close>

record reconcile_result =
  requeueAfter :: duration
  rerr :: "err option"

definition apiGet :: "('s, 'o) resource \<Rightarrow> ('o call \<Rightarrow> event) \<Rightarrow> key \<Rightarrow> ('s, api_error + 'o) prog" where
  "apiGet R ev k = query (r_get R k) (\<lambda>r. ev (Get k r))"

definition apiList ::
    "('s, 'o) resource \<Rightarrow> ('o call \<Rightarrow> event) \<Rightarrow> string \<Rightarrow> string list \<Rightarrow> ('s, api_error + 'o list) prog" where
  "apiList R ev n ls = query (r_list R n ls) (\<lambda>r. ev (ListIn n ls r))"

definition apiCreate :: "('s, 'o) resource \<Rightarrow> ('o call \<Rightarrow> event) \<Rightarrow> 'o \<Rightarrow> ('s, api_error + 'o) prog" where
  "apiCreate R ev x = query (r_create R x) (\<lambda>r. ev (Create x r))"

definition apiUpdate :: "('s, 'o) resource \<Rightarrow> ('o call \<Rightarrow> event) \<Rightarrow> 'o \<Rightarrow> ('s, api_error + 'o) prog" where
  "apiUpdate R ev x = query (r_update R x) (\<lambda>r. ev (Update x r))"

definition apiPatch ::
    "('s, 'o) resource \<Rightarrow> ('o call \<Rightarrow> event) \<Rightarrow> 'o \<Rightarrow> 'o \<Rightarrow> ('s, api_error + 'o) prog" where
  "apiPatch R ev old x = query (r_patch R old x) (\<lambda>r. ev (Patch old x r))"

definition apiPatchStatus ::
    "('s, 'o) resource \<Rightarrow> ('o call \<Rightarrow> event) \<Rightarrow> 'o \<Rightarrow> 'o \<Rightarrow> ('s, api_error + 'o) prog" where
  "apiPatchStatus R ev old x = query (r_patchStatus R old x) (\<lambda>r. ev (PatchStatus old x r))"

definition apiUpdateStatus ::
    "('s, 'o) resource \<Rightarrow> ('o call \<Rightarrow> event) \<Rightarrow> 'o \<Rightarrow> ('s, api_error + 'o) prog" where
  "apiUpdateStatus R ev x = query (r_updateStatus R x) (\<lambda>r. ev (UpdateStatus x r))"

definition apiDelete ::
    "('s, 'o) resource \<Rightarrow> ('o call \<Rightarrow> event) \<Rightarrow> 'o \<Rightarrow> delete_options \<Rightarrow> ('s, api_error + unit) prog" where
  "apiDelete R ev x opts = query (r_delete R x opts) (\<lambda>r. ev (Delete x opts r))"

definition now :: "'s env \<Rightarrow> ('s, instant) prog" where
  "now E = ask (clock_now E)"

definition setStatusCondition :: "'s env \<Rightarrow> condition list \<Rightarrow> condition \<Rightarrow> ('s, condition list) prog" where
  "setStatusCondition E cs c = ask (setStatusConditionAt E cs c)"

definition eventf :: "event_type \<Rightarrow> string \<Rightarrow> string \<Rightarrow> string \<Rightarrow> ('s, unit) prog" where
  "eventf t reason act note = emit (Recorded t reason act note)"

definition syncCronJob :: "'s env \<Rightarrow> cron_job \<Rightarrow> (cron_job \<Rightarrow> err + cron_job) \<Rightarrow> ('s, sync_answer) prog" where
  "syncCronJob E x mutate = query (createOrPatch E x mutate) (SyncCronJob x)"

definition callManager :: "'s env \<Rightarrow> manager_call \<Rightarrow> ('s, err option) prog" where
  "callManager E c = query (managerCall E c) (OnManager c)"

definition metricAdd :: "counter \<Rightarrow> nat \<Rightarrow> ('s, unit) prog" where
  "metricAdd c n = emit (MetricAdd c n)"

lemma outcome_apiGet [outcome_intro]: "(\<And>r. Q r [ev (Get k r)]) \<Longrightarrow> outcome (apiGet R ev k) Q"
  by (simp add: apiGet_def outcome_query)

lemma outcome_apiList [outcome_intro]:
  "(\<And>r. Q r [ev (ListIn n ls r)]) \<Longrightarrow> outcome (apiList R ev n ls) Q"
  by (simp add: apiList_def outcome_query)

lemma outcome_apiCreate [outcome_intro]:
  "(\<And>r. Q r [ev (Create x r)]) \<Longrightarrow> outcome (apiCreate R ev x) Q"
  by (simp add: apiCreate_def outcome_query)

lemma outcome_apiUpdate [outcome_intro]:
  "(\<And>r. Q r [ev (Update x r)]) \<Longrightarrow> outcome (apiUpdate R ev x) Q"
  by (simp add: apiUpdate_def outcome_query)

lemma outcome_apiPatch [outcome_intro]:
  "(\<And>r. Q r [ev (Patch b x r)]) \<Longrightarrow> outcome (apiPatch R ev b x) Q"
  by (simp add: apiPatch_def outcome_query)

lemma outcome_apiPatchStatus [outcome_intro]:
  "(\<And>r. Q r [ev (PatchStatus b x r)]) \<Longrightarrow> outcome (apiPatchStatus R ev b x) Q"
  by (simp add: apiPatchStatus_def outcome_query)

lemma outcome_apiUpdateStatus [outcome_intro]:
  "(\<And>r. Q r [ev (UpdateStatus x r)]) \<Longrightarrow> outcome (apiUpdateStatus R ev x) Q"
  by (simp add: apiUpdateStatus_def outcome_query)

lemma outcome_apiDelete [outcome_intro]:
  "(\<And>r. Q r [ev (Delete x opts r)]) \<Longrightarrow> outcome (apiDelete R ev x opts) Q"
  by (simp add: apiDelete_def outcome_query)

lemma outcome_now [outcome_intro]: "(\<And>t. Q t []) \<Longrightarrow> outcome (now E) Q"
  by (simp add: now_def outcome_ask)

lemma outcome_setStatusCondition [outcome_intro]:
  "(\<And>cs'. Q cs' []) \<Longrightarrow> outcome (setStatusCondition E cs c) Q"
  by (simp add: setStatusCondition_def outcome_ask)

lemma outcome_eventf [outcome_intro]: "Q () [Recorded t r a n] \<Longrightarrow> outcome (eventf t r a n) Q"
  by (simp add: eventf_def outcome_emit)

lemma outcome_syncCronJob [outcome_intro]:
  "(\<And>a. Q a [SyncCronJob x a]) \<Longrightarrow> outcome (syncCronJob E x f) Q"
  by (simp add: syncCronJob_def outcome_query)

lemma outcome_callManager [outcome_intro]:
  "(\<And>r. Q r [OnManager c r]) \<Longrightarrow> outcome (callManager E c) Q"
  by (simp add: callManager_def outcome_query)

lemma outcome_metricAdd [outcome_intro]: "Q () [MetricAdd c n] \<Longrightarrow> outcome (metricAdd c n) Q"
  by (simp add: metricAdd_def outcome_emit)

section \<open>Documented behaviour of the libraries\<close>

text \<open>
  \<open>meta.FindStatusCondition\<close>: the first condition of the type. \<open>meta.SetStatusCondition\<close>: an existing
  condition takes all fields of the new one, keeping its transition time unless the status differs;
  a missing one is appended.
\<close>

definition findCond :: "condition list \<Rightarrow> cond_type \<Rightarrow> condition option" where
  "findCond cs t = List.find (\<lambda>c. c_type c = t) cs"

fun upsertCond :: "instant \<Rightarrow> condition list \<Rightarrow> condition \<Rightarrow> condition list" where
  "upsertCond u [] c = [c\<lparr>c_transition := u\<rparr>]"
| "upsertCond u (d # ds) c =
     (if c_type d = c_type c
      then c\<lparr>c_transition := (if c_status d = c_status c then c_transition d else u)\<rparr> # ds
      else d # upsertCond u ds c)"

definition meta_laws :: "'s env \<Rightarrow> bool" where
  "meta_laws E \<longleftrightarrow>
     (\<forall>cs t. findStatusCondition E cs t = findCond cs t) \<and>
     (\<forall>cs t. isStatusConditionTrue E cs t \<longleftrightarrow> (\<exists>c. findCond cs t = Some c \<and> c_status c = ConditionTrue)) \<and>
     (\<forall>cs c s. \<exists>u. fst (setStatusConditionAt E cs c s) = upsertCond u cs c)"

definition finalizer_laws :: "'s env \<Rightarrow> bool" where
  "finalizer_laws E \<longleftrightarrow>
     (\<forall>fs f. containsFinalizer E fs f \<longleftrightarrow> f \<in> set fs) \<and>
     (\<forall>fs f. addFinalizer E fs f = (if f \<in> set fs then (fs, False) else (fs @ [f], True))) \<and>
     (\<forall>fs f. removeFinalizer E fs f = (filter (\<lambda>x. x \<noteq> f) fs, f \<in> set fs))"

definition controller_laws :: "'s env \<Rightarrow> bool" where
  "controller_laws E \<longleftrightarrow> (\<forall>os. getControllerOf E os = List.find ow_controller os)"

text \<open>
  \<open>CreateOrPatch\<close> applies the mutate function to the object it finds under the given name, or to the given
  object when there is none, and sends the result only when it differs. \<open>SetControllerReference\<close> makes
  the owner a controller of the object, and changes nothing when called again.
\<close>

definition createOrPatch_answer :: "cron_job \<Rightarrow> (cron_job \<Rightarrow> err + cron_job) \<Rightarrow> sync_answer \<Rightarrow> bool" where
  "createOrPatch_answer x f a \<longleftrightarrow>
     keyOf (sy_object a) = keyOf x \<and>
     (\<forall>z. sy_found a = Some z \<longrightarrow> keyOf z = keyOf x) \<and>
     (\<forall>y. sy_written a = Some y \<longrightarrow> sy_found a \<noteq> Some y \<and>
       f (case sy_found a of None \<Rightarrow> x | Some z \<Rightarrow> z) = Inr y) \<and>
     (sy_error a = None \<longrightarrow>
       (case sy_found a of
          None \<Rightarrow> sy_operation a = OperationResultCreated \<and> f x = Inr (the (sy_written a)) \<and> sy_written a \<noteq> None
        | Some z \<Rightarrow> if f z = Inr z then sy_operation a = OperationResultNone \<and> sy_written a = None
            else sy_operation a \<notin> {OperationResultNone, OperationResultCreated} \<and> sy_written a \<noteq> None))"

definition cronjob_laws :: "'s env \<Rightarrow> bool" where
  "cronjob_laws E \<longleftrightarrow> (\<forall>x f s. createOrPatch_answer x f (fst (createOrPatch E x f s)))"

definition owner_laws :: "'s env \<Rightarrow> bool" where
  "owner_laws E \<longleftrightarrow> (\<forall>s c os. setControllerReference E s c = Inr os \<longrightarrow>
     (\<exists>r \<in> set os. ow_controller r \<and> ow_uid r = o_uid s \<and> ow_name r = o_name s) \<and>
     (\<forall>c'. o_owners c' = os \<longrightarrow> keyOf c' = keyOf c \<longrightarrow> setControllerReference E s c' = Inr os))"

lemma outcome_syncCronJob_law:
  assumes "cronjob_laws E" "\<And>a. createOrPatch_answer x f a \<Longrightarrow> Q a [SyncCronJob x a]"
  shows "outcome (syncCronJob E x f) Q"
  using assms unfolding cronjob_laws_def outcome_def syncCronJob_def query_def
  by (auto split: prod.splits) (metis fst_conv)

lemma findCond_type: "findCond cs t = Some c \<Longrightarrow> c_type c = t"
  by (auto simp: findCond_def find_Some_iff)

lemma findCond_None: "findCond cs t = None \<longleftrightarrow> (\<forall>c \<in> set cs. c_type c \<noteq> t)"
  by (auto simp: findCond_def find_None_iff)

lemma findCond_Nil [simp]: "findCond [] t = None"
  by (simp add: findCond_def)

lemma findCond_upsert_same:
  "findCond (upsertCond u cs c) (c_type c) =
     Some (c\<lparr>c_transition := (case findCond cs (c_type c) of
        Some d \<Rightarrow> if c_status d = c_status c then c_transition d else u | None \<Rightarrow> u)\<rparr>)"
  by (induction cs) (auto simp: findCond_def)

lemma findCond_upsert_other [simp]:
  "t \<noteq> c_type c \<Longrightarrow> findCond (upsertCond u cs c) t = findCond cs t"
  by (induction cs) (auto simp: findCond_def)

lemma findCond_upsert:
  "findCond (upsertCond u cs c) t =
     (if t = c_type c then Some (c\<lparr>c_transition := (case findCond cs (c_type c) of
        Some d \<Rightarrow> if c_status d = c_status c then c_transition d else u | None \<Rightarrow> u)\<rparr>)
      else findCond cs t)"
  by (simp add: findCond_upsert_same)

lemma upsertCond_nonempty [simp]: "upsertCond u cs c \<noteq> []"
  by (cases cs) auto

lemma types_upsertCond:
  "map c_type (upsertCond u cs c) =
     map c_type cs @ (if findCond cs (c_type c) = None then [c_type c] else [])"
  by (induction cs) (auto simp: findCond_def)

lemma distinct_upsertCond:
  "distinct (map c_type cs) \<Longrightarrow> distinct (map c_type (upsertCond u cs c))"
  by (auto simp: types_upsertCond findCond_None)

lemma meta_find: "meta_laws E \<Longrightarrow> findStatusCondition E cs t = findCond cs t"
  by (simp add: meta_laws_def)

lemma meta_true: "meta_laws E \<Longrightarrow>
    isStatusConditionTrue E cs t \<longleftrightarrow> (\<exists>c. findCond cs t = Some c \<and> c_status c = ConditionTrue)"
  by (simp add: meta_laws_def)

lemma outcome_setStatusCondition_law:
  assumes "meta_laws E" "\<And>u. Q (upsertCond u cs c) []"
  shows "outcome (setStatusCondition E cs c) Q"
  using assms unfolding meta_laws_def outcome_def setStatusCondition_def ask_def
  by (auto split: prod.splits) (metis fst_conv)

end
