(* ===== verification/Effects.thy ===== *)
theory Effects
  imports Kube
begin

text \<open>
  What a run does to the outside, read off its log: the effect of each event, and bounds on the
  effects of a whole run.
\<close>

section \<open>Metrics\<close>

definition metricsOnly :: "event list \<Rightarrow> bool" where
  "metricsOnly ms \<longleftrightarrow> (\<forall>m \<in> set ms. \<exists>c n. m = MetricAdd c n)"

lemma metricsOnly_simps [simp]:
  "metricsOnly []" "metricsOnly (MetricAdd c n # ms) = metricsOnly ms"
  "metricsOnly (xs @ ys) \<longleftrightarrow> metricsOnly xs \<and> metricsOnly ys"
  by (auto simp: metricsOnly_def)

section \<open>Effects\<close>

text \<open>The effects a reconciliation can have on anything but metrics and recorded events.\<close>

datatype effect =
    CreatesProviderBackup | PatchesStatus | UpdatesBackup | DeletesBackup | RequestsDeletion
  | WithdrawsDeletion | ClaimsLease | ReleasesLease | MaintenanceOn | MaintenanceOff
  | CreatesProviderRestore | UpdatesRestoreStatus | UpdatesRestore | DeletesProviderRestore
  | ScalesWorkload | CleansUp | SyncsCronJob | DeletesCronJob | PatchesSchedule
  | PatchesScheduleStatus | OtherWrite | Observes

fun effectOf :: "event \<Rightarrow> effect" where
  "effectOf (OnVeleroBackup (Create v r)) = CreatesProviderBackup"
| "effectOf (OnBackup (PatchStatus b x r)) = PatchesStatus"
| "effectOf (OnBackup (Update x r)) = UpdatesBackup"
| "effectOf (OnBackup (Delete x d r)) = DeletesBackup"
| "effectOf (OnDeleteRequest (Create x r)) = RequestsDeletion"
| "effectOf (OnDeleteRequest (Delete x d r)) = WithdrawsDeletion"
| "effectOf (OnLease (Create l r)) = ClaimsLease"
| "effectOf (OnLease (Update l r)) = ClaimsLease"
| "effectOf (OnLease (Delete l d r)) = ReleasesLease"
| "effectOf (MaintenanceActivate t x f r) = MaintenanceOn"
| "effectOf (MaintenanceDeactivate f r) = MaintenanceOff"
| "effectOf (OnVeleroRestore (Create x r)) = CreatesProviderRestore"
| "effectOf (OnVeleroRestore (Delete x d r)) = DeletesProviderRestore"
| "effectOf (OnRestore (UpdateStatus x r)) = UpdatesRestoreStatus"
| "effectOf (OnRestore (Update x r)) = UpdatesRestore"
| "effectOf (OnWorkload k (Update x r)) = ScalesWorkload"
| "effectOf (OnDogu (Delete x d r)) = CleansUp"
| "effectOf (OnAdditional k (Delete x d r)) = CleansUp"
| "effectOf (SyncCronJob x a) = SyncsCronJob"
| "effectOf (OnCronJob (Delete x d r)) = DeletesCronJob"
| "effectOf (OnSchedule (Patch b x r)) = PatchesSchedule"
| "effectOf (OnSchedule (PatchStatus b x r)) = PatchesScheduleStatus"
| "effectOf e = (if observing e then Observes else OtherWrite)"

definition within :: "effect set \<Rightarrow> event list \<Rightarrow> bool" where
  "within A es \<longleftrightarrow> (\<forall>e \<in> set es. effectOf e \<noteq> Observes \<longrightarrow> effectOf e \<in> A)"

lemma within_simps [simp]:
  "within A []"
  "within A (e # es) \<longleftrightarrow> (effectOf e = Observes \<or> effectOf e \<in> A) \<and> within A es"
  "within A (xs @ ys) \<longleftrightarrow> within A xs \<and> within A ys"
  by (auto simp: within_def)

lemma within_metrics [simp]: "metricsOnly ms \<Longrightarrow> within A ms"
  by (auto simp: within_def metricsOnly_def)

lemma within_mono: "within A es \<Longrightarrow> A \<subseteq> B \<Longrightarrow> within B es"
  by (auto simp: within_def)

lemma effectOf_observing: "observing e \<Longrightarrow> effectOf e = Observes"
  by (cases e rule: effectOf.cases) auto

lemma within_observing: "\<forall>e \<in> set es. observing e \<Longrightarrow> within A es"
  by (auto simp: within_def effectOf_observing)

end
