(* ===== verification/Conditions.thy ===== *)
theory Conditions
  imports Effects
begin

text \<open>
  \<open>internal/conditions/conditions.go\<close>: which conditions a resource still lacks, whether a condition
  would change (the guard against reporting the same observation on every reconciliation), how long
  a condition has had its status, and the rendering of a wait.
\<close>

definition ReasonPending :: string where "ReasonPending = ''Pending''"

definition Missing :: "'s env \<Rightarrow> condition list \<Rightarrow> condition list \<Rightarrow> condition list" where
  "Missing E existing desired =
     filter (\<lambda>c. findStatusCondition E existing (c_type c) = None) desired"

definition WillChange :: "'s env \<Rightarrow> condition list \<Rightarrow> condition \<Rightarrow> bool" where
  "WillChange E cs desired =
     (case findStatusCondition E cs (c_type desired) of
        None \<Rightarrow> True
      | Some current \<Rightarrow> c_status current \<noteq> c_status desired \<or> c_reason current \<noteq> c_reason desired
          \<or> c_message current \<noteq> c_message desired)"

definition ElapsedInCurrentStatus :: "'s env \<Rightarrow> condition list \<Rightarrow> cond_type \<Rightarrow> instant \<Rightarrow> duration" where
  "ElapsedInCurrentStatus E cs t nw =
     (case findStatusCondition E cs t of
        None \<Rightarrow> 0
      | Some c \<Rightarrow>
          if isZero (c_transition c) then 0
          else let elapsed = timeSub nw (c_transition c) in if elapsed < 0 then 0 else elapsed)"

definition FormatWaitDuration :: "duration \<Rightarrow> string" where
  "FormatWaitDuration elapsed =
     (let minutes = goDiv elapsed minute in
      if minutes < 1 then ''less than 1m''
      else if minutes < 60 then showInt minutes @ ''m''
      else showInt (goDiv minutes 60) @ ''h'' @ showInt (minutes mod 60) @ ''m'')"

section \<open>Missing conditions\<close>

lemma Missing_set:
  assumes "meta_laws E"
  shows "c \<in> set (Missing E cs ds) \<longleftrightarrow> c \<in> set ds \<and> (\<forall>x \<in> set cs. c_type x \<noteq> c_type c)"
  by (auto simp: Missing_def meta_find [OF assms] findCond_None)

lemma Missing_complete: "meta_laws E \<Longrightarrow>
    Missing E cs ds = [] \<longleftrightarrow> (\<forall>d \<in> set ds. \<exists>c. findCond cs (c_type d) = Some c)"
  by (auto simp: Missing_def filter_empty_conv meta_find)

section \<open>Change detection\<close>

text \<open>
  \<open>WillChange\<close> is false exactly when setting the condition leaves status, reason and message of
  every condition as they are.
\<close>

definition sameReport :: "condition option \<Rightarrow> condition option \<Rightarrow> bool" where
  "sameReport x y =
     (case (x, y) of
        (None, None) \<Rightarrow> True
      | (Some c, Some d) \<Rightarrow> c_status c = c_status d \<and> c_reason c = c_reason d \<and> c_message c = c_message d
      | _ \<Rightarrow> False)"

lemma WillChange_iff:
  assumes "meta_laws E"
  shows "WillChange E cs d \<longleftrightarrow>
    \<not> (\<forall>t. sameReport (findCond cs t) (findCond (upsertCond u cs d) t))"
proof
  assume w: "WillChange E cs d"
  show "\<not> (\<forall>t. sameReport (findCond cs t) (findCond (upsertCond u cs d) t))"
  proof
    assume "\<forall>t. sameReport (findCond cs t) (findCond (upsertCond u cs d) t)"
    then have "sameReport (findCond cs (c_type d)) (findCond (upsertCond u cs d) (c_type d))" ..
    with w show False
      by (auto simp: WillChange_def meta_find [OF assms] findCond_upsert_same sameReport_def
          split: option.splits)
  qed
next
  assume n: "\<not> (\<forall>t. sameReport (findCond cs t) (findCond (upsertCond u cs d) t))"
  show "WillChange E cs d"
  proof (rule ccontr)
    assume "\<not> WillChange E cs d"
    then have "sameReport (findCond cs t) (findCond (upsertCond u cs d) t)" for t
      by (cases "t = c_type d")
        (auto simp: WillChange_def meta_find [OF assms] findCond_upsert_same sameReport_def
          split: option.splits)
    with n show False by blast
  qed
qed

section \<open>Elapsed time\<close>

lemma Elapsed_nonneg: "0 \<le> ElapsedInCurrentStatus E cs t nw"
  by (auto simp: ElapsedInCurrentStatus_def Let_def split: option.splits)

lemma Elapsed_le_max: "ElapsedInCurrentStatus E cs t nw \<le> maxInt64"
  by (auto simp: ElapsedInCurrentStatus_def Let_def timeSub_def maxInt64_def minInt64_def
      split: option.splits)

section \<open>Rendering a wait\<close>

lemma minute_pos: "0 < minute"
  by (simp add: duration_units)

lemma append_digits_cancel:
  assumes "list_all isDigit xs" "list_all isDigit ys" "\<not> isDigit c" "\<not> isDigit d"
  shows "xs @ c # us = ys @ d # vs \<longleftrightarrow> xs = ys \<and> c = d \<and> us = vs"
  using assms
proof (induction xs arbitrary: ys)
  case Nil
  then show ?case by (cases ys) auto
next
  case (Cons x xs)
  then show ?case by (cases ys) auto
qed

lemma less_than_minute_hd: "isDigit (hd (showNat n @ s))"
  using hd_showNat_digit [of n] showNat_nonempty [of n] by (cases "showNat n") auto

lemma showNat_not_less: "showNat n @ s \<noteq> ''less than 1m''"
  using less_than_minute_hd [of n s] not_isDigit_signs by (metis list.sel(1))

text \<open>The rendering as a function of whole minutes.\<close>

definition renderMinutes :: "nat \<Rightarrow> string" where
  "renderMinutes m =
     (if m < 1 then ''less than 1m''
      else if m < 60 then showNat m @ ''m''
      else showNat (m div 60) @ ''h'' @ showNat (m mod 60) @ ''m'')"

lemma FormatWaitDuration_nonneg:
  assumes "0 \<le> d"
  shows "FormatWaitDuration d = renderMinutes (nat (d div minute))"
proof -
  define m where "m = nat (d div minute)"
  have d: "d div minute = int m"
    using assms minute_pos by (simp add: m_def pos_imp_zdiv_nonneg_iff)
  have "goDiv (int m) 60 = int (m div 60)" "int m mod 60 = int (m mod 60)"
    by (simp_all add: goDiv_nonneg zdiv_int zmod_int)
  then show ?thesis
    unfolding FormatWaitDuration_def goDiv_nonneg [OF assms minute_pos] d
    by (simp add: showInt_def renderMinutes_def)
qed

lemma renderMinutes_inject [simp]: "renderMinutes m = renderMinutes n \<longleftrightarrow> m = n"
proof -
  have hm: "showNat i @ ''m'' \<noteq> showNat j @ ''h'' @ showNat k @ ''m''" for i j k
    using append_digits_cancel [OF showNat_digits showNat_digits] not_isDigit_signs by simp
  have hh: "showNat (i div 60) @ ''h'' @ showNat (i mod 60) @ ''m'' =
      showNat (j div 60) @ ''h'' @ showNat (j mod 60) @ ''m'' \<longleftrightarrow> i = j" for i j :: nat
    using append_digits_cancel [OF showNat_digits showNat_digits] not_isDigit_signs
    by simp (metis div_mult_mod_eq)
  show ?thesis
    unfolding renderMinutes_def
    using hm hm [symmetric] hh showNat_not_less showNat_not_less [symmetric]
    by (simp split: if_splits)
qed

lemma FormatWaitDuration_inject:
  assumes "0 \<le> a" "0 \<le> b"
  shows "FormatWaitDuration a = FormatWaitDuration b \<longleftrightarrow> a div minute = b div minute"
  using assms minute_pos
  by (simp add: FormatWaitDuration_nonneg pos_imp_zdiv_nonneg_iff eq_nat_nat_iff)

end
