(* ===== verification/Leases.thy ===== *)
theory Leases
  imports Conditions
begin

text \<open>
  \<open>internal/leases/manager.go\<close>: the namespace-wide lease that keeps backup and restore runs apart.
  A lease names its holder by UID, name and kind; the manager acquires a free lease, takes over a
  lease whose holder is provably gone, terminal or replaced, and releases only its own lease. The
  \<open>Resolver\<close> interface, by which the manager looks a holder up, is a record of functions; the locale
  \<open>holder_resolver\<close> states what the manager relies on.
\<close>

definition DefaultName :: string where
  "DefaultName = ''k8s-backup-operator-lease''"

definition HolderNameAnnotation :: string where
  "HolderNameAnnotation = ''k8s.cloudogu.com/backup-operator-lease-holder-name''"

definition HolderKindAnnotation :: string where
  "HolderKindAnnotation = ''k8s.cloudogu.com/lease-holder-kind''"

lemma annotation_keys [simp]:
  "HolderNameAnnotation \<noteq> HolderKindAnnotation" "HolderKindAnnotation \<noteq> HolderNameAnnotation"
  by (simp_all add: HolderNameAnnotation_def HolderKindAnnotation_def)

datatype lease_state = StateHeld | StateWaiting | StateInvalid | StateConflict | StateAcquired

record lease_result =
  lr_state :: lease_state
  lr_holder :: string

text \<open>\<open>Get\<close> may answer a nil holder without an error, hence the option.\<close>

record ('s, 'h) resolver =
  rv_kind :: string
  rv_get :: "string \<Rightarrow> string \<Rightarrow> ('s, api_error + 'h option) prog"
  rv_isTerminal :: "'h \<Rightarrow> bool"

record ('s, 'h) manager =
  m_client :: "'s env"
  m_namespace :: string
  m_name :: string
  m_resolvers :: "string \<rightharpoonup> ('s, 'h) resolver"

definition NewManager :: "'s env \<Rightarrow> string \<Rightarrow> string \<Rightarrow> ('s, 'h) resolver list \<Rightarrow> ('s, 'h) manager" where
  "NewManager E n nm rs = \<lparr>m_client = E, m_namespace = n, m_name = nm,
     m_resolvers = foldl (\<lambda>reg r. reg(rv_kind r \<mapsto> r)) Map.empty rs\<rparr>"

abbreviation leaseKey :: "('s, 'h) manager \<Rightarrow> key" where
  "leaseKey m \<equiv> (m_namespace m, m_name m)"

text \<open>Reading a missing key of a Go map gives the empty string.\<close>

definition lookupStr :: "(string \<rightharpoonup> string) \<Rightarrow> string \<Rightarrow> string" where
  "lookupStr m k = (case m k of None \<Rightarrow> [] | Some v \<Rightarrow> v)"

definition wrap32 :: "int \<Rightarrow> int" where
  "wrap32 x = (x + 2 ^ 31) mod 2 ^ 32 - 2 ^ 31"

definition HolderUID :: "'a lease_scheme \<Rightarrow> string" where
  "HolderUID l = (case l_holderIdentity l of None \<Rightarrow> [] | Some u \<Rightarrow> u)"

abbreviation holderName :: "'a lease_scheme \<Rightarrow> string" where
  "holderName l \<equiv> lookupStr (o_annotations l) HolderNameAnnotation"

abbreviation holderKind :: "'a lease_scheme \<Rightarrow> string" where
  "holderKind l \<equiv> lookupStr (o_annotations l) HolderKindAnnotation"

definition IsHolder :: "lease \<Rightarrow> 'x obj_meta_scheme \<Rightarrow> string \<Rightarrow> bool" where
  "IsHolder l h kind \<longleftrightarrow> HolderUID l = o_uid h \<and> holderName l = o_name h \<and> holderKind l = kind"

definition Claim :: "'s env \<Rightarrow> lease \<Rightarrow> 'x obj_meta_scheme \<Rightarrow> string \<Rightarrow> ('s, lease) prog" where
  "Claim E l h kind = do {
     t \<leftarrow> now E;
     return (l\<lparr>
       o_annotations := (o_annotations l)(HolderNameAnnotation \<mapsto> o_name h, HolderKindAnnotation \<mapsto> kind),
       l_holderIdentity := Some (o_uid h),
       l_acquireTime := Some t,
       l_renewTime := Some t,
       l_transitions := Some (wrap32 ((case l_transitions l of None \<Rightarrow> 0 | Some n \<Rightarrow> n) + 1))\<rparr>)
   }"

definition emptyLease :: "string \<Rightarrow> string \<Rightarrow> lease" where
  "emptyLease n nm = obj_meta.extend (newMeta n nm)
     \<lparr>l_holderIdentity = None, l_acquireTime = None, l_renewTime = None, l_transitions = None\<rparr>"

definition NewLease :: "'s env \<Rightarrow> string \<Rightarrow> string \<Rightarrow> 'x obj_meta_scheme \<Rightarrow> string \<Rightarrow> ('s, lease) prog" where
  "NewLease E n nm h kind = Claim E (emptyLease n nm) h kind"

definition leasePath :: "('s, 'h) manager \<Rightarrow> string" where
  "leasePath m = m_namespace m @ ''/'' @ m_name m"

text \<open>\<open>resolve\<close>: the holder, if it is the non-terminal object the lease identifies.\<close>

definition resolve :: "('s, 'h obj_meta_scheme) resolver \<Rightarrow> lease \<Rightarrow> string \<Rightarrow> string
    \<Rightarrow> ('s, err + 'h obj_meta_scheme option) prog" where
  "resolve r l nm uid = do {
     res \<leftarrow> rv_get r (o_namespace l) nm;
     return (case res of
       Inl e \<Rightarrow>
         if isNotFound e then Inr None
         else Inl (Wrapf (''failed to resolve holder of lease '' @ o_namespace l @ ''/'' @ o_name l) (Api e))
     | Inr None \<Rightarrow> Inr None
     | Inr (Some h) \<Rightarrow>
         if rv_isTerminal r h then Inr None
         else if o_uid h \<noteq> uid then Inr None
         else Inr (Some h))
   }"

text \<open>\<open>inspect\<close>: \<open>None\<close> for a lease that cannot be interpreted, else its active holder, if any.\<close>

definition inspect :: "('s, 'h obj_meta_scheme) manager \<Rightarrow> lease
    \<Rightarrow> ('s, err + 'h obj_meta_scheme option option) prog" where
  "inspect m l =
     (let uid = HolderUID l; nm = holderName l; kind = holderKind l in
      if uid = [] \<or> nm = [] \<or> kind = [] then return (Inr None)
      else case m_resolvers m kind of
        None \<Rightarrow> return (Inr None)
      | Some r \<Rightarrow> do {
          res \<leftarrow> resolve r l nm uid;
          return (case res of Inl e \<Rightarrow> Inl e | Inr h \<Rightarrow> Inr (Some h))
        })"

definition takeOver :: "('s, 'h) manager \<Rightarrow> lease \<Rightarrow> 'x obj_meta_scheme \<Rightarrow> string
    \<Rightarrow> ('s, err + lease_result) prog" where
  "takeOver m l h kind = do {
     l' \<leftarrow> Claim (m_client m) l h kind;
     res \<leftarrow> apiUpdate (leases (m_client m)) OnLease l';
     return (case res of
       Inl e \<Rightarrow>
         if isConflict e then Inr \<lparr>lr_state = StateConflict, lr_holder = []\<rparr>
         else Inl (Wrapf (''failed to take over stale lease '' @ leasePath m) (Api e))
     | Inr _ \<Rightarrow> Inr \<lparr>lr_state = StateAcquired, lr_holder = o_name h\<rparr>)
   }"

definition createLease :: "('s, 'h) manager \<Rightarrow> 'x obj_meta_scheme \<Rightarrow> string
    \<Rightarrow> ('s, err + lease_result) prog" where
  "createLease m h kind = do {
     l \<leftarrow> NewLease (m_client m) (m_namespace m) (m_name m) h kind;
     res \<leftarrow> apiCreate (leases (m_client m)) OnLease l;
     return (case res of
       Inl e \<Rightarrow>
         if isAlreadyExists e then Inr \<lparr>lr_state = StateConflict, lr_holder = []\<rparr>
         else Inl (Wrapf (''failed to create lease '' @ leasePath m) (Api e))
     | Inr _ \<Rightarrow> Inr \<lparr>lr_state = StateAcquired, lr_holder = o_name h\<rparr>)
   }"

definition Acquire :: "('s, 'h obj_meta_scheme) manager \<Rightarrow> 'x obj_meta_scheme \<Rightarrow> string
    \<Rightarrow> ('s, err + lease_result) prog" where
  "Acquire m h kind = do {
     got \<leftarrow> apiGet (leases (m_client m)) OnLease (leaseKey m);
     case got of
       Inl e \<Rightarrow>
         if isNotFound e then createLease m h kind
         else return (Inl (Wrapf (''failed to get lease '' @ leasePath m) (Api e)))
     | Inr l \<Rightarrow>
         if IsHolder l h kind then return (Inr \<lparr>lr_state = StateHeld, lr_holder = o_name h\<rparr>)
         else if holderKind l \<noteq> [] \<and> m_resolvers m (holderKind l) = None
         then return (Inr \<lparr>lr_state = StateWaiting, lr_holder = holderName l\<rparr>)
         else do {
           ins \<leftarrow> inspect m l;
           case ins of
             Inl e \<Rightarrow> return (Inl e)
           | Inr None \<Rightarrow> return (Inr \<lparr>lr_state = StateInvalid, lr_holder = []\<rparr>)
           | Inr (Some (Some active)) \<Rightarrow>
               return (Inr \<lparr>lr_state = StateWaiting, lr_holder = o_name active\<rparr>)
           | Inr (Some None) \<Rightarrow> takeOver m l h kind
         }
   }"

definition Holds :: "('s, 'h) manager \<Rightarrow> 'x obj_meta_scheme \<Rightarrow> string \<Rightarrow> ('s, err + bool) prog" where
  "Holds m h kind = do {
     got \<leftarrow> apiGet (leases (m_client m)) OnLease (leaseKey m);
     return (case got of
       Inl e \<Rightarrow>
         if isNotFound e then Inr False
         else Inl (Wrapf (''failed to get lease '' @ leasePath m) (Api e))
     | Inr l \<Rightarrow> Inr (IsHolder l h kind))
   }"

definition Release :: "('s, 'h) manager \<Rightarrow> 'x obj_meta_scheme \<Rightarrow> string \<Rightarrow> ('s, err + bool) prog" where
  "Release m h kind = do {
     got \<leftarrow> apiGet (leases (m_client m)) OnLease (leaseKey m);
     case got of
       Inl e \<Rightarrow>
         return (if isNotFound e then Inr False
           else Inl (Wrapf (''failed to get lease '' @ leasePath m @ '' for release'') (Api e)))
     | Inr l \<Rightarrow>
         if \<not> IsHolder l h kind then return (Inr False)
         else do {
           del \<leftarrow> apiDelete (leases (m_client m)) OnLease l
             (DeleteOptions (Some (o_uid l)) (Some (o_resourceVersion l)));
           return (case del of
             Inl e \<Rightarrow>
               if isNotFound e then Inr False
               else Inl (Wrapf (''failed to release lease '' @ leasePath m) (Api e))
           | Inr _ \<Rightarrow> Inr True)
         }
   }"

section \<open>Whom a lease names\<close>

text \<open>
  Which object a lease names as its holder, spelled out from its fields: by UID, name and kind. The
  statements about runs use this reading, so that they do not depend on the code's own comparison.
\<close>

definition namesHolder :: "lease \<Rightarrow> 'x obj_meta_scheme \<Rightarrow> string \<Rightarrow> bool" where
  "namesHolder l h kind \<longleftrightarrow>
     (o_uid h = [] \<and> l_holderIdentity l = None \<or> l_holderIdentity l = Some (o_uid h)) \<and>
     (o_name h = [] \<and> o_annotations l HolderNameAnnotation = None \<or>
        o_annotations l HolderNameAnnotation = Some (o_name h)) \<and>
     (kind = [] \<and> o_annotations l HolderKindAnnotation = None \<or>
        o_annotations l HolderKindAnnotation = Some kind)"

lemma IsHolder_names: "IsHolder l h kind \<longleftrightarrow> namesHolder l h kind"
  by (auto simp: IsHolder_def namesHolder_def HolderUID_def lookupStr_def split: option.splits)

section \<open>Claiming\<close>

text \<open>Who claims a lease is its holder; nobody with another UID, name or kind is.\<close>

definition claimed :: "lease \<Rightarrow> 'x obj_meta_scheme \<Rightarrow> string \<Rightarrow> instant \<Rightarrow> lease" where
  "claimed l h kind t = l\<lparr>
       o_annotations := (o_annotations l)(HolderNameAnnotation \<mapsto> o_name h, HolderKindAnnotation \<mapsto> kind),
       l_holderIdentity := Some (o_uid h),
       l_acquireTime := Some t,
       l_renewTime := Some t,
       l_transitions := Some (wrap32 ((case l_transitions l of None \<Rightarrow> 0 | Some n \<Rightarrow> n) + 1))\<rparr>"

lemma outcome_Claim [outcome_intro]:
  "(\<And>t. Q (claimed l h kind t) []) \<Longrightarrow> outcome (Claim E l h kind) Q"
  unfolding Claim_def claimed_def by (intro outcome_intro) simp

lemma IsHolder_claimed [simp]: "IsHolder (claimed l h kind t) h kind"
  by (simp add: IsHolder_def HolderUID_def lookupStr_def claimed_def)

lemma IsHolder_claimed_iff:
  "IsHolder (claimed l h kind t) h' kind' \<longleftrightarrow> o_uid h = o_uid h' \<and> o_name h = o_name h' \<and> kind = kind'"
  by (auto simp: IsHolder_def HolderUID_def lookupStr_def claimed_def)

lemma claimed_identity [simp]:
  "o_resourceVersion (claimed l h kind t) = o_resourceVersion l"
  "o_uid (claimed l h kind t) = o_uid l" "keyOf (claimed l h kind t) = keyOf l"
  by (simp_all add: claimed_def)

text \<open>The two writes of \<open>Acquire\<close>: one call each, of a lease the caller holds.\<close>

lemma createLease_outcome:
  "outcome (createLease m h kind) (\<lambda>res es. \<exists>l u. es = [OnLease (Create l u)] \<and> IsHolder l h kind \<and>
     (\<forall>a. res = Inr a \<longrightarrow>
        lr_state a = StateAcquired \<and> (\<exists>x. u = Inr x) \<or>
        lr_state a = StateConflict \<and> (\<exists>e. u = Inl e \<and> isAlreadyExists e)))"
  unfolding createLease_def NewLease_def
  by (auto intro!: outcome_intro split: sum.splits if_splits)

lemma takeOver_outcome:
  "outcome (takeOver m l h kind) (\<lambda>res es. \<exists>t u. es = [OnLease (Update (claimed l h kind t) u)] \<and>
     (\<forall>a. res = Inr a \<longrightarrow>
        lr_state a = StateAcquired \<and> (\<exists>x. u = Inr x) \<or>
        lr_state a = StateConflict \<and> (\<exists>e. u = Inl e \<and> isConflict e)))"
  unfolding takeOver_def
  by (auto intro!: outcome_intro split: sum.splits if_splits)

section \<open>What the manager writes\<close>

fun leaseWrite :: "event \<Rightarrow> bool" where
  "leaseWrite (OnLease (Get _ _)) = False"
| "leaseWrite (OnLease (ListIn _ _ _)) = False"
| "leaseWrite (OnLease _) = True"
| "leaseWrite _ = False"

lemma observing_no_leaseWrite: "observing e \<Longrightarrow> \<not> leaseWrite e"
  by (cases e rule: leaseWrite.cases) auto

text \<open>The interface the manager needs of a resolver: \<open>Get\<close> is one logged read.\<close>

locale holder_resolver =
  fixes r :: "('s, 'h obj_meta_scheme) resolver"
    and obs :: "string \<Rightarrow> string \<Rightarrow> api_error + 'h obj_meta_scheme option \<Rightarrow> event"
  assumes get_observes: "outcome (rv_get r n nm) (\<lambda>a es. es = [obs n nm a])"
    and obs_observes: "observing (obs n nm a)"
begin

lemma obs_reads: "\<not> leaseWrite (obs n nm a)"
  using obs_observes by (rule observing_no_leaseWrite)

text \<open>What makes the holder of a lease stale: gone, terminal, or replaced by an object of its name.\<close>

definition stale :: "lease \<Rightarrow> api_error + 'h obj_meta_scheme option \<Rightarrow> bool" where
  "stale l a = (case a of
      Inl e \<Rightarrow> isNotFound e
    | Inr None \<Rightarrow> True
    | Inr (Some h) \<Rightarrow> rv_isTerminal r h \<or> o_uid h \<noteq> HolderUID l)"

lemma resolve_outcome:
  "outcome (resolve r l nm (HolderUID l)) (\<lambda>res es. \<exists>a. es = [obs (o_namespace l) nm a] \<and>
     (res = Inr None \<longleftrightarrow> stale l a) \<and>
     (\<forall>h. res = Inr (Some h) \<longrightarrow> a = Inr (Some h) \<and> \<not> rv_isTerminal r h \<and> o_uid h = HolderUID l))"
  unfolding resolve_def
  by (rule outcome_call [OF get_observes], rule outcome_return)
    (auto simp: stale_def split: sum.splits option.splits)

text \<open>Everything \<open>Acquire\<close> does but read is to create or update the lease.\<close>

lemma resolve_observes: "outcome (resolve r l nm uid) (\<lambda>_ es. \<forall>e \<in> set es. observing e)"
  unfolding resolve_def
  by (rule outcome_call [OF get_observes], rule outcome_return) (auto simp: obs_observes)

lemma inspect_observes:
  assumes "m_resolvers m = [rv_kind r \<mapsto> r]"
  shows "outcome (inspect m l) (\<lambda>_ es. \<forall>e \<in> set es. observing e)"
  unfolding inspect_def Let_def assms
  by (auto intro!: outcome_return outcome_call [OF resolve_observes])

lemma Acquire_writes:
  assumes "m_resolvers m = [rv_kind r \<mapsto> r]"
  shows "outcome (Acquire m h kind) (\<lambda>_ es. \<forall>e \<in> set es. observing e \<or>
     (\<exists>l u. e = OnLease (Create l u) \<or> e = OnLease (Update l u)))"
proof -
  have inner: "outcome (do {
        ins \<leftarrow> inspect m l;
        case ins of
          Inl e \<Rightarrow> return (Inl e)
        | Inr None \<Rightarrow> return (Inr \<lparr>lr_state = StateInvalid, lr_holder = []\<rparr>)
        | Inr (Some (Some active)) \<Rightarrow> return (Inr \<lparr>lr_state = StateWaiting, lr_holder = o_name active\<rparr>)
        | Inr (Some None) \<Rightarrow> takeOver m l h kind })
      (\<lambda>_ es. \<forall>e \<in> set es. observing e \<or> (\<exists>l u. e = OnLease (Create l u) \<or> e = OnLease (Update l u)))" for l
    by (rule outcome_call [OF inspect_observes [OF assms]])
      (auto intro!: outcome_return outcome_mono [OF takeOver_outcome] split: sum.splits option.splits)
  show ?thesis
    unfolding Acquire_def
    by (auto intro!: outcome_bind [of "apiGet _ _ _"] outcome_apiGet outcome_return
        outcome_mono [OF createLease_outcome] outcome_mono [OF inner] split: sum.splits)
qed

lemma inspect_outcome:
  assumes "m_resolvers m = [rv_kind r \<mapsto> r]"
  shows "outcome (inspect m l) (\<lambda>ins es. (\<forall>e \<in> set es. \<not> leaseWrite e) \<and>
     (ins = Inr (Some None) \<longrightarrow> HolderUID l \<noteq> [] \<and> holderName l \<noteq> [] \<and> holderKind l = rv_kind r \<and>
        (\<exists>a. obs (o_namespace l) (holderName l) a \<in> set es \<and> stale l a)))"
  unfolding inspect_def Let_def assms
  by (auto intro!: outcome_return outcome_call [OF resolve_outcome] simp: obs_reads
      split: sum.splits if_splits option.splits)

text \<open>
  The one place a lease of somebody else is overwritten: only after this call read the lease, found
  it complete and of the manager's own kind, and observed its holder to be stale.
\<close>

lemma Acquire_takes_over_stale_only:
  assumes "m_resolvers m = [rv_kind r \<mapsto> r]"
  shows "outcome (Acquire m h kind) (\<lambda>res es. \<forall>l' u. OnLease (Update l' u) \<in> set es \<longrightarrow>
     (\<exists>l a t. OnLease (Get (leaseKey m) (Inr l)) \<in> set es \<and> l' = claimed l h kind t \<and>
        HolderUID l \<noteq> [] \<and> holderName l \<noteq> [] \<and> holderKind l = rv_kind r \<and>
        obs (o_namespace l) (holderName l) a \<in> set es \<and> stale l a))"
  unfolding Acquire_def
proof (rule outcome_bind, rule outcome_apiGet, goal_cases)
  case (1 got)
  show ?case
  proof (cases got)
    case (Inl e)
    then show ?thesis
      by (auto intro!: outcome_return outcome_mono [OF createLease_outcome])
  next
    case (Inr l)
    have "outcome (do {
        ins \<leftarrow> inspect m l;
        case ins of
          Inl e \<Rightarrow> return (Inl e)
        | Inr None \<Rightarrow> return (Inr \<lparr>lr_state = StateInvalid, lr_holder = []\<rparr>)
        | Inr (Some (Some active)) \<Rightarrow> return (Inr \<lparr>lr_state = StateWaiting, lr_holder = o_name active\<rparr>)
        | Inr (Some None) \<Rightarrow> takeOver m l h kind })
      (\<lambda>res es. \<forall>l' u. OnLease (Update l' u) \<in> set es \<longrightarrow>
         (\<exists>a t. l' = claimed l h kind t \<and>
            HolderUID l \<noteq> [] \<and> holderName l \<noteq> [] \<and> holderKind l = rv_kind r \<and>
            obs (o_namespace l) (holderName l) a \<in> set es \<and> stale l a))"
    proof (rule outcome_call [OF inspect_outcome [OF assms]], goal_cases)
      case (1 ins es)
      then have "\<And>l' u. OnLease (Update l' u) \<notin> set es" by fastforce
      with 1 show ?case
        by (auto intro!: outcome_return outcome_mono [OF takeOver_outcome]
            split: sum.splits option.splits)
    qed
    then show ?thesis
      unfolding Inr by (auto intro!: outcome_return elim!: outcome_mono) (rule exI [of _ l], force)+
  qed
qed

text \<open>What each answer of \<open>Acquire\<close> stands for.\<close>

lemma Acquire_answers:
  assumes "m_resolvers m = [rv_kind r \<mapsto> r]"
  shows "outcome (Acquire m h kind) (\<lambda>res es. \<forall>a. res = Inr a \<longrightarrow>
     (case lr_state a of
        StateHeld \<Rightarrow> (\<exists>l. es = [OnLease (Get (leaseKey m) (Inr l))] \<and> IsHolder l h kind)
      | StateAcquired \<Rightarrow>
          (\<exists>l u. IsHolder l h kind \<and> (OnLease (Create l (Inr u)) \<in> set es \<or> OnLease (Update l (Inr u)) \<in> set es))
      | StateConflict \<Rightarrow>
          (\<exists>l e. OnLease (Create l (Inl e)) \<in> set es \<and> isAlreadyExists e \<or>
                 OnLease (Update l (Inl e)) \<in> set es \<and> isConflict e)
      | _ \<Rightarrow> (\<exists>l. OnLease (Get (leaseKey m) (Inr l)) \<in> set es \<and> \<not> IsHolder l h kind) \<and>
             (\<forall>e \<in> set es. \<not> leaseWrite e)))"
  unfolding Acquire_def
proof (rule outcome_bind, rule outcome_apiGet, goal_cases)
  case (1 got)
  show ?case
  proof (cases got)
    case (Inl e)
    then show ?thesis
      by (auto intro!: outcome_return outcome_mono [OF createLease_outcome])
  next
    case (Inr l)
    show ?thesis
    proof (cases "IsHolder l h kind")
      case True
      with Inr show ?thesis by (auto intro!: outcome_return)
    next
      case held: False
      show ?thesis
      proof (cases "holderKind l \<noteq> [] \<and> m_resolvers m (holderKind l) = None")
        case True
        with Inr held show ?thesis by (auto intro!: outcome_return)
      next
        case False
        show ?thesis
          unfolding Inr sum.case if_not_P [OF held] if_not_P [OF False]
        proof (rule outcome_call [OF inspect_outcome [OF assms]], goal_cases)
          case (1 ins es)
          then show ?case using held
            by (auto intro!: outcome_return outcome_mono [OF takeOver_outcome]
                split: sum.splits option.splits)
              (metis IsHolder_claimed, blast)
        qed
      qed
    qed
  qed
qed

end

section \<open>Release and Holds\<close>

text \<open>
  \<open>Release\<close> deletes only a lease it has just read and found to be its own, guarded by the UID and the
  resource version it read; \<open>Holds\<close> only reads.
\<close>

lemma Release_deletes_own_lease:
  "outcome (Release m h kind) (\<lambda>res es.
     (\<forall>e \<in> set es. leaseWrite e \<longrightarrow> (\<exists>l u. e = OnLease (Delete l
         (DeleteOptions (Some (o_uid l)) (Some (o_resourceVersion l))) u) \<and>
         OnLease (Get (leaseKey m) (Inr l)) \<in> set es \<and> IsHolder l h kind)) \<and>
     (\<forall>b. res = Inr b \<longrightarrow>
        (\<exists>e. OnLease (Get (leaseKey m) (Inl e)) \<in> set es \<and> isNotFound e) \<or>
        (\<exists>l. OnLease (Get (leaseKey m) (Inr l)) \<in> set es \<and> \<not> IsHolder l h kind) \<or>
        (\<exists>l opts. OnLease (Delete l opts (Inr ())) \<in> set es) \<or>
        (\<exists>l opts e. OnLease (Delete l opts (Inl e)) \<in> set es \<and> isNotFound e)))"
  unfolding Release_def
  by (auto intro!: outcome_intro split: sum.splits)

lemma Holds_outcome:
  "outcome (Holds m h kind) (\<lambda>res es. \<exists>got. es = [OnLease (Get (leaseKey m) got)] \<and>
     (res = Inr True \<longleftrightarrow> (\<exists>l. got = Inr l \<and> IsHolder l h kind)))"
  unfolding Holds_def
  by (auto intro!: outcome_intro split: sum.splits)

lemma NewManager_single [simp]: "m_resolvers (NewManager E n nm [r]) = [rv_kind r \<mapsto> r]"
  "m_client (NewManager E n nm rs) = E" "m_namespace (NewManager E n nm rs) = n"
  "m_name (NewManager E n nm rs) = nm"
  by (simp_all add: NewManager_def)

end
