(* ===== verification/VeleroProvider.thy ===== *)
theory VeleroProvider
  imports Leases
begin

text \<open>
  \<open>internal/provider/velero\<close> (\<open>ready.go\<close>, \<open>sourceBackup.go\<close>, \<open>backup.go\<close>) and
  \<open>internal/annotations\<close>: whether the provider can serve requests, whether a backup can be restored,
  the Velero backup made for a backup, and the delete request that removes it.
\<close>

section \<open>Annotations\<close>

definition BlueprintIdAnnotation :: string where
  "BlueprintIdAnnotation = ''backup.cloudogu.com/blueprintId''"

definition DogusAnnotation :: string where
  "DogusAnnotation = ''backup.cloudogu.com/dogus''"

definition GetBackupAnnotations :: "'a obj_meta_scheme \<Rightarrow> (string \<rightharpoonup> string)" where
  "GetBackupAnnotations m = (o_annotations m) |` {BlueprintIdAnnotation, DogusAnnotation}"

section \<open>Readiness of the provider\<close>

definition ReasonVeleroProviderReady :: string where
  "ReasonVeleroProviderReady = ''VeleroProviderReady''"

definition ReasonVeleroBackupStorageLocationNotFound :: string where
  "ReasonVeleroBackupStorageLocationNotFound = ''VeleroBackupStorageLocationNotFound''"

definition ReasonVeleroBackupStorageLocationNotAvailable :: string where
  "ReasonVeleroBackupStorageLocationNotAvailable = ''VeleroBackupStorageLocationNotAvailable''"

definition ReasonVeleroDeploymentNotFound :: string where
  "ReasonVeleroDeploymentNotFound = ''VeleroDeploymentNotFound''"

definition ReasonVeleroDeploymentNotReady :: string where
  "ReasonVeleroDeploymentNotReady = ''VeleroDeploymentNotReady''"

lemmas readiness_reasons =
  ReasonVeleroProviderReady_def ReasonVeleroBackupStorageLocationNotFound_def
  ReasonVeleroBackupStorageLocationNotAvailable_def ReasonVeleroDeploymentNotFound_def
  ReasonVeleroDeploymentNotReady_def

record readiness =
  rd_ready :: bool
  rd_reason :: string
  rd_message :: string

definition notReady :: "string \<Rightarrow> string \<Rightarrow> readiness" where
  "notReady reason message = \<lparr>rd_ready = False, rd_reason = reason, rd_message = message\<rparr>"

definition checkDeploymentReady :: "'s env \<Rightarrow> string \<Rightarrow> string \<Rightarrow> ('s, err + readiness) prog" where
  "checkDeploymentReady E n deploymentName = do {
     got \<leftarrow> apiGet (workloads E Deployment) (OnWorkload Deployment) (n, deploymentName);
     return (case got of
       Inl e \<Rightarrow>
         if isNotFound e then Inr (notReady ReasonVeleroDeploymentNotFound
           (''The velero deployment '' @ sq (''name='' @ deploymentName) @
            '' was not found in namespace '' @ sq n @ ''.''))
         else Inl (Wrapf (''get velero deployment '' @ sq (''name='' @ deploymentName)) (Api e))
     | Inr d \<Rightarrow>
         if w_ready d < 1 then Inr (notReady ReasonVeleroDeploymentNotReady
           (''The velero deployment '' @ sq (''name='' @ deploymentName) @
            '' has no ready replica (readyReplicas: '' @ showInt (w_ready d) @ '').''))
         else Inr \<lparr>rd_ready = True, rd_reason = ReasonVeleroProviderReady,
           rd_message = ''The velero backup storage location is available and the velero deployment is ready.''\<rparr>)
   }"

definition CheckReady :: "'s env \<Rightarrow> string \<Rightarrow> string \<Rightarrow> string \<Rightarrow> ('s, err + readiness) prog" where
  "CheckReady E n storageName deploymentName = do {
     got \<leftarrow> apiGet (storageLocations E) OnStorageLocation (n, storageName);
     case got of
       Inl e \<Rightarrow>
         return (if isNotFound e then Inr (notReady ReasonVeleroBackupStorageLocationNotFound
             (''The velero backup storage location '' @ sq (''name='' @ storageName) @ '' was not found.''))
           else Inl (Wrapf (''get velero backup storage location '' @ sq (''name='' @ storageName)) (Api e)))
     | Inr l \<Rightarrow>
         if sl_phase l \<noteq> BackupStorageLocationPhaseAvailable
         then return (Inr (notReady ReasonVeleroBackupStorageLocationNotAvailable
           (''The velero backup storage location '' @ sq (''name='' @ storageName) @
            '' is not available (phase: '' @ sl_phase l @ '').'')))
         else checkDeploymentReady E n deploymentName
   }"

definition IsProviderNotReadyReason :: "string \<Rightarrow> bool" where
  "IsProviderNotReadyReason reason \<longleftrightarrow> reason \<in> {
     ReasonVeleroBackupStorageLocationNotFound, ReasonVeleroBackupStorageLocationNotAvailable,
     ReasonVeleroDeploymentNotFound, ReasonVeleroDeploymentNotReady}"

section \<open>The backup a restore replays\<close>

definition ReasonVeleroSourceBackupUsable :: string where
  "ReasonVeleroSourceBackupUsable = ''VeleroSourceBackupUsable''"

definition ReasonVeleroSourceBackupNotUsable :: string where
  "ReasonVeleroSourceBackupNotUsable = ''VeleroSourceBackupNotUsable''"

record source_backup_check =
  sb_usable :: bool
  sb_reason :: string
  sb_message :: string

definition CheckSourceBackup :: "'s env \<Rightarrow> string \<Rightarrow> string \<Rightarrow> ('s, err + source_backup_check) prog" where
  "CheckSourceBackup E n backupName = do {
     got \<leftarrow> apiGet (veleroBackups E) OnVeleroBackup (n, backupName);
     return (case got of
       Inl e \<Rightarrow>
         if isNotFound e then Inr \<lparr>sb_usable = False, sb_reason = ReasonVeleroSourceBackupNotUsable,
           sb_message = ''The velero backup '' @ sq (''name='' @ backupName) @ '' to be restored was not found.''\<rparr>
         else Inl (Wrapf (''get velero backup '' @ sq (''name='' @ backupName)) (Api e))
     | Inr b \<Rightarrow>
         if vb_phase b \<noteq> BackupPhaseCompleted \<and> vb_phase b \<noteq> BackupPhasePartiallyFailed
         then Inr \<lparr>sb_usable = False, sb_reason = ReasonVeleroSourceBackupNotUsable,
           sb_message = ''The velero backup '' @ sq (''name='' @ backupName) @
             '' cannot be restored (phase: '' @ backupPhaseText (vb_phase b) @ '').''\<rparr>
         else Inr \<lparr>sb_usable = True, sb_reason = ReasonVeleroSourceBackupUsable,
           sb_message = ''The velero backup '' @ sq (''name='' @ backupName) @
             '' can be restored (phase: '' @ backupPhaseText (vb_phase b) @ '').''\<rparr>)
   }"

section \<open>Velero backups and delete requests\<close>

definition defaultBackupTTL :: duration where
  "defaultBackupTTL = 87660 * hour"

definition CreateVeleroBackupResource :: "backup \<Rightarrow> string \<Rightarrow> (string \<rightharpoonup> string) \<Rightarrow> velero_backup" where
  "CreateVeleroBackupResource b storageName labels = obj_meta.extend
     ((newMeta (o_namespace b) (o_name b))\<lparr>
        o_labels := labels, o_annotations := GetBackupAnnotations b\<rparr>)
     \<lparr>vb_spec = \<lparr>
        includedNamespaces = [o_namespace b],
        includedResources = [''configmaps'', ''secrets'', ''persistentvolumeclaims'',
          ''persistentvolumes'', ''dogus.k8s.cloudogu.com''],
        orLabelSelectors = [MatchLabel ''k8s.cloudogu.com/type'' ''global-config'',
          MatchExists ''dogu.name'', MatchExists ''k8s.cloudogu.com/backup-scope''],
        ttl = defaultBackupTTL,
        storageLocation = storageName,
        defaultVolumesToFsBackup = Some False\<rparr>,
      vb_status = emptyVeleroBackupStatus\<rparr>"

lemma CreateVeleroBackupResource_simps [simp]:
  "keyOf (CreateVeleroBackupResource b s ls) = keyOf b"
  "o_labels (CreateVeleroBackupResource b s ls) = ls"
  "o_annotations (CreateVeleroBackupResource b s ls) = GetBackupAnnotations b"
  "storageLocation (vb_spec (CreateVeleroBackupResource b s ls)) = s"
  by (simp_all add: CreateVeleroBackupResource_def obj_meta.defs newMeta_def)

definition newDeleteRequest :: "key \<Rightarrow> delete_request" where
  "newDeleteRequest k = obj_meta.extend (newMeta (fst k) (snd k))
     \<lparr>dr_backupName = snd k, dr_phase = [], dr_errors = []\<rparr>"

text \<open>The created object is what the API server answered: \<open>Create\<close> fills the object it is given.\<close>

definition CreateVeleroDeleteBackupRequestIfNotExists ::
    "'s env \<Rightarrow> backup \<Rightarrow> ('s, err + delete_request) prog" where
  "CreateVeleroDeleteBackupRequestIfNotExists E b = do {
     got \<leftarrow> apiGet (deleteRequests E) OnDeleteRequest (keyOf b);
     case got of
       Inr r \<Rightarrow> return (Inr r)
     | Inl e \<Rightarrow>
         if isNotFound e then do {
           created \<leftarrow> apiCreate (deleteRequests E) OnDeleteRequest (newDeleteRequest (keyOf b));
           return (case created of
             Inl e' \<Rightarrow> Inl (Wrapf ''create velero delete backup request'' (Api e'))
           | Inr r \<Rightarrow> Inr r)
         }
         else return (Inl (Wrapf ''get velero delete backup request'' (Api e)))
   }"

definition DeleteVeleroDeleteBackupRequestIfExists :: "'s env \<Rightarrow> backup \<Rightarrow> ('s, err option) prog" where
  "DeleteVeleroDeleteBackupRequestIfExists E b = do {
     got \<leftarrow> apiGet (deleteRequests E) OnDeleteRequest (keyOf b);
     case got of
       Inl e \<Rightarrow>
         return (if isNotFound e then None
           else Some (Wrapf ''error getting velero delete backup request'' (Api e)))
     | Inr r \<Rightarrow> do {
         del \<leftarrow> apiDelete (deleteRequests E) OnDeleteRequest r noOptions;
         return (case del of
           Inl e \<Rightarrow>
             if isNotFound e then None
             else Some (Wrapf ''delete velero delete backup request while provider backup is running'' (Api e))
         | Inr _ \<Rightarrow> None)
       }
   }"

section \<open>What the checks report\<close>

text \<open>
  \<open>CheckReady\<close> only reads; it reports ready exactly when it saw an available storage location and a
  deployment with a ready replica, and every other report carries a reason that
  \<open>IsProviderNotReadyReason\<close> knows.
\<close>

lemma CheckReady_outcome:
  "outcome (CheckReady E n s d) (\<lambda>res es. (\<forall>e \<in> set es. observing e) \<and> (\<forall>r. res = Inr r \<longrightarrow>
     (rd_ready r \<longleftrightarrow>
        (\<exists>l w. OnStorageLocation (Get (n, s) (Inr l)) \<in> set es \<and> sl_phase l = BackupStorageLocationPhaseAvailable \<and>
               OnWorkload Deployment (Get (n, d) (Inr w)) \<in> set es \<and> 1 \<le> w_ready w)) \<and>
     (rd_ready r \<longleftrightarrow> \<not> IsProviderNotReadyReason (rd_reason r))))"
  unfolding CheckReady_def checkDeploymentReady_def notReady_def
  by (auto intro!: outcome_intro simp: IsProviderNotReadyReason_def readiness_reasons split: sum.splits if_splits)

lemma CheckSourceBackup_outcome:
  "outcome (CheckSourceBackup E n b) (\<lambda>res es. \<exists>got. es = [OnVeleroBackup (Get (n, b) got)] \<and>
     (\<forall>c. res = Inr c \<longrightarrow> (sb_usable c \<longleftrightarrow>
        (\<exists>v. got = Inr v \<and> vb_phase v \<in> {BackupPhaseCompleted, BackupPhasePartiallyFailed}))))"
  unfolding CheckSourceBackup_def
  by (auto intro!: outcome_intro split: sum.splits if_splits)

lemma CreateDeleteRequest_outcome:
  "outcome (CreateVeleroDeleteBackupRequestIfNotExists E b) (\<lambda>res es.
     \<forall>e \<in> set es. observing e \<or> (\<exists>u. e = OnDeleteRequest (Create (newDeleteRequest (keyOf b)) u)))"
  unfolding CreateVeleroDeleteBackupRequestIfNotExists_def
  by (auto intro!: outcome_intro split: sum.splits if_splits)

lemma DeleteDeleteRequest_outcome:
  "outcome (DeleteVeleroDeleteBackupRequestIfExists E b) (\<lambda>res es.
     \<forall>e \<in> set es. observing e \<or> (\<exists>r u. e = OnDeleteRequest (Delete r noOptions u)))"
  unfolding DeleteVeleroDeleteBackupRequestIfExists_def
  by (auto intro!: outcome_intro split: sum.splits if_splits)

end
