(* ===== verification/Metrics.thy ===== *)
theory Metrics
  imports Effects
begin

text \<open>
  \<open>internal/metrics/metrics.go\<close>: the counters of backups and restores, their initialization on every
  reconciliation (adding 0 creates the time series) and their increments.
\<close>

definition conditionStatuses :: "cond_status list" where
  "conditionStatuses = [ConditionUnknown, ConditionTrue, ConditionFalse]"

section \<open>The collectors\<close>

text \<open>The collectors with their names and the names of their labels, in the order they are registered.\<close>

record collector =
  co_name :: string
  co_labels :: "string list"

fun collectorOf :: "counter \<Rightarrow> collector" where
  "collectorOf BackupReconcileTotal = \<lparr>co_name = ''backup_reconcile_total'', co_labels = []\<rparr>"
| "collectorOf RestoreReconcileTotal = \<lparr>co_name = ''restore_reconcile_total'', co_labels = []\<rparr>"
| "collectorOf (BackupStatusTransitionsTotal n nm to) = \<lparr>co_name = ''backup_status_transitions_total'',
     co_labels = [''namespace'', ''name'', ''to'']\<rparr>"
| "collectorOf (BackupConditionTransitionsTotal n nm t from to) =
     \<lparr>co_name = ''backup_condition_transitions_total'',
      co_labels = [''namespace'', ''name'', ''condition'', ''from'', ''to'']\<rparr>"
| "collectorOf (RestoreStatusTransitionsTotal n nm to b) = \<lparr>co_name = ''restore_status_transitions_total'',
     co_labels = [''namespace'', ''name'', ''to'', ''backup_name'']\<rparr>"
| "collectorOf (RestoreConditionTransitionsTotal n nm b t from to) =
     \<lparr>co_name = ''restore_condition_transitions_total'',
      co_labels = [''namespace'', ''name'', ''backup_name'', ''condition'', ''from'', ''to'']\<rparr>"
| "collectorOf (InvalidLeaseTotal n nm) = \<lparr>co_name = ''backup_operator_invalid_lease_total'',
     co_labels = [''namespace'', ''name'']\<rparr>"

definition RegisterMetrics :: "string list" where
  "RegisterMetrics = [''backup_reconcile_total'', ''backup_status_transitions_total'',
     ''backup_condition_transitions_total'', ''restore_reconcile_total'', ''restore_status_transitions_total'',
     ''restore_condition_transitions_total'', ''backup_operator_invalid_lease_total'']"

text \<open>Every counter the operator writes belongs to a registered collector, and no name is registered twice.\<close>

lemma collectors_registered: "co_name (collectorOf c) \<in> set RegisterMetrics" "distinct RegisterMetrics"
  by (cases c) (simp_all add: RegisterMetrics_def)

section \<open>Backups\<close>

definition UpdateBackupReconcileTotalMetric :: "('s, unit) prog" where
  "UpdateBackupReconcileTotalMetric = metricAdd BackupReconcileTotal 1"

definition UpdateBackupStatusMetrics :: "string \<Rightarrow> string \<Rightarrow> legacy_status \<Rightarrow> ('s, unit) prog" where
  "UpdateBackupStatusMetrics n nm st = metricAdd (BackupStatusTransitionsTotal n nm st) 1"

definition InitBackupStatusMetrics :: "string \<Rightarrow> string \<Rightarrow> ('s, unit) prog" where
  "InitBackupStatusMetrics n nm = do {
     _ \<leftarrow> for_each (\<lambda>st. metricAdd (BackupStatusTransitionsTotal n nm st) 0)
       [StatusInProgress, StatusCompleted, StatusFailed, StatusDeleting];
     UpdateBackupStatusMetrics n nm StatusNew
   }"

definition InitBackupConditionTransitionMetrics :: "string \<Rightarrow> string \<Rightarrow> ('s, unit) prog" where
  "InitBackupConditionTransitionMetrics n nm = for_each
     (\<lambda>(t, from, to). metricAdd (BackupConditionTransitionsTotal n nm t from to) 0)
     [(t, from, to). t \<leftarrow> [ConditionPrepared, ConditionDeleting, ConditionCanceled, ConditionSucceeded,
        ConditionProviderSucceeded], from \<leftarrow> conditionStatuses, to \<leftarrow> conditionStatuses, from \<noteq> to]"

section \<open>Restores\<close>

definition UpdateRestoreReconcileTotalMetric :: "('s, unit) prog" where
  "UpdateRestoreReconcileTotalMetric = metricAdd RestoreReconcileTotal 1"

definition UpdateRestoreStatusMetrics ::
    "string \<Rightarrow> string \<Rightarrow> string \<Rightarrow> legacy_status \<Rightarrow> ('s, unit) prog" where
  "UpdateRestoreStatusMetrics n nm backupName st =
     metricAdd (RestoreStatusTransitionsTotal n nm st backupName) 1"

definition InitRestoreStatusMetrics :: "string \<Rightarrow> string \<Rightarrow> string \<Rightarrow> ('s, unit) prog" where
  "InitRestoreStatusMetrics n nm backupName =
     for_each (\<lambda>st. metricAdd (RestoreStatusTransitionsTotal n nm st backupName) 0)
       [StatusNew, StatusInProgress, StatusCompleted, StatusFailed, StatusDeleting]"

definition InitRestoreConditionTransitionMetrics ::
    "string \<Rightarrow> string \<Rightarrow> string \<Rightarrow> ('s, unit) prog" where
  "InitRestoreConditionTransitionMetrics n nm backupName = for_each
     (\<lambda>(t, from, to). metricAdd (RestoreConditionTransitionsTotal n nm backupName t from to) 0)
     [(t, from, to). t \<leftarrow> [ConditionSucceeded, ConditionPrepared, ConditionProviderSucceeded,
        ConditionWorkloadsRecovered], from \<leftarrow> conditionStatuses, to \<leftarrow> conditionStatuses, from \<noteq> to]"

definition UpdateRestoreConditionTransitionMetric ::
    "string \<Rightarrow> string \<Rightarrow> string \<Rightarrow> cond_type \<Rightarrow> cond_status \<Rightarrow> cond_status \<Rightarrow> ('s, unit) prog" where
  "UpdateRestoreConditionTransitionMetric n nm backupName t from to =
     metricAdd (RestoreConditionTransitionsTotal n nm backupName t from to) 1"

lemmas [run_simps] = UpdateBackupReconcileTotalMetric_def UpdateRestoreReconcileTotalMetric_def

section \<open>Leases\<close>

definition InitInvalidLeaseTotalMetric :: "string \<Rightarrow> string \<Rightarrow> ('s, unit) prog" where
  "InitInvalidLeaseTotalMetric n nm = metricAdd (InvalidLeaseTotal n nm) 0"

definition UpdateInvalidLeaseTotalMetric :: "string \<Rightarrow> string \<Rightarrow> ('s, unit) prog" where
  "UpdateInvalidLeaseTotalMetric n nm = metricAdd (InvalidLeaseTotal n nm) 1"

section \<open>Only metrics\<close>

lemma preceded_metrics:
  "metricsOnly ms \<Longrightarrow> (\<And>c n. \<not> B (MetricAdd c n)) \<Longrightarrow> preceded G B ms"
  by (intro preceded_none) (auto simp: metricsOnly_def)

lemma outcome_initMetrics:
  "outcome (InitBackupConditionTransitionMetrics n nm) (\<lambda>_ es. metricsOnly es)"
  "outcome (InitBackupStatusMetrics n nm) (\<lambda>_ es. metricsOnly es)"
  "outcome (InitInvalidLeaseTotalMetric n nm) (\<lambda>_ es. metricsOnly es)"
proof -
  show "outcome (InitBackupConditionTransitionMetrics n nm) (\<lambda>_ es. metricsOnly es)"
    unfolding InitBackupConditionTransitionMetrics_def metricsOnly_def
    by (rule outcome_for_each) (auto intro!: outcome_metricAdd)
  have "outcome (for_each (\<lambda>st. metricAdd (BackupStatusTransitionsTotal n nm st) 0)
      [StatusInProgress, StatusCompleted, StatusFailed, StatusDeleting]) (\<lambda>_ es. metricsOnly es)"
    unfolding metricsOnly_def by (rule outcome_for_each) (auto intro!: outcome_metricAdd)
  then show "outcome (InitBackupStatusMetrics n nm) (\<lambda>_ es. metricsOnly es)"
    unfolding InitBackupStatusMetrics_def UpdateBackupStatusMetrics_def
    by (rule outcome_call) (auto intro!: outcome_metricAdd)
  show "outcome (InitInvalidLeaseTotalMetric n nm) (\<lambda>_ es. metricsOnly es)"
    unfolding InitInvalidLeaseTotalMetric_def by (auto intro!: outcome_metricAdd)
qed

lemma outcome_initRestoreMetrics:
  "outcome (InitRestoreConditionTransitionMetrics n nm b) (\<lambda>_ es. metricsOnly es)"
  "outcome (InitRestoreStatusMetrics n nm b) (\<lambda>_ es. metricsOnly es)"
  unfolding InitRestoreConditionTransitionMetrics_def InitRestoreStatusMetrics_def metricsOnly_def
  by (rule outcome_for_each; auto intro!: outcome_metricAdd)+

end
