(* ===== verification/BackupStatus.thy ===== *)
theory BackupStatus
  imports VeleroProvider Metrics
begin

text \<open>
  The status of a backup (\<open>internal/controller/backup/conditions.go\<close> and \<open>conditionsUpdater.go\<close>): the
  initial conditions, the deprecated scalar status derived from the conditions, the condition
  transitions counted as metrics, and \<open>updateStatus\<close>, by which every stage persists its status.
\<close>

section \<open>Initial conditions\<close>

definition pendingMilestone :: "cond_type \<Rightarrow> condition" where
  "pendingMilestone t = newCondition t ConditionUnknown ReasonPending
     ''The backup workflow has not reached this milestone yet.''"

definition initialBackupConditions :: "condition list" where
  "initialBackupConditions = [
     pendingMilestone ConditionSucceeded,
     pendingMilestone ConditionPrepared,
     pendingMilestone ConditionProviderSucceeded,
     newCondition ConditionCanceled ConditionFalse ReasonPending ''The backup has not been canceled.'',
     newCondition ConditionDeleting ConditionFalse ReasonPending ''The backup is not being deleted.'']"

section \<open>Deriving the scalar status and the transitions\<close>

abbreviation backupConditions :: "backup \<Rightarrow> condition list" where
  "backupConditions b \<equiv> conditions (b_status b)"

definition legacyBackupStatusFor :: "'s env \<Rightarrow> backup \<Rightarrow> legacy_status" where
  "legacyBackupStatusFor E b =
     (if isStatusConditionTrue E (backupConditions b) ConditionDeleting then StatusDeleting
      else if isStatusConditionTrue E (backupConditions b) ConditionCanceled then StatusFailed
      else case findStatusCondition E (backupConditions b) ConditionSucceeded of
        Some succeeded \<Rightarrow>
          (case c_status succeeded of
             ConditionTrue \<Rightarrow> StatusCompleted
           | ConditionFalse \<Rightarrow> StatusFailed
           | _ \<Rightarrow> StatusInProgress)
      | None \<Rightarrow>
          if length (backupConditions b) > 0 then StatusInProgress
          else legacyStatus (b_status b))"

record condition_transition =
  ct_type :: cond_type
  ct_from :: cond_status
  ct_to :: cond_status

definition previousStatuses :: "condition list \<Rightarrow> (cond_type \<rightharpoonup> cond_status)" where
  "previousStatuses old = foldl (\<lambda>m c. m(c_type c \<mapsto> c_status c)) Map.empty old"

fun transitionsFrom :: "(cond_type \<rightharpoonup> cond_status) \<Rightarrow> condition list \<Rightarrow> condition_transition list" where
  "transitionsFrom prev [] = []"
| "transitionsFrom prev (c # cs) =
     (case prev (c_type c) of
        None \<Rightarrow> transitionsFrom prev cs
      | Some p \<Rightarrow>
          if p = c_status c then transitionsFrom prev cs
          else \<lparr>ct_type = c_type c, ct_from = p, ct_to = c_status c\<rparr> # transitionsFrom prev cs)"

definition determineBackupConditionTransitions ::
    "condition list \<Rightarrow> condition list \<Rightarrow> condition_transition list" where
  "determineBackupConditionTransitions old new = transitionsFrom (previousStatuses old) new"

section \<open>Persisting a status\<close>

type_synonym 's statusUpdate = "backup_status \<Rightarrow> ('s, backup_status) prog"

definition UpdateBackupConditionTransitionMetric :: "backup \<Rightarrow> condition_transition \<Rightarrow> ('s, unit) prog" where
  "UpdateBackupConditionTransitionMetric b t = metricAdd
     (BackupConditionTransitionsTotal (o_namespace b) (o_name b) (ct_type t) (ct_from t) (ct_to t)) 1"

text \<open>
  The in-memory backup keeps the new status even when the patch fails; after a successful patch it is
  the object the API server answered.
\<close>

definition updateStatus :: "'s env \<Rightarrow> backup \<Rightarrow> 's statusUpdate \<Rightarrow> ('s, err option \<times> backup) prog" where
  "updateStatus E b updateFn = do {
     st \<leftarrow> updateFn (b_status b);
     let b1 = b\<lparr>b_status := st\<rparr>;
     let b2 = b1\<lparr>b_status := (b_status b1)\<lparr>legacyStatus := legacyBackupStatusFor E b1\<rparr>\<rparr>;
     let legacyStatusChanged = (legacyStatus (b_status b) \<noteq> legacyStatus (b_status b2));
     let transitions = determineBackupConditionTransitions (backupConditions b) (backupConditions b2);
     patched \<leftarrow> apiPatchStatus (backups E) OnBackup b b2;
     case patched of
       Inl e \<Rightarrow> return (Some (Api e), b2)
     | Inr b3 \<Rightarrow> do {
         _ \<leftarrow> for_each (UpdateBackupConditionTransitionMetric b3) transitions;
         _ \<leftarrow> (if legacyStatusChanged
               then UpdateBackupStatusMetrics (o_namespace b3) (o_name b3) (legacyStatus (b_status b3))
               else return ());
         return (None, b3)
       }
   }"

text \<open>The update every stage but two uses: set one condition.\<close>

definition setCondition :: "'s env \<Rightarrow> condition \<Rightarrow> 's statusUpdate" where
  "setCondition E c st = do {
     cs \<leftarrow> setStatusCondition E (conditions st) c;
     return (st\<lparr>conditions := cs\<rparr>)
   }"

section \<open>The scalar status\<close>

text \<open>Deletion wins over cancellation, cancellation over the result.\<close>

lemma legacyBackupStatus_laws:
  assumes "meta_laws E"
  shows "legacyBackupStatusFor E b =
    (if \<exists>c. findCond (backupConditions b) ConditionDeleting = Some c \<and> c_status c = ConditionTrue
     then StatusDeleting
     else if \<exists>c. findCond (backupConditions b) ConditionCanceled = Some c \<and> c_status c = ConditionTrue
     then StatusFailed
     else case map_option c_status (findCond (backupConditions b) ConditionSucceeded) of
       Some ConditionTrue \<Rightarrow> StatusCompleted
     | Some ConditionFalse \<Rightarrow> StatusFailed
     | Some _ \<Rightarrow> StatusInProgress
     | None \<Rightarrow> if backupConditions b = [] then legacyStatus (b_status b) else StatusInProgress)"
  by (auto simp: legacyBackupStatusFor_def meta_find [OF assms] meta_true [OF assms]
      split: option.splits cond_status.splits)

section \<open>Transitions\<close>

lemma previousStatuses_eq:
  assumes "distinct (map c_type cs)"
  shows "previousStatuses cs t = map_option c_status (findCond cs t)"
  using assms
proof (induction cs rule: rev_induct)
  case Nil
  then show ?case by (simp add: previousStatuses_def)
next
  case (snoc c cs)
  have step: "previousStatuses (cs @ [c]) = (previousStatuses cs)(c_type c \<mapsto> c_status c)"
    by (simp add: previousStatuses_def)
  have find: "findCond (cs @ [c]) t =
      (case findCond cs t of Some d \<Rightarrow> Some d | None \<Rightarrow> if c_type c = t then Some c else None)"
    by (induction cs) (auto simp: findCond_def)
  have "findCond cs (c_type c) = None"
    unfolding findCond_None using snoc.prems by (simp add: image_iff) metis
  then show ?case
    using snoc by (auto simp: step find split: option.splits)
qed

lemma transitionsFrom_set:
  "tr \<in> set (transitionsFrom prev cs) \<longleftrightarrow>
     (\<exists>c \<in> set cs. ct_type tr = c_type c \<and> prev (c_type c) = Some (ct_from tr) \<and>
        ct_to tr = c_status c \<and> ct_from tr \<noteq> ct_to tr)"
  by (induction cs) (auto split: option.splits)

lemma transitions_set:
  assumes "distinct (map c_type old)" "distinct (map c_type new)"
  shows "tr \<in> set (determineBackupConditionTransitions old new) \<longleftrightarrow>
    (\<exists>c d. findCond old (ct_type tr) = Some c \<and> findCond new (ct_type tr) = Some d \<and>
       c_status c = ct_from tr \<and> c_status d = ct_to tr \<and> ct_from tr \<noteq> ct_to tr)"
proof -
  have find: "findCond new t = Some d \<longleftrightarrow> d \<in> set new \<and> c_type d = t" for t d
    using assms(2)
  proof (induction new)
    case Nil
    then show ?case by simp
  next
    case (Cons a as)
    then show ?case by (auto simp: findCond_def image_iff)
  qed
  show ?thesis
    unfolding determineBackupConditionTransitions_def transitionsFrom_set
      previousStatuses_eq [OF assms(1)] find
    by auto metis
qed

section \<open>What an update writes\<close>

fun statusWrite :: "event \<Rightarrow> bool" where
  "statusWrite (OnBackup (PatchStatus x y r)) = True"
| "statusWrite e = False"

lemma outcome_metrics:
  "outcome (for_each (UpdateBackupConditionTransitionMetric b) ts) (\<lambda>_ es. metricsOnly es)"
  unfolding metricsOnly_def
  by (rule outcome_for_each)
    (auto simp: UpdateBackupConditionTransitionMetric_def intro!: outcome_intro)

text \<open>The object a status update persists.\<close>

definition patched :: "'s env \<Rightarrow> backup \<Rightarrow> backup_status \<Rightarrow> backup" where
  "patched E b st = b\<lparr>b_status := st\<lparr>legacyStatus := legacyBackupStatusFor E (b\<lparr>b_status := st\<rparr>)\<rparr>\<rparr>"

text \<open>
  One status patch per update, from the backup as it was to the backup with the new status and the
  scalar status derived from it; everything else in the log is metrics, and metrics only follow a
  patch the API server accepted.
\<close>

lemma updateStatus_outcome:
  assumes "outcome (updateFn (b_status b)) (\<lambda>st es. es = [] \<and> P st)"
  shows "outcome (updateStatus E b updateFn) (\<lambda>(err, b') es. \<exists>st r ms.
     P st \<and> es = OnBackup (PatchStatus b (patched E b st) r) # ms \<and> metricsOnly ms \<and>
     (case r of Inl e \<Rightarrow> err = Some (Api e) \<and> b' = patched E b st \<and> ms = []
      | Inr x \<Rightarrow> err = None \<and> b' = x))"
  unfolding updateStatus_def Let_def patched_def
proof (rule outcome_call [OF assms], goal_cases)
  case (1 st es)
  show ?case
  proof (rule outcome_bind, rule outcome_apiPatchStatus, goal_cases)
    case (1 r)
    show ?case
    proof (cases r)
      case (Inl e)
      with \<open>es = [] \<and> P st\<close> show ?thesis
        by (auto intro!: outcome_return exI [of _ st] exI [of _ "[]"])
    next
      case (Inr b3)
      show ?thesis
        unfolding Inr sum.case
        by (rule outcome_call [OF outcome_metrics])
          (use \<open>es = [] \<and> P st\<close> in \<open>auto simp: UpdateBackupStatusMetrics_def intro!: outcome_intro\<close>)
    qed
  qed
qed

lemma setCondition_outcome:
  "outcome (setCondition E c st) (\<lambda>st' es. es = [] \<and> (\<exists>cs. st' = st\<lparr>conditions := cs\<rparr>))"
  unfolding setCondition_def by (auto intro!: outcome_intro)

lemma setCondition_outcome_law:
  "meta_laws E \<Longrightarrow> outcome (setCondition E c st) (\<lambda>st' es. es = [] \<and>
     (\<exists>u. st' = st\<lparr>conditions := upsertCond u (conditions st) c\<rparr>))"
  unfolding setCondition_def
  by (rule outcome_bind, rule outcome_setStatusCondition_law) (auto intro!: outcome_return)

end
