(* ===== verification/BackupBase.thy ===== *)
theory BackupBase
  imports BackupStatus
begin

text \<open>
  What the stages of the backup reconciler share (\<open>internal/controller/backup/reconciler.go\<close> and
  \<open>controller.go\<close>): the reconciler and its dependencies, the actions a stage answers, the reasons and
  actions of conditions and events, the phase predicates, and the classification of a backup.
\<close>

section \<open>Constants\<close>

definition reasonMaintenanceModesIsNotActive :: string where "reasonMaintenanceModesIsNotActive = ''MaintenanceModesIsNotActive''"
definition reasonMaintenanceModesStatusFailed :: string where "reasonMaintenanceModesStatusFailed = ''MaintenanceModesStatusFailed''"
definition reasonMaintenanceModesActivation :: string where "reasonMaintenanceModesActivation = ''MaintenanceModesActivation''"
definition reasonMaintenanceModesDeactivation :: string where "reasonMaintenanceModesDeactivation = ''MaintenanceModesDeactivation''"
definition reasonMaintenanceModesActivationFailed :: string where "reasonMaintenanceModesActivationFailed = ''MaintenanceModesActivationFailed''"
definition reasonMaintenanceModesDeactivationFailed :: string where "reasonMaintenanceModesDeactivationFailed = ''MaintenanceModesDeactivationFailed''"
definition reasonProviderBackupResourceDoesNotExist :: string where "reasonProviderBackupResourceDoesNotExist = ''ProviderBackupResourceDoesNotExist''"
definition reasonProviderBackupInProgress :: string where "reasonProviderBackupInProgress = ''ProviderBackupInProgress''"
definition reasonOtherProviderBackupInProgress :: string where "reasonOtherProviderBackupInProgress = ''OtherProviderBackupInProgress''"
definition reasonCanceledProviderBackupDeleted :: string where "reasonCanceledProviderBackupDeleted = ''CanceledProviderBackupDeleted''"
definition reasonProviderBackupFailed :: string where "reasonProviderBackupFailed = ''ProviderBackupFailed''"
definition reasonProviderBackupDeletionFailed :: string where "reasonProviderBackupDeletionFailed = ''ProviderBackupDeletionFailed''"
definition reasonProviderBackupDeletionRetried :: string where "reasonProviderBackupDeletionRetried = ''ProviderBackupDeletionRetried''"
definition reasonProviderBackupDeletion :: string where "reasonProviderBackupDeletion = ''ProviderBackupDeletion''"
definition reasonWaitingForProviderBackupCompletion :: string where "reasonWaitingForProviderBackupCompletion = ''WaitingForProviderBackupCompletion''"
definition reasonProviderBackupSucceeded :: string where "reasonProviderBackupSucceeded = ''ProviderBackupSucceeded''"
definition reasonBackupStarted :: string where "reasonBackupStarted = ''BackupStarted''"
definition reasonBackupDeleting :: string where "reasonBackupDeleting = ''BackupDeleting''"
definition reasonBackupSucceeded :: string where "reasonBackupSucceeded = ''BackupSucceeded''"
definition reasonBackupCanceled :: string where "reasonBackupCanceled = ''BackupCanceled''"
definition reasonBackupDeletingFailed :: string where "reasonBackupDeletingFailed = ''BackupDeletingFaile''"
definition reasonBackupNotDeleting :: string where "reasonBackupNotDeleting = ''BackupNotDeleting''"
definition reasonTimeWindowNotExpired :: string where "reasonTimeWindowNotExpired = ''TimeWindowNotExpired''"
definition reasonTimeWindowExpiredBackupNotStarted :: string where "reasonTimeWindowExpiredBackupNotStarted = ''TimeWindowExpiredBackupNotStarted''"
definition reasonTimeWindowExpiredBackupInProgress :: string where "reasonTimeWindowExpiredBackupInProgress = ''TimeWindowExpiredBackupInProgress''"
definition reasonTimeWindowExpiredProviderBackupMissing :: string where "reasonTimeWindowExpiredProviderBackupMissing = ''TimeWindowExpiredProviderBackupMissing''"
definition reasonTimeWindowExpiredBackupTerminated :: string where "reasonTimeWindowExpiredBackupTerminated = ''TimeWindowExpiredBackupTerminated''"
definition reasonVeleroStatusSynced :: string where "reasonVeleroStatusSynced = ''VeleroStatusSynced''"
definition reasonVeleroBackupRunning :: string where "reasonVeleroBackupRunning = ''VeleroBackupRunning''"
definition reasonVeleroBackupFailed :: string where "reasonVeleroBackupFailed = ''VeleroBackupFailed''"
definition reasonBackupLeaseAquired :: string where "reasonBackupLeaseAquired = ''BackupLeaseAquired''"
definition reasonBackupLeaseFailed :: string where "reasonBackupLeaseFailed = ''BackupLeaseFailed''"
definition actionStartBackup :: string where "actionStartBackup = ''StartBackup''"
definition actionCancelBackup :: string where "actionCancelBackup = ''CancelBackup''"
definition actionCompleteBackup :: string where "actionCompleteBackup = ''CompleteBackup''"
definition actionDeleteBackup :: string where "actionDeleteBackup = ''DeleteBackup''"
definition actionAcquireBackupLease :: string where "actionAcquireBackupLease = ''AcquireBackupLease''"
definition actionReleaseBackupLease :: string where "actionReleaseBackupLease = ''ReleaseBackupLease''"
definition actionDeleteProviderBackup :: string where "actionDeleteProviderBackup = ''DeleteProviderBackup''"
definition actionCreateProviderBackup :: string where "actionCreateProviderBackup = ''CreateProviderBackup''"
definition actionCompleteProviderBackup :: string where "actionCompleteProviderBackup = ''CompleteProviderBackup''"
definition actionCheckProviderReadiness :: string where "actionCheckProviderReadiness = ''CheckProviderReadiness''"
definition actionActivateMaintenanceMode :: string where "actionActivateMaintenanceMode = ''ActivateMaintenanceMode''"
definition actionDeactivateMaintenanceMode :: string where "actionDeactivateMaintenanceMode = ''DeactivateMaintenanceMode''"

definition maintenanceModeTitle :: string where
  "maintenanceModeTitle = ''Service temporary unavailable''"

definition maintenanceModeText :: string where
  "maintenanceModeText = ''Backup in progress''"

definition backupConfigMapName :: string where
  "backupConfigMapName = ''k8s-backup-operator-backup-config''"

definition backupRetryTimeLimitKey :: string where
  "backupRetryTimeLimitKey = ''retryTimeLimit''"

text \<open>A constant of the k8s-backup-lib, by its Go name.\<close>

abbreviation BackupFinalizer :: "'s env \<Rightarrow> string" where
  "BackupFinalizer E \<equiv> libConstant E ''backupv1.BackupFinalizer''"

definition defaultLabels :: "(string \<times> string) list" where
  "defaultLabels = [(''app'', ''ces''), (''k8s.cloudogu.com/part-of'', ''backup'')]"

definition veleroBackupIsRunningPhases :: "velero_backup_phase list" where
  "veleroBackupIsRunningPhases = [BackupPhaseNew, BackupPhaseInProgress, BackupPhaseFinalizing,
     BackupPhaseFinalizingPartiallyFailed, BackupPhaseWaitingForPluginOperations,
     BackupPhaseWaitingForPluginOperationsPartiallyFailed]"

definition veleroBackupFailedPhases :: "velero_backup_phase list" where
  "veleroBackupFailedPhases =
     [BackupPhaseFailedValidation, BackupPhasePartiallyFailed, BackupPhaseFailed]"

section \<open>The reconciler and its stages\<close>

datatype action = Next | Retry | Abort

record 's defaultReconciler =
  client :: "'s env"
  backupStorageName :: string
  providerDeploymentName :: string

definition NewReconciler :: "'s env \<Rightarrow> string \<Rightarrow> string \<Rightarrow> 's defaultReconciler" where
  "NewReconciler E storageName deploymentName = \<lparr>client = E, backupStorageName = storageName,
     providerDeploymentName = deploymentName\<rparr>"

text \<open>
  A stage gets the backup and answers an action, an error and the backup as the stage left it (in Go
  the backup is a pointer the stages share).
\<close>

type_synonym stage_result = "action \<times> err option \<times> backup"
type_synonym 's stage = "backup \<Rightarrow> ('s, stage_result) prog"

definition patchStatus :: "'s defaultReconciler \<Rightarrow> backup \<Rightarrow> 's statusUpdate
    \<Rightarrow> ('s, err option \<times> backup) prog" where
  "patchStatus c b f = updateStatus (client c) b f"

definition getProviderBackup :: "'s defaultReconciler \<Rightarrow> key \<Rightarrow> ('s, err + velero_backup option) prog" where
  "getProviderBackup c k = do {
     got \<leftarrow> apiGet (veleroBackups (client c)) OnVeleroBackup k;
     return (case got of
       Inl e \<Rightarrow> if isNotFound e then Inr None else Inl (Api e)
     | Inr v \<Rightarrow> Inr (Some v))
   }"

definition isProviderBackupInProgress :: "velero_backup \<Rightarrow> bool" where
  "isProviderBackupInProgress v \<longleftrightarrow> vb_phase v \<in> set veleroBackupIsRunningPhases"

definition hasProviderBackupFailed :: "velero_backup \<Rightarrow> bool" where
  "hasProviderBackupFailed v \<longleftrightarrow> vb_phase v \<in> set veleroBackupFailedPhases"

definition hasProviderBackupSucceeded :: "velero_backup \<Rightarrow> bool" where
  "hasProviderBackupSucceeded v \<longleftrightarrow> vb_phase v = BackupPhaseCompleted"

definition hasBackupSucceededOrFailed :: "condition option \<Rightarrow> bool" where
  "hasBackupSucceededOrFailed c =
     (case c of None \<Rightarrow> False | Some x \<Rightarrow> c_status x = ConditionTrue \<or> c_status x = ConditionFalse)"

definition isPostProcessing :: "'s env \<Rightarrow> backup \<Rightarrow> bool" where
  "isPostProcessing E b =
     (if hasBackupSucceededOrFailed (findStatusCondition E (backupConditions b) ConditionProviderSucceeded)
      then True
      else isStatusConditionTrue E (backupConditions b) ConditionCanceled)"

section \<open>The phases\<close>

text \<open>The three phase predicates exclude each other; what is left is the empty phase and unknown ones.\<close>

lemma phase_predicates_disjoint:
  "\<not> (isProviderBackupInProgress v \<and> hasProviderBackupFailed v)"
  "\<not> (isProviderBackupInProgress v \<and> hasProviderBackupSucceeded v)"
  "\<not> (hasProviderBackupFailed v \<and> hasProviderBackupSucceeded v)"
  by (auto simp: isProviderBackupInProgress_def hasProviderBackupFailed_def
      hasProviderBackupSucceeded_def veleroBackupIsRunningPhases_def veleroBackupFailedPhases_def)

lemma getProviderBackup_outcome:
  "outcome (getProviderBackup c k) (\<lambda>res es. \<exists>got. es = [OnVeleroBackup (Get k got)] \<and>
     (res = Inr None \<longleftrightarrow> (\<exists>e. got = Inl e \<and> isNotFound e)) \<and>
     (\<forall>v. res = Inr (Some v) \<longleftrightarrow> got = Inr v))"
  unfolding getProviderBackup_def by (auto intro!: outcome_intro split: sum.splits)

end
