(* ===== verification/BackupLease.thy ===== *)
theory BackupLease
  imports BackupBase
begin

text \<open>
  \<open>internal/controller/backup/backupLease.go\<close>: the lease stages of the backup reconciler and the
  resolver for holders of kind \<open>Backup\<close>, which interprets the interface \<open>holder_resolver\<close> of the
  lease manager.
\<close>

definition backupLeaseHolderKind :: string where
  "backupLeaseHolderKind = ''Backup''"

definition backupIsTerminal :: "'s env \<Rightarrow> backup \<Rightarrow> bool" where
  "backupIsTerminal E b =
     hasBackupSucceededOrFailed (findStatusCondition E (backupConditions b) ConditionSucceeded)"

definition backupHolderResolver :: "'s env \<Rightarrow> ('s, backup) resolver" where
  "backupHolderResolver E = \<lparr>
     rv_kind = backupLeaseHolderKind,
     rv_get = (\<lambda>n nm. do {
       got \<leftarrow> apiGet (backups E) OnBackup (n, nm);
       return (case got of Inl e \<Rightarrow> Inl e | Inr b \<Rightarrow> Inr (Some b))
     }),
     rv_isTerminal = backupIsTerminal E\<rparr>"

definition backupLeaseManager :: "'s defaultReconciler \<Rightarrow> backup \<Rightarrow> ('s, backup) manager" where
  "backupLeaseManager c b =
     NewManager (client c) (o_namespace b) DefaultName [backupHolderResolver (client c)]"

definition backupLeaseAction :: "'s defaultReconciler \<Rightarrow> backup \<Rightarrow> err + lease_result \<Rightarrow> ('s, stage_result) prog" where
  "backupLeaseAction c b res = (case res of
     Inl e \<Rightarrow> return (Abort, Some (Wrapf (''acquire backup lease for backup '' @ o_name b) e), b)
   | Inr r \<Rightarrow> (case lr_state r of
       StateHeld \<Rightarrow> return (Next, None, b)
     | StateAcquired \<Rightarrow> do {
         _ \<leftarrow> eventf EventTypeNormal reasonBackupStarted actionStartBackup ''The backup has started'';
         return (Retry, None, b)
       }
     | StateConflict \<Rightarrow> return (Retry, None, b)
     | StateWaiting \<Rightarrow> return (Retry, None, b)
     | StateInvalid \<Rightarrow> do {
         _ \<leftarrow> metricAdd (InvalidLeaseTotal (o_namespace b) (o_name b)) 1;
         _ \<leftarrow> eventf EventTypeWarning reasonBackupLeaseFailed actionAcquireBackupLease
               ''Acquiring the backup lease failed'';
         return (Abort, Some (Errorf (''backup '' @ o_name b @ '' is blocked by invalid lease '' @
           o_namespace b @ ''/'' @ DefaultName @ '' without a resolvable holder'')), b)
       }))"

definition ensureActiveBackupLease :: "'s defaultReconciler \<Rightarrow> 's stage" where
  "ensureActiveBackupLease c b = do {
     res \<leftarrow> Acquire (backupLeaseManager c b) b backupLeaseHolderKind;
     backupLeaseAction c b res
   }"

definition holdsBackupLease :: "'s defaultReconciler \<Rightarrow> backup \<Rightarrow> ('s, err + bool) prog" where
  "holdsBackupLease c b = do {
     res \<leftarrow> Holds (backupLeaseManager c b) b backupLeaseHolderKind;
     return (case res of
       Inl e \<Rightarrow> Inl (Wrapf (''check backup lease ownership for backup '' @ o_name b) e)
     | Inr h \<Rightarrow> Inr h)
   }"

definition ensureBackupLeaseReleased :: "'s defaultReconciler \<Rightarrow> 's stage" where
  "ensureBackupLeaseReleased c b =
     (if \<not> isPostProcessing (client c) b \<and> isZeroPtr (o_deletion b) then return (Retry, None, b)
      else do {
        res \<leftarrow> Release (backupLeaseManager c b) b backupLeaseHolderKind;
        case res of
          Inl e \<Rightarrow> do {
            _ \<leftarrow> eventf EventTypeWarning reasonBackupLeaseFailed actionReleaseBackupLease
                  ''Releasing the backup lease failed'';
            return (Abort, Some (Wrapf (''release backup lease for backup '' @ o_name b) e), b)
          }
        | Inr released \<Rightarrow> return (Next, None, b)
      })"

text \<open>How a finished run ended, as the log line reports it.\<close>

definition backupRunOutcome :: "'s env \<Rightarrow> backup \<Rightarrow> string" where
  "backupRunOutcome E b =
     (if isStatusConditionTrue E (backupConditions b) ConditionCanceled then ''canceled''
      else case findStatusCondition E (backupConditions b) ConditionSucceeded of
        None \<Rightarrow> ''unknown''
      | Some s \<Rightarrow>
          (case c_status s of ConditionTrue \<Rightarrow> ''succeeded'' | ConditionFalse \<Rightarrow> ''failed'' | _ \<Rightarrow> ''unknown''))"

section \<open>The resolver interface on the backup resolver\<close>

definition backupObserved :: "string \<Rightarrow> string \<Rightarrow> api_error + backup option \<Rightarrow> event" where
  "backupObserved n nm a = OnBackup (Get (n, nm)
     (case a of Inl e \<Rightarrow> Inl e | Inr None \<Rightarrow> Inl (ApiError NotFound []) | Inr (Some b) \<Rightarrow> Inr b))"

interpretation backup_holder: holder_resolver "backupHolderResolver E" backupObserved for E
  by unfold_locales
    (auto simp: backupHolderResolver_def backupObserved_def intro!: outcome_intro split: sum.splits)

lemma backupHolderResolver_simps [simp]:
  "rv_kind (backupHolderResolver E) = backupLeaseHolderKind"
  "rv_isTerminal (backupHolderResolver E) = backupIsTerminal E"
  by (simp_all add: backupHolderResolver_def)

lemma backupLeaseManager_resolvers [simp]:
  "m_resolvers (backupLeaseManager c b) = [backupLeaseHolderKind \<mapsto> backupHolderResolver (client c)]"
  "leaseKey (backupLeaseManager c b) = (o_namespace b, DefaultName)"
  by (simp_all add: backupLeaseManager_def)

section \<open>What the lease stages do\<close>

abbreviation leaseKeyOf :: "backup \<Rightarrow> key" where
  "leaseKeyOf b \<equiv> (o_namespace b, DefaultName)"

text \<open>The observation that a backup holds the lease, and the observation that it does not.\<close>

definition sawOwnLease :: "backup \<Rightarrow> event \<Rightarrow> bool" where
  "sawOwnLease b e \<longleftrightarrow>
     (\<exists>l. e = OnLease (Get (leaseKeyOf b) (Inr l)) \<and> IsHolder l b backupLeaseHolderKind)"

lemmas backup_acquire_answers = backup_holder.Acquire_answers [of "backupLeaseManager c b" "client c" for c b,
  simplified]

lemmas backup_takes_over_stale_only =
  backup_holder.Acquire_takes_over_stale_only [of "backupLeaseManager c b" "client c" for c b, simplified]

lemma holdsBackupLease_outcome:
  "outcome (holdsBackupLease c b) (\<lambda>res es. \<exists>got. es = [OnLease (Get (leaseKeyOf b) got)] \<and>
     (res = Inr True \<longleftrightarrow> (\<exists>l. got = Inr l \<and> IsHolder l b backupLeaseHolderKind)))"
  unfolding holdsBackupLease_def
  by (rule outcome_call [OF Holds_outcome]) (auto intro!: outcome_return split: sum.splits)

text \<open>
  \<open>ensureActiveBackupLease\<close> lets the workflow go on only when the lease was read in this call and found
  held; every other answer stops the reconciliation, with an error exactly when it aborts.
\<close>

lemma ensureActiveBackupLease_outcome:
  "outcome (ensureActiveBackupLease c b) (\<lambda>(act, err, b') es. b' = b \<and>
     (act = Next \<longrightarrow> (\<exists>e \<in> set es. sawOwnLease b e)) \<and> (err \<noteq> None \<longleftrightarrow> act = Abort))"
  unfolding ensureActiveBackupLease_def
proof (rule outcome_call [OF backup_acquire_answers], goal_cases)
  case (1 res es)
  then show ?case
    unfolding backupLeaseAction_def
    by (auto intro!: outcome_intro simp: sawOwnLease_def split: sum.splits lease_state.splits)
qed

text \<open>
  \<open>ensureBackupLeaseReleased\<close> deletes no lease but the one it read and found its own, and lets the
  workflow go on only after it saw that the backup holds no lease any more.
\<close>

definition sawLeaseGone :: "backup \<Rightarrow> event \<Rightarrow> bool" where
  "sawLeaseGone b e \<longleftrightarrow>
     (\<exists>x. e = OnLease (Get (leaseKeyOf b) (Inl x)) \<and> isNotFound x) \<or>
     (\<exists>l. e = OnLease (Get (leaseKeyOf b) (Inr l)) \<and> \<not> IsHolder l b backupLeaseHolderKind) \<or>
     (\<exists>l opts. e = OnLease (Delete l opts (Inr ()))) \<or>
     (\<exists>l opts x. e = OnLease (Delete l opts (Inl x)) \<and> isNotFound x)"

lemmas backup_release = Release_deletes_own_lease
  [of "backupLeaseManager c b" b backupLeaseHolderKind for c b, simplified]

lemma ensureBackupLeaseReleased_outcome:
  "outcome (ensureBackupLeaseReleased c b) (\<lambda>(act, err, b') es. b' = b \<and>
     (act = Next \<longrightarrow> (\<exists>e \<in> set es. sawLeaseGone b e)) \<and> (err \<noteq> None \<longleftrightarrow> act = Abort) \<and>
     (\<forall>e \<in> set es. leaseWrite e \<longrightarrow> (\<exists>l u. e = OnLease (Delete l
        (DeleteOptions (Some (o_uid l)) (Some (o_resourceVersion l))) u) \<and>
        sawOwnLease b (OnLease (Get (leaseKeyOf b) (Inr l))) \<and>
        OnLease (Get (leaseKeyOf b) (Inr l)) \<in> set es)))"
proof (cases "\<not> isPostProcessing (client c) b \<and> isZeroPtr (o_deletion b)")
  case True
  then show ?thesis
    unfolding ensureBackupLeaseReleased_def by (auto intro!: outcome_return)
next
  case False
  show ?thesis
    unfolding ensureBackupLeaseReleased_def if_not_P [OF False]
  proof (rule outcome_call [OF backup_release], goal_cases)
    case (1 res es)
    then show ?case
      by (auto intro!: outcome_intro simp: sawLeaseGone_def sawOwnLease_def split: sum.splits) blast+
  qed
qed

end
