(* ===== verification/BackupDeletion.thy ===== *)
theory BackupDeletion
  imports BackupLease
begin

text \<open>
  The deletion stages of the backup reconciler (\<open>internal/controller/backup/reconciler.go\<close>): removing
  the provider backup of a deleted backup before its finalizer goes, removing a backup whose provider
  backup has disappeared, and removing the provider backup a canceled run left behind.
\<close>

section \<open>The two ways of deleting\<close>

datatype deletionScope = scopeBackupAndProviderBackup | scopeProviderBackupOnly

fun getDeletingCondition :: "deletionScope \<Rightarrow> string \<Rightarrow> string \<Rightarrow> condition" where
  "getDeletingCondition s reason message = newCondition ConditionDeleting
     (if s = scopeProviderBackupOnly then ConditionFalse else ConditionTrue) reason message"

fun getWaitAnchor :: "deletionScope \<Rightarrow> cond_type" where
  "getWaitAnchor s = (if s = scopeProviderBackupOnly then ConditionCanceled else ConditionDeleting)"

fun getDeletionSubject :: "deletionScope \<Rightarrow> string" where
  "getDeletionSubject s =
     (if s = scopeProviderBackupOnly then ''Provider backup of canceled backup is deleting''
      else ''Backup is deleting'')"

fun joinWith :: "string \<Rightarrow> string list \<Rightarrow> string" where
  "joinWith sep [] = []"
| "joinWith sep [x] = x"
| "joinWith sep (x # y # ys) = x @ sep @ joinWith sep (y # ys)"

definition formatProviderErrors :: "string list \<Rightarrow> string" where
  "formatProviderErrors errs = (if errs = [] then ''none reported'' else joinWith ''; '' errs)"

section \<open>Deleting the provider backup\<close>

definition finalizeProviderBackupDeletion :: "'s defaultReconciler \<Rightarrow> 's stage" where
  "finalizeProviderBackupDeletion c b = do {
     let b1 = b\<lparr>o_finalizers := fst (removeFinalizer (client c) (o_finalizers b) (BackupFinalizer (client c)))\<rparr>;
     upd \<leftarrow> apiUpdate (backups (client c)) OnBackup b1;
     case upd of
       Inl e \<Rightarrow> do {
         _ \<leftarrow> eventf EventTypeWarning reasonBackupDeletingFailed actionDeleteBackup
               ''Failed to remove backup finalizer'';
         return (Abort, Some (Wrapf ''update backup after removing finalizer'' (Api e)), b1)
       }
     | Inr b2 \<Rightarrow> do {
         _ \<leftarrow> eventf EventTypeNormal reasonBackupDeleting actionDeleteBackup
               ''Removed finalizer - deletion completed'';
         return (Abort, None, b2)
       }
   }"

definition waitForProviderBackupBeforeDeletion ::
    "'s defaultReconciler \<Rightarrow> backup \<Rightarrow> velero_backup \<Rightarrow> deletionScope \<Rightarrow> ('s, stage_result) prog" where
  "waitForProviderBackupBeforeDeletion c b pb scope = do {
     del \<leftarrow> DeleteVeleroDeleteBackupRequestIfExists (client c) b;
     case del of
       Some e \<Rightarrow> return (Abort, Some e, b)
     | None \<Rightarrow> do {
         let deleting = getDeletingCondition scope reasonWaitingForProviderBackupCompletion
           (''Waiting for the provider backup to complete before deleting it (phase: '' @
            backupPhaseText (vb_phase pb) @ '')'');
         (perr, b1) \<leftarrow> patchStatus c b (setCondition (client c) deleting);
         case perr of
           Some e \<Rightarrow> return (Abort, Some (Wrapf
             ''patch conditions while waiting for provider backup completion'' e), b1)
         | None \<Rightarrow> do {
             _ \<leftarrow> eventf EventTypeNormal reasonProviderBackupDeletion actionDeleteProviderBackup
                   ''Waiting for the provider backup to complete'';
             return (Retry, None, b1)
           }
       }
   }"

definition retryProviderBackupDeletionRequest ::
    "'s defaultReconciler \<Rightarrow> backup \<Rightarrow> delete_request \<Rightarrow> deletionScope \<Rightarrow> ('s, stage_result) prog" where
  "retryProviderBackupDeletionRequest c b req scope = do {
     del \<leftarrow> DeleteVeleroDeleteBackupRequestIfExists (client c) b;
     case del of
       Some e \<Rightarrow> do {
         _ \<leftarrow> eventf EventTypeWarning reasonProviderBackupDeletionFailed actionDeleteProviderBackup
               ''Failed to delete the processed provider delete request'';
         return (Abort, Some e, b)
       }
     | None \<Rightarrow> do {
         let deleting = getDeletingCondition scope reasonProviderBackupDeletionRetried
           (''The provider processed the deletion request without deleting the backup (provider errors: '' @
            formatProviderErrors (dr_errors req) @ '')'');
         let report = WillChange (client c) (backupConditions b) deleting;
         (perr, b1) \<leftarrow> patchStatus c b (setCondition (client c) deleting);
         case perr of
           Some e \<Rightarrow> return (Abort, Some (Wrapf
             ''patch conditions to retry the provider backup deletion'' e), b1)
         | None \<Rightarrow> do {
             _ \<leftarrow> (if report
                   then eventf EventTypeWarning reasonProviderBackupDeletionRetried
                     actionDeleteProviderBackup (c_message deleting)
                   else return ());
             return (Retry, None, b1)
           }
       }
   }"

definition ensureProviderBackupDeletionRequested ::
    "'s defaultReconciler \<Rightarrow> backup \<Rightarrow> deletionScope \<Rightarrow> ('s, stage_result) prog" where
  "ensureProviderBackupDeletionRequested c b scope = do {
     created \<leftarrow> CreateVeleroDeleteBackupRequestIfNotExists (client c) b;
     case created of
       Inl e \<Rightarrow> do {
         _ \<leftarrow> eventf EventTypeWarning reasonProviderBackupDeletionFailed actionDeleteProviderBackup
               ''Failed to create provider delete request'';
         return (Abort, Some e, b)
       }
     | Inr req \<Rightarrow>
         if dr_phase req = DeleteBackupRequestPhaseProcessed
         then retryProviderBackupDeletionRequest c b req scope
         else do {
           t \<leftarrow> now (client c);
           let waited = ElapsedInCurrentStatus (client c) (backupConditions b) (getWaitAnchor scope) t;
           let deleting = getDeletingCondition scope reasonBackupDeleting
             (getDeletionSubject scope @ '' (phase: '' @ dr_phase req @ '', running for '' @
              FormatWaitDuration waited @ '')'');
           (perr, b1) \<leftarrow> patchStatus c b (setCondition (client c) deleting);
           case perr of
             Some e \<Rightarrow> return (Abort, Some (Wrapf ''patch conditions to mark backup as deleting'' e), b1)
           | None \<Rightarrow> do {
               _ \<leftarrow> eventf EventTypeNormal reasonProviderBackupDeletion actionDeleteProviderBackup
                     ''The provider backup deletion is still in progress'';
               return (Retry, None, b1)
             }
         }
   }"

definition deleteProviderBackup ::
    "'s defaultReconciler \<Rightarrow> backup \<Rightarrow> velero_backup \<Rightarrow> deletionScope \<Rightarrow> ('s, stage_result) prog" where
  "deleteProviderBackup c b pb scope =
     (if isProviderBackupInProgress pb then waitForProviderBackupBeforeDeletion c b pb scope
      else ensureProviderBackupDeletionRequested c b scope)"

definition ensureDeletingProviderBackup :: "'s defaultReconciler \<Rightarrow> 's stage" where
  "ensureDeletingProviderBackup c b = do {
     got \<leftarrow> getProviderBackup c (keyOf b);
     case got of
       Inl e \<Rightarrow> do {
         _ \<leftarrow> eventf EventTypeWarning reasonProviderBackupDeletionFailed actionDeleteBackup
               ''Failed to get provider backup'';
         return (Abort, Some (Wrapf ''get the velero backup resource to check if it exists'' e), b)
       }
     | Inr None \<Rightarrow> finalizeProviderBackupDeletion c b
     | Inr (Some pb) \<Rightarrow> deleteProviderBackup c b pb scopeBackupAndProviderBackup
   }"

definition ensureProviderBackupDeleted :: "'s defaultReconciler \<Rightarrow> 's stage" where
  "ensureProviderBackupDeleted c b =
     (if \<not> isZeroPtr (o_deletion b) then ensureDeletingProviderBackup c b
      else do {
        (perr, b1) \<leftarrow> patchStatus c b (setCondition (client c)
          (newCondition ConditionDeleting ConditionFalse reasonBackupNotDeleting ''Backup is not deleting.''));
        case perr of
          Some e \<Rightarrow> return (Abort, Some (Wrapf ''patch condition to mark backup as not deleting'' e), b1)
        | None \<Rightarrow> return (Next, None, b1)
      })"

section \<open>Terminal backups\<close>

definition ensureOrphanedBackupDeleted :: "'s defaultReconciler \<Rightarrow> 's stage" where
  "ensureOrphanedBackupDeleted c b =
     (if isZero (startTimestamp (b_status b)) then return (Next, None, b)
      else if isStatusConditionTrue (client c) (backupConditions b) ConditionCanceled
      then return (Next, None, b)
      else do {
        got \<leftarrow> getProviderBackup c (keyOf b);
        case got of
          Inl e \<Rightarrow> return (Abort, Some (Wrapf
            ''get the velero backup resource to check if it still exists'' e), b)
        | Inr (Some pb) \<Rightarrow> return (Next, None, b)
        | Inr None \<Rightarrow> do {
            del \<leftarrow> apiDelete (backups (client c)) OnBackup b noOptions;
            case del of
              Inl e \<Rightarrow>
                if isNotFound e then return (Retry, None, b)
                else do {
                  _ \<leftarrow> eventf EventTypeWarning reasonBackupDeletingFailed actionDeleteBackup
                        ''Failed to delete the backup of a missing provider backup'';
                  return (Abort, Some (Wrapf ''delete backup whose provider backup no longer exists'' (Api e)), b)
                }
            | Inr _ \<Rightarrow> return (Retry, None, b)
          }
      })"

definition completeCanceledProviderBackupDeletion :: "'s defaultReconciler \<Rightarrow> 's stage" where
  "completeCanceledProviderBackupDeletion c b = do {
     let deleting = getDeletingCondition scopeProviderBackupOnly reasonCanceledProviderBackupDeleted
       ''Provider backup of canceled backup no longer exists.'';
     if \<not> WillChange (client c) (backupConditions b) deleting then return (Next, None, b)
     else do {
       (perr, b1) \<leftarrow> patchStatus c b (setCondition (client c) deleting);
       case perr of
         Some e \<Rightarrow> return (Abort, Some (Wrapf
           ''patch conditions to complete the provider backup deletion of the canceled backup'' e), b1)
       | None \<Rightarrow> do {
           _ \<leftarrow> eventf EventTypeNormal reasonCanceledProviderBackupDeleted actionDeleteProviderBackup
                 ''Provider backup of canceled backup no longer exists'';
           return (Next, None, b1)
         }
     }
   }"

definition ensureCanceledProviderBackupDeleted :: "'s defaultReconciler \<Rightarrow> 's stage" where
  "ensureCanceledProviderBackupDeleted c b =
     (if \<not> isStatusConditionTrue (client c) (backupConditions b) ConditionCanceled \<or>
         isZero (startTimestamp (b_status b)) then return (Next, None, b)
      else do {
        got \<leftarrow> getProviderBackup c (keyOf b);
        case got of
          Inl e \<Rightarrow> return (Abort, Some (Wrapf ''get the velero backup resource of the canceled backup'' e), b)
        | Inr None \<Rightarrow> completeCanceledProviderBackupDeletion c b
        | Inr (Some pb) \<Rightarrow> deleteProviderBackup c b pb scopeProviderBackupOnly
      })"

end
