(* ===== verification/BackupRun.thy ===== *)
theory BackupRun
  imports BackupDeletion
begin

text \<open>
  The stages of a running backup (\<open>internal/controller/backup/reconciler.go\<close>,
  \<open>maintenance_gateway.go\<close>): metadata, time window, provider readiness, maintenance mode, provider
  backup, and the post-processing that closes a run.
\<close>

section \<open>Maintenance gateway\<close>

definition isMaintenanceModeActive :: "'s defaultReconciler \<Rightarrow> ('s, api_error + bool) prog" where
  "isMaintenanceModeActive c = query (mm_getStatus (client c)) MaintenanceStatus"

definition activateMaintenanceMode :: "'s defaultReconciler \<Rightarrow> string \<Rightarrow> string \<Rightarrow> ('s, api_error option) prog" where
  "activateMaintenanceMode c title txt =
     query (mm_activate (client c) title txt False) (MaintenanceActivate title txt False)"

definition deactivateMaintenanceMode :: "'s defaultReconciler \<Rightarrow> ('s, api_error option) prog" where
  "deactivateMaintenanceMode c = query (mm_deactivate (client c) False) (MaintenanceDeactivate False)"

lemma outcome_maintenance [outcome_intro]:
  "(\<And>r. Q r [MaintenanceStatus r]) \<Longrightarrow> outcome (isMaintenanceModeActive c) Q"
  "(\<And>r. Q' r [MaintenanceActivate t x False r]) \<Longrightarrow> outcome (activateMaintenanceMode c t x) Q'"
  "(\<And>r. Q' r [MaintenanceDeactivate False r]) \<Longrightarrow> outcome (deactivateMaintenanceMode c) Q'"
  by (simp_all add: isMaintenanceModeActive_def activateMaintenanceMode_def
      deactivateMaintenanceMode_def outcome_query)

section \<open>Setup\<close>

fun mergeMissingOrChangedValues ::
    "(string \<rightharpoonup> string) \<Rightarrow> (string \<times> string) list \<Rightarrow> (string \<rightharpoonup> string) \<times> bool" where
  "mergeMissingOrChangedValues target [] = (target, False)"
| "mergeMissingOrChangedValues target ((k, v) # kvs) =
     (if target k = Some v then mergeMissingOrChangedValues target kvs
      else (fst (mergeMissingOrChangedValues (target(k \<mapsto> v)) kvs), True))"

text \<open>\<open>ensureConditionsInitialized\<close>: write the conditions the backup does not carry yet.\<close>

definition ensureConditionsInitialized :: "'s defaultReconciler \<Rightarrow> 's stage" where
  "ensureConditionsInitialized c b = do {
     let missing = Missing (client c) (backupConditions b) initialBackupConditions;
     if missing = [] then return (Next, None, b)
     else do {
       (perr, b1) \<leftarrow> patchStatus c b (fold_io (setCondition (client c)) missing);
       case perr of
         Some e \<Rightarrow> return (Abort, Some (Wrapf ''patch status to initialize the backup conditions'' e), b1)
       | None \<Rightarrow> return (Next, None, b1)
     }
   }"

text \<open>The end of \<open>ensureBackupSetup\<close>: the finalizer and the write, if anything changed.\<close>

definition persistSetup :: "'s defaultReconciler \<Rightarrow> backup \<Rightarrow> bool \<Rightarrow> ('s, stage_result) prog" where
  "persistSetup c b changed = do {
     let (fins, added) = addFinalizer (client c) (o_finalizers b) (BackupFinalizer (client c));
     let b1 = b\<lparr>o_finalizers := fins\<rparr>;
     if \<not> (added \<or> changed) then return (Next, None, b1)
     else do {
       upd \<leftarrow> apiUpdate (backups (client c)) OnBackup b1;
       case upd of
         Inl e \<Rightarrow> return (Abort, Some (Wrapf
           ''update backup to set labels, annotations and finalizer'' (Api e)), b1)
       | Inr b2 \<Rightarrow> return (Next, None, b2)
     }
   }"

definition ensureBackupSetup :: "'s defaultReconciler \<Rightarrow> 's stage" where
  "ensureBackupSetup c b = do {
     let (labels, labelsChanged) = mergeMissingOrChangedValues (o_labels b) defaultLabels;
     let b1 = b\<lparr>o_labels := labels\<rparr>;
     listed \<leftarrow> apiList (blueprints (client c)) OnBlueprint (o_namespace b) [];
     case listed of
       Inl e \<Rightarrow>
         if \<not> isNotFoundError (client c) e \<and> reason_of e \<noteq> NoMatch
         then return (Abort, Some (Wrapf ''list blueprints'' (Api e)), b1)
         else persistSetup c b1 labelsChanged
     | Inr [] \<Rightarrow> persistSetup c b1 labelsChanged
     | Inr (bp # _) \<Rightarrow>
         (case marshalDogus (client c) (bp_dogus bp) of
            Inl e \<Rightarrow> return (Abort, Some (Wrapf ''marshal blueprint dogus to json'' e), b1)
          | Inr dogus \<Rightarrow>
              let (anns, annsChanged) = mergeMissingOrChangedValues (o_annotations b1)
                [(BlueprintIdAnnotation, bp_displayName bp), (DogusAnnotation, dogus)]
              in persistSetup c (b1\<lparr>o_annotations := anns\<rparr>) (annsChanged \<or> labelsChanged))
   }"

section \<open>Status of backups that came from the provider\<close>

definition veleroStatusSyncOutcome :: "velero_backup_phase \<Rightarrow> condition \<times> action \<times> string" where
  "veleroStatusSyncOutcome phase =
     (if phase = BackupPhaseCompleted then
        (newCondition ConditionSucceeded ConditionTrue reasonVeleroStatusSynced
           ''The succeeded backup status was synchronized from Velero.'',
         Abort, ''synchronized the succeeded velero backup status'')
      else if phase \<in> set veleroBackupFailedPhases then
        (newCondition ConditionSucceeded ConditionFalse reasonVeleroBackupFailed
           (''The Velero backup failed in phase '' @ backupPhaseText phase @ ''.''),
         Abort, ''synchronized the failed velero backup status'')
      else
        (newCondition ConditionSucceeded ConditionUnknown reasonVeleroBackupRunning
           (''The Velero backup is in phase '' @ backupPhaseText phase @ ''.''),
         Retry, ''waiting for the synchronized velero backup to complete''))"

definition syncStatus :: "'s env \<Rightarrow> velero_backup \<Rightarrow> condition \<Rightarrow> 's statusUpdate" where
  "syncStatus E vb succeeded st = do {
     st1 \<leftarrow> setCondition E (newCondition ConditionPrepared ConditionTrue reasonVeleroStatusSynced
       ''The backup already exists in Velero.'') st;
     st2 \<leftarrow> setCondition E (succeeded\<lparr>c_type := ConditionProviderSucceeded\<rparr>) st1;
     st3 \<leftarrow> setCondition E succeeded st2;
     let st4 = (case vs_start (vb_status vb) of None \<Rightarrow> st3 | Some t \<Rightarrow> st3\<lparr>startTimestamp := t\<rparr>);
     return (case vs_completion (vb_status vb) of None \<Rightarrow> st4 | Some t \<Rightarrow> st4\<lparr>completionTimestamp := t\<rparr>)
   }"

definition ensureVeleroStatusSynced :: "'s defaultReconciler \<Rightarrow> 's stage" where
  "ensureVeleroStatusSynced c b =
     (if \<not> b_synced b then return (Next, None, b)
      else do {
        got \<leftarrow> apiGet (veleroBackups (client c)) OnVeleroBackup (keyOf b);
        case got of
          Inl e \<Rightarrow> return (Abort, Some (Wrapf ''get velero backup to sync status'' (Api e)), b)
        | Inr vb \<Rightarrow> do {
            let (succeeded, nextAction, report) = veleroStatusSyncOutcome (vb_phase vb);
            (perr, b1) \<leftarrow> patchStatus c b (syncStatus (client c) vb succeeded);
            case perr of
              Some e \<Rightarrow> return (Abort, Some (Wrapf
                ''patch backup status synchronized from Velero'' e), b1)
            | None \<Rightarrow> return (nextAction, None, b1)
          }
      })"

section \<open>Time window\<close>

definition numErrorText :: "string \<Rightarrow> num_error \<Rightarrow> string" where
  "numErrorText s e = numErrorOf ''Atoi'' s e"

definition hasTimeWindowExpired :: "'s defaultReconciler \<Rightarrow> backup \<Rightarrow> ('s, err + bool) prog" where
  "hasTimeWindowExpired c b = do {
     got \<leftarrow> apiGet (configMaps (client c)) OnConfigMap (o_namespace b, backupConfigMapName);
     case got of
       Inl e \<Rightarrow> return (Inl (Wrapf (''get backup operator config map '' @
         sq (o_namespace b @ ''/'' @ backupConfigMapName)) (Api e)))
     | Inr cm \<Rightarrow>
         (case cm_data cm backupRetryTimeLimitKey of
            None \<Rightarrow> return (Inl (Errorf (''read key '' @ sq backupRetryTimeLimitKey @
              '' from backup operator config map '' @ sq backupConfigMapName)))
          | Some s \<Rightarrow>
              (case atoi s of
                 Inl e \<Rightarrow> return (Inl (Wrapf (''convert backup retry limit from string '' @ sq s @ '' to int'')
                   (Errorf (numErrorText s e))))
               | Inr limit \<Rightarrow> do {
                   t \<leftarrow> now (client c);
                   return (Inr (timeSub t (o_creation b) > mulDuration limit minute))
                 }))
   }"

text \<open>The handlers of an expired time window: each writes \<open>Canceled\<close> once.\<close>

definition markCanceled :: "'s defaultReconciler \<Rightarrow> backup \<Rightarrow> cond_status \<Rightarrow> string \<Rightarrow> string
    \<Rightarrow> ('s, err option \<times> backup) prog" where
  "markCanceled c b st reason message =
     patchStatus c b (setCondition (client c) (newCondition ConditionCanceled st reason message))"

definition handleTimeWindowExpiredBackupNotStarted :: "'s defaultReconciler \<Rightarrow> 's stage" where
  "handleTimeWindowExpiredBackupNotStarted c b = do {
     (perr, b1) \<leftarrow> markCanceled c b ConditionTrue reasonTimeWindowExpiredBackupNotStarted
       ''The backup has not started when the time window expired.'';
     case perr of
       Some e \<Rightarrow> return (Abort, Some (Errorf
         (''patch status to mark the canceled condition as '' @ sq ''time window not expired'')), b1)
     | None \<Rightarrow> do {
         _ \<leftarrow> eventf EventTypeWarning reasonTimeWindowExpiredBackupNotStarted actionCancelBackup
               ''The backup is being canceled - time window expired'';
         return (Retry, None, b1)
       }
   }"

definition handleMissingProviderBackupAfterTimeWindowExpired :: "'s defaultReconciler \<Rightarrow> 's stage" where
  "handleMissingProviderBackupAfterTimeWindowExpired c b = do {
     (perr, b1) \<leftarrow> markCanceled c b ConditionTrue reasonTimeWindowExpiredProviderBackupMissing
       ''The provider backup no longer existed or was not touched once when the time window expired.'';
     case perr of
       Some e \<Rightarrow> return (Abort, Some (Errorf (''patch status to mark the canceled condition as '' @
         sq ''time window expired and provider backup is missing'')), b1)
     | None \<Rightarrow> do {
         _ \<leftarrow> eventf EventTypeWarning reasonTimeWindowExpiredProviderBackupMissing actionCancelBackup
               ''Provider backup no longer existed or was not touched once when the time window expired'';
         return (Retry, None, b1)
       }
   }"

definition handleInProgressProviderBackupAfterTimeWindowExpired :: "'s defaultReconciler \<Rightarrow> 's stage" where
  "handleInProgressProviderBackupAfterTimeWindowExpired c b = do {
     (perr, b1) \<leftarrow> markCanceled c b ConditionTrue reasonTimeWindowExpiredBackupInProgress
       ''The backup was still running when the time window expired.'';
     case perr of
       Some e \<Rightarrow> return (Abort, Some (Errorf (''patch status to mark the canceled condition as '' @
         sq ''time window expired and backup is running'')), b1)
     | None \<Rightarrow> do {
         _ \<leftarrow> eventf EventTypeWarning reasonTimeWindowExpiredBackupInProgress actionCancelBackup
               ''Backup is being canceled - provider backup was still running when the time window expired'';
         return (Retry, None, b1)
       }
   }"

definition handleTerminatedProviderBackupAfterTimeWindowExpired :: "'s defaultReconciler \<Rightarrow> 's stage" where
  "handleTerminatedProviderBackupAfterTimeWindowExpired c b = do {
     (perr, b1) \<leftarrow> markCanceled c b ConditionFalse reasonTimeWindowExpiredBackupTerminated
       ''The backup had terminated when the time window expired.'';
     case perr of
       Some e \<Rightarrow> return (Abort, Some (Errorf (''patch status to mark the canceled condition as '' @
         sq ''time window expired and backup has terminated'')), b1)
     | None \<Rightarrow> return (Next, None, b1)
   }"

definition handleTimeWindowExpiredBackupStarted :: "'s defaultReconciler \<Rightarrow> 's stage" where
  "handleTimeWindowExpiredBackupStarted c b = do {
     got \<leftarrow> getProviderBackup c (keyOf b);
     case got of
       Inl e \<Rightarrow> return (Abort, Some (Wrapf ''get velero backup'' e), b)
     | Inr None \<Rightarrow> handleMissingProviderBackupAfterTimeWindowExpired c b
     | Inr (Some vb) \<Rightarrow>
         if vb_status vb = emptyVeleroBackupStatus
         then handleMissingProviderBackupAfterTimeWindowExpired c b
         else if isProviderBackupInProgress vb
         then handleInProgressProviderBackupAfterTimeWindowExpired c b
         else handleTerminatedProviderBackupAfterTimeWindowExpired c b
   }"

definition ensureBackupIsCanceledAfterTimeWindowExpired :: "'s defaultReconciler \<Rightarrow> 's stage" where
  "ensureBackupIsCanceledAfterTimeWindowExpired c b = do {
     expired \<leftarrow> hasTimeWindowExpired c b;
     case expired of
       Inl e \<Rightarrow> return (Abort, Some e, b)
     | Inr False \<Rightarrow> do {
         (perr, b1) \<leftarrow> markCanceled c b ConditionFalse reasonTimeWindowNotExpired
           ''The time window has not expired.'';
         case perr of
           Some e \<Rightarrow> return (Abort, Some (Errorf
             (''patch status to mark the canceled condition as '' @ sq ''time window not expired'')), b1)
         | None \<Rightarrow> return (Next, None, b1)
       }
     | Inr True \<Rightarrow>
         if isZero (startTimestamp (b_status b)) then handleTimeWindowExpiredBackupNotStarted c b
         else handleTimeWindowExpiredBackupStarted c b
   }"

end
