(* ===== verification/BackupWorkflow.thy ===== *)
theory BackupWorkflow
  imports BackupRun
begin

text \<open>
  The second half of the backup run (\<open>internal/controller/backup/reconciler.go\<close>): readiness of the
  provider, maintenance mode, creation and observation of the provider backup, and the
  post-processing that closes a run.
\<close>

section \<open>Preparation\<close>

definition findRunningProviderBackupOfAnotherRun ::
    "'s defaultReconciler \<Rightarrow> backup \<Rightarrow> ('s, err + velero_backup option) prog" where
  "findRunningProviderBackupOfAnotherRun c b = do {
     listed \<leftarrow> apiList (veleroBackups (client c)) OnVeleroBackup (o_namespace b) [];
     return (case listed of
       Inl e \<Rightarrow> Inl (Wrapf ''list velero backups to look for a running backup of another run'' (Api e))
     | Inr vbs \<Rightarrow> Inr (List.find (\<lambda>v. o_name v \<noteq> o_name b \<and> isProviderBackupInProgress v) vbs))
   }"

text \<open>The guard of \<open>ensureBackupIsPrepared\<close> against the orphan of another run.\<close>

definition guardOtherRun :: "'s defaultReconciler \<Rightarrow> backup \<Rightarrow> readiness \<Rightarrow> ('s, err + readiness) prog" where
  "guardOtherRun c b rd =
     (if rd_ready rd \<and> isZero (startTimestamp (b_status b)) then do {
        found \<leftarrow> findRunningProviderBackupOfAnotherRun c b;
        return (case found of
          Inl e \<Rightarrow> Inl e
        | Inr None \<Rightarrow> Inr rd
        | Inr (Some v) \<Rightarrow> Inr (notReady reasonOtherProviderBackupInProgress
            (''The velero backup '' @ sq (o_name v) @ '' of another backup run is still running in phase '' @
             sq (backupPhaseText (vb_phase v)) @ ''.'')))
      }
      else return (Inr rd))"

definition reportReadiness :: "'s defaultReconciler \<Rightarrow> backup \<Rightarrow> readiness \<Rightarrow> ('s, stage_result) prog" where
  "reportReadiness c b rd = do {
     let prepared = newCondition ConditionPrepared (if rd_ready rd then ConditionTrue else ConditionFalse)
       (rd_reason rd) (rd_message rd);
     let reportPrepared = WillChange (client c) (backupConditions b) prepared;
     (perr, b1) \<leftarrow> patchStatus c b (setCondition (client c) prepared);
     case perr of
       Some e \<Rightarrow> return (Abort, Some (Wrapf ''patch conditions to report the provider readiness'' e), b1)
     | None \<Rightarrow>
         if \<not> rd_ready rd then do {
           _ \<leftarrow> (if reportPrepared
                 then eventf EventTypeWarning (rd_reason rd) actionCheckProviderReadiness (rd_message rd)
                 else return ());
           return (Retry, None, b1)
         }
         else return (Next, None, b1)
   }"

definition ensureBackupIsPrepared :: "'s defaultReconciler \<Rightarrow> 's stage" where
  "ensureBackupIsPrepared c b = do {
     own \<leftarrow> getProviderBackup c (keyOf b);
     case own of
       Inl e \<Rightarrow> return (Abort, Some (Wrapf
         ''get the velero backup resource to check whether backup has already started'' e), b)
     | Inr (Some v) \<Rightarrow> return (Next, None, b)
     | Inr None \<Rightarrow> do {
         checked \<leftarrow> CheckReady (client c) (o_namespace b) (backupStorageName c) (providerDeploymentName c);
         case checked of
           Inl e \<Rightarrow> return (Abort, Some e, b)
         | Inr rd \<Rightarrow> do {
             guarded \<leftarrow> guardOtherRun c b rd;
             case guarded of
               Inl e \<Rightarrow> return (Abort, Some e, b)
             | Inr rd' \<Rightarrow> reportReadiness c b rd'
           }
       }
   }"

section \<open>Maintenance mode\<close>

definition ensureMaintenanceActivated :: "'s defaultReconciler \<Rightarrow> 's stage" where
  "ensureMaintenanceActivated c b = do {
     st \<leftarrow> isMaintenanceModeActive c;
     case st of
       Inl e \<Rightarrow> do {
         _ \<leftarrow> eventf EventTypeWarning reasonMaintenanceModesStatusFailed actionActivateMaintenanceMode
               ''Failed to get maintenance mode status'';
         return (Abort, Some (Wrapf ''check if maintenance is active'' (Api e)), b)
       }
     | Inr True \<Rightarrow> return (Next, None, b)
     | Inr False \<Rightarrow> do {
         merr \<leftarrow> activateMaintenanceMode c maintenanceModeTitle maintenanceModeText;
         case merr of
           Some e \<Rightarrow> do {
             _ \<leftarrow> eventf EventTypeWarning reasonMaintenanceModesActivationFailed
                   actionActivateMaintenanceMode ''Maintenance mode activation has failed'';
             return (Abort, Some (Wrapf ''activate maintenance mode'' (Api e)), b)
           }
         | None \<Rightarrow> do {
             (perr, b1) \<leftarrow> patchStatus c b (setCondition (client c)
               (newCondition ConditionSucceeded ConditionUnknown reasonMaintenanceModesIsNotActive
                  ''Maintenance mode is not active''));
             case perr of
               Some e \<Rightarrow> return (Abort, Some (Wrapf
                 ''patch status to mark the complete condition as failed'' e), b1)
             | None \<Rightarrow> do {
                 _ \<leftarrow> eventf EventTypeNormal reasonMaintenanceModesActivation actionActivateMaintenanceMode
                       ''Maintenance mode was activated'';
                 return (Retry, None, b1)
               }
           }
       }
   }"

definition ensureMaintenanceDeactivated :: "'s defaultReconciler \<Rightarrow> 's stage" where
  "ensureMaintenanceDeactivated c b =
     (if \<not> isPostProcessing (client c) b \<and> isZeroPtr (o_deletion b) then return (Retry, None, b)
      else do {
        held \<leftarrow> holdsBackupLease c b;
        case held of
          Inl e \<Rightarrow> return (Abort, Some e, b)
        | Inr False \<Rightarrow> return (Next, None, b)
        | Inr True \<Rightarrow> do {
            st \<leftarrow> isMaintenanceModeActive c;
            case st of
              Inl e \<Rightarrow> do {
                _ \<leftarrow> eventf EventTypeWarning reasonMaintenanceModesStatusFailed
                      actionDeactivateMaintenanceMode ''Failed to get maintenance mode status'';
                return (Abort, Some (Wrapf ''check maintenance mode'' (Api e)), b)
              }
            | Inr False \<Rightarrow> return (Next, None, b)
            | Inr True \<Rightarrow> do {
                merr \<leftarrow> deactivateMaintenanceMode c;
                case merr of
                  Some e \<Rightarrow> do {
                    _ \<leftarrow> eventf EventTypeWarning reasonMaintenanceModesDeactivationFailed
                          actionDeactivateMaintenanceMode ''Failed to deactivate maintenance mode'';
                    return (Abort, Some (Wrapf ''deactivate maintenance mode'' (Api e)), b)
                  }
                | None \<Rightarrow> do {
                    _ \<leftarrow> eventf EventTypeNormal reasonMaintenanceModesDeactivation
                          actionDeactivateMaintenanceMode ''Maintenance mode deactivated'';
                    return (Next, None, b)
                  }
              }
          }
      })"

section \<open>The provider backup\<close>

definition markStarted :: "'s defaultReconciler \<Rightarrow> 's statusUpdate" where
  "markStarted c st = do {
     st1 \<leftarrow> setCondition (client c) (newCondition ConditionSucceeded ConditionUnknown
       reasonProviderBackupResourceDoesNotExist ''Provider backup resource does not exist.'') st;
     if isZero (startTimestamp st1) then do {
       t \<leftarrow> now (client c);
       return (st1\<lparr>startTimestamp := t\<rparr>)
     }
     else return st1
   }"

definition ensureProviderBackupCreated :: "'s defaultReconciler \<Rightarrow> 's stage" where
  "ensureProviderBackupCreated c b = do {
     got \<leftarrow> getProviderBackup c (keyOf b);
     case got of
       Inl e \<Rightarrow> return (Abort, Some (Wrapf ''get velero backup resource'' e), b)
     | Inr (Some v) \<Rightarrow> return (Next, None, b)
     | Inr None \<Rightarrow> do {
         created \<leftarrow> apiCreate (veleroBackups (client c)) OnVeleroBackup
           (CreateVeleroBackupResource b (backupStorageName c) (map_of defaultLabels));
         case created of
           Inl e \<Rightarrow> return (Abort, Some (Wrapf ''create velero backup resource'' (Api e)), b)
         | Inr v \<Rightarrow> do {
             (perr, b1) \<leftarrow> patchStatus c b (markStarted c);
             case perr of
               Some e \<Rightarrow> return (Abort, Some (Wrapf ''patch status of backup resource'' e), b1)
             | None \<Rightarrow> do {
                 _ \<leftarrow> eventf EventTypeNormal reasonProviderBackupInProgress actionCreateProviderBackup
                       ''Provider backup started'';
                 return (Retry, None, b1)
               }
           }
       }
   }"

definition markCompleted :: "'s defaultReconciler \<Rightarrow> cond_status \<Rightarrow> string \<Rightarrow> string \<Rightarrow> 's statusUpdate" where
  "markCompleted c cst reason message st = do {
     st1 \<leftarrow> setCondition (client c) (newCondition ConditionProviderSucceeded cst reason message) st;
     if isZero (completionTimestamp st1) then do {
       t \<leftarrow> now (client c);
       return (st1\<lparr>completionTimestamp := t\<rparr>)
     }
     else return st1
   }"

definition patchProviderBackupCompletedStatus :: "'s defaultReconciler \<Rightarrow> backup \<Rightarrow> cond_status \<Rightarrow> string
    \<Rightarrow> string \<Rightarrow> ('s, err option \<times> backup) prog" where
  "patchProviderBackupCompletedStatus c b cst reason message = do {
     (perr, b1) \<leftarrow> patchStatus c b (markCompleted c cst reason message);
     return (map_option (Wrapf ''patch status of backup resource'') perr, b1)
   }"

definition handleProviderBackupInProgress :: "'s defaultReconciler \<Rightarrow> 's stage" where
  "handleProviderBackupInProgress c b = do {
     t \<leftarrow> now (client c);
     let waited = ElapsedInCurrentStatus (client c) (backupConditions b) ConditionProviderSucceeded t;
     (perr, b1) \<leftarrow> patchStatus c b (setCondition (client c)
       (newCondition ConditionProviderSucceeded ConditionUnknown reasonProviderBackupInProgress
          (''Provider backup is in progress (running for '' @ FormatWaitDuration waited @ '').'')));
     case perr of
       Some e \<Rightarrow> return (Abort, Some (Wrapf ''patch status of backup resource'' e), b1)
     | None \<Rightarrow> return (Retry, None, b1)
   }"

definition handleProviderBackupFailed :: "'s defaultReconciler \<Rightarrow> 's stage" where
  "handleProviderBackupFailed c b = do {
     (perr, b1) \<leftarrow> patchProviderBackupCompletedStatus c b ConditionFalse reasonProviderBackupFailed
       ''Provider backup has failed.'';
     case perr of
       Some e \<Rightarrow> return (Abort, Some e, b1)
     | None \<Rightarrow> return (Next, None, b1)
   }"

definition handleProviderBackupSucceeded :: "'s defaultReconciler \<Rightarrow> 's stage" where
  "handleProviderBackupSucceeded c b = do {
     (perr, b1) \<leftarrow> patchProviderBackupCompletedStatus c b ConditionTrue reasonProviderBackupSucceeded
       ''Provider backup has succeeded.'';
     case perr of
       Some e \<Rightarrow> return (Abort, Some e, b1)
     | None \<Rightarrow> do {
         _ \<leftarrow> eventf EventTypeNormal reasonProviderBackupSucceeded actionCompleteProviderBackup
               ''Provider Backup completed'';
         return (Next, None, b1)
       }
   }"

definition ensureProviderBackupCompleted :: "'s defaultReconciler \<Rightarrow> 's stage" where
  "ensureProviderBackupCompleted c b = do {
     got \<leftarrow> getProviderBackup c (keyOf b);
     case got of
       Inl e \<Rightarrow> return (Abort, Some (Wrapf ''checking velero backup resource for completion'' e), b)
     | Inr None \<Rightarrow> return (Abort, Some (Errorf
         ''checking velero backup resource for completion: %!w(<nil>)''), b)
     | Inr (Some v) \<Rightarrow>
         if isProviderBackupInProgress v then handleProviderBackupInProgress c b
         else if hasProviderBackupFailed v then handleProviderBackupFailed c b
         else if hasProviderBackupSucceeded v then handleProviderBackupSucceeded c b
         else return (Abort, Some (Errorf (''provider backup with status='' @
           sq (backupPhaseText (vb_phase v)) @ '' should not occur here'')), b)
   }"

section \<open>Closing the run\<close>

definition runResult :: "'s env \<Rightarrow> backup \<Rightarrow> condition" where
  "runResult E b =
     (let canceled = newCondition ConditionSucceeded ConditionFalse reasonBackupCanceled ''The backup was canceled.'';
          ps = findStatusCondition E (backupConditions b) ConditionProviderSucceeded
      in case ps of
           Some p \<Rightarrow> if hasBackupSucceededOrFailed ps
             then newCondition ConditionSucceeded (c_status p) (c_reason p) (c_message p) else canceled
         | None \<Rightarrow> canceled)"

definition ensureBackupRunCompleted :: "'s defaultReconciler \<Rightarrow> 's stage" where
  "ensureBackupRunCompleted c b =
     (if \<not> isPostProcessing (client c) b then return (Retry, None, b)
      else do {
        let succeeded = runResult (client c) b;
        (perr, b1) \<leftarrow> patchStatus c b (setCondition (client c) succeeded);
        case perr of
          Some e \<Rightarrow> return (Abort, Some (Wrapf ''patch status to complete the backup run'' e), b1)
        | None \<Rightarrow> do {
            _ \<leftarrow> (if c_status succeeded = ConditionTrue
                  then eventf EventTypeNormal reasonBackupSucceeded actionCompleteBackup ''Backup completed''
                  else return ());
            if isStatusConditionTrue (client c) (backupConditions b1) ConditionCanceled
            then return (Retry, None, b1)
            else return (Abort, None, b1)
          }
      })"

end
