(* ===== verification/BackupController.thy ===== *)
theory BackupController
  imports BackupWorkflow
begin

text \<open>
  \<open>internal/controller/backup/controller.go\<close>: which operation a backup needs, the stages of each
  operation, and one reconciliation. The controller sees the reconciler through its interface, a
  record of stages; \<open>reconcilerOf\<close> is the implementation.
\<close>

datatype operation = operationCreate | operationFinalize | operationIgnore | operationDelete

definition requiredOperation :: "'s env \<Rightarrow> backup \<Rightarrow> operation" where
  "requiredOperation E b =
     (if \<not> isZeroPtr (o_deletion b) then operationDelete
      else if hasBackupSucceededOrFailed (findStatusCondition E (backupConditions b) ConditionSucceeded)
      then operationIgnore
      else if isPostProcessing E b then operationFinalize
      else operationCreate)"

record 's reconciler =
  rs_leaseReleased :: "'s stage"
  rs_providerBackupDeleted :: "'s stage"
  rs_orphanedBackupDeleted :: "'s stage"
  rs_canceledProviderBackupDeleted :: "'s stage"
  rs_veleroStatusSynced :: "'s stage"
  rs_conditionsInitialized :: "'s stage"
  rs_backupSetup :: "'s stage"
  rs_canceledAfterTimeWindow :: "'s stage"
  rs_prepared :: "'s stage"
  rs_activeLease :: "'s stage"
  rs_maintenanceActivated :: "'s stage"
  rs_providerBackupCreated :: "'s stage"
  rs_providerBackupCompleted :: "'s stage"
  rs_maintenanceDeactivated :: "'s stage"
  rs_runCompleted :: "'s stage"

definition reconcilerOf :: "'s defaultReconciler \<Rightarrow> 's reconciler" where
  "reconcilerOf c = \<lparr>
     rs_leaseReleased = ensureBackupLeaseReleased c,
     rs_providerBackupDeleted = ensureProviderBackupDeleted c,
     rs_orphanedBackupDeleted = ensureOrphanedBackupDeleted c,
     rs_canceledProviderBackupDeleted = ensureCanceledProviderBackupDeleted c,
     rs_veleroStatusSynced = ensureVeleroStatusSynced c,
     rs_conditionsInitialized = ensureConditionsInitialized c,
     rs_backupSetup = ensureBackupSetup c,
     rs_canceledAfterTimeWindow = ensureBackupIsCanceledAfterTimeWindowExpired c,
     rs_prepared = ensureBackupIsPrepared c,
     rs_activeLease = ensureActiveBackupLease c,
     rs_maintenanceActivated = ensureMaintenanceActivated c,
     rs_providerBackupCreated = ensureProviderBackupCreated c,
     rs_providerBackupCompleted = ensureProviderBackupCompleted c,
     rs_maintenanceDeactivated = ensureMaintenanceDeactivated c,
     rs_runCompleted = ensureBackupRunCompleted c\<rparr>"

definition cleanupStages :: "'s reconciler \<Rightarrow> 's stage list" where
  "cleanupStages r = [rs_maintenanceDeactivated r, rs_leaseReleased r]"

definition finalizeStages :: "'s reconciler \<Rightarrow> 's stage list" where
  "finalizeStages r = cleanupStages r @ [rs_runCompleted r]"

fun getStagesForOperation :: "'s reconciler \<Rightarrow> operation \<Rightarrow> 's stage list" where
  "getStagesForOperation r operationDelete = cleanupStages r @ [rs_providerBackupDeleted r]"
| "getStagesForOperation r operationIgnore = [rs_orphanedBackupDeleted r, rs_canceledProviderBackupDeleted r]"
| "getStagesForOperation r operationFinalize = finalizeStages r"
| "getStagesForOperation r operationCreate =
     [rs_veleroStatusSynced r, rs_conditionsInitialized r, rs_backupSetup r,
      rs_canceledAfterTimeWindow r, rs_prepared r, rs_activeLease r, rs_maintenanceActivated r,
      rs_providerBackupCreated r, rs_providerBackupCompleted r] @ finalizeStages r"

text \<open>The stages run in order until one does not answer \<open>Next\<close>; a requeue of 0 stands for none.\<close>

fun runStages :: "duration \<Rightarrow> 's stage list \<Rightarrow> backup \<Rightarrow> ('s, reconcile_result) prog" where
  "runStages d [] b = return \<lparr>requeueAfter = 0, rerr = None\<rparr>"
| "runStages d (ensure # stages) b = do {
     (nextAction, e, b1) \<leftarrow> ensure b;
     case nextAction of
       Retry \<Rightarrow> return \<lparr>requeueAfter = d, rerr = e\<rparr>
     | Abort \<Rightarrow> return \<lparr>requeueAfter = 0, rerr = e\<rparr>
     | Next \<Rightarrow> runStages d stages b1
   }"

section \<open>Reconcile\<close>

record 's controller =
  ct_client :: "'s env"
  ct_reconciler :: "'s reconciler"
  ct_requeueAfter :: duration

definition Reconcile :: "'s controller \<Rightarrow> key \<Rightarrow> ('s, reconcile_result) prog" where
  "Reconcile ct k = do {
     _ \<leftarrow> UpdateBackupReconcileTotalMetric;
     got \<leftarrow> apiGet (backups (ct_client ct)) OnBackup k;
     case got of
       Inl e \<Rightarrow> return \<lparr>requeueAfter = 0, rerr = (if isNotFound e then None else Some (Api e))\<rparr>
     | Inr b \<Rightarrow> do {
         _ \<leftarrow> InitBackupConditionTransitionMetrics (o_namespace b) (o_name b);
         _ \<leftarrow> InitBackupStatusMetrics (o_namespace b) (o_name b);
         _ \<leftarrow> InitInvalidLeaseTotalMetric (o_namespace b) (o_name b);
         runStages (ct_requeueAfter ct)
           (getStagesForOperation (ct_reconciler ct) (requiredOperation (ct_client ct) b)) b
       }
   }"

definition backupController :: "'s defaultReconciler \<Rightarrow> duration \<Rightarrow> 's controller" where
  "backupController c d = \<lparr>ct_client = client c, ct_reconciler = reconcilerOf c, ct_requeueAfter = d\<rparr>"

end
