(* ===== verification/BackupStages.thy ===== *)
theory BackupStages
  imports BackupController
begin

text \<open>
  What the stages of the backup reconciler do, stage by stage: the effects a stage can have, the shape
  of its answer, and what it has seen and which backup it hands on when it lets the workflow go on. These contracts are the laws
  of the reconciler interface; the controller is proved against the interface in \<open>BackupRuns\<close>.
\<close>

section \<open>Status updates inside a stage\<close>


definition silentUpdate :: "'s statusUpdate \<Rightarrow> (backup_status \<Rightarrow> backup_status \<Rightarrow> bool) \<Rightarrow> bool" where
  "silentUpdate f P \<longleftrightarrow> (\<forall>st. outcome (f st) (\<lambda>st' es. es = [] \<and> P st st'))"

lemma outcome_patchStatus:
  assumes "silentUpdate f P"
    and "\<And>st e. P (b_status b) st \<Longrightarrow>
      Q (Some (Api e), patched (client c) b st) [OnBackup (PatchStatus b (patched (client c) b st) (Inl e))]"
    and "\<And>st x ms. P (b_status b) st \<Longrightarrow> metricsOnly ms \<Longrightarrow>
      Q (None, x) (OnBackup (PatchStatus b (patched (client c) b st) (Inr x)) # ms)"
  shows "outcome (patchStatus c b f) Q"
proof -
  have f: "outcome (f (b_status b)) (\<lambda>st es. es = [] \<and> P (b_status b) st)"
    using assms(1) by (simp add: silentUpdate_def)
  show ?thesis
    unfolding patchStatus_def
  proof (rule outcome_mono [OF updateStatus_outcome [where E = "client c" and b = b and updateFn = f
        and P = "P (b_status b)", OF f]], goal_cases)
    case (1 a es)
    obtain err b' where a: "a = (err, b')" by (cases a)
    from 1 a obtain st r ms where st: "P (b_status b) st"
      and es: "es = OnBackup (PatchStatus b (patched (client c) b st) r) # ms"
      and ms: "metricsOnly ms"
      and r: "case r of Inl e \<Rightarrow> err = Some (Api e) \<and> b' = patched (client c) b st \<and> ms = []
        | Inr x \<Rightarrow> err = None \<and> b' = x"
      by auto
    show ?case
    proof (cases r)
      case (Inl e)
      with r es st a assms(2) show ?thesis by simp
    next
      case (Inr x)
      with r es st ms a assms(3) show ?thesis by simp
    qed
  qed
qed


lemma silent_any: "silentUpdate f P \<Longrightarrow> silentUpdate f (\<lambda>_ _. True)"
  unfolding silentUpdate_def by (blast intro: outcome_mono)

lemma silent_setCondition [simp]: "silentUpdate (setCondition E d) (\<lambda>_ _. True)"
  by (auto simp: silentUpdate_def setCondition_def intro!: outcome_intro)

lemma silent_fold [simp]: "silentUpdate (fold_io (setCondition E) ds) (\<lambda>_ _. True)"
  unfolding silentUpdate_def
proof
  fix st
  show "outcome (fold_io (setCondition E) ds st) (\<lambda>st' es. es = [] \<and> True)"
    by (induction ds arbitrary: st) (auto simp: setCondition_def intro!: outcome_intro)
qed

lemma silent_marks [simp]:
  "silentUpdate (markStarted c) (\<lambda>_ _. True)"
  "silentUpdate (markCompleted c s r m) (\<lambda>_ _. True)"
  "silentUpdate (syncStatus E v d) (\<lambda>_ _. True)"
  by (auto simp: silentUpdate_def markStarted_def markCompleted_def syncStatus_def setCondition_def Let_def
      intro!: outcome_intro)

lemma outcome_anyPatch:
  assumes "silentUpdate f (\<lambda>_ _. True)"
    and "\<And>st e. Q (Some (Api e), patched (client c) b st) [OnBackup (PatchStatus b (patched (client c) b st) (Inl e))]"
    and "\<And>st x ms. metricsOnly ms \<Longrightarrow> Q (None, x) (OnBackup (PatchStatus b (patched (client c) b st) (Inr x)) # ms)"
  shows "outcome (patchStatus c b f) Q"
  by (rule outcome_patchStatus [OF assms(1)]) (use assms in auto)

lemma outcome_getProviderBackup [outcome_intro]:
  assumes "\<And>e. \<not> isNotFound e \<Longrightarrow> Q (Inl (Api e)) [OnVeleroBackup (Get k (Inl e))]"
    "\<And>e. isNotFound e \<Longrightarrow> Q (Inr None) [OnVeleroBackup (Get k (Inl e))]"
    "\<And>v. Q (Inr (Some v)) [OnVeleroBackup (Get k (Inr v))]"
  shows "outcome (getProviderBackup c k) Q"
  unfolding getProviderBackup_def using assms by (auto intro!: outcome_intro split: sum.splits)

section \<open>Contracts\<close>

text \<open>
  The contract of a stage: an error comes with \<open>Abort\<close> (so \<open>Next\<close> and \<open>Retry\<close> never carry one), the
  stage has no effects but \<open>A\<close>, and when it answers \<open>Next\<close> then \<open>N\<close> holds of the backup it got, the
  backup it left and what it did.
\<close>

definition contract :: "effect set \<Rightarrow> (backup \<Rightarrow> backup \<Rightarrow> event list \<Rightarrow> bool) \<Rightarrow> 's stage \<Rightarrow> bool" where
  "contract A N s \<longleftrightarrow> (\<forall>b. outcome (s b) (\<lambda>(act, err, b') es.
     (err \<noteq> None \<longrightarrow> act = Abort) \<and> within A es \<and> (act = Next \<longrightarrow> N b b' es)))"

abbreviation anything :: "backup \<Rightarrow> backup \<Rightarrow> event list \<Rightarrow> bool" where
  "anything \<equiv> (\<lambda>_ _ _. True)"

text \<open>
  Which backup a stage hands on: the same object (by key and UID, its metadata may have been brought up
  to date in memory), or what the API server answered when the stage wrote the backup.
\<close>

definition sameObject :: "'x obj_meta_scheme \<Rightarrow> 'x obj_meta_scheme \<Rightarrow> bool" where
  "sameObject a b \<longleftrightarrow> keyOf a = keyOf b \<and> o_uid a = o_uid b"

fun answeredWrite :: "backup \<Rightarrow> backup \<Rightarrow> event \<Rightarrow> bool" where
  "answeredWrite b a (OnBackup (PatchStatus o' x (Inr y))) \<longleftrightarrow> keyOf x = keyOf b \<and> y = a"
| "answeredWrite b a (OnBackup (Update x (Inr y))) \<longleftrightarrow> keyOf x = keyOf b \<and> y = a"
| "answeredWrite b a e \<longleftrightarrow> False"

definition handsOn :: "backup \<Rightarrow> backup \<Rightarrow> event list \<Rightarrow> bool" where
  "handsOn b b' es \<longleftrightarrow> sameObject b b' \<or> (\<exists>a. (\<exists>e \<in> set es. answeredWrite b a e) \<and> sameObject a b')"

lemma sameObject_refl [simp]: "sameObject b b"
  by (simp add: sameObject_def)

lemma handsOn_same [simp]: "handsOn b b es"
  by (simp add: handsOn_def)

lemma handsOn_answer [simp]:
  "handsOn b y (OnBackup (PatchStatus b (patched E b st) (Inr y)) # es)"
  "handsOn b y (e # OnBackup (PatchStatus b (patched E b st) (Inr y)) # es)"
  by (auto simp: handsOn_def patched_def intro!: exI [of _ y])

lemma sameObject_updates [simp]:
  "sameObject a (b\<lparr>o_finalizers := fs\<rparr>) = sameObject a b" "sameObject a (b\<lparr>o_labels := ls\<rparr>) = sameObject a b"
  "sameObject a (b\<lparr>o_annotations := ls\<rparr>) = sameObject a b"
  by (simp_all add: sameObject_def)

lemma handsOn_sameObject [simp]: "sameObject b b' \<Longrightarrow> handsOn b b' es"
  by (simp add: handsOn_def)

lemma handsOn_update [simp]: "sameObject b x \<Longrightarrow> handsOn b y (OnBackup (Update x (Inr y)) # es)"
  by (auto simp: handsOn_def sameObject_def intro!: exI [of _ y])

lemma handsOn_later [simp]:
  "handsOn b b' es \<Longrightarrow> handsOn b b' (xs @ es)" "handsOn b b' es \<Longrightarrow> handsOn b b' (e # es)"
  by (auto simp: handsOn_def)

section \<open>The contracts of the fifteen stages\<close>

lemmas stage_splits = sum.splits option.splits if_splits

lemma contract_leaseReleased:
  "contract {ReleasesLease} (\<lambda>b b' es. b' = b \<and> (\<exists>e \<in> set es. sawLeaseGone b e)) (ensureBackupLeaseReleased c)"
  unfolding contract_def ensureBackupLeaseReleased_def Release_def
  by (auto intro!: outcome_intro outcome_anyPatch simp: sawLeaseGone_def split: stage_splits)

text \<open>Deleting a provider backup never lets the workflow go on.\<close>

lemma deleteRequest_effects:
  "outcome (CreateVeleroDeleteBackupRequestIfNotExists E b) (\<lambda>_ es. within {RequestsDeletion} es)"
  "outcome (DeleteVeleroDeleteBackupRequestIfExists E b) (\<lambda>_ es. within {WithdrawsDeletion} es)"
  unfolding CreateVeleroDeleteBackupRequestIfNotExists_def DeleteVeleroDeleteBackupRequestIfExists_def
  by (auto intro!: outcome_intro split: stage_splits)

definition deletionEffects :: "effect set" where
  "deletionEffects = {PatchesStatus, RequestsDeletion, WithdrawsDeletion}"

abbreviation unfinished :: "stage_result \<Rightarrow> event list \<Rightarrow> bool" where
  "unfinished \<equiv> (\<lambda>(act, err, b') es. (err \<noteq> None \<longrightarrow> act = Abort) \<and> act \<noteq> Next \<and> within deletionEffects es)"

lemma within_deletion [simp]:
  "within {RequestsDeletion} es \<Longrightarrow> within deletionEffects es"
  "within {WithdrawsDeletion} es \<Longrightarrow> within deletionEffects es"
  "PatchesStatus \<in> deletionEffects"
  by (auto simp: deletionEffects_def intro: within_mono)

lemma deletion_unfinished:
  "outcome (waitForProviderBackupBeforeDeletion c b pb sc) unfinished"
  "outcome (retryProviderBackupDeletionRequest c b req sc) unfinished"
  unfolding waitForProviderBackupBeforeDeletion_def retryProviderBackupDeletionRequest_def Let_def
  by (rule outcome_call [OF deleteRequest_effects(2)];
      auto intro!: outcome_intro outcome_anyPatch split: option.splits simp del: getDeletingCondition.simps)+

lemma deleteProviderBackup_unfinished:
  "outcome (deleteProviderBackup c b pb sc) unfinished"
proof -
  have "outcome (ensureProviderBackupDeletionRequested c b sc) unfinished"
    unfolding ensureProviderBackupDeletionRequested_def Let_def
    by (rule outcome_call [OF deleteRequest_effects(1)])
      (auto intro!: outcome_intro outcome_anyPatch outcome_mono [OF deletion_unfinished(2)]
        split: sum.splits option.splits simp del: getDeletingCondition.simps)
  then show ?thesis
    unfolding deleteProviderBackup_def
    by (cases "isProviderBackupInProgress pb") (simp_all only: if_True if_False deletion_unfinished)
qed

lemma contract_providerBackupDeleted:
  "contract {PatchesStatus, UpdatesBackup, RequestsDeletion, WithdrawsDeletion} anything (ensureProviderBackupDeleted c)"
  unfolding contract_def ensureProviderBackupDeleted_def ensureDeletingProviderBackup_def
    finalizeProviderBackupDeletion_def Let_def
  by (auto intro!: outcome_intro outcome_anyPatch outcome_mono [OF deleteProviderBackup_unfinished]
      split: stage_splits elim!: within_mono simp: deletionEffects_def)

lemma contract_orphanedBackupDeleted:
  "contract {DeletesBackup} (\<lambda>b b' es. b' = b) (ensureOrphanedBackupDeleted c)"
  unfolding contract_def ensureOrphanedBackupDeleted_def
  by (auto intro!: outcome_intro outcome_anyPatch split: stage_splits)

lemma contract_canceledProviderBackupDeleted:
  "contract {PatchesStatus, RequestsDeletion, WithdrawsDeletion} anything (ensureCanceledProviderBackupDeleted c)"
  unfolding contract_def ensureCanceledProviderBackupDeleted_def completeCanceledProviderBackupDeletion_def
    Let_def
  by (auto intro!: outcome_intro outcome_anyPatch outcome_mono [OF deleteProviderBackup_unfinished]
      split: stage_splits simp: deletionEffects_def simp del: getDeletingCondition.simps)

lemma contract_veleroStatusSynced:
  "contract {PatchesStatus} (\<lambda>b b' es. b' = b \<and> \<not> b_synced b \<and> es = []) (ensureVeleroStatusSynced c)"
  unfolding contract_def ensureVeleroStatusSynced_def veleroStatusSyncOutcome_def
  by (auto intro!: outcome_intro outcome_anyPatch split: stage_splits prod.splits)

lemma contract_conditionsInitialized:
  "contract {PatchesStatus} handsOn (ensureConditionsInitialized c)"
  unfolding contract_def ensureConditionsInitialized_def Let_def
  by (auto intro!: outcome_intro outcome_anyPatch split: stage_splits)

lemma persistSetup_outcome:
  "sameObject b b1 \<Longrightarrow> outcome (persistSetup c b1 changed) (\<lambda>(act, err, b') es.
     (err \<noteq> None \<longrightarrow> act = Abort) \<and> within {UpdatesBackup} es \<and> (act = Next \<longrightarrow> handsOn b b' es))"
  unfolding persistSetup_def Let_def
  by (auto intro!: outcome_intro split: stage_splits prod.splits)

lemma contract_backupSetup:
  "contract {UpdatesBackup} handsOn (ensureBackupSetup c)"
  unfolding contract_def
proof
  fix b
  show "outcome (ensureBackupSetup c b) (\<lambda>(act, err, b') es.
      (err \<noteq> None \<longrightarrow> act = Abort) \<and> within {UpdatesBackup} es \<and> (act = Next \<longrightarrow> handsOn b b' es))"
    unfolding ensureBackupSetup_def Let_def
    by (auto intro!: outcome_intro outcome_mono [OF persistSetup_outcome [of b]]
        split: stage_splits prod.splits list.splits)
qed

lemma contract_canceledAfterTimeWindow:
  "contract {PatchesStatus} handsOn (ensureBackupIsCanceledAfterTimeWindowExpired c)"
  unfolding contract_def ensureBackupIsCanceledAfterTimeWindowExpired_def hasTimeWindowExpired_def
    markCanceled_def handleTimeWindowExpiredBackupNotStarted_def handleTimeWindowExpiredBackupStarted_def
    handleMissingProviderBackupAfterTimeWindowExpired_def
    handleInProgressProviderBackupAfterTimeWindowExpired_def
    handleTerminatedProviderBackupAfterTimeWindowExpired_def
  by (auto intro!: outcome_intro outcome_anyPatch split: stage_splits bool.splits)

lemma contract_reportReadiness:
  "outcome (reportReadiness c b rd) (\<lambda>(act, err, b') es.
     (err \<noteq> None \<longrightarrow> act = Abort) \<and> within {PatchesStatus} es \<and> (act = Next \<longrightarrow> rd_ready rd \<and> handsOn b b' es))"
  unfolding reportReadiness_def Let_def
  by (auto intro!: outcome_intro outcome_anyPatch split: stage_splits)

text \<open>The guard only turns a ready provider into one that is not, and only for a backup not started.\<close>

lemma guardOtherRun_outcome:
  "outcome (guardOtherRun c b rd) (\<lambda>res es. (\<forall>e \<in> set es. observing e) \<and>
     (\<forall>rd'. res = Inr rd' \<longrightarrow> (if rd_ready rd \<and> isZero (startTimestamp (b_status b))
        then \<exists>vbs. es = [OnVeleroBackup (ListIn (o_namespace b) [] (Inr vbs))] \<and>
          (rd_ready rd' \<longleftrightarrow> (\<forall>v \<in> set vbs. o_name v = o_name b \<or> \<not> isProviderBackupInProgress v))
        else rd' = rd)))"
  unfolding guardOtherRun_def findRunningProviderBackupOfAnotherRun_def notReady_def
  by (auto intro!: outcome_intro outcome_anyPatch split: stage_splits simp: find_None_iff find_Some_iff)
    (metis nth_mem)

lemma contract_prepared:
  "contract {PatchesStatus} handsOn (ensureBackupIsPrepared c)"
  unfolding contract_def ensureBackupIsPrepared_def
  by (auto intro!: outcome_return outcome_getProviderBackup outcome_bind [of "getProviderBackup _ _"]
      outcome_call [OF CheckReady_outcome] outcome_call [OF guardOtherRun_outcome]
      outcome_mono [OF contract_reportReadiness] split: stage_splits simp: within_observing)

lemmas backup_acquire_writes = backup_holder.Acquire_writes [of "backupLeaseManager c b" "client c" for c b,
  simplified]

lemma contract_activeLease:
  "contract {ClaimsLease} (\<lambda>b b' es. b' = b \<and> (\<exists>e \<in> set es. sawOwnLease b e)) (ensureActiveBackupLease c)"
  unfolding contract_def
proof
  fix b
  have "outcome (ensureActiveBackupLease c b) (\<lambda>_ es. within {ClaimsLease} es)"
    unfolding ensureActiveBackupLease_def
  proof (rule outcome_call [OF backup_acquire_writes], goal_cases)
    case (1 res es)
    then have "within {ClaimsLease} es"
      by (fastforce simp: within_def effectOf_observing)
    then show ?case
      unfolding backupLeaseAction_def
      by (auto intro!: outcome_intro outcome_anyPatch split: sum.splits lease_state.splits)
  qed
  from outcome_conj [OF this ensureActiveBackupLease_outcome]
  show "outcome (ensureActiveBackupLease c b) (\<lambda>(act, err, b') es. (err \<noteq> None \<longrightarrow> act = Abort) \<and>
      within {ClaimsLease} es \<and> (act = Next \<longrightarrow> b' = b \<and> (\<exists>e \<in> set es. sawOwnLease b e)))"
    by (rule outcome_mono) auto
qed

lemma contract_maintenanceActivated:
  "contract {MaintenanceOn, PatchesStatus} (\<lambda>b b' es. b' = b \<and> MaintenanceStatus (Inr True) \<in> set es)
     (ensureMaintenanceActivated c)"
  unfolding contract_def ensureMaintenanceActivated_def
  by (auto intro!: outcome_intro outcome_anyPatch split: stage_splits bool.splits)

definition sawMaintenanceHandled :: "backup \<Rightarrow> event \<Rightarrow> bool" where
  "sawMaintenanceHandled b e \<longleftrightarrow>
     (\<exists>x. e = OnLease (Get (leaseKeyOf b) (Inl x)) \<and> isNotFound x) \<or>
     (\<exists>l. e = OnLease (Get (leaseKeyOf b) (Inr l)) \<and> \<not> IsHolder l b backupLeaseHolderKind) \<or>
     e = MaintenanceStatus (Inr False) \<or> e = MaintenanceDeactivate False None"

lemma contract_maintenanceDeactivated:
  "contract {MaintenanceOff} (\<lambda>b b' es. b' = b \<and> (\<exists>e \<in> set es. sawMaintenanceHandled b e))
     (ensureMaintenanceDeactivated c)"
  unfolding contract_def ensureMaintenanceDeactivated_def holdsBackupLease_def Holds_def
  by (auto intro!: outcome_intro outcome_anyPatch split: stage_splits bool.splits simp: sawMaintenanceHandled_def)

lemma contract_providerBackupCreated:
  "contract {CreatesProviderBackup, PatchesStatus} (\<lambda>b b' es. b' = b \<and>
     (\<exists>v. es = [OnVeleroBackup (Get (keyOf b) (Inr v))])) (ensureProviderBackupCreated c)"
  unfolding contract_def ensureProviderBackupCreated_def
  by (auto intro!: outcome_intro outcome_anyPatch split: stage_splits)

lemma contract_providerBackupCompleted:
  "contract {PatchesStatus} handsOn (ensureProviderBackupCompleted c)"
  unfolding contract_def ensureProviderBackupCompleted_def handleProviderBackupInProgress_def
   handleProviderBackupFailed_def handleProviderBackupSucceeded_def patchProviderBackupCompletedStatus_def
  by (auto intro!: outcome_intro outcome_anyPatch split: stage_splits simp: Let_def)

lemma contract_runCompleted:
  "contract {PatchesStatus} (\<lambda>_ _ _. False) (ensureBackupRunCompleted c)"
  unfolding contract_def ensureBackupRunCompleted_def Let_def
  by (auto intro!: outcome_intro outcome_anyPatch split: stage_splits)

end
