(* ===== verification/BackupClosing.thy ===== *)
theory BackupClosing
  imports BackupStages
begin

text \<open>
  Which stages can close a run, that is write a final \<open>Succeeded\<close> condition: under the documented
  behaviour of the condition helpers (\<open>meta_laws\<close>) only the last one.
\<close>

section \<open>Closing a run\<close>

text \<open>A backup is closed when its \<open>Succeeded\<close> condition is true or false.\<close>

definition closed :: "backup_status \<Rightarrow> bool" where
  "closed st \<longleftrightarrow> hasBackupSucceededOrFailed (findCond (conditions st) ConditionSucceeded)"

text \<open>The status patch that closes the run of a backup that did not come from the provider.\<close>

fun closesRun :: "backup \<Rightarrow> event \<Rightarrow> bool" where
  "closesRun b (OnBackup (PatchStatus a x r)) \<longleftrightarrow>
     a = b \<and> \<not> b_synced b \<and> \<not> closed (b_status b) \<and> closed (b_status x)"
| "closesRun b e = False"

definition keepsOpen :: "'s stage \<Rightarrow> bool" where
  "keepsOpen s \<longleftrightarrow> (\<forall>b. outcome (s b) (\<lambda>_ es. \<forall>e \<in> set es. \<forall>a. \<not> closesRun a e))"

definition opens :: "'s statusUpdate \<Rightarrow> bool" where
  "opens f \<longleftrightarrow> silentUpdate f (\<lambda>st st'. closed st' \<longrightarrow> closed st)"

lemma closesRun_effect: "effectOf e \<noteq> PatchesStatus \<Longrightarrow> \<not> closesRun b e"
  by (cases "(b, e)" rule: closesRun.cases) auto

lemma closesRun_within: "within A es \<Longrightarrow> PatchesStatus \<notin> A \<Longrightarrow> e \<in> set es \<Longrightarrow> \<not> closesRun b e"
  using closesRun_effect [of e b] by (cases "effectOf e = PatchesStatus") (auto simp: within_def)

lemma closesRun_metrics [simp]: "metricsOnly ms \<Longrightarrow> e \<in> set ms \<Longrightarrow> \<not> closesRun b e"
  by (auto simp: metricsOnly_def)

lemma closed_patched [simp]: "closed (b_status (patched E b st)) = closed st"
  by (simp add: closed_def patched_def)

definition openCondition :: "condition \<Rightarrow> bool" where
  "openCondition d \<longleftrightarrow>
     (c_type d = ConditionSucceeded \<longrightarrow> c_status d \<noteq> ConditionTrue \<and> c_status d \<noteq> ConditionFalse)"

lemma closed_upsert:
  "openCondition d \<Longrightarrow> closed (st\<lparr>conditions := upsertCond u (conditions st) d\<rparr>) \<Longrightarrow> closed st"
  by (cases "c_type d = ConditionSucceeded")
    (auto simp: closed_def openCondition_def hasBackupSucceededOrFailed_def findCond_upsert)

lemma closed_update [simp]:
  "closed (st\<lparr>startTimestamp := t\<rparr>) = closed st" "closed (st\<lparr>completionTimestamp := t\<rparr>) = closed st"
  by (simp_all add: closed_def)

lemma outcome_setCondition_open:
  assumes "meta_laws E" "openCondition d" "\<And>st'. (closed st' \<longrightarrow> closed st) \<Longrightarrow> Q st' []"
  shows "outcome (setCondition E d st) Q"
  by (rule outcome_mono [OF setCondition_outcome_law [OF assms(1)]])
    (use assms(2,3) closed_upsert in blast)

lemma opens_setCondition: "meta_laws E \<Longrightarrow> openCondition d \<Longrightarrow> opens (setCondition E d)"
  unfolding opens_def silentUpdate_def by (auto intro!: outcome_setCondition_open)

lemma opens_fold:
  assumes "meta_laws E" "\<forall>d \<in> set ds. openCondition d"
  shows "opens (fold_io (setCondition E) ds)"
  unfolding opens_def silentUpdate_def
proof
  fix st
  show "outcome (fold_io (setCondition E) ds st) (\<lambda>st' es. es = [] \<and> (closed st' \<longrightarrow> closed st))"
    using assms(2)
  proof (induction ds arbitrary: st)
    case Nil
    show ?case by (auto intro!: outcome_return)
  next
    case (Cons d ds)
    have d: "openCondition d" and ds: "\<forall>d \<in> set ds. openCondition d" using Cons.prems by auto
    show ?case
      by (auto intro!: outcome_bind outcome_setCondition_open [OF assms(1) d]
          outcome_mono [OF Cons.IH [OF ds]])
  qed
qed

lemma opens_marks:
  "meta_laws (client c) \<Longrightarrow> opens (markStarted c)"
  "meta_laws (client c) \<Longrightarrow> opens (markCompleted c s r m)"
  unfolding opens_def silentUpdate_def markStarted_def markCompleted_def
  by (auto intro!: outcome_intro outcome_setCondition_open simp: openCondition_def)

lemma outcome_openPatch:
  assumes "opens f"
    and "\<And>x e. \<forall>a. \<not> closesRun a (OnBackup (PatchStatus b x (Inl e))) \<Longrightarrow>
      Q (Some (Api e), x) [OnBackup (PatchStatus b x (Inl e))]"
    and "\<And>x y ms. \<forall>a. \<not> closesRun a (OnBackup (PatchStatus b x (Inr y))) \<Longrightarrow> metricsOnly ms \<Longrightarrow>
      Q (None, y) (OnBackup (PatchStatus b x (Inr y)) # ms)"
  shows "outcome (patchStatus c b f) Q"
  by (rule outcome_patchStatus [OF assms(1) [unfolded opens_def]]) (use assms(2,3) in auto)

lemma openCondition_simps [simp]:
  "openCondition (newCondition t s r m) \<longleftrightarrow>
     (t = ConditionSucceeded \<longrightarrow> s \<noteq> ConditionTrue \<and> s \<noteq> ConditionFalse)"
  by (simp add: openCondition_def)

lemma openCondition_deleting [simp]: "openCondition (getDeletingCondition sc r m)"
  by (simp add: openCondition_def)

lemma openCondition_initial: "\<forall>d \<in> set (Missing E cs initialBackupConditions). openCondition d"
  by (auto simp: Missing_def initialBackupConditions_def pendingMilestone_def)

lemma keepsOpen_within:
  assumes "contract A N s" "PatchesStatus \<notin> A"
  shows "keepsOpen s"
  unfolding keepsOpen_def
proof
  fix b
  from assms(1) have "outcome (s b) (\<lambda>(act, err, b') es.
      (err \<noteq> None \<longrightarrow> act = Abort) \<and> within A es \<and> (act = Next \<longrightarrow> N b b' es))"
    unfolding contract_def by blast
  then show "outcome (s b) (\<lambda>_ es. \<forall>e \<in> set es. \<forall>a. \<not> closesRun a e)"
    by (rule outcome_mono) (use assms(2) closesRun_within in auto)
qed

lemmas open_intro = outcome_openPatch opens_setCondition opens_fold opens_marks

lemma keepsOpen_conditionsInitialized:
  "meta_laws (client c) \<Longrightarrow> keepsOpen (ensureConditionsInitialized c)"
  unfolding keepsOpen_def ensureConditionsInitialized_def Let_def
  by (auto intro!: outcome_intro open_intro split: stage_splits simp: openCondition_initial [rule_format])

lemma keepsOpen_canceledAfterTimeWindow:
  "meta_laws (client c) \<Longrightarrow> keepsOpen (ensureBackupIsCanceledAfterTimeWindowExpired c)"
  unfolding keepsOpen_def ensureBackupIsCanceledAfterTimeWindowExpired_def hasTimeWindowExpired_def
    markCanceled_def handleTimeWindowExpiredBackupNotStarted_def handleTimeWindowExpiredBackupStarted_def
    handleMissingProviderBackupAfterTimeWindowExpired_def
    handleInProgressProviderBackupAfterTimeWindowExpired_def
    handleTerminatedProviderBackupAfterTimeWindowExpired_def
  by (auto intro!: outcome_intro open_intro split: stage_splits bool.splits)

lemma observing_not_closing: "observing e \<Longrightarrow> \<not> closesRun a e"
  by (rule closesRun_effect) (simp add: effectOf_observing)

lemma keepsOpen_prepared:
  assumes "meta_laws (client c)"
  shows "keepsOpen (ensureBackupIsPrepared c)"
proof -
  have report: "outcome (reportReadiness c b rd) (\<lambda>_ es. \<forall>e \<in> set es. \<forall>a. \<not> closesRun a e)" for b rd
    using assms unfolding reportReadiness_def Let_def
    by (auto intro!: outcome_intro open_intro split: stage_splits)
  have check: "outcome (CheckReady E n s d) (\<lambda>_ es. \<forall>e \<in> set es. \<forall>a. \<not> closesRun a e)" for E n s d
    by (rule outcome_mono [OF CheckReady_outcome]) (auto dest: observing_not_closing)
  have guard: "outcome (guardOtherRun c b rd) (\<lambda>_ es. \<forall>e \<in> set es. \<forall>a. \<not> closesRun a e)" for b rd
    by (rule outcome_mono [OF guardOtherRun_outcome]) (auto dest: observing_not_closing)
  show ?thesis
    unfolding keepsOpen_def ensureBackupIsPrepared_def
    by (auto intro!: outcome_return outcome_getProviderBackup outcome_bind [of "getProviderBackup _ _"]
        outcome_call [OF check] outcome_call [OF guard] outcome_mono [OF report] split: stage_splits)
qed

lemma keepsOpen_maintenanceActivated:
  "meta_laws (client c) \<Longrightarrow> keepsOpen (ensureMaintenanceActivated c)"
  unfolding keepsOpen_def ensureMaintenanceActivated_def
  by (auto intro!: outcome_intro open_intro split: stage_splits bool.splits)

lemma keepsOpen_providerBackupCreated:
  "meta_laws (client c) \<Longrightarrow> keepsOpen (ensureProviderBackupCreated c)"
  unfolding keepsOpen_def ensureProviderBackupCreated_def
  by (auto intro!: outcome_intro open_intro split: stage_splits)

lemma keepsOpen_providerBackupCompleted:
  "meta_laws (client c) \<Longrightarrow> keepsOpen (ensureProviderBackupCompleted c)"
  unfolding keepsOpen_def ensureProviderBackupCompleted_def handleProviderBackupInProgress_def
    handleProviderBackupFailed_def handleProviderBackupSucceeded_def patchProviderBackupCompletedStatus_def
  by (auto intro!: outcome_intro open_intro split: stage_splits simp: Let_def)

text \<open>The status synced from Velero may close a backup, but only one that came from the provider.\<close>

lemma keepsOpen_veleroStatusSynced: "keepsOpen (ensureVeleroStatusSynced c)"
  unfolding keepsOpen_def ensureVeleroStatusSynced_def veleroStatusSyncOutcome_def
  by (auto intro!: outcome_intro outcome_anyPatch split: stage_splits prod.splits)

text \<open>The last stage of a run closes the backup it got and no other.\<close>

lemma runCompleted_closes_its_backup:
  "outcome (ensureBackupRunCompleted c b) (\<lambda>_ es. \<forall>e \<in> set es. \<forall>a. closesRun a e \<longrightarrow> a = b)"
  unfolding ensureBackupRunCompleted_def Let_def
  by (auto intro!: outcome_intro outcome_anyPatch split: stage_splits)

lemma deleteProviderBackup_open:
  assumes "meta_laws (client c)"
  shows "outcome (deleteProviderBackup c b pb sc) (\<lambda>_ es. \<forall>e \<in> set es. \<forall>a. \<not> closesRun a e)"
proof -
  have reqs: "outcome (CreateVeleroDeleteBackupRequestIfNotExists E b) (\<lambda>_ es. \<forall>e \<in> set es. \<forall>a. \<not> closesRun a e)"
    "outcome (DeleteVeleroDeleteBackupRequestIfExists E b) (\<lambda>_ es. \<forall>e \<in> set es. \<forall>a. \<not> closesRun a e)"
    for E :: "'a env" and b
    by (rule deleteRequest_effects [THEN outcome_mono]; auto dest: closesRun_within)+
  have retry: "outcome (retryProviderBackupDeletionRequest c b req sc) (\<lambda>_ es. \<forall>e \<in> set es. \<forall>a. \<not> closesRun a e)"
    for req sc
    unfolding retryProviderBackupDeletionRequest_def Let_def
    by (rule outcome_call [OF reqs(2)]) (use assms in \<open>auto intro!: outcome_intro open_intro split: option.splits
      simp del: getDeletingCondition.simps\<close>)
  show ?thesis
    unfolding deleteProviderBackup_def waitForProviderBackupBeforeDeletion_def
      ensureProviderBackupDeletionRequested_def Let_def
    using assms by (auto intro!: outcome_call [OF reqs(1)] outcome_call [OF reqs(2)] outcome_mono [OF retry]
        outcome_return outcome_bind [of "now _"] outcome_now outcome_bind [of "patchStatus _ _ _"] open_intro
        outcome_bind [of "eventf _ _ _ _"] outcome_eventf split: sum.splits option.splits
        simp del: getDeletingCondition.simps)
qed

lemma keepsOpen_deletion:
  assumes "meta_laws (client c)"
  shows "keepsOpen (ensureProviderBackupDeleted c)" "keepsOpen (ensureCanceledProviderBackupDeleted c)"
  unfolding keepsOpen_def ensureProviderBackupDeleted_def ensureDeletingProviderBackup_def
    finalizeProviderBackupDeletion_def ensureCanceledProviderBackupDeleted_def
    completeCanceledProviderBackupDeletion_def Let_def
  using assms by (auto intro!: outcome_intro open_intro outcome_mono [OF deleteProviderBackup_open]
      split: stage_splits simp del: getDeletingCondition.simps)

end
