(* ===== verification/BackupRuns.thy ===== *)
theory BackupRuns
  imports BackupClosing
begin

text \<open>
  One reconciliation of a backup, proved against the interface of its reconciler: the locale
  \<open>backup_reconciler\<close> states what the controller relies on of the fifteen stages, and the order of
  effects in every run follows from the order of the stages alone. \<open>theBackup\<close> is the backup a log shows
  to be at hand, to which the statements about leases and the maintenance mode are bound.
\<close>

section \<open>Sequences of stages\<close>

lemma contractD:
  "contract A N s \<Longrightarrow> outcome (s b) (\<lambda>(act, err, b') es.
     (err \<noteq> None \<longrightarrow> act = Abort) \<and> within A es \<and> (act = Next \<longrightarrow> N b b' es))"
  by (simp add: contract_def)

lemma runStages_Cons:
  assumes "outcome (s b) (\<lambda>(act, err, b') es. M act err b' es)"
    and "\<And>err b' es. M Retry err b' es \<Longrightarrow> R \<lparr>requeueAfter = d, rerr = err\<rparr> es"
    and "\<And>err b' es. M Abort err b' es \<Longrightarrow> R \<lparr>requeueAfter = 0, rerr = err\<rparr> es"
    and "\<And>err b' es. M Next err b' es \<Longrightarrow> outcome (runStages d ss b') (\<lambda>res es'. R res (es @ es'))"
  shows "outcome (runStages d (s # ss) b) R"
  unfolding runStages.simps
  by (rule outcome_call [OF assms(1)])
    (use assms(2-) in \<open>auto intro!: outcome_return split: action.splits\<close>)

lemma runStages_Nil [outcome_intro]:
  "Q \<lparr>requeueAfter = 0, rerr = None\<rparr> [] \<Longrightarrow> outcome (runStages d [] b) Q"
  by (simp add: outcome_return)

declare runStages.simps [simp del]

text \<open>What all stages of a sequence can do bounds what the sequence can do, whatever its order.\<close>

definition staged :: "effect set \<Rightarrow> 's stage \<Rightarrow> bool" where
  "staged A s \<longleftrightarrow> (\<exists>N. contract A N s)"

lemma staged_mono:
  assumes "contract A N s" "A \<subseteq> B"
  shows "staged B s"
proof -
  have "contract B N s"
    unfolding contract_def
    using assms(2) within_mono by (blast intro: outcome_mono [OF contractD [OF assms(1)]])
  then show ?thesis by (auto simp: staged_def)
qed

lemma staged_UNIV: "staged A s \<Longrightarrow> staged UNIV s"
  using staged_mono [of A _ s UNIV] by (auto simp: staged_def)

definition wellFormed :: "duration \<Rightarrow> reconcile_result \<Rightarrow> bool" where
  "wellFormed d res \<longleftrightarrow> requeueAfter res \<in> {0, d} \<and> (rerr res = None \<or> requeueAfter res = 0)"

lemma runStages_within:
  assumes "list_all (staged A) ss"
  shows "outcome (runStages d ss b) (\<lambda>res es. within A es \<and> wellFormed d res)"
  using assms
proof (induction ss arbitrary: b)
  case Nil
  show ?case by (auto intro!: outcome_intro simp: wellFormed_def)
next
  case (Cons s ss)
  then obtain N where N: "contract A N s" by (auto simp: staged_def)
  show ?case
  proof (rule runStages_Cons [OF contractD [OF N]], goal_cases)
    case (3 err b' es)
    then show ?case using Cons
      by (auto intro!: outcome_mono [OF Cons.IH])
  qed (auto simp: wellFormed_def)
qed

text \<open>
  Ways through a sequence of stages: a stage whose own run has the order is passed, so is one without
  \<open>B\<close> events, ...
\<close>

lemma runStages_own:
  assumes "contract A N s" "outcome (s b) (\<lambda>_ es. R es)" "\<And>es. R es \<Longrightarrow> preceded G B es"
    and "\<And>b' es. N b b' es \<Longrightarrow> outcome (runStages d ss b') (\<lambda>_ es. preceded G B es)"
  shows "outcome (runStages d (s # ss) b) (\<lambda>_ es. preceded G B es)"
proof -
  have "outcome (s b) (\<lambda>(act, err, b') es. preceded G B es \<and> (act = Next \<longrightarrow> N b b' es))"
    by (rule outcome_mono [OF outcome_conj [OF assms(2) contractD [OF assms(1)]]])
      (use assms(3) in auto)
  then show ?thesis
  proof (rule runStages_Cons, goal_cases)
    case (3 err b' es)
    then show ?case
      by (intro outcome_mono [OF assms(4)]) (auto simp: preceded_append)
  qed auto
qed

lemma runStages_skip:
  assumes "contract A N s" "outcome (s b) (\<lambda>_ es. \<forall>e \<in> set es. \<not> B e)"
    and "\<And>b' es. N b b' es \<Longrightarrow> outcome (runStages d ss b') (\<lambda>_ es. preceded G B es)"
  shows "outcome (runStages d (s # ss) b) (\<lambda>_ es. preceded G B es)"
  by (rule runStages_own [OF assms(1,2)]) (use assms(3) in \<open>auto intro: preceded_none\<close>)


lemma runStages_pass:
  assumes "contract A N s" "\<And>e. B e \<Longrightarrow> effectOf e \<noteq> Observes \<and> effectOf e \<notin> A"
    and "\<And>b' es. N b b' es \<Longrightarrow> outcome (runStages d ss b') (\<lambda>_ es. preceded G B es)"
  shows "outcome (runStages d (s # ss) b) (\<lambda>_ es. preceded G B es)"
proof (rule runStages_skip [OF assms(1)])
  show "outcome (s b) (\<lambda>_ es. \<forall>e \<in> set es. \<not> B e)"
    by (rule outcome_mono [OF contractD [OF assms(1)]]) (use assms(2) in \<open>auto simp: within_def\<close>)
qed (rule assms(3))

text \<open>... and a stage without \<open>B\<close> events that lets the workflow go on only after a \<open>G\<close> event ends the proof.\<close>

lemma runStages_gate:
  assumes "contract A N s" "\<And>e. B e \<Longrightarrow> effectOf e \<noteq> Observes \<and> effectOf e \<notin> A"
    and "\<And>b' es. N b b' es \<Longrightarrow> \<exists>e \<in> set es. G e" and "list_all (staged UNIV) ss"
  shows "outcome (runStages d (s # ss) b) (\<lambda>_ es. preceded G B es)"
proof (rule runStages_Cons [OF contractD [OF assms(1)]], goal_cases)
  case (3 err b' es)
  then have "preceded G B es" "\<exists>e \<in> set es. G e"
    using assms(2,3) by (auto simp: within_def intro!: preceded_none)
  then show ?case
    by (intro outcome_mono [OF runStages_within [OF assms(4)]]) (simp add: preceded_append)
qed (use assms(2) in \<open>auto simp: within_def intro!: preceded_none\<close>)

text \<open>Nothing has to be shown when no stage of the sequence can cause a \<open>B\<close> event.\<close>

lemma runStages_never:
  assumes "list_all (staged A) ss" "\<And>e. B e \<Longrightarrow> effectOf e \<noteq> Observes \<and> effectOf e \<notin> A"
  shows "outcome (runStages d ss b) (\<lambda>_ es. preceded G B es)"
  by (rule outcome_mono [OF runStages_within [OF assms(1)]])
    (use assms(2) in \<open>auto simp: within_def intro!: preceded_none\<close>)



section \<open>The backup at hand\<close>

text \<open>
  The backup a reconciliation of the key \<open>k\<close> works on, as its log shows it: the answer to the read of
  \<open>k\<close>, and then whatever the API server answered to a write of the backup at hand.
\<close>

inductive theBackup :: "key \<Rightarrow> event list \<Rightarrow> backup \<Rightarrow> bool" for k es where
  onRead: "OnBackup (Get k (Inr b)) \<in> set es \<Longrightarrow> theBackup k es b"
| onWrite: "theBackup k es a \<Longrightarrow> e \<in> set es \<Longrightarrow> answeredWrite a b e \<Longrightarrow> theBackup k es b"

lemma theBackup_later: "theBackup k xs b \<Longrightarrow> theBackup k (xs @ ys) b"
  by (induction rule: theBackup.induct) (auto intro: theBackup.intros)

text \<open>What a stage gets is that object.\<close>

definition atHand :: "key \<Rightarrow> event list \<Rightarrow> backup \<Rightarrow> bool" where
  "atHand k es b \<longleftrightarrow> (\<exists>a. theBackup k es a \<and> sameObject a b)"

lemma sameObject_trans: "sameObject a b \<Longrightarrow> sameObject b c \<Longrightarrow> sameObject a c"
  by (simp add: sameObject_def)

lemma answeredWrite_same: "answeredWrite b a e \<Longrightarrow> sameObject b' b \<Longrightarrow> answeredWrite b' a e"
  by (cases "(b, a, e)" rule: answeredWrite.cases) (auto simp: sameObject_def)

lemma atHand_read: "OnBackup (Get k (Inr b)) \<in> set es \<Longrightarrow> atHand k es b"
  by (auto simp: atHand_def intro: theBackup.intros)

lemma atHand_handsOn:
  assumes "atHand k xs b" "handsOn b b' ys"
  shows "atHand k (xs @ ys) b'"
proof -
  from assms(1) obtain a where a: "theBackup k (xs @ ys) a" "sameObject a b"
    by (auto simp: atHand_def intro: theBackup_later)
  from assms(2) show ?thesis
    unfolding handsOn_def
  proof (elim disjE exE conjE bexE)
    assume "sameObject b b'"
    with a show ?thesis by (auto simp: atHand_def intro: sameObject_trans)
  next
    fix a' e assume e: "e \<in> set ys" "answeredWrite b a' e" and "sameObject a' b'"
    with a have "theBackup k (xs @ ys) a'"
      by (intro theBackup.onWrite [OF a(1)]) (auto intro: answeredWrite_same)
    with \<open>sameObject a' b'\<close> show ?thesis by (auto simp: atHand_def)
  qed
qed

text \<open>
  A stage that causes no \<open>B\<close> event and hands its backup on; a sequence of them only brings the backup at
  hand up to date, so an order the rest keeps for whatever backup it gets is kept for the backup at hand.
\<close>

definition passesOn :: "(event \<Rightarrow> bool) \<Rightarrow> 's stage \<Rightarrow> bool" where
  "passesOn B s \<longleftrightarrow> (\<exists>A. contract A handsOn s \<and> (\<forall>e. B e \<longrightarrow> effectOf e \<noteq> Observes \<and> effectOf e \<notin> A))"

lemma passesOn_contract:
  assumes "contract A N s" "\<And>b b' es. N b b' es \<Longrightarrow> handsOn b b' es"
    and "\<And>e. B e \<Longrightarrow> effectOf e \<noteq> Observes \<and> effectOf e \<notin> A"
  shows "passesOn B s"
proof -
  have "contract A handsOn s"
    unfolding contract_def
    by (intro allI outcome_mono [OF contractD [OF assms(1)]]) (use assms(2) in auto)
  with assms(3) show ?thesis by (auto simp: passesOn_def)
qed

definition guardsRest :: "key \<Rightarrow> (backup \<Rightarrow> event \<Rightarrow> bool) \<Rightarrow> (event \<Rightarrow> bool) \<Rightarrow> backup \<Rightarrow> event list \<Rightarrow> bool" where
  "guardsRest k G B b es \<longleftrightarrow>
     (\<forall>pre. atHand k pre b \<longrightarrow> (\<forall>e \<in> set pre. \<not> B e) \<longrightarrow> guarded (theBackup k) G B (pre @ es))"

lemma guardsRest_intro:
  assumes "preceded (G b) B es" "\<And>a e. sameObject a b \<Longrightarrow> G b e \<Longrightarrow> G a e"
  shows "guardsRest k G B b es"
  unfolding guardsRest_def atHand_def
proof (intro allI impI, elim exE conjE)
  fix pre a assume a: "theBackup k pre a" "sameObject a b" and "\<forall>e \<in> set pre. \<not> B e"
  moreover have "preceded (G a) B es"
    by (rule preceded_mono [OF assms(1)]) (use assms(2) a(2) in auto)
  ultimately show "guarded (theBackup k) G B (pre @ es)"
    by (intro guarded_after [of pre B "theBackup k" a]) (auto intro: theBackup_later)
qed

lemma guardsRest_quiet: "(\<And>e. e \<in> set es \<Longrightarrow> \<not> B e) \<Longrightarrow> guardsRest k G B b es"
  unfolding guardsRest_def by (auto intro!: guarded_none)

lemma runStages_passOn:
  assumes "list_all (passesOn B) ss"
    and "\<And>b. outcome (runStages d ts b) (\<lambda>_ es. preceded (G b) B es)"
    and "\<And>a b e. sameObject a b \<Longrightarrow> G b e \<Longrightarrow> G a e"
  shows "outcome (runStages d (ss @ ts) b) (\<lambda>_ es. guardsRest k G B b es)"
  using assms(1)
proof (induction ss arbitrary: b)
  case Nil
  show ?case
    by (simp, rule outcome_mono [OF assms(2)]) (rule guardsRest_intro, use assms(3) in auto)
next
  case (Cons s ss)
  then obtain A where A: "contract A handsOn s" and B: "\<And>e. B e \<Longrightarrow> effectOf e \<noteq> Observes \<and> effectOf e \<notin> A"
    by (auto simp: passesOn_def)
  have quiet: "\<not> B e" if "within A es" "e \<in> set es" for e es
    using B that by (auto simp: within_def)
  show ?case
    unfolding append_Cons
  proof (rule runStages_Cons [OF contractD [OF A]], goal_cases)
    case (3 err b' es)
    then have "handsOn b b' es" "within A es" by auto
    then show ?case
      using Cons.prems
      by (intro outcome_mono [OF Cons.IH [of b']])
        (auto simp: guardsRest_def atHand_handsOn quiet ball_Un simp flip: append_assoc)
  qed (auto intro!: guardsRest_quiet dest: quiet)
qed

section \<open>The interface of the controller\<close>

text \<open>The provider backup of a backup, up to the storage location and the labels.\<close>

definition providerBackupOf :: "backup \<Rightarrow> velero_backup \<Rightarrow> bool" where
  "providerBackupOf b v \<longleftrightarrow>
     v = CreateVeleroBackupResource b (storageLocation (vb_spec v)) (o_labels v)"

text \<open>The events the ordering statements are about.\<close>

fun createsProviderBackup :: "velero_backup \<Rightarrow> event \<Rightarrow> bool" where
  "createsProviderBackup v (OnVeleroBackup (Create w u)) \<longleftrightarrow> w = v"
| "createsProviderBackup v e = False"

fun deletesLease :: "lease \<Rightarrow> event \<Rightarrow> bool" where
  "deletesLease l (OnLease (Delete m opts u)) \<longleftrightarrow> m = l"
| "deletesLease l e = False"

lemma createsProviderBackup_effect [simp]: "createsProviderBackup v e \<Longrightarrow> effectOf e = CreatesProviderBackup"
  by (cases "(v, e)" rule: createsProviderBackup.cases) auto

lemma deletesLease_effect [simp]: "deletesLease l e \<Longrightarrow> effectOf e = ReleasesLease"
  by (cases "(l, e)" rule: deletesLease.cases) auto

lemma closesRun_effect' [simp]: "closesRun b e \<Longrightarrow> effectOf e = PatchesStatus"
  using closesRun_effect by blast

lemma metrics_create_nothing [simp]: "metricsOnly ms \<Longrightarrow> e \<in> set ms \<Longrightarrow> \<not> createsProviderBackup v e"
  by (auto simp: metricsOnly_def)

text \<open>That a lease was read and names a backup as its holder.\<close>

definition sawHolder :: "lease \<Rightarrow> backup \<Rightarrow> event \<Rightarrow> bool" where
  "sawHolder l b e \<longleftrightarrow> e = OnLease (Get (leaseKeyOf b) (Inr l)) \<and> namesHolder l b backupLeaseHolderKind"

lemma sawOwnLease_holder: "sawOwnLease b e \<longleftrightarrow> (\<exists>l. sawHolder l b e)"
  by (auto simp: sawOwnLease_def sawHolder_def IsHolder_names)

text \<open>That the maintenance mode was handled for a backup which a lease names as its holder.\<close>

definition handledByHolder :: "lease \<Rightarrow> backup \<Rightarrow> event \<Rightarrow> bool" where
  "handledByHolder l b e \<longleftrightarrow> namesHolder l b backupLeaseHolderKind \<and> sawMaintenanceHandled b e"

lemma saw_sameObject:
  "sameObject a b \<Longrightarrow> sawHolder l b e \<Longrightarrow> sawHolder l a e"
  "sameObject a b \<Longrightarrow> sawOwnLease b e \<Longrightarrow> sawOwnLease a e"
  "sameObject a b \<Longrightarrow> handledByHolder l b e \<Longrightarrow> handledByHolder l a e"
  by (auto simp: sameObject_def sawHolder_def namesHolder_def sawOwnLease_def handledByHolder_def
      sawMaintenanceHandled_def IsHolder_names)

text \<open>What a stage can see of the provider backup of a backup.\<close>

definition sawProviderBackupGone :: "backup \<Rightarrow> event \<Rightarrow> bool" where
  "sawProviderBackupGone b e \<longleftrightarrow> (\<exists>x. e = OnVeleroBackup (Get (keyOf b) (Inl x)) \<and> isNotFound x)"

definition sawProviderBackupIdle :: "backup \<Rightarrow> event \<Rightarrow> bool" where
  "sawProviderBackupIdle b e \<longleftrightarrow>
     (\<exists>v. e = OnVeleroBackup (Get (keyOf b) (Inr v)) \<and> \<not> isProviderBackupInProgress v)"

locale backup_reconciler =
  fixes r :: "'s reconciler" and E :: "'s env"
  assumes leaseReleased: "contract {ReleasesLease}
      (\<lambda>b b' es. b' = b \<and> (\<exists>e \<in> set es. sawLeaseGone b e)) (rs_leaseReleased r)"
    and providerBackupDeleted: "contract {PatchesStatus, UpdatesBackup, RequestsDeletion, WithdrawsDeletion}
      anything (rs_providerBackupDeleted r)"
    and orphanedBackupDeleted: "contract {DeletesBackup} (\<lambda>b b' es. b' = b) (rs_orphanedBackupDeleted r)"
    and canceledProviderBackupDeleted: "contract {PatchesStatus, RequestsDeletion, WithdrawsDeletion}
      anything (rs_canceledProviderBackupDeleted r)"
    and veleroStatusSynced: "contract {PatchesStatus} (\<lambda>b b' es. b' = b \<and> \<not> b_synced b \<and> es = [])
      (rs_veleroStatusSynced r)"
    and conditionsInitialized: "contract {PatchesStatus} handsOn (rs_conditionsInitialized r)"
    and backupSetup: "contract {UpdatesBackup} handsOn (rs_backupSetup r)"
    and canceledAfterTimeWindow: "contract {PatchesStatus} handsOn (rs_canceledAfterTimeWindow r)"
    and prepared: "contract {PatchesStatus} handsOn (rs_prepared r)"
    and activeLease: "contract {ClaimsLease}
      (\<lambda>b b' es. b' = b \<and> (\<exists>e \<in> set es. sawOwnLease b e)) (rs_activeLease r)"
    and maintenanceActivated: "contract {MaintenanceOn, PatchesStatus}
      (\<lambda>b b' es. b' = b \<and> MaintenanceStatus (Inr True) \<in> set es) (rs_maintenanceActivated r)"
    and providerBackupCreated: "contract {CreatesProviderBackup, PatchesStatus}
      (\<lambda>b b' es. b' = b \<and> (\<exists>v. es = [OnVeleroBackup (Get (keyOf b) (Inr v))])) (rs_providerBackupCreated r)"
    and providerBackupCompleted: "contract {PatchesStatus} handsOn (rs_providerBackupCompleted r)"
    and maintenanceDeactivated: "contract {MaintenanceOff}
      (\<lambda>b b' es. b' = b \<and> (\<exists>e \<in> set es. sawMaintenanceHandled b e)) (rs_maintenanceDeactivated r)"
    and runCompleted: "contract {PatchesStatus} (\<lambda>_ _ _. False) (rs_runCompleted r)"
    and creates_its_own: "outcome (rs_providerBackupCreated r b)
      (\<lambda>_ es. \<forall>e \<in> set es. \<forall>v. createsProviderBackup v e \<longrightarrow> providerBackupOf b v)"
    and releases_its_own: "outcome (rs_leaseReleased r b)
      (\<lambda>_ es. preceded (sawHolder l b) (deletesLease l) es)"
    and deactivates_as_holder: "outcome (rs_maintenanceDeactivated r b)
      (\<lambda>_ es. preceded (sawOwnLease b) (\<lambda>e. effectOf e = MaintenanceOff) es)"
    and finalizer_after_provider: "outcome (rs_providerBackupDeleted r b)
      (\<lambda>_ es. preceded (sawProviderBackupGone b) (\<lambda>e. effectOf e = UpdatesBackup) es)"
    and requests_when_idle: "outcome (rs_providerBackupDeleted r b)
      (\<lambda>_ es. preceded (sawProviderBackupIdle b) (\<lambda>e. effectOf e = RequestsDeletion) es)"
      "outcome (rs_canceledProviderBackupDeleted r b)
      (\<lambda>_ es. preceded (sawProviderBackupIdle b) (\<lambda>e. effectOf e = RequestsDeletion) es)"
    and orphans: "outcome (rs_orphanedBackupDeleted r b)
      (\<lambda>_ es. preceded (sawProviderBackupGone b) (\<lambda>e. effectOf e = DeletesBackup) es)"
    and keeps_open: "meta_laws E \<Longrightarrow> list_all keepsOpen [rs_veleroStatusSynced r, rs_conditionsInitialized r,
      rs_canceledAfterTimeWindow r, rs_prepared r, rs_maintenanceActivated r, rs_providerBackupCreated r,
      rs_providerBackupCompleted r, rs_providerBackupDeleted r, rs_canceledProviderBackupDeleted r]"
    and closes_its_own: "outcome (rs_runCompleted r b)
      (\<lambda>_ es. \<forall>e \<in> set es. \<forall>a. closesRun a e \<longrightarrow> a = b)"
begin

end

fun operationEffects :: "operation \<Rightarrow> effect set" where
  "operationEffects operationDelete = {MaintenanceOff, ReleasesLease, PatchesStatus, UpdatesBackup,
     RequestsDeletion, WithdrawsDeletion}"
| "operationEffects operationIgnore = {DeletesBackup, PatchesStatus, RequestsDeletion, WithdrawsDeletion}"
| "operationEffects operationFinalize = {MaintenanceOff, ReleasesLease, PatchesStatus}"
| "operationEffects operationCreate = {PatchesStatus, UpdatesBackup, ClaimsLease, MaintenanceOn,
     CreatesProviderBackup, MaintenanceOff, ReleasesLease}"

context backup_reconciler begin

lemmas stages = leaseReleased providerBackupDeleted orphanedBackupDeleted canceledProviderBackupDeleted
  veleroStatusSynced conditionsInitialized backupSetup canceledAfterTimeWindow prepared activeLease
  maintenanceActivated providerBackupCreated providerBackupCompleted maintenanceDeactivated runCompleted

lemmas any_stages [simp] = stages [THEN staged_mono, OF subset_UNIV]

lemma operation_within:
  "outcome (runStages d (getStagesForOperation r op) b)
     (\<lambda>res es. within (operationEffects op) es \<and> wellFormed d res)"
  by (rule runStages_within)
    (cases op; simp add: cleanupStages_def finalizeStages_def stages [THEN staged_mono])

text \<open>The cleanup deletes no lease but the one it read as the backup's, with the maintenance mode handled.\<close>

lemma cleanup_releases:
  assumes "list_all (staged (UNIV - {ReleasesLease})) ss"
  shows "outcome (runStages d (cleanupStages r @ ss) b) (\<lambda>_ es. preceded (sawHolder l b) (deletesLease l) es)"
    and "outcome (runStages d (cleanupStages r @ ss) b) (\<lambda>_ es. preceded (handledByHolder l b) (deletesLease l) es)"
proof -
  have rest: "outcome (runStages d ss b') (\<lambda>_ es. preceded G (deletesLease l) es)" for b' G
    by (rule runStages_never [OF assms]) simp
  show "outcome (runStages d (cleanupStages r @ ss) b) (\<lambda>_ es. preceded (sawHolder l b) (deletesLease l) es)"
    unfolding cleanupStages_def append.simps
    by (intro runStages_pass [OF maintenanceDeactivated])
      (auto intro!: runStages_own [OF leaseReleased releases_its_own] rest)
  show "outcome (runStages d (cleanupStages r @ ss) b) (\<lambda>_ es. preceded (handledByHolder l b) (deletesLease l) es)"
  proof (cases "namesHolder l b backupLeaseHolderKind")
    case True
    have "list_all (staged UNIV) ss"
      using assms by (auto simp: list_all_iff intro: staged_UNIV)
    with True show ?thesis
      unfolding cleanupStages_def append.simps
      by (intro runStages_gate [OF maintenanceDeactivated]) (auto simp: handledByHolder_def)
  next
    case False
    then have own: "preceded (sawHolder l b) (deletesLease l) es \<Longrightarrow>
        preceded (handledByHolder l b) (deletesLease l) es" for es
      by (auto elim!: preceded_mono simp: sawHolder_def)
    show ?thesis
      unfolding cleanupStages_def append.simps
      by (intro runStages_pass [OF maintenanceDeactivated])
        (auto intro!: runStages_own [OF leaseReleased releases_its_own] rest own)
  qed
qed

text \<open>It leaves the maintenance mode only as the holder of the lease.\<close>

lemma cleanup_deactivates:
  assumes "list_all (staged (UNIV - {MaintenanceOff})) ss"
  shows "outcome (runStages d (cleanupStages r @ ss) b) (\<lambda>_ es.
     preceded (sawOwnLease b) (\<lambda>e. effectOf e = MaintenanceOff) es)"
  unfolding cleanupStages_def append.simps
proof (rule runStages_own [OF maintenanceDeactivated deactivates_as_holder [of b]])
  show "outcome (runStages d (rs_leaseReleased r # ss) b') (\<lambda>_ es.
      preceded (sawOwnLease b) (\<lambda>e. effectOf e = MaintenanceOff) es)" for b'
    by (rule runStages_never [of "UNIV - {MaintenanceOff}"])
      (use assms leaseReleased [THEN staged_mono] in auto)
qed

text \<open>All that comes before the cleanup, or before the lease, only brings the backup at hand up to date.\<close>

lemma before_lease_passes:
  assumes "\<And>e. B e \<Longrightarrow> effectOf e \<notin> {Observes, PatchesStatus, UpdatesBackup}"
  shows "list_all (passesOn B) [rs_veleroStatusSynced r, rs_conditionsInitialized r, rs_backupSetup r,
    rs_canceledAfterTimeWindow r, rs_prepared r]"
  unfolding list.pred_inject
  by (intro conjI passesOn_contract [OF veleroStatusSynced] passesOn_contract [OF conditionsInitialized]
      passesOn_contract [OF backupSetup] passesOn_contract [OF canceledAfterTimeWindow]
      passesOn_contract [OF prepared]) (use assms in auto)

lemma under_lease_passes:
  assumes "\<And>e. B e \<Longrightarrow>
    effectOf e \<notin> {Observes, PatchesStatus, ClaimsLease, MaintenanceOn, CreatesProviderBackup}"
  shows "list_all (passesOn B) [rs_activeLease r, rs_maintenanceActivated r, rs_providerBackupCreated r,
    rs_providerBackupCompleted r]"
  unfolding list.pred_inject
  by (intro conjI passesOn_contract [OF activeLease] passesOn_contract [OF maintenanceActivated]
      passesOn_contract [OF providerBackupCreated] passesOn_contract [OF providerBackupCompleted])
    (use assms in auto)

lemma cleanup_guards:
  assumes "\<And>e. B e \<Longrightarrow> effectOf e = ReleasesLease \<or> effectOf e = MaintenanceOff"
    and "\<And>s b. s = rs_runCompleted r \<or> s = rs_providerBackupDeleted r \<Longrightarrow>
      outcome (runStages d (cleanupStages r @ [s]) b) (\<lambda>_ es. preceded (G b) B es)"
    and "\<And>a b e. sameObject a b \<Longrightarrow> G b e \<Longrightarrow> G a e"
  shows "outcome (runStages d (getStagesForOperation r op) b) (\<lambda>_ es. guardsRest k G B b es)"
proof (cases op)
  case operationCreate
  have "list_all (passesOn B) ([rs_veleroStatusSynced r, rs_conditionsInitialized r, rs_backupSetup r,
      rs_canceledAfterTimeWindow r, rs_prepared r] @ [rs_activeLease r, rs_maintenanceActivated r,
      rs_providerBackupCreated r, rs_providerBackupCompleted r])"
    unfolding list_all_append
    by (intro conjI before_lease_passes under_lease_passes) (use assms(1) in fastforce)+
  from runStages_passOn [OF this, where ts = "cleanupStages r @ [rs_runCompleted r]" and G = G,
      OF assms(2) assms(3)]
  show ?thesis by (simp add: operationCreate finalizeStages_def)
next
  case operationIgnore
  then show ?thesis
    by (intro outcome_mono [OF operation_within])
      (use assms(1) in \<open>fastforce simp: within_def intro!: guardsRest_quiet\<close>)
next
  case operationDelete
  with runStages_passOn [where ss = "[]" and ts = "cleanupStages r @ [rs_providerBackupDeleted r]" and G = G and B = B,
      OF _ assms(2) assms(3)]
  show ?thesis by simp
next
  case operationFinalize
  with runStages_passOn [where ss = "[]" and ts = "cleanupStages r @ [rs_runCompleted r]" and G = G and B = B,
      OF _ assms(2) assms(3)]
  show ?thesis by (simp add: finalizeStages_def)
qed

text \<open>So every operation deletes a lease, and leaves the maintenance mode, only for the backup at hand.\<close>

lemma run_releases:
  "outcome (runStages d (getStagesForOperation r op) b) (\<lambda>_ es. guardsRest k (sawHolder l) (deletesLease l) b es)"
  "outcome (runStages d (getStagesForOperation r op) b) (\<lambda>_ es. guardsRest k (handledByHolder l) (deletesLease l) b es)"
  by (rule cleanup_guards;
    auto intro!: cleanup_releases staged_mono [OF runCompleted] staged_mono [OF providerBackupDeleted]
      dest: saw_sameObject)+

lemma run_deactivates:
  "outcome (runStages d (getStagesForOperation r op) b)
     (\<lambda>_ es. guardsRest k sawOwnLease (\<lambda>e. effectOf e = MaintenanceOff) b es)"
  by (rule cleanup_guards)
    (auto intro!: cleanup_deactivates staged_mono [OF runCompleted] staged_mono [OF providerBackupDeleted]
      dest: saw_sameObject)

lemma run_activates:
  "outcome (runStages d (getStagesForOperation r op) b)
     (\<lambda>_ es. guardsRest k sawOwnLease (\<lambda>e. effectOf e = MaintenanceOn) b es)"
proof (cases "op = operationCreate")
  case True
  have tail: "outcome (runStages d [rs_activeLease r, rs_maintenanceActivated r, rs_providerBackupCreated r,
      rs_providerBackupCompleted r, rs_maintenanceDeactivated r, rs_leaseReleased r, rs_runCompleted r] b)
      (\<lambda>_ es. preceded (sawOwnLease b) (\<lambda>e. effectOf e = MaintenanceOn) es)" for b
    by (intro runStages_gate [OF activeLease]) auto
  from runStages_passOn [OF before_lease_passes tail saw_sameObject(2)] show ?thesis
    by (simp add: True finalizeStages_def cleanupStages_def)
next
  case False
  then show ?thesis
    by (intro outcome_mono [OF operation_within]) (cases op; auto simp: within_def intro!: guardsRest_quiet)
qed

end

context backup_reconciler begin

text \<open>A provider backup is created only by a run that holds the lease, for the backup holding it, ...\<close>

lemma create_pass_lease:
  "outcome (runStages d [rs_activeLease r, rs_maintenanceActivated r, rs_providerBackupCreated r,
       rs_providerBackupCompleted r, rs_maintenanceDeactivated r, rs_leaseReleased r, rs_runCompleted r] b)
     (\<lambda>_ es. preceded (\<lambda>e. \<exists>a. providerBackupOf a v \<and> sawOwnLease a e) (createsProviderBackup v) es)"
proof (cases "providerBackupOf b v")
  case True
  then show ?thesis
    by (intro runStages_gate [OF activeLease]) auto
next
  case False
  have own: "outcome (rs_providerBackupCreated r b) (\<lambda>_ es. \<forall>e \<in> set es. \<not> createsProviderBackup v e)"
    by (rule outcome_mono [OF creates_its_own]) (use False in auto)
  have rest: "outcome (runStages d [rs_providerBackupCompleted r, rs_maintenanceDeactivated r,
      rs_leaseReleased r, rs_runCompleted r] b') (\<lambda>_ es. preceded G (createsProviderBackup v) es)" for b' G
    by (rule runStages_never [of "UNIV - {CreatesProviderBackup}"])
      (auto intro: providerBackupCompleted [THEN staged_mono] maintenanceDeactivated [THEN staged_mono]
        leaseReleased [THEN staged_mono] runCompleted [THEN staged_mono])
  show ?thesis
    by (auto intro!: runStages_pass [OF activeLease] runStages_pass [OF maintenanceActivated]
        runStages_skip [OF providerBackupCreated own] rest)
qed

lemma creates_as_holder:
  "outcome (runStages d (getStagesForOperation r op) b)
     (\<lambda>_ es. preceded (\<lambda>e. \<exists>a. providerBackupOf a v \<and> sawOwnLease a e) (createsProviderBackup v) es)"
proof (cases "op = operationCreate")
  case True
  show ?thesis
    unfolding True getStagesForOperation.simps finalizeStages_def cleanupStages_def append.simps
    by (intro runStages_pass [OF veleroStatusSynced] runStages_pass [OF conditionsInitialized]
        runStages_pass [OF backupSetup] runStages_pass [OF canceledAfterTimeWindow]
        runStages_pass [OF prepared] create_pass_lease) auto
next
  case False
  then show ?thesis
    by (intro outcome_mono [OF operation_within]) (cases op; auto simp: within_def intro!: preceded_none)
qed

text \<open>... and only in a maintenance mode this reconciliation has seen to be active.\<close>

lemma creates_in_maintenance:
  "outcome (runStages d (getStagesForOperation r op) b)
     (\<lambda>_ es. preceded (\<lambda>e. e = MaintenanceStatus (Inr True)) (createsProviderBackup v) es)"
proof (cases "op = operationCreate")
  case True
  show ?thesis
    unfolding True getStagesForOperation.simps finalizeStages_def cleanupStages_def append.simps
    by (intro runStages_pass [OF veleroStatusSynced] runStages_pass [OF conditionsInitialized]
        runStages_pass [OF backupSetup] runStages_pass [OF canceledAfterTimeWindow]
        runStages_pass [OF prepared] runStages_pass [OF activeLease]
        runStages_gate [OF maintenanceActivated]) auto
next
  case False
  then show ?thesis
    by (intro outcome_mono [OF operation_within]) (cases op; auto simp: within_def intro!: preceded_none)
qed

text \<open>
  A deleted backup loses its finalizer only after its lease is gone, the maintenance mode handled and
  its provider backup seen to be gone.
\<close>

lemma deletion_after_cleanup:
  "outcome (runStages d (getStagesForOperation r operationDelete) b)
     (\<lambda>_ es. preceded (sawLeaseGone b) (\<lambda>e. effectOf e = UpdatesBackup) es \<and>
             preceded (sawMaintenanceHandled b) (\<lambda>e. effectOf e = UpdatesBackup) es \<and>
             preceded (sawProviderBackupGone b) (\<lambda>e. effectOf e = UpdatesBackup) es)"
  unfolding getStagesForOperation.simps cleanupStages_def append.simps
proof (intro outcome_conj)
  show "outcome (runStages d [rs_maintenanceDeactivated r, rs_leaseReleased r, rs_providerBackupDeleted r] b)
      (\<lambda>_ es. preceded (sawLeaseGone b) (\<lambda>e. effectOf e = UpdatesBackup) es)"
    by (intro runStages_pass [OF maintenanceDeactivated]) (auto intro!: runStages_gate [OF leaseReleased])
  show "outcome (runStages d [rs_maintenanceDeactivated r, rs_leaseReleased r, rs_providerBackupDeleted r] b)
      (\<lambda>_ es. preceded (sawMaintenanceHandled b) (\<lambda>e. effectOf e = UpdatesBackup) es)"
    by (intro runStages_gate [OF maintenanceDeactivated]) auto
  show "outcome (runStages d [rs_maintenanceDeactivated r, rs_leaseReleased r, rs_providerBackupDeleted r] b)
      (\<lambda>_ es. preceded (sawProviderBackupGone b) (\<lambda>e. effectOf e = UpdatesBackup) es)"
    by (intro runStages_pass [OF maintenanceDeactivated]) (auto intro!: runStages_pass [OF leaseReleased]
      runStages_own [OF providerBackupDeleted finalizer_after_provider] outcome_intro)
qed

text \<open>The provider is asked to delete a provider backup only when that was seen not to be running.\<close>

lemma requests_deletion_when_idle:
  "outcome (runStages d (getStagesForOperation r op) b)
     (\<lambda>_ es. preceded (sawProviderBackupIdle b) (\<lambda>e. effectOf e = RequestsDeletion) es)"
proof (cases op)
  case operationDelete
  show ?thesis
    unfolding operationDelete getStagesForOperation.simps cleanupStages_def append.simps
    by (intro runStages_pass [OF maintenanceDeactivated]) (auto intro!: runStages_pass [OF leaseReleased]
      runStages_own [OF providerBackupDeleted requests_when_idle(1)] outcome_intro)
next
  case operationIgnore
  show ?thesis
    unfolding operationIgnore getStagesForOperation.simps
    by (intro runStages_pass [OF orphanedBackupDeleted]) (auto intro!:
      runStages_own [OF canceledProviderBackupDeleted requests_when_idle(2)] outcome_intro)
next
  case operationFinalize
  then show ?thesis
    by (intro outcome_mono [OF operation_within]) (auto simp: within_def intro!: preceded_none)
next
  case operationCreate
  then show ?thesis
    by (intro outcome_mono [OF operation_within]) (auto simp: within_def intro!: preceded_none)
qed

text \<open>A backup is removed on behalf of the provider only when its provider backup was seen to be gone.\<close>

lemma deletes_orphans:
  "outcome (runStages d (getStagesForOperation r op) b)
     (\<lambda>_ es. preceded (sawProviderBackupGone b) (\<lambda>e. effectOf e = DeletesBackup) es)"
proof (cases "op = operationIgnore")
  case True
  show ?thesis
    unfolding True getStagesForOperation.simps
    by (intro runStages_own [OF orphanedBackupDeleted orphans]) (auto intro!:
      runStages_pass [OF canceledProviderBackupDeleted] outcome_intro)
next
  case False
  then show ?thesis
    by (intro outcome_mono [OF operation_within]) (cases op; auto simp: within_def intro!: preceded_none)
qed

text \<open>
  The run of a backup is closed only after its lease is gone and the maintenance mode handled: nobody
  waiting for the lease is kept waiting by a backup that says it is done.
\<close>

lemma runs_keep_open:
  assumes "meta_laws E"
  shows "\<And>b. outcome (rs_veleroStatusSynced r b) (\<lambda>_ es. \<forall>e \<in> set es. \<not> closesRun a e)"
    "\<And>b. outcome (rs_conditionsInitialized r b) (\<lambda>_ es. \<forall>e \<in> set es. \<not> closesRun a e)"
    "\<And>b. outcome (rs_canceledAfterTimeWindow r b) (\<lambda>_ es. \<forall>e \<in> set es. \<not> closesRun a e)"
    "\<And>b. outcome (rs_prepared r b) (\<lambda>_ es. \<forall>e \<in> set es. \<not> closesRun a e)"
    "\<And>b. outcome (rs_maintenanceActivated r b) (\<lambda>_ es. \<forall>e \<in> set es. \<not> closesRun a e)"
    "\<And>b. outcome (rs_providerBackupCreated r b) (\<lambda>_ es. \<forall>e \<in> set es. \<not> closesRun a e)"
    "\<And>b. outcome (rs_providerBackupCompleted r b) (\<lambda>_ es. \<forall>e \<in> set es. \<not> closesRun a e)"
    "\<And>b. outcome (rs_providerBackupDeleted r b) (\<lambda>_ es. \<forall>e \<in> set es. \<not> closesRun a e)"
    "\<And>b. outcome (rs_canceledProviderBackupDeleted r b) (\<lambda>_ es. \<forall>e \<in> set es. \<not> closesRun a e)"
  using keeps_open [OF assms] by (auto simp: keepsOpen_def elim!: allE outcome_mono)

lemma finalize_closes_after_release:
  "outcome (runStages d (finalizeStages r) b) (\<lambda>_ es.
     preceded (sawLeaseGone a) (closesRun a) es \<and> preceded (sawMaintenanceHandled a) (closesRun a) es)"
proof (cases "a = b")
  case True
  then show ?thesis
    unfolding finalizeStages_def cleanupStages_def append.simps
    by (intro outcome_conj runStages_gate [OF maintenanceDeactivated] runStages_pass [OF maintenanceDeactivated])
      (auto intro!: runStages_gate [OF leaseReleased])
next
  case False
  then have own: "outcome (rs_runCompleted r b) (\<lambda>_ es. \<forall>e \<in> set es. \<not> closesRun a e)"
    by (intro outcome_mono [OF closes_its_own]) auto
  show ?thesis
    unfolding finalizeStages_def cleanupStages_def append.simps
    by (intro outcome_conj) (auto intro!: runStages_pass [OF maintenanceDeactivated]
        runStages_pass [OF leaseReleased] runStages_skip [OF runCompleted own])
qed

lemma closing_pipeline:
  assumes "meta_laws E"
    and "\<And>b'. outcome (runStages d (finalizeStages r) b') (\<lambda>_ es. preceded G (closesRun a) es)"
  shows "outcome (runStages d (getStagesForOperation r op) b) (\<lambda>_ es. preceded G (closesRun a) es)"
proof (cases op)
  case operationCreate
  note runs = runs_keep_open [OF assms(1)]
  show ?thesis
    unfolding operationCreate getStagesForOperation.simps append.simps
    by (intro runStages_skip [OF veleroStatusSynced runs(1)] runStages_skip [OF conditionsInitialized runs(2)]
        runStages_pass [OF backupSetup] runStages_skip [OF canceledAfterTimeWindow runs(3)]
        runStages_skip [OF prepared runs(4)] runStages_pass [OF activeLease]
        runStages_skip [OF maintenanceActivated runs(5)] runStages_skip [OF providerBackupCreated runs(6)]
        runStages_skip [OF providerBackupCompleted runs(7)] assms(2)) auto
next
  case operationDelete
  show ?thesis
    unfolding operationDelete getStagesForOperation.simps cleanupStages_def append.simps
    by (intro runStages_pass [OF maintenanceDeactivated] runStages_pass [OF leaseReleased]
        runStages_skip [OF providerBackupDeleted runs_keep_open(8) [OF assms(1)]]) (auto intro!: outcome_intro)
next
  case operationIgnore
  show ?thesis
    unfolding operationIgnore getStagesForOperation.simps
    by (intro runStages_pass [OF orphanedBackupDeleted]
        runStages_skip [OF canceledProviderBackupDeleted runs_keep_open(9) [OF assms(1)]])
      (auto intro!: outcome_intro)
qed (simp add: assms(2))

lemma closes_after_release:
  assumes "meta_laws E"
  shows "outcome (runStages d (getStagesForOperation r op) b) (\<lambda>_ es.
     preceded (sawLeaseGone a) (closesRun a) es \<and> preceded (sawMaintenanceHandled a) (closesRun a) es)"
  by (intro outcome_conj closing_pipeline [OF assms] finalize_closes_after_release [THEN outcome_mono]) auto

end

section \<open>The reconciler of the operator\<close>

lemma providerBackupOf_create [simp]: "providerBackupOf b (CreateVeleroBackupResource b s ls)"
  by (simp add: providerBackupOf_def)

lemma providerBackupCreated_own:
  "outcome (ensureProviderBackupCreated c b)
     (\<lambda>_ es. \<forall>e \<in> set es. \<forall>v. createsProviderBackup v e \<longrightarrow> providerBackupOf b v)"
  unfolding ensureProviderBackupCreated_def
  by (auto intro!: outcome_intro outcome_anyPatch split: stage_splits)

lemma leaseReleased_own:
  "outcome (ensureBackupLeaseReleased c b) (\<lambda>_ es. preceded (sawHolder l b) (deletesLease l) es)"
  unfolding ensureBackupLeaseReleased_def Release_def
  by (auto intro!: outcome_intro split: stage_splits simp: sawHolder_def IsHolder_names)

lemma maintenanceDeactivated_as_holder:
  "outcome (ensureMaintenanceDeactivated c b)
     (\<lambda>_ es. preceded (sawOwnLease b) (\<lambda>e. effectOf e = MaintenanceOff) es)"
  unfolding ensureMaintenanceDeactivated_def holdsBackupLease_def Holds_def
  by (auto intro!: outcome_intro split: stage_splits bool.splits simp: sawOwnLease_def)

lemma deleteProviderBackup_requests:
  "outcome (deleteProviderBackup c b pb sc)
     (\<lambda>_ es. isProviderBackupInProgress pb \<longrightarrow> (\<forall>e \<in> set es. effectOf e \<noteq> RequestsDeletion))"
proof (cases "isProviderBackupInProgress pb")
  case True
  have "outcome (waitForProviderBackupBeforeDeletion c b pb sc)
      (\<lambda>_ es. within {PatchesStatus, WithdrawsDeletion} es)"
    unfolding waitForProviderBackupBeforeDeletion_def Let_def
    by (rule outcome_call [OF deleteRequest_effects(2)])
      (auto intro!: outcome_intro outcome_anyPatch split: option.splits intro: within_mono
        simp del: getDeletingCondition.simps)
  with True show ?thesis
    unfolding deleteProviderBackup_def by (auto elim!: outcome_mono simp: within_def)
next
  case False
  then show ?thesis
    by (auto intro: outcome_mono [OF deleteProviderBackup_unfinished])
qed

lemma deleteProviderBackup_idle:
  "outcome (deleteProviderBackup c b pb sc) (\<lambda>_ es. preceded (sawProviderBackupIdle b)
     (\<lambda>e. effectOf e = RequestsDeletion) (OnVeleroBackup (Get (keyOf b) (Inr pb)) # es))"
  by (rule outcome_mono [OF deleteProviderBackup_requests])
    (auto simp: sawProviderBackupIdle_def intro: preceded_none)

lemma finalizer_after_providerBackup:
  "outcome (ensureProviderBackupDeleted c b)
     (\<lambda>_ es. preceded (sawProviderBackupGone b) (\<lambda>e. effectOf e = UpdatesBackup) es)"
proof -
  have "outcome (deleteProviderBackup c b pb sc) (\<lambda>_ es. preceded (sawProviderBackupGone b)
     (\<lambda>e. effectOf e = UpdatesBackup) es)" for pb sc
    by (rule outcome_mono [OF deleteProviderBackup_unfinished])
      (auto simp: within_def deletionEffects_def intro!: preceded_none)
  then show ?thesis
    unfolding ensureProviderBackupDeleted_def ensureDeletingProviderBackup_def
      finalizeProviderBackupDeletion_def Let_def
    by (auto intro!: outcome_intro outcome_anyPatch split: stage_splits
        simp: sawProviderBackupGone_def preceded_metrics)
qed

lemma requests_after_idle:
  "outcome (ensureProviderBackupDeleted c b)
     (\<lambda>_ es. preceded (sawProviderBackupIdle b) (\<lambda>e. effectOf e = RequestsDeletion) es)"
  "outcome (ensureCanceledProviderBackupDeleted c b)
     (\<lambda>_ es. preceded (sawProviderBackupIdle b) (\<lambda>e. effectOf e = RequestsDeletion) es)"
  unfolding ensureProviderBackupDeleted_def ensureDeletingProviderBackup_def
    finalizeProviderBackupDeletion_def ensureCanceledProviderBackupDeleted_def
    completeCanceledProviderBackupDeletion_def Let_def
  by (auto intro!: outcome_intro outcome_anyPatch outcome_mono [OF deleteProviderBackup_idle]
      split: stage_splits simp: preceded_metrics preceded_append simp del: getDeletingCondition.simps)

lemma orphaned_after_providerBackup:
  "outcome (ensureOrphanedBackupDeleted c b)
     (\<lambda>_ es. preceded (sawProviderBackupGone b) (\<lambda>e. effectOf e = DeletesBackup) es)"
  unfolding ensureOrphanedBackupDeleted_def
  by (auto intro!: outcome_intro split: stage_splits simp: sawProviderBackupGone_def)

interpretation backup_runs: backup_reconciler "reconcilerOf c" "client c" for c
  by unfold_locales
    (simp_all add: reconcilerOf_def contract_leaseReleased contract_providerBackupDeleted
      contract_orphanedBackupDeleted contract_canceledProviderBackupDeleted contract_veleroStatusSynced
      contract_conditionsInitialized contract_backupSetup contract_canceledAfterTimeWindow contract_prepared
      contract_activeLease contract_maintenanceActivated contract_providerBackupCreated
      contract_providerBackupCompleted contract_maintenanceDeactivated contract_runCompleted
      providerBackupCreated_own leaseReleased_own maintenanceDeactivated_as_holder
      finalizer_after_providerBackup requests_after_idle orphaned_after_providerBackup
      runCompleted_closes_its_backup keepsOpen_conditionsInitialized keepsOpen_canceledAfterTimeWindow
      keepsOpen_prepared keepsOpen_maintenanceActivated keepsOpen_providerBackupCreated
      keepsOpen_providerBackupCompleted keepsOpen_veleroStatusSynced keepsOpen_deletion)

section \<open>Reconcile\<close>

text \<open>Before its stages a reconciliation only counts itself, reads the backup and initializes metrics.\<close>

lemma Reconcile_outcome:
  assumes "\<And>b. outcome (runStages d (getStagesForOperation (reconcilerOf c) (requiredOperation (client c) b)) b)
      (\<lambda>res es. R b res es)"
    and "\<And>e. \<not> isNotFound e \<Longrightarrow> Q \<lparr>requeueAfter = 0, rerr = Some (Api e)\<rparr>
      [MetricAdd BackupReconcileTotal 1, OnBackup (Get k (Inl e))]"
    and "\<And>e. isNotFound e \<Longrightarrow> Q \<lparr>requeueAfter = 0, rerr = None\<rparr>
      [MetricAdd BackupReconcileTotal 1, OnBackup (Get k (Inl e))]"
    and "\<And>b ms res es. metricsOnly ms \<Longrightarrow> R b res es \<Longrightarrow>
      Q res (MetricAdd BackupReconcileTotal 1 # OnBackup (Get k (Inr b)) # ms @ es)"
  shows "outcome (Reconcile (backupController c d) k) Q"
proof -
  have stages: "outcome (do {
      _ \<leftarrow> InitBackupConditionTransitionMetrics (o_namespace b) (o_name b);
      _ \<leftarrow> InitBackupStatusMetrics (o_namespace b) (o_name b);
      _ \<leftarrow> InitInvalidLeaseTotalMetric (o_namespace b) (o_name b);
      runStages d (getStagesForOperation (reconcilerOf c) (requiredOperation (client c) b)) b
    }) (\<lambda>res es. \<exists>ms es'. es = ms @ es' \<and> metricsOnly ms \<and> R b res es')" for b
    by (intro outcome_call [OF outcome_initMetrics(1)] outcome_call [OF outcome_initMetrics(2)]
        outcome_call [OF outcome_initMetrics(3)] outcome_mono [OF assms(1)])
      (metis append.assoc metricsOnly_simps(3))
  show ?thesis
    unfolding Reconcile_def backupController_def
    using assms(2-) by (auto simp: UpdateBackupReconcileTotalMetric_def intro!: outcome_bind [of "metricAdd _ _"] outcome_metricAdd
        outcome_bind [of "apiGet _ _ _"] outcome_apiGet outcome_return outcome_mono [OF stages] split: sum.splits)
qed

text \<open>Before the stages nothing happens but the read that shows the backup at hand.\<close>

lemma Reconcile_guarded:
  assumes "\<And>op b. outcome (runStages d (getStagesForOperation (reconcilerOf c) op) b)
      (\<lambda>_ es. guardsRest k G B b es)"
    and "\<And>e. B e \<Longrightarrow> effectOf e \<noteq> Observes"
  shows "outcome (Reconcile (backupController c d) k) (\<lambda>_ es. guarded (theBackup k) G B es)"
proof -
  have start: "\<not> B (MetricAdd x n)" "\<not> B (OnBackup (Get k r))" for x n r
    using assms(2) by fastforce+
  show ?thesis
  proof (rule Reconcile_outcome [where R = "\<lambda>b _ es. guardsRest k G B b es", OF assms(1)], goal_cases)
    case (3 b ms res es)
    let ?pre = "MetricAdd BackupReconcileTotal 1 # OnBackup (Get k (Inr b)) # ms"
    have "\<not> B e" if "e \<in> set ?pre" for e
      using that 3(1) assms(2) [of e] by (auto simp: metricsOnly_def)
    moreover have "atHand k ?pre b" by (rule atHand_read) simp
    ultimately have "guarded (theBackup k) G B (?pre @ es)"
      using 3(2) unfolding guardsRest_def by blast
    then show ?case by simp
  qed (use start in \<open>auto intro!: guarded_none\<close>)
qed

text \<open>An order that the stages keep is kept by the reconciliation.\<close>

lemma Reconcile_preceded:
  assumes "\<And>op b. outcome (runStages d (getStagesForOperation (reconcilerOf c) op) b)
      (\<lambda>_ es. preceded G B es)"
    and "\<And>e. B e \<Longrightarrow> effectOf e \<noteq> Observes"
  shows "outcome (Reconcile (backupController c d) k) (\<lambda>_ es. preceded G B es)"
proof -
  have B: "\<not> B (MetricAdd x n)" "\<not> B (OnBackup (Get k r))" for x n r
    using assms(2) by fastforce+
  show ?thesis
    by (rule Reconcile_outcome [where R = "\<lambda>_ _ es. preceded G B es", OF assms(1)])
      (auto simp: B preceded_append preceded_metrics)
qed

end
