(* ===== verification/Cluster.thy ===== *)
theory Cluster
  imports Kube
begin

text \<open>
  A concrete outside: a small in-memory cluster that keeps every kind of object in a table and whose
  helper libraries behave as documented. It instantiates the parameter \<open>'s env\<close> for the witnesses
  of properties that rest on \<open>meta_laws\<close> or \<open>finalizer_laws\<close>.
\<close>

record cluster =
  cl_backups :: "(key \<times> backup) list"
  cl_veleroBackups :: "(key \<times> velero_backup) list"
  cl_deleteRequests :: "(key \<times> delete_request) list"
  cl_leases :: "(key \<times> lease) list"
  cl_storageLocations :: "(key \<times> storage_location) list"
  cl_workloads :: "workload_kind \<Rightarrow> (key \<times> workload) list"
  cl_configMaps :: "(key \<times> config_map) list"
  cl_blueprints :: "(key \<times> blueprint) list"
  cl_restores :: "(key \<times> restore) list"
  cl_veleroRestores :: "(key \<times> velero_restore) list"
  cl_dogus :: "(key \<times> dogu) list"
  cl_additional :: "string \<Rightarrow> (key \<times> unstructured) list"
  cl_schedules :: "(key \<times> backup_schedule) list"
  cl_cronJobs :: "(key \<times> cron_job) list"
  cl_maintenance :: bool
  cl_now :: instant

definition store :: "key \<Rightarrow> 'o \<Rightarrow> (key \<times> 'o) list \<Rightarrow> (key \<times> 'o) list" where
  "store k x t = (k, x) # filter (\<lambda>(k', _). k' \<noteq> k) t"

definition tableResource :: "('s \<Rightarrow> (key \<times> 'o obj_meta_scheme) list)
    \<Rightarrow> ((key \<times> 'o obj_meta_scheme) list \<Rightarrow> 's \<Rightarrow> 's) \<Rightarrow> ('s, 'o obj_meta_scheme) resource" where
  "tableResource table put = (let
     k = keyOf;
     write = (\<lambda>x s. case map_of (table s) (k x) of
         None \<Rightarrow> (Inl (ApiError NotFound []), s)
       | Some _ \<Rightarrow> (Inr x, put (store (k x) x (table s)) s))
     in \<lparr>
     r_get = (\<lambda>q s. (case map_of (table s) q of None \<Rightarrow> Inl (ApiError NotFound []) | Some x \<Rightarrow> Inr x, s)),
     r_list = (\<lambda>n ls s. (Inr (map snd (filter (\<lambda>(q, x). fst q = n \<and>
       list_all (\<lambda>l. o_labels x l \<noteq> None) ls) (table s))), s)),
     r_create = (\<lambda>x s. case map_of (table s) (k x) of
         None \<Rightarrow> (Inr x, put (store (k x) x (table s)) s)
       | Some _ \<Rightarrow> (Inl (ApiError AlreadyExists []), s)),
     r_update = write,
     r_patch = (\<lambda>_. write),
     r_patchStatus = (\<lambda>_. write),
     r_updateStatus = write,
     r_delete = (\<lambda>x _ s. case map_of (table s) (k x) of
         None \<Rightarrow> (Inl (ApiError NotFound []), s)
       | Some _ \<Rightarrow> (Inr (), put (filter (\<lambda>(q, _). q \<noteq> k x) (table s)) s))\<rparr>)"

text \<open>\<open>CreateOrPatch\<close> and \<open>SetControllerReference\<close> on the table of CronJobs.\<close>

definition clusterSync :: "cron_job \<Rightarrow> (cron_job \<Rightarrow> err + cron_job) \<Rightarrow> cluster \<Rightarrow> sync_answer \<times> cluster" where
  "clusterSync x f s = (let found = map_of (cl_cronJobs s) (keyOf x); z = (case found of None \<Rightarrow> x | Some z \<Rightarrow> z) in
     case f z of
       Inl e \<Rightarrow> (\<lparr>sy_operation = OperationResultNone, sy_error = Some e, sy_object = x,
                sy_found = None, sy_written = None\<rparr>, s)
     | Inr y \<Rightarrow>
         if keyOf z \<noteq> keyOf x then
           (\<lparr>sy_operation = OperationResultNone, sy_error = Some (Errorf []), sy_object = x,
             sy_found = None, sy_written = None\<rparr>, s)
         else if found = Some y then
           (\<lparr>sy_operation = OperationResultNone, sy_error = None, sy_object = z,
             sy_found = found, sy_written = None\<rparr>, s)
         else
           (\<lparr>sy_operation = (if found = None then OperationResultCreated else OperationResultUpdated),
             sy_error = None, sy_object = z, sy_found = found, sy_written = Some y\<rparr>,
            s\<lparr>cl_cronJobs := store (keyOf x) y (cl_cronJobs s)\<rparr>))"

definition clusterOwner :: "backup_schedule \<Rightarrow> cron_job \<Rightarrow> err + owner_ref list" where
  "clusterOwner s c = (case filter ow_controller (o_owners c) of
       [] \<Rightarrow> Inr (o_owners c @ [\<lparr>ow_apiVersion = ''k8s.cloudogu.com/v1'', ow_kind = ''BackupSchedule'',
         ow_name = o_name s, ow_uid = o_uid s, ow_controller = True, ow_blockDeletion = True\<rparr>])
     | [r] \<Rightarrow> if ow_uid r = o_uid s \<and> ow_name r = o_name s then Inr (o_owners c)
         else Inl (Errorf ''already owned'')
     | _ \<Rightarrow> Inl (Errorf ''several controllers''))"

definition clusterEnv :: "cluster env" where
  "clusterEnv = \<lparr>
     backups = tableResource cl_backups (\<lambda>t s. s\<lparr>cl_backups := t\<rparr>),
     veleroBackups = tableResource cl_veleroBackups (\<lambda>t s. s\<lparr>cl_veleroBackups := t\<rparr>),
     deleteRequests = tableResource cl_deleteRequests (\<lambda>t s. s\<lparr>cl_deleteRequests := t\<rparr>),
     leases = tableResource cl_leases (\<lambda>t s. s\<lparr>cl_leases := t\<rparr>),
     storageLocations = tableResource cl_storageLocations (\<lambda>t s. s\<lparr>cl_storageLocations := t\<rparr>),
     workloads = (\<lambda>k. tableResource (\<lambda>s. cl_workloads s k)
       (\<lambda>t s. s\<lparr>cl_workloads := (cl_workloads s)(k := t)\<rparr>)),
     configMaps = tableResource cl_configMaps (\<lambda>t s. s\<lparr>cl_configMaps := t\<rparr>),
     blueprints = tableResource cl_blueprints (\<lambda>t s. s\<lparr>cl_blueprints := t\<rparr>),
     restores = tableResource cl_restores (\<lambda>t s. s\<lparr>cl_restores := t\<rparr>),
     veleroRestores = tableResource cl_veleroRestores (\<lambda>t s. s\<lparr>cl_veleroRestores := t\<rparr>),
     doguResources = tableResource cl_dogus (\<lambda>t s. s\<lparr>cl_dogus := t\<rparr>),
     additionalResources = (\<lambda>k. tableResource (\<lambda>s. cl_additional s k)
       (\<lambda>t s. s\<lparr>cl_additional := (cl_additional s)(k := t)\<rparr>)),
     schedules = tableResource cl_schedules (\<lambda>t s. s\<lparr>cl_schedules := t\<rparr>),
     cronJobs = tableResource cl_cronJobs (\<lambda>t s. s\<lparr>cl_cronJobs := t\<rparr>),
     createOrPatch = clusterSync,
     setControllerReference = clusterOwner,
     cronJobName = (\<lambda>s. ''backup-schedule-'' @ o_name s),
     cronJobPodTemplate = (\<lambda>s image policy. \<lparr>pt_imagePullSecrets = [], pt_rest = o_name s @ image @ policy\<rparr>),
     parseStandard = (\<lambda>c. if filter (\<lambda>x. x = CHR '' '') c = ''    '' then None else Some (Errorf ''expected 5 fields'')),
     imageTagMatches = (\<lambda>t. Inr (CHR '' '' \<notin> set t)),
     managerCall = (\<lambda>_ s. (None, s)),
     mm_getStatus = (\<lambda>s. (Inr (cl_maintenance s), s)),
     mm_activeOnError = (\<lambda>_. False),
     mm_activate = (\<lambda>_ _ _ s. (None, s\<lparr>cl_maintenance := True\<rparr>)),
     mm_deactivate = (\<lambda>_ s. (None, s\<lparr>cl_maintenance := False\<rparr>)),
     clock_now = (\<lambda>s. (cl_now s, s)),
     findStatusCondition = findCond,
     isStatusConditionTrue = (\<lambda>cs t. case findCond cs t of None \<Rightarrow> False | Some c \<Rightarrow> c_status c = ConditionTrue),
     setStatusConditionAt = (\<lambda>cs c s. (upsertCond (cl_now s) cs c, s)),
     addFinalizer = (\<lambda>fs f. if f \<in> set fs then (fs, False) else (fs @ [f], True)),
     removeFinalizer = (\<lambda>fs f. (filter (\<lambda>x. x \<noteq> f) fs, f \<in> set fs)),
     containsFinalizer = (\<lambda>fs f. f \<in> set fs),
     getControllerOf = List.find ow_controller,
     conflictRetries = 4,
     libConstant = (\<lambda>n. n),
     legacyText = (\<lambda>st. case st of StatusNew \<Rightarrow> ''new'' | StatusInProgress \<Rightarrow> ''inProgress''
       | StatusCompleted \<Rightarrow> ''completed'' | StatusFailed \<Rightarrow> ''failed'' | StatusDeleting \<Rightarrow> ''deleting''
       | OtherLegacy s \<Rightarrow> s),
     isNotFoundError = isNotFound,
     marshalDogus = Inr,
     mapOrder = (\<lambda>s. ([], s)),
     polls = (\<lambda>s. ([], s)),
     deadlinePassed = (\<lambda>s. (False, s)),
     selectsFirst = (\<lambda>s. (True, s))\<rparr>"

lemma clusterEnv_meta: "meta_laws clusterEnv"
  by (auto simp: meta_laws_def clusterEnv_def split: option.splits)

lemma clusterEnv_finalizers: "finalizer_laws clusterEnv"
  by (simp add: finalizer_laws_def clusterEnv_def)

lemma clusterEnv_controller: "controller_laws clusterEnv"
  by (simp add: controller_laws_def clusterEnv_def)

lemma clusterEnv_cronjobs: "cronjob_laws clusterEnv"
  by (auto simp: cronjob_laws_def clusterEnv_def clusterSync_def createOrPatch_answer_def Let_def
      split: option.splits sum.splits)

lemma single_filter: "filter P xs = [x] \<Longrightarrow> x \<in> set xs \<and> P x"
  by (auto simp: filter_eq_Cons_iff)

lemma clusterEnv_owners: "owner_laws clusterEnv"
  by (auto simp: owner_laws_def clusterEnv_def clusterOwner_def split: list.splits if_splits
      dest: single_filter)

definition emptyCluster :: "instant \<Rightarrow> cluster" where
  "emptyCluster t = \<lparr>cl_backups = [], cl_veleroBackups = [], cl_deleteRequests = [], cl_leases = [],
     cl_storageLocations = [], cl_workloads = (\<lambda>_. []), cl_configMaps = [], cl_blueprints = [],
     cl_restores = [], cl_veleroRestores = [], cl_dogus = [], cl_additional = (\<lambda>_. []),
     cl_schedules = [], cl_cronJobs = [], cl_maintenance = False, cl_now = t\<rparr>"

section \<open>Clocks that stand still\<close>

text \<open>Properties about times are stated for a clock that stands still during the call.\<close>

definition frozenClock :: "'s env \<Rightarrow> instant \<Rightarrow> bool" where
  "frozenClock E t \<longleftrightarrow> (\<forall>s. fst (clock_now E s) = t)"

lemma outcome_now_frozen: "frozenClock E t \<Longrightarrow> Q t [] \<Longrightarrow> outcome (now E) Q"
  unfolding frozenClock_def outcome_def now_def ask_def by (auto split: prod.splits) (metis fst_conv)

lemma clusterEnv_frozen: "frozenClock (clusterEnv\<lparr>clock_now := \<lambda>s. (t, s)\<rparr>) t"
  by (simp add: frozenClock_def)

end
