(* ===== verification/BackupSafety.thy ===== *)
theory BackupSafety
  imports BackupRuns Cluster
begin

text \<open>
  What one reconciliation of a backup guarantees, whatever the API server, Velero and everybody else
  do between its calls: the order of its effects, which of them an operation can have, and how it
  ends. The statements are about the complete \<open>Reconcile\<close> of the operator's controller, or about
  the stages of one of its operations on a given backup.
\<close>

section \<open>A concrete operator in a concrete cluster\<close>

definition demoReconciler :: "cluster defaultReconciler" where
  "demoReconciler = \<lparr>client = clusterEnv, backupStorageName = ''default'',
     providerDeploymentName = ''velero''\<rparr>"

lemma demoReconciler_client [simp]: "client demoReconciler = clusterEnv"
  by (simp add: demoReconciler_def)

text \<open>A backup whose provider backup has succeeded, holding the lease in an active maintenance mode.\<close>

definition demoBackup :: backup where
  "demoBackup = obj_meta.extend ((newMeta ''ns'' ''b'')\<lparr>o_uid := ''u''\<rparr>)
     \<lparr>b_provider = ''velero'', b_synced = False, b_status = emptyBackupStatus\<lparr>conditions :=
        [newCondition ConditionProviderSucceeded ConditionTrue ''r'' ''m'']\<rparr>\<rparr>"

definition demoCluster :: cluster where
  "demoCluster = (emptyCluster 100)\<lparr>
     cl_backups := [((''ns'', ''b''), demoBackup)],
     cl_leases := [((''ns'', DefaultName),
       claimed (emptyLease ''ns'' DefaultName) demoBackup backupLeaseHolderKind 5)],
     cl_maintenance := True\<rparr>"

lemmas call_defs = apiGet_def apiList_def apiCreate_def apiUpdate_def apiPatchStatus_def apiDelete_def
  now_def setStatusCondition_def eventf_def metricAdd_def isMaintenanceModeActive_def
  activateMaintenanceMode_def deactivateMaintenanceMode_def

lemmas cluster_defs = clusterEnv_def tableResource_def store_def findCond_def emptyCluster_def
  obj_meta.defs newMeta_def demoReconciler_def demoCluster_def demoBackup_def emptyBackupStatus_def

lemmas lease_defs = holdsBackupLease_def Holds_def Release_def backupLeaseManager_def IsHolder_def
  HolderUID_def lookupStr_def HolderNameAnnotation_def HolderKindAnnotation_def claimed_def emptyLease_def

lemmas metric_defs = InitBackupConditionTransitionMetrics_def InitBackupStatusMetrics_def
  InitInvalidLeaseTotalMetric_def conditionStatuses_def UpdateBackupStatusMetrics_def
  UpdateBackupConditionTransitionMetric_def

lemmas status_defs = patchStatus_def updateStatus_def setCondition_def previousStatuses_def
  determineBackupConditionTransitions_def legacyBackupStatusFor_def newCondition_def

lemmas finalize_defs = Reconcile_def backupController_def reconcilerOf_def runStages.simps
  requiredOperation_def isPostProcessing_def hasBackupSucceededOrFailed_def finalizeStages_def
  cleanupStages_def ensureMaintenanceDeactivated_def ensureBackupLeaseReleased_def
  ensureBackupRunCompleted_def runResult_def

text \<open>The run that finalizes this backup, evaluated: its effects in their order.\<close>

lemma demo_run:
  "filter (\<lambda>e. effectOf e \<noteq> Observes) (events (Reconcile (backupController demoReconciler 10) (''ns'', ''b''))
     \<lparr>outside = demoCluster, log = []\<rparr>) =
   [MaintenanceDeactivate False None,
    OnLease (Delete (claimed (emptyLease ''ns'' DefaultName) demoBackup backupLeaseHolderKind 5)
      (DeleteOptions (Some []) (Some [])) (Inr ())),
    OnBackup (PatchStatus demoBackup
      (demoBackup\<lparr>b_status := (b_status demoBackup)\<lparr>legacyStatus := StatusCompleted, conditions :=
         [newCondition ConditionProviderSucceeded ConditionTrue ''r'' ''m'',
          (newCondition ConditionSucceeded ConditionTrue ''r'' ''m'')\<lparr>c_transition := 100\<rparr>]\<rparr>\<rparr>)
      (Inr (demoBackup\<lparr>b_status := (b_status demoBackup)\<lparr>legacyStatus := StatusCompleted, conditions :=
         [newCondition ConditionProviderSucceeded ConditionTrue ''r'' ''m'',
          (newCondition ConditionSucceeded ConditionTrue ''r'' ''m'')\<lparr>c_transition := 100\<rparr>]\<rparr>\<rparr>)))]"
  by (simp add: events_def run_simps call_defs cluster_defs lease_defs metric_defs status_defs
      finalize_defs Let_def cong: bind_cong_weak del: run_state_bind)

lemma demo_run_closes: "\<exists>e \<in> set (events (Reconcile (backupController demoReconciler 10) (''ns'', ''b''))
     \<lparr>outside = demoCluster, log = []\<rparr>). closesRun demoBackup e"
proof -
  have "\<exists>e \<in> set (filter (\<lambda>e. effectOf e \<noteq> Observes)
      (events (Reconcile (backupController demoReconciler 10) (''ns'', ''b''))
     \<lparr>outside = demoCluster, log = []\<rparr>)). closesRun demoBackup e"
    unfolding demo_run by (simp add: demoBackup_def obj_meta.defs closed_def findCond_def
        hasBackupSucceededOrFailed_def newCondition_def emptyBackupStatus_def)
  then show ?thesis by auto
qed

section \<open>Properties\<close>

text \<open>
  C4: A reconciliation creates a provider backup only for a backup it has seen to hold the backup
  lease, and only after it has seen the maintenance mode to be active.
\<close>

theorem provider_backup_created_by_holder:
  "outcome (Reconcile (backupController c d) k) (\<lambda>_ es.
     preceded (\<lambda>e. \<exists>b. providerBackupOf b v \<and> sawOwnLease b e) (createsProviderBackup v) es \<and>
     preceded (\<lambda>e. e = MaintenanceStatus (Inr True)) (createsProviderBackup v) es)"
  by (intro outcome_conj Reconcile_preceded backup_runs.creates_as_holder
      backup_runs.creates_in_maintenance) auto

text \<open>
  C5: The run of a backup that did not come from the provider is closed (its \<open>Succeeded\<close> condition
  becomes true or false) only after the reconciliation has seen that the backup holds no lease any
  more and that the maintenance mode is off or not its business.
\<close>

theorem run_closed_after_cleanup:
  assumes "meta_laws (client c)"
  shows "outcome (Reconcile (backupController c d) k) (\<lambda>_ es.
     preceded (sawLeaseGone b) (closesRun b) es \<and> preceded (sawMaintenanceHandled b) (closesRun b) es)"
  by (intro outcome_conj Reconcile_preceded backup_runs.closes_after_release [OF assms, THEN outcome_mono])
    auto

theorem run_closed_after_cleanup_witness:
  "let es = events (Reconcile (backupController demoReconciler 10) (''ns'', ''b''))
       \<lparr>outside = demoCluster, log = []\<rparr>
   in (\<exists>e \<in> set es. closesRun demoBackup e) \<and> preceded (sawLeaseGone demoBackup) (closesRun demoBackup) es"
  using demo_run_closes outcomeD [OF run_closed_after_cleanup [of demoReconciler 10 "(''ns'', ''b'')" demoBackup]]
  by (simp add: Let_def clusterEnv_meta)

text \<open>
  C6: A reconciliation deletes a lease only after it has read that lease, in the namespace of the backup
  it is about, and the lease named that very backup as its holder, by UID, name and kind; and only after
  it has seen the maintenance mode handled for it. The backup it is about is the answer to its read of
  the requested key, or what the API server answered to a write of it. Whoever gets the lease next finds
  the mode off, and nobody else's lease is deleted.
\<close>

theorem lease_released_after_maintenance:
  "outcome (Reconcile (backupController c d) k) (\<lambda>_ es.
     guarded (theBackup k) (sawHolder l) (deletesLease l) es \<and>
     guarded (theBackup k) (handledByHolder l) (deletesLease l) es)"
  by (intro outcome_conj Reconcile_guarded backup_runs.run_releases) auto

text \<open>
  C7: The maintenance mode is switched, on or off, only after the reconciliation has read a lease that
  names the very backup it is about as its holder, by UID, name and kind: a backup that does not hold the
  lease never ends the maintenance mode of another run.
\<close>

theorem maintenance_switched_by_holder:
  "outcome (Reconcile (backupController c d) k) (\<lambda>_ es.
     guarded (theBackup k) (\<lambda>b e. \<exists>l. sawHolder l b e) (\<lambda>e. effectOf e = MaintenanceOn) es \<and>
     guarded (theBackup k) (\<lambda>b e. \<exists>l. sawHolder l b e) (\<lambda>e. effectOf e = MaintenanceOff) es)"
  unfolding sawOwnLease_holder [symmetric]
  by (intro outcome_conj Reconcile_guarded backup_runs.run_activates backup_runs.run_deactivates) auto

text \<open>
  C8: When a backup is deleted, it is written (its finalizer removed, which lets the API server delete
  it) only after the reconciliation has seen its lease gone, the maintenance mode handled, and its
  provider backup not found.
\<close>

theorem finalizer_removed_last:
  "outcome (runStages d (getStagesForOperation (reconcilerOf c) operationDelete) b) (\<lambda>_ es.
     preceded (sawLeaseGone b) (\<lambda>e. effectOf e = UpdatesBackup) es \<and>
     preceded (sawMaintenanceHandled b) (\<lambda>e. effectOf e = UpdatesBackup) es \<and>
     preceded (sawProviderBackupGone b) (\<lambda>e. effectOf e = UpdatesBackup) es)"
  by (rule backup_runs.deletion_after_cleanup)

text \<open>
  C9: In every operation, the provider is asked to delete a provider backup only after that was seen
  not to be running, and a backup object is deleted on the operator's own account only after its
  provider backup was seen to be gone.
\<close>

theorem deletions_are_safe:
  "outcome (runStages d (getStagesForOperation (reconcilerOf c) op) b) (\<lambda>_ es.
     preceded (sawProviderBackupIdle b) (\<lambda>e. effectOf e = RequestsDeletion) es \<and>
     preceded (sawProviderBackupGone b) (\<lambda>e. effectOf e = DeletesBackup) es)"
  by (intro outcome_conj backup_runs.requests_deletion_when_idle backup_runs.deletes_orphans)

text \<open>
  C24: A reconciliation first counts itself and reads the backup; all its effects are those its required
  operation allows (a finished backup is never given the lease, the maintenance mode or a provider
  backup again); it asks for no other delay than the configured one, and never together with an error.
\<close>

theorem reconcile_stays_within_operation:
  "outcome (Reconcile (backupController c d) k) (\<lambda>res es. wellFormed d res \<and>
     (\<exists>got. take 2 es = [MetricAdd BackupReconcileTotal 1, OnBackup (Get k got)] \<and>
        within (case got of Inl e \<Rightarrow> {} | Inr b \<Rightarrow> operationEffects (requiredOperation (client c) b)) es))"
  by (rule Reconcile_outcome [where R = "\<lambda>b res es.
        within (operationEffects (requiredOperation (client c) b)) es \<and> wellFormed d res",
        OF backup_runs.operation_within]) (auto simp: wellFormed_def)

text \<open>
  A backup that was synced from the provider never leaves the first stage of the workflow: the only
  effects of its run are status patches, so it takes no lease, no maintenance mode and starts nothing.
\<close>

theorem synced_backup_only_patched:
  assumes "b_synced b"
  shows "outcome (runStages d (getStagesForOperation (reconcilerOf c) operationCreate) b)
    (\<lambda>_ es. within {PatchesStatus} es)"
  unfolding getStagesForOperation.simps append.simps
  by (rule runStages_Cons [OF contractD [OF backup_runs.veleroStatusSynced]]) (use assms in auto)

theorem synced_backup_only_patched_witness:
  "outcome (runStages 10 (getStagesForOperation (reconcilerOf demoReconciler) operationCreate)
     (demoBackup\<lparr>b_synced := True\<rparr>)) (\<lambda>_ es. within {PatchesStatus} es)"
  by (rule synced_backup_only_patched) simp

end
