(* ===== verification/BackupProperties.thy ===== *)
theory BackupProperties
  imports BackupSafety
begin

text \<open>
  Properties of single stages and helpers of the backup reconciler: the lease, the time window, the
  readiness gate, the status and its timestamps, and the metadata of a backup.
\<close>

section \<open>The lease\<close>

definition staleBackupHolder :: "'s env \<Rightarrow> lease \<Rightarrow> api_error + backup option \<Rightarrow> bool" where
  "staleBackupHolder E l a = (case a of
      Inl e \<Rightarrow> isNotFound e
    | Inr None \<Rightarrow> True
    | Inr (Some h) \<Rightarrow> backupIsTerminal E h \<or> o_uid h \<noteq> HolderUID l)"

lemma stale_eq: "holder_resolver.stale (backupHolderResolver E) l a \<longleftrightarrow> staleBackupHolder E l a"
  by (auto simp: staleBackupHolder_def backup_holder.stale_def split: sum.splits option.splits)

text \<open>Every lease overwritten in \<open>es\<close> was read there, is a backup's, and its holder was seen stale.\<close>

definition takeoversJustified :: "'s env \<Rightarrow> backup \<Rightarrow> event list \<Rightarrow> bool" where
  "takeoversJustified E b es \<longleftrightarrow> (\<forall>l' u. OnLease (Update l' u) \<in> set es \<longrightarrow>
     (\<exists>l a t. OnLease (Get (leaseKeyOf b) (Inr l)) \<in> set es \<and> l' = claimed l b backupLeaseHolderKind t \<and>
        HolderUID l \<noteq> [] \<and> holderName l \<noteq> [] \<and> holderKind l = backupLeaseHolderKind \<and>
        backupObserved (o_namespace l) (holderName l) a \<in> set es \<and> staleBackupHolder E l a))"

text \<open>
  Acquiring the backup lease overwrites an existing lease only if this very call has read it,
  found it complete and held by a backup, and seen that backup gone, finished or replaced by another
  one of its name; the lease written is the one that was read, claimed for the caller. It has no
  other effect but to create or update the lease.
\<close>

theorem lease_taken_over_only_if_stale:
  "outcome (Acquire (backupLeaseManager c b) b backupLeaseHolderKind)
     (\<lambda>res es. takeoversJustified (client c) b es \<and> within {ClaimsLease} es)"
proof (rule outcome_mono [OF outcome_conj [OF backup_takes_over_stale_only backup_acquire_writes]], goal_cases)
  case (1 res es)
  moreover from 1 have "within {ClaimsLease} es" by (fastforce simp: within_def effectOf_observing)
  ultimately show ?case
    unfolding takeoversJustified_def stale_eq [symmetric] by blast
qed

definition releasesOwn :: "('s, 'h) manager \<Rightarrow> 'x obj_meta_scheme \<Rightarrow> string \<Rightarrow> event \<Rightarrow> event list \<Rightarrow> bool" where
  "releasesOwn m h kind e es \<longleftrightarrow> (\<exists>l u. e = OnLease (Delete l
      (DeleteOptions (Some (o_uid l)) (Some (o_resourceVersion l))) u) \<and>
      OnLease (Get (leaseKey m) (Inr l)) \<in> set es \<and> IsHolder l h kind)"

definition notHolding :: "('s, 'h) manager \<Rightarrow> 'x obj_meta_scheme \<Rightarrow> string \<Rightarrow> event \<Rightarrow> bool" where
  "notHolding m h kind e \<longleftrightarrow>
     (\<exists>x. e = OnLease (Get (leaseKey m) (Inl x)) \<and> isNotFound x) \<or>
     (\<exists>l. e = OnLease (Get (leaseKey m) (Inr l)) \<and> \<not> IsHolder l h kind) \<or>
     (\<exists>l opts. e = OnLease (Delete l opts (Inr ()))) \<or>
     (\<exists>l opts x. e = OnLease (Delete l opts (Inl x)) \<and> isNotFound x)"

text \<open>
  The manager deletes no lease but the one it has just read and found its own, with the UID and
  the resource version it read as preconditions, so that a lease claimed by somebody else in between
  survives; a positive or negative answer means that the caller holds no lease any more.
\<close>

theorem lease_released_only_if_own:
  "outcome (Release m h kind) (\<lambda>res es.
     list_all (\<lambda>e. observing e \<or> releasesOwn m h kind e es) es \<and>
     (case res of Inl e \<Rightarrow> True | Inr _ \<Rightarrow> list_ex (notHolding m h kind) es))"
  unfolding Release_def
  by (auto intro!: outcome_intro simp: releasesOwn_def notHolding_def split: sum.splits if_splits)

section \<open>The time window\<close>

definition limitConfigured :: "int \<Rightarrow> config_map \<Rightarrow> bool" where
  "limitConfigured limit cm \<longleftrightarrow> cm_data cm backupRetryTimeLimitKey = Some (showInt limit)"

lemma mulDuration_minutes:
  "0 \<le> limit \<Longrightarrow> limit \<le> 153722867 \<Longrightarrow> mulDuration limit minute = limit * minute"
  unfolding mulDuration_def
  by (rule wrap64_id) (auto simp: duration_units minInt64_def maxInt64_def)

lemma hasTimeWindowExpired_configured:
  assumes "frozenClock (client c) t" "- (2 ^ 63) \<le> limit" "limit < 2 ^ 63"
  shows "outcome (hasTimeWindowExpired c b) (\<lambda>res es.
     \<exists>got. es = [OnConfigMap (Get (o_namespace b, backupConfigMapName) got)] \<and>
       (\<forall>cm. got = Inr cm \<and> limitConfigured limit cm \<longrightarrow>
          res = Inr (timeSub t (o_creation b) > mulDuration limit minute)))"
  unfolding hasTimeWindowExpired_def
  using parseInt_showInt [of 64 limit] assms(2,3)
  by (auto intro!: outcome_bind outcome_apiGet outcome_return outcome_now_frozen [OF assms(1)]
      simp: limitConfigured_def split: sum.splits option.splits)

text \<open>
  With a limit of up to 153722867 minutes in the config map, the time window of a backup has
  expired exactly when more than that many minutes have passed since its creation.
\<close>

theorem time_window_exact:
  assumes "frozenClock (client c) t" "0 \<le> limit" "limit \<le> 153722867"
    "0 \<le> t - o_creation b" "t - o_creation b \<le> maxInt64"
  shows "outcome (hasTimeWindowExpired c b) (\<lambda>res es.
     \<exists>got. es = [OnConfigMap (Get (o_namespace b, backupConfigMapName) got)] \<and>
       (\<forall>cm. got = Inr cm \<and> limitConfigured limit cm \<longrightarrow> res = Inr (o_creation b + limit * minute < t)))"
proof -
  have "timeSub t (o_creation b) = t - o_creation b"
    using assms(4,5) by (simp add: timeSub_def minInt64_def)
  then show ?thesis
    using hasTimeWindowExpired_configured [OF assms(1), of limit b] assms
    by (auto simp: mulDuration_minutes elim!: outcome_mono)
qed

text \<open>
  C38: One minute more overflows: with a limit of 153722868 minutes (292 years, meant as a window that
  practically never closes) the duration wraps around, and every window has expired from the start.
\<close>

theorem time_window_overflow:
  assumes "frozenClock (client c) t" "0 \<le> t - o_creation b"
  shows "outcome (hasTimeWindowExpired c b) (\<lambda>res es.
     \<exists>got. es = [OnConfigMap (Get (o_namespace b, backupConfigMapName) got)] \<and>
       (\<forall>cm. got = Inr cm \<and> limitConfigured 153722868 cm \<longrightarrow> res = Inr True))"
proof -
  have "mulDuration 153722868 minute < 0"
    by (simp add: mulDuration_def wrap64_def duration_units)
  moreover have "0 \<le> timeSub t (o_creation b)"
    using assms(2) by (simp add: timeSub_def maxInt64_def)
  ultimately show ?thesis
    using hasTimeWindowExpired_configured [OF assms(1), of 153722868 b] by (auto elim!: outcome_mono)
qed

section \<open>Cancellation\<close>

definition canceled :: "backup \<Rightarrow> bool" where
  "canceled b \<longleftrightarrow> (\<exists>d. findCond (backupConditions b) ConditionCanceled = Some d \<and> c_status d = ConditionTrue)"

text \<open>The events that justify canceling a backup: its window has expired, and it has nothing to wait for.\<close>

definition windowExpired :: "'s defaultReconciler \<Rightarrow> instant \<Rightarrow> backup \<Rightarrow> event \<Rightarrow> bool" where
  "windowExpired c t b e \<longleftrightarrow> (\<exists>cm s limit. e = OnConfigMap (Get (o_namespace b, backupConfigMapName) (Inr cm)) \<and>
     cm_data cm backupRetryTimeLimitKey = Some s \<and> atoi s = Inr limit \<and>
     timeSub t (o_creation b) > mulDuration limit minute)"

definition nothingFinished :: "backup \<Rightarrow> event \<Rightarrow> bool" where
  "nothingFinished b e \<longleftrightarrow> sawProviderBackupGone b e \<or>
     (\<exists>v. e = OnVeleroBackup (Get (keyOf b) (Inr v)) \<and>
        (vb_status v = emptyVeleroBackupStatus \<or> isProviderBackupInProgress v))"

definition cancelsJustified :: "'s defaultReconciler \<Rightarrow> instant \<Rightarrow> backup \<Rightarrow> event list \<Rightarrow> bool" where
  "cancelsJustified c t b es \<longleftrightarrow> (\<forall>x r. OnBackup (PatchStatus b x r) \<in> set es \<longrightarrow> canceled x \<longrightarrow>
     (\<exists>e \<in> set es. windowExpired c t b e) \<and>
     (isZero (startTimestamp (b_status b)) \<or> (\<exists>e \<in> set es. nothingFinished b e)))"

lemma silent_setCondition_law: "meta_laws E \<Longrightarrow> silentUpdate (setCondition E d)
    (\<lambda>st st'. \<exists>u. st' = st\<lparr>conditions := upsertCond u (conditions st) d\<rparr>)"
  by (simp add: silentUpdate_def setCondition_outcome_law)

lemma canceled_patched [simp]:
  "canceled (patched E b (st\<lparr>conditions := upsertCond u cs (newCondition ConditionCanceled s r m)\<rparr>)) \<longleftrightarrow>
     s = ConditionTrue"
  by (simp add: canceled_def patched_def findCond_upsert)

text \<open>\<open>markCanceled\<close> writes exactly the given verdict, in one patch.\<close>

lemma outcome_markCanceled:
  assumes "meta_laws (client c)"
    and "\<And>x e. (canceled x \<longleftrightarrow> s = ConditionTrue) \<Longrightarrow> Q (Some (Api e), x) [OnBackup (PatchStatus b x (Inl e))]"
    and "\<And>x y ms. (canceled x \<longleftrightarrow> s = ConditionTrue) \<Longrightarrow> metricsOnly ms \<Longrightarrow>
      Q (None, y) (OnBackup (PatchStatus b x (Inr y)) # ms)"
  shows "outcome (markCanceled c b s r m) Q"
  unfolding markCanceled_def
  by (rule outcome_patchStatus [OF silent_setCondition_law [OF assms(1)]]) (use assms(2,3) in fastforce)+

lemma metrics_no_patch [simp]: "metricsOnly ms \<Longrightarrow> OnBackup c \<notin> set ms"
  by (auto simp: metricsOnly_def)

text \<open>
  C26: Within one run of the time-window stage, the backup is marked as canceled only if the window
  has expired at that time and the backup either has not started or its provider backup was seen
  missing, untouched or still running; a provider backup that has ended is never canceled. When the
  stage lets the workflow go on, its patch has set \<open>Canceled\<close> to false.
\<close>

theorem cancellation_justified:
  assumes "meta_laws (client c)" "frozenClock (client c) t"
  shows "outcome (ensureBackupIsCanceledAfterTimeWindowExpired c b) (\<lambda>(act, err, b') es.
     cancelsJustified c t b es \<and>
     (act = Next \<longrightarrow> (\<exists>x y. OnBackup (PatchStatus b x (Inr y)) \<in> set es \<and> \<not> canceled x)))"
  unfolding ensureBackupIsCanceledAfterTimeWindowExpired_def hasTimeWindowExpired_def
    handleTimeWindowExpiredBackupNotStarted_def handleTimeWindowExpiredBackupStarted_def
    handleMissingProviderBackupAfterTimeWindowExpired_def
    handleInProgressProviderBackupAfterTimeWindowExpired_def
    handleTerminatedProviderBackupAfterTimeWindowExpired_def
  by (auto intro!: outcome_return outcome_bind outcome_apiGet outcome_now_frozen [OF assms(2)]
      outcome_markCanceled [OF assms(1)] outcome_eventf outcome_getProviderBackup
      simp: cancelsJustified_def windowExpired_def nothingFinished_def sawProviderBackupGone_def
      split: sum.splits option.splits bool.splits if_splits)

section \<open>Readiness\<close>

definition sawReadyProvider :: "'s defaultReconciler \<Rightarrow> backup \<Rightarrow> event list \<Rightarrow> bool" where
  "sawReadyProvider c b es \<longleftrightarrow>
     (\<exists>l w. OnStorageLocation (Get (o_namespace b, backupStorageName c) (Inr l)) \<in> set es \<and>
        sl_phase l = BackupStorageLocationPhaseAvailable \<and>
        OnWorkload Deployment (Get (o_namespace b, providerDeploymentName c) (Inr w)) \<in> set es \<and> 1 \<le> w_ready w)"

definition sawNoOtherRun :: "backup \<Rightarrow> event \<Rightarrow> bool" where
  "sawNoOtherRun b e \<longleftrightarrow> (\<exists>vbs. e = OnVeleroBackup (ListIn (o_namespace b) [] (Inr vbs)) \<and>
     list_all (\<lambda>v. o_name v = o_name b \<or> \<not> isProviderBackupInProgress v) vbs)"

definition sawOwnProviderBackup :: "backup \<Rightarrow> event \<Rightarrow> bool" where
  "sawOwnProviderBackup b e \<longleftrightarrow> (\<exists>v. e = OnVeleroBackup (Get (keyOf b) (Inr v)))"

lemma sawReadyProvider_mono [simp]:
  "sawReadyProvider c b es \<Longrightarrow> sawReadyProvider c b (e # es)"
  "sawReadyProvider c b es \<Longrightarrow> sawReadyProvider c b (es @ es')"
  by (auto simp: sawReadyProvider_def)

definition preparedGate :: "'s defaultReconciler \<Rightarrow> backup \<Rightarrow> action \<Rightarrow> event list \<Rightarrow> bool" where
  "preparedGate c b act es \<longleftrightarrow> act \<noteq> Next \<or> list_ex (sawOwnProviderBackup b) es \<or>
     sawReadyProvider c b es \<and>
     (\<not> isZero (startTimestamp (b_status b)) \<or> list_ex (sawNoOtherRun b) es)"

text \<open>
  C27: The preparation stage lets a backup go on only if its provider backup exists already, or the
  storage location was seen available, the deployment with a ready replica and, for a backup that has
  not started, no provider backup of another run was seen running. Apart from status patches it only
  reads.
\<close>

theorem prepared_only_if_ready:
  "outcome (ensureBackupIsPrepared c b) (\<lambda>(act, err, b') es. preparedGate c b act es \<and> within {PatchesStatus} es)"
  unfolding ensureBackupIsPrepared_def
proof (rule outcome_bind, rule outcome_getProviderBackup, goal_cases)
  case (2 e)
  have "outcome (do {
      checked \<leftarrow> CheckReady (client c) (o_namespace b) (backupStorageName c) (providerDeploymentName c);
      case checked of
        Inl e \<Rightarrow> return (Abort, Some e, b)
      | Inr rd \<Rightarrow> do {
          guarded \<leftarrow> guardOtherRun c b rd;
          case guarded of Inl e \<Rightarrow> return (Abort, Some e, b) | Inr rd' \<Rightarrow> reportReadiness c b rd'
        }
    }) (\<lambda>(act, err, b') es. preparedGate c b act es \<and> within {PatchesStatus} es)"
  proof (rule outcome_call [OF CheckReady_outcome], goal_cases)
    case (1 checked es)
    show ?case
    proof (cases checked)
      case (Inl e)
      with 1 show ?thesis by (auto intro!: outcome_return simp: preparedGate_def within_observing)
    next
      case (Inr rd)
      have ready: "sawReadyProvider c b es" if "rd_ready rd"
        using 1 Inr that by (auto simp: sawReadyProvider_def)
      show ?thesis
        unfolding Inr sum.case
      proof (rule outcome_call [OF guardOtherRun_outcome], goal_cases)
        case guard: (1 guarded es')
        have "sawReadyProvider c b (es @ es' @ es'')" if "rd_ready rd" for es''
          using ready [OF that] by simp
        moreover have "list_ex (sawNoOtherRun b) es'"
          if "guarded = Inr rd'" "rd_ready rd'" "isZero (startTimestamp (b_status b))" "rd_ready rd" for rd'
          using guard that by (auto simp: sawNoOtherRun_def list_all_iff split: if_splits)
        moreover have "rd_ready rd" if "guarded = Inr rd'" "rd_ready rd'" for rd'
          using guard that by (auto split: if_splits)
        moreover have "within {PatchesStatus} (es @ es')" using 1 guard by (auto simp: within_observing)
        ultimately show ?case
          by (auto intro!: outcome_return outcome_mono [OF contract_reportReadiness] split: sum.splits
              simp: preparedGate_def)
      qed
    qed
  qed
  then show ?case
    by (auto elim!: outcome_mono simp: preparedGate_def)
qed (auto intro!: outcome_return simp: preparedGate_def sawOwnProviderBackup_def)

section \<open>The status\<close>

lemma fold_upserts:
  assumes "meta_laws E"
  shows "outcome (fold_io (setCondition E) ds st) (\<lambda>st' es. es = [] \<and>
     startTimestamp st' = startTimestamp st \<and> completionTimestamp st' = completionTimestamp st \<and>
     (\<forall>t. t \<notin> c_type ` set ds \<longrightarrow> findCond (conditions st') t = findCond (conditions st) t) \<and>
     (\<forall>t \<in> c_type ` set ds. findCond (conditions st') t \<noteq> None))"
proof (induction ds arbitrary: st)
  case Nil
  show ?case by (auto intro!: outcome_return)
next
  case (Cons d ds)
  show ?case
    unfolding fold_io.simps
  proof (rule outcome_call [OF setCondition_outcome_law [OF assms]], goal_cases)
    case (1 st1 es)
    then obtain u where st1: "st1 = st\<lparr>conditions := upsertCond u (conditions st) d\<rparr>" and es: "es = []" by auto
    show ?case
    proof (rule outcome_mono [OF Cons.IH [of st1]], goal_cases)
      case (1 st' es')
      have "findCond (conditions st') t \<noteq> None" if "t \<in> c_type ` set (d # ds)" for t
      proof (cases "t \<in> c_type ` set ds")
        case True
        with 1 show ?thesis by blast
      next
        case False
        with 1 have "findCond (conditions st') t = findCond (conditions st1) t" by simp
        with False that show ?thesis by (simp add: st1 findCond_upsert)
      qed
      with 1 es show ?case by (simp add: st1 findCond_upsert)
    qed
  qed
qed

definition initializes :: "backup \<Rightarrow> backup \<Rightarrow> bool" where
  "initializes b x \<longleftrightarrow>
     (\<forall>d \<in> set initialBackupConditions. findCond (backupConditions x) (c_type d) \<noteq> None) \<and>
     (\<forall>t d. findCond (backupConditions b) t = Some d \<longrightarrow> findCond (backupConditions x) t = Some d)"

text \<open>
  Initializing the conditions writes every initial condition the backup lacks and changes none it
  has, in one patch; when none is missing the stage calls nobody.
\<close>

theorem conditions_initialized:
  assumes "meta_laws (client c)"
  shows "outcome (ensureConditionsInitialized c b) (\<lambda>(act, err, b') es.
     if \<forall>d \<in> set initialBackupConditions. findCond (backupConditions b) (c_type d) \<noteq> None
     then es = [] \<and> b' = b \<and> act = Next
     else \<exists>x r ms. es = OnBackup (PatchStatus b x r) # ms \<and> metricsOnly ms \<and> initializes b x)"
proof (cases "\<forall>d \<in> set initialBackupConditions. findCond (backupConditions b) (c_type d) \<noteq> None")
  case True
  then have "Missing (client c) (backupConditions b) initialBackupConditions = []"
    by (auto simp: Missing_complete [OF assms])
  with True show ?thesis
    by (auto simp: ensureConditionsInitialized_def Let_def intro!: outcome_return)
next
  case False
  define ds where "ds = Missing (client c) (backupConditions b) initialBackupConditions"
  have "ds \<noteq> []" unfolding ds_def Missing_complete [OF assms] using False by auto
  have ds: "t \<in> c_type ` set ds \<longleftrightarrow> t \<in> c_type ` set initialBackupConditions \<and> findCond (backupConditions b) t = None" for t
    by (auto simp: ds_def Missing_def meta_find [OF assms])
  define P where "P = (\<lambda>(st::backup_status) (st'::backup_status).
    (\<forall>t. t \<notin> c_type ` set ds \<longrightarrow> findCond (conditions st') t = findCond (conditions st) t) \<and>
    (\<forall>t \<in> c_type ` set ds. findCond (conditions st') t \<noteq> None))"
  have silent: "silentUpdate (fold_io (setCondition (client c)) ds) P"
    unfolding silentUpdate_def P_def by (auto intro: outcome_mono [OF fold_upserts [OF assms]])
  have init: "initializes b (patched (client c) b st)" if "P (b_status b) st" for st
  proof -
    have "findCond (conditions st) t \<noteq> None" if "t \<in> c_type ` set initialBackupConditions" for t
      using \<open>P (b_status b) st\<close> ds [of t] that unfolding P_def by (cases "t \<in> c_type ` set ds") auto
    moreover have "findCond (conditions st) t = Some d" if "findCond (backupConditions b) t = Some d" for t d
      using \<open>P (b_status b) st\<close> ds [of t] that unfolding P_def by auto
    ultimately show ?thesis by (simp add: initializes_def patched_def)
  qed
  show ?thesis
    unfolding ensureConditionsInitialized_def Let_def ds_def [symmetric] if_not_P [OF False]
    using \<open>ds \<noteq> []\<close> init
    by (auto intro!: outcome_bind [of "patchStatus _ _ _"] outcome_patchStatus [OF silent] outcome_return)
qed

section \<open>Concrete runs\<close>

definition demoAt :: "instant \<Rightarrow> cluster defaultReconciler" where
  "demoAt t = demoReconciler\<lparr>client := clusterEnv\<lparr>clock_now := \<lambda>s. (t, s)\<rparr>\<rparr>"

lemma demoAt_frozen [simp]: "frozenClock (client (demoAt t)) t"
  by (simp add: demoAt_def clusterEnv_frozen)

lemma demoAt_meta [simp]: "meta_laws (client (demoAt t))"
  using clusterEnv_meta by (simp add: demoAt_def meta_laws_def clusterEnv_def)

definition limitMap :: "int \<Rightarrow> config_map" where
  "limitMap limit = obj_meta.extend (newMeta ''ns'' backupConfigMapName)
     \<lparr>cm_data = [backupRetryTimeLimitKey \<mapsto> showInt limit]\<rparr>"

definition limitCluster :: "int \<Rightarrow> cluster" where
  "limitCluster limit = (emptyCluster 0)\<lparr>cl_configMaps := [((''ns'', backupConfigMapName), limitMap limit)]\<rparr>"

lemma demoBackup_meta [simp]: "o_namespace demoBackup = ''ns''" "o_creation demoBackup = 0"
  by (simp_all add: demoBackup_def obj_meta.defs newMeta_def)

lemma limitMap_configured [simp]: "limitConfigured limit (limitMap limit)"
  by (simp add: limitConfigured_def limitMap_def obj_meta.defs)

lemma limit_read: "run_state (apiGet (configMaps (client (demoAt t))) OnConfigMap (''ns'', backupConfigMapName))
     \<lparr>outside = limitCluster limit, log = []\<rparr> =
   (Inr (limitMap limit), \<lparr>outside = limitCluster limit,
      log = [OnConfigMap (Get (''ns'', backupConfigMapName) (Inr (limitMap limit)))]\<rparr>)"
  by (simp add: apiGet_def run_query demoAt_def clusterEnv_def tableResource_def Let_def limitCluster_def)

lemma limit_log:
  assumes "- (2 ^ 63) \<le> limit" "limit < 2 ^ 63"
  shows "events (hasTimeWindowExpired (demoAt t) demoBackup) \<lparr>outside = limitCluster limit, log = []\<rparr> =
     [OnConfigMap (Get (''ns'', backupConfigMapName) (Inr (limitMap limit)))]"
  using parseInt_showInt [of 64 limit] assms
  by (simp add: hasTimeWindowExpired_def events_def run_bind limit_read del: run_state_bind)
    (simp add: limitMap_def obj_meta.defs run_simps now_def demoAt_def split: prod.splits del: run_state_bind)

theorem time_window_exact_witness:
  "result (hasTimeWindowExpired (demoAt (30 * minute)) demoBackup) \<lparr>outside = limitCluster 30, log = []\<rparr> = Inr False \<and>
   result (hasTimeWindowExpired (demoAt (30 * minute + 1)) demoBackup) \<lparr>outside = limitCluster 30, log = []\<rparr> = Inr True"
proof -
  have "0 \<le> 30 * minute" "30 * minute + 1 \<le> maxInt64" by (simp_all add: duration_units maxInt64_def)
  then show ?thesis
    using outcomeD [OF time_window_exact [OF demoAt_frozen [of "30 * minute"], of 30 demoBackup],
        of "\<lparr>outside = limitCluster 30, log = []\<rparr>"]
      outcomeD [OF time_window_exact [OF demoAt_frozen [of "30 * minute + 1"], of 30 demoBackup],
        of "\<lparr>outside = limitCluster 30, log = []\<rparr>"]
    by (simp add: limit_log)
qed

theorem time_window_overflow_witness:
  "result (hasTimeWindowExpired (demoAt 0) demoBackup) \<lparr>outside = limitCluster 153722868, log = []\<rparr> = Inr True"
  using outcomeD [OF time_window_overflow [OF demoAt_frozen [of 0], of demoBackup],
      of "\<lparr>outside = limitCluster 153722868, log = []\<rparr>"]
  by (simp add: limit_log)

text \<open>This backup has started an hour ago, its window of 30 minutes is over and its provider backup gone.\<close>

definition startedBackup :: backup where
  "startedBackup = obj_meta.extend (newMeta ''ns'' ''b'')
     \<lparr>b_provider = ''velero'', b_synced = False, b_status = emptyBackupStatus\<lparr>startTimestamp := 1\<rparr>\<rparr>"

lemmas window_defs = ensureBackupIsCanceledAfterTimeWindowExpired_def
  handleTimeWindowExpiredBackupStarted_def handleMissingProviderBackupAfterTimeWindowExpired_def
  markCanceled_def getProviderBackup_def

lemma startedBackup_meta [simp]: "o_namespace startedBackup = ''ns''" "o_name startedBackup = ''b''"
    "o_creation startedBackup = 0" "startTimestamp (b_status startedBackup) = 1"
  by (simp_all add: startedBackup_def obj_meta.defs newMeta_def)

lemma window_run: "run_state (hasTimeWindowExpired (demoAt hour) startedBackup)
     \<lparr>outside = limitCluster 30, log = []\<rparr> = (Inr True, \<lparr>outside = limitCluster 30,
      log = [OnConfigMap (Get (''ns'', backupConfigMapName) (Inr (limitMap 30)))]\<rparr>)"
  using parseInt_showInt [of 64 30]
  by (simp add: hasTimeWindowExpired_def run_bind limit_read del: run_state_bind)
    (simp add: limitMap_def obj_meta.defs run_simps now_def demoAt_def clusterEnv_def timeSub_def
      mulDuration_def wrap64_def duration_units minInt64_def maxInt64_def del: run_state_bind)

lemma window_cancels: "\<exists>x r. OnBackup (PatchStatus startedBackup x r) \<in>
    set (events (ensureBackupIsCanceledAfterTimeWindowExpired (demoAt hour) startedBackup)
      \<lparr>outside = limitCluster 30, log = []\<rparr>) \<and> canceled x"
  by (simp add: events_def window_defs run_bind window_run del: run_state_bind)
    (simp add: canceled_def run_simps window_defs call_defs status_defs cluster_defs demoAt_def limitCluster_def
      metric_defs Let_def startedBackup_def cong: bind_cong_weak del: run_state_bind)

theorem cancellation_justified_witness:
  "\<exists>es. es = events (ensureBackupIsCanceledAfterTimeWindowExpired (demoAt hour) startedBackup)
       \<lparr>outside = limitCluster 30, log = []\<rparr> \<and>
     list_ex (windowExpired (demoAt hour) hour startedBackup) es \<and> list_ex (nothingFinished startedBackup) es"
proof -
  have "\<not> isZero (startTimestamp (b_status startedBackup))" by simp
  with window_cancels outcomeD [OF cancellation_justified [OF demoAt_meta [of hour] demoAt_frozen [of hour], of startedBackup],
      of "\<lparr>outside = limitCluster 30, log = []\<rparr>"]
  show ?thesis
    unfolding cancelsJustified_def list_ex_iff by (auto split: prod.splits)
qed

theorem conditions_initialized_witness:
  "\<exists>x r ms. events (ensureConditionsInitialized demoReconciler demoBackup) \<lparr>outside = demoCluster, log = []\<rparr> =
     OnBackup (PatchStatus demoBackup x r) # ms \<and> metricsOnly ms \<and> initializes demoBackup x"
proof -
  have "findCond (backupConditions demoBackup) ConditionDeleting = None"
    by (simp add: demoBackup_def obj_meta.defs findCond_def emptyBackupStatus_def)
  then have "\<not> (\<forall>d \<in> set initialBackupConditions. findCond (backupConditions demoBackup) (c_type d) \<noteq> None)"
    by (auto simp: initialBackupConditions_def pendingMilestone_def)
  with outcomeD [OF conditions_initialized [of demoReconciler demoBackup, simplified, OF clusterEnv_meta],
      of "\<lparr>outside = demoCluster, log = []\<rparr>"]
  show ?thesis by (auto split: prod.splits)
qed

end
