(* ===== verification/StatusProperties.thy ===== *)
theory StatusProperties
  imports BackupProperties
begin

text \<open>
  Properties of the status of a backup: what one status update writes and counts, that the timestamps
  of a run are set once and never overwritten, whatever the clock does, when a wait is reported again, and how the
  metadata of a backup is completed.
\<close>

section \<open>One status update\<close>

text \<open>The object written when one condition is set: nothing else of the status moves.\<close>

definition writesCondition :: "'s env \<Rightarrow> condition \<Rightarrow> backup \<Rightarrow> backup \<Rightarrow> bool" where
  "writesCondition E d b x \<longleftrightarrow> (\<exists>u.
     x = patched E b ((b_status b)\<lparr>conditions := upsertCond u (backupConditions b) d\<rparr>) \<and>
     findCond (backupConditions x) (c_type d) = Some (d\<lparr>c_transition :=
       (case findCond (backupConditions b) (c_type d) of
          Some old \<Rightarrow> if c_status old = c_status d then c_transition old else u
        | None \<Rightarrow> u)\<rparr>) \<and>
     (\<forall>t. t \<noteq> c_type d \<longrightarrow> findCond (backupConditions x) t = findCond (backupConditions b) t))"

text \<open>The metrics of an update: the transition of that condition, and that of the scalar status.\<close>

definition countedTransitions :: "condition \<Rightarrow> backup \<Rightarrow> backup \<Rightarrow> backup \<Rightarrow> event list" where
  "countedTransitions d b x y =
     (case findCond (backupConditions b) (c_type d) of
        None \<Rightarrow> []
      | Some old \<Rightarrow> if c_status old = c_status d then []
          else [MetricAdd (BackupConditionTransitionsTotal (o_namespace y) (o_name y) (c_type d)
            (c_status old) (c_status d)) 1]) @
     (if legacyStatus (b_status b) = legacyStatus (b_status x) then []
      else [MetricAdd (BackupStatusTransitionsTotal (o_namespace y) (o_name y) (legacyStatus (b_status y))) 1])"

lemma outcome_countTransitions: "outcome (for_each (UpdateBackupConditionTransitionMetric b) ts) (\<lambda>_ es.
    es = List.map (\<lambda>t. MetricAdd (BackupConditionTransitionsTotal (o_namespace b) (o_name b)
      (ct_type t) (ct_from t) (ct_to t)) 1) ts)"
proof (induction ts)
  case Nil
  show ?case by (auto intro!: outcome_return)
next
  case (Cons t ts)
  then show ?case
    by (auto simp: UpdateBackupConditionTransitionMetric_def intro!: outcome_bind outcome_metricAdd elim: outcome_mono)
qed

lemma no_transition: "(\<And>c. c \<in> set cs \<Longrightarrow> prev (c_type c) = Some (c_status c)) \<Longrightarrow> transitionsFrom prev cs = []"
  by (induction cs) auto

lemma one_transition:
  assumes "\<And>c. c \<in> set cs \<Longrightarrow> prev (c_type c) = Some (c_status c)"
  shows "transitionsFrom prev (upsertCond u cs d) = (case prev (c_type d) of
      None \<Rightarrow> []
    | Some p \<Rightarrow> if p = c_status d then [] else [\<lparr>ct_type = c_type d, ct_from = p, ct_to = c_status d\<rparr>])"
  using assms by (induction cs) (auto simp: no_transition split: option.splits)

lemma findCond_in: "distinct (map c_type cs) \<Longrightarrow> c \<in> set cs \<Longrightarrow> findCond cs (c_type c) = Some c"
  by (induction cs) (auto simp: findCond_def image_iff)

lemma upsert_transitions:
  assumes "distinct (map c_type cs)"
  shows "determineBackupConditionTransitions cs (upsertCond u cs d) = (case findCond cs (c_type d) of
      None \<Rightarrow> []
    | Some old \<Rightarrow> if c_status old = c_status d then []
        else [\<lparr>ct_type = c_type d, ct_from = c_status old, ct_to = c_status d\<rparr>])"
  unfolding determineBackupConditionTransitions_def
  by (subst one_transition) (auto simp: previousStatuses_eq [OF assms] findCond_in [OF assms] split: option.splits)

definition updateReport :: "'s env \<Rightarrow> condition \<Rightarrow> backup \<Rightarrow> err option \<Rightarrow> backup \<Rightarrow> event list \<Rightarrow> bool" where
  "updateReport E d b err b' es \<longleftrightarrow> (\<exists>x r. writesCondition E d b x \<and>
     (case r of
        Inl e \<Rightarrow> es = [OnBackup (PatchStatus b x r)] \<and> err = Some (Api e) \<and> b' = x
      | Inr y \<Rightarrow> es = OnBackup (PatchStatus b x r) # countedTransitions d b x y \<and> err = None \<and> b' = y))"

lemma updateReportI:
  "writesCondition E d b x \<Longrightarrow> updateReport E d b (Some (Api e)) x [OnBackup (PatchStatus b x (Inl e))]"
  "writesCondition E d b x \<Longrightarrow> ms = countedTransitions d b x y \<Longrightarrow>
    updateReport E d b None y (OnBackup (PatchStatus b x (Inr y)) # ms)"
  unfolding updateReport_def
  by (rule exI [of _ x], rule exI [of _ "Inl e"], simp) (rule exI [of _ x], rule exI [of _ "Inr y"], simp)

text \<open>
  C34: Setting a condition sends one status patch that changes that condition and no other, keeps its
  transition time unless its status changes, keeps the timestamps and recomputes the scalar status.
  If the API server accepts the patch, exactly the real transitions are counted: that of the
  condition, if it was there with another status, and that of the scalar status, if it changed. If
  not, nothing is counted and the in-memory backup keeps the new status.
\<close>

theorem status_update_exact:
  assumes "meta_laws E" "distinct (map c_type (backupConditions b))"
  shows "outcome (updateStatus E b (setCondition E d)) (\<lambda>(err, b') es. updateReport E d b err b' es)"
  unfolding updateStatus_def Let_def
proof (rule outcome_call [OF setCondition_outcome_law [OF assms(1)]], goal_cases)
  case (1 st es)
  then obtain u where st: "st = (b_status b)\<lparr>conditions := upsertCond u (backupConditions b) d\<rparr>" and es: "es = []"
    by auto
  define x where "x = patched E b st"
  have x: "b\<lparr>b_status := st, b_status := (b_status (b\<lparr>b_status := st\<rparr>))\<lparr>legacyStatus := legacyBackupStatusFor E (b\<lparr>b_status := st\<rparr>)\<rparr>\<rparr> = x"
    by (simp add: x_def patched_def)
  have conds: "backupConditions x = upsertCond u (backupConditions b) d" by (simp add: x_def patched_def st)
  have writes: "writesCondition E d b x"
    by (auto simp: writesCondition_def conds findCond_upsert_same intro!: exI [of _ u]) (simp add: x_def st)
  show ?case
    unfolding x es append_Nil conds upsert_transitions [OF assms(2)]
  proof (rule outcome_bind, rule outcome_apiPatchStatus, goal_cases)
    case (1 r)
    show ?case
    proof (cases r)
      case (Inl e)
      with writes show ?thesis by (auto intro!: outcome_return updateReportI)
    next
      case (Inr y)
      show ?thesis
        unfolding Inr sum.case
        by (rule outcome_call [OF outcome_countTransitions])
          (auto simp: UpdateBackupStatusMetrics_def countedTransitions_def
            intro!: outcome_intro updateReportI writes split: option.splits)
    qed
  qed
qed

section \<open>Timestamps\<close>

text \<open>
  A status that keeps the timestamps of another one, or sets a missing one to a time the clock of the
  process answers. The clock may move between any two readings.
\<close>

definition clockTime :: "'s env \<Rightarrow> instant \<Rightarrow> bool" where
  "clockTime E t \<longleftrightarrow> (\<exists>s. t = fst (clock_now E s))"

lemma outcome_now_clock:
  assumes "\<And>t. clockTime E t \<Longrightarrow> Q t []"
  shows "outcome (now E) Q"
proof -
  have "outcome (now E) (\<lambda>t es. es = [] \<and> clockTime E t)"
    unfolding outcome_def now_def ask_def clockTime_def by (auto split: prod.splits) (metis fst_conv)
  then show ?thesis by (rule outcome_mono) (use assms in auto)
qed

definition dated :: "'s env \<Rightarrow> backup_status \<Rightarrow> backup_status \<Rightarrow> bool" where
  "dated E st st' \<longleftrightarrow>
     (startTimestamp st' = startTimestamp st \<or>
        isZero (startTimestamp st) \<and> clockTime E (startTimestamp st')) \<and>
     (completionTimestamp st' = completionTimestamp st \<or>
        isZero (completionTimestamp st) \<and> clockTime E (completionTimestamp st'))"

fun datesOnce :: "'s env \<Rightarrow> event \<Rightarrow> bool" where
  "datesOnce E (OnBackup (PatchStatus b x r)) = (b_synced b \<or> dated E (b_status b) (b_status x))"
| "datesOnce E e = True"

abbreviation dates :: "'s env \<Rightarrow> 's statusUpdate \<Rightarrow> bool" where
  "dates E f \<equiv> silentUpdate f (dated E)"

definition keepsDates :: "'s env \<Rightarrow> 's stage \<Rightarrow> bool" where
  "keepsDates E s \<longleftrightarrow> (\<forall>b. outcome (s b) (\<lambda>_ es. \<forall>e \<in> set es. datesOnce E e))"

lemma dated_refl [simp]: "dated E st st" "dated E st (st\<lparr>conditions := cs\<rparr>)"
  by (simp_all add: dated_def)

lemma dates_setCondition: "dates E (setCondition E' d)"
  by (auto simp: silentUpdate_def setCondition_def intro!: outcome_intro)

lemma dates_fold: "dates E (fold_io (setCondition E') ds)"
  unfolding silentUpdate_def
proof
  fix st
  show "outcome (fold_io (setCondition E') ds st) (\<lambda>st' es. es = [] \<and> dated E st st')"
  proof (induction ds arbitrary: st)
    case Nil
    show ?case by (auto intro!: outcome_return)
  next
    case (Cons d ds)
    show ?case
      unfolding fold_io.simps
      by (rule outcome_call [OF dates_setCondition [unfolded silentUpdate_def, rule_format]])
        (auto simp: dated_def intro!: outcome_mono [OF Cons])
  qed
qed

lemma dates_marks:
  "dates (client c) (markStarted c)" "dates (client c) (markCompleted c s r m)"
  unfolding silentUpdate_def markStarted_def markCompleted_def setCondition_def
  by (auto intro!: outcome_bind outcome_setStatusCondition outcome_return outcome_now_clock
      simp: dated_def)

lemma datesOnce_metrics [simp]: "metricsOnly ms \<Longrightarrow> e \<in> set ms \<Longrightarrow> datesOnce E e"
  by (auto simp: metricsOnly_def)

lemma outcome_datedPatch:
  assumes "dates E f"
    and "\<And>x e. datesOnce E (OnBackup (PatchStatus b x (Inl e))) \<Longrightarrow>
      Q (Some (Api e), x) [OnBackup (PatchStatus b x (Inl e))]"
    and "\<And>x y ms. datesOnce E (OnBackup (PatchStatus b x (Inr y))) \<Longrightarrow> metricsOnly ms \<Longrightarrow>
      Q (None, y) (OnBackup (PatchStatus b x (Inr y)) # ms)"
  shows "outcome (patchStatus c b f) Q"
  by (rule outcome_patchStatus [OF assms(1)]) (use assms(2,3) in \<open>auto simp: patched_def dated_def\<close>)

lemma datesOnce_effect: "effectOf e \<noteq> PatchesStatus \<Longrightarrow> datesOnce E e"
  by (cases "(E, e)" rule: datesOnce.cases) auto

lemma datesOnce_within: "within A es \<Longrightarrow> PatchesStatus \<notin> A \<Longrightarrow> e \<in> set es \<Longrightarrow> datesOnce E e"
  unfolding within_def by (rule datesOnce_effect) fastforce

lemma datesOnce_observing: "observing e \<Longrightarrow> datesOnce E e"
  by (rule datesOnce_effect) (simp add: effectOf_observing)

lemma keepsDates_within:
  assumes "contract A N s" "PatchesStatus \<notin> A"
  shows "keepsDates E s"
  unfolding keepsDates_def
  by (auto intro!: outcome_mono [OF contractD [OF assms(1)]] datesOnce_within [OF _ assms(2)])

lemmas dated_intro = dates_setCondition dates_fold dates_marks

lemma keepsDates_deletion:
  "keepsDates (client c) (ensureProviderBackupDeleted c)"
  "keepsDates (client c) (ensureCanceledProviderBackupDeleted c)"
proof -
  have reqs: "outcome (CreateVeleroDeleteBackupRequestIfNotExists E b) (\<lambda>_ es. \<forall>e \<in> set es. datesOnce (client c) e)"
    "outcome (DeleteVeleroDeleteBackupRequestIfExists E b) (\<lambda>_ es. \<forall>e \<in> set es. datesOnce (client c) e)"
    for E :: "'a env" and b
    by (rule deleteRequest_effects [THEN outcome_mono]; auto dest: datesOnce_within)+
  have retry: "outcome (retryProviderBackupDeletionRequest c b req sc) (\<lambda>_ es. \<forall>e \<in> set es. datesOnce (client c) e)"
    for b req sc
    unfolding retryProviderBackupDeletionRequest_def Let_def
    by (rule outcome_call [OF reqs(2)])
      (auto intro!: outcome_intro outcome_datedPatch [where E = "client c"] dated_intro split: option.splits
      simp del: getDeletingCondition.simps)
  have delete: "outcome (deleteProviderBackup c b pb sc) (\<lambda>_ es. \<forall>e \<in> set es. datesOnce (client c) e)" for b pb sc
    unfolding deleteProviderBackup_def waitForProviderBackupBeforeDeletion_def
      ensureProviderBackupDeletionRequested_def Let_def
    by (auto intro!: outcome_call [OF reqs(1)] outcome_call [OF reqs(2)] outcome_mono [OF retry]
        outcome_return outcome_bind [of "now _"] outcome_now outcome_bind [of "patchStatus _ _ _"] outcome_datedPatch [where E = "client c"] dated_intro
        outcome_bind [of "eventf _ _ _ _"] outcome_eventf split: sum.splits option.splits
        simp del: getDeletingCondition.simps)
  show "keepsDates (client c) (ensureProviderBackupDeleted c)"
    "keepsDates (client c) (ensureCanceledProviderBackupDeleted c)"
    unfolding keepsDates_def ensureProviderBackupDeleted_def ensureDeletingProviderBackup_def
      finalizeProviderBackupDeletion_def ensureCanceledProviderBackupDeleted_def
      completeCanceledProviderBackupDeletion_def Let_def
    by (auto intro!: outcome_intro outcome_datedPatch [where E = "client c"] dated_intro outcome_mono [OF delete]
        split: stage_splits simp del: getDeletingCondition.simps)
qed

lemma keepsDates_prepared: "keepsDates (client c) (ensureBackupIsPrepared c)"
proof -
  have report: "outcome (reportReadiness c b rd) (\<lambda>_ es. \<forall>e \<in> set es. datesOnce (client c) e)" for b rd
    unfolding reportReadiness_def Let_def
    by (auto intro!: outcome_intro outcome_datedPatch [where E = "client c"] dated_intro split: stage_splits)
  have check: "outcome (CheckReady E n s d) (\<lambda>_ es. \<forall>e \<in> set es. datesOnce (client c) e)" for E n s d
    by (rule outcome_mono [OF CheckReady_outcome]) (auto dest: datesOnce_observing)
  have guard: "outcome (guardOtherRun c b rd) (\<lambda>_ es. \<forall>e \<in> set es. datesOnce (client c) e)" for b rd
    by (rule outcome_mono [OF guardOtherRun_outcome]) (auto dest: datesOnce_observing)
  show ?thesis
    unfolding keepsDates_def ensureBackupIsPrepared_def
    by (auto intro!: outcome_return outcome_getProviderBackup outcome_bind [of "getProviderBackup _ _"]
        outcome_call [OF check] outcome_call [OF guard] outcome_mono [OF report] split: stage_splits)
qed

lemma keepsDates_run:
  "keepsDates (client c) (ensureVeleroStatusSynced c)" "keepsDates (client c) (ensureConditionsInitialized c)"
    "keepsDates (client c) (ensureBackupIsCanceledAfterTimeWindowExpired c)" "keepsDates (client c) (ensureMaintenanceActivated c)"
    "keepsDates (client c) (ensureProviderBackupCreated c)" "keepsDates (client c) (ensureProviderBackupCompleted c)"
    "keepsDates (client c) (ensureBackupRunCompleted c)"
  unfolding keepsDates_def ensureVeleroStatusSynced_def veleroStatusSyncOutcome_def
    ensureConditionsInitialized_def ensureBackupIsCanceledAfterTimeWindowExpired_def hasTimeWindowExpired_def
    markCanceled_def handleTimeWindowExpiredBackupNotStarted_def handleTimeWindowExpiredBackupStarted_def
    handleMissingProviderBackupAfterTimeWindowExpired_def
    handleInProgressProviderBackupAfterTimeWindowExpired_def
    handleTerminatedProviderBackupAfterTimeWindowExpired_def ensureMaintenanceActivated_def
    ensureProviderBackupCreated_def ensureProviderBackupCompleted_def handleProviderBackupInProgress_def
    handleProviderBackupFailed_def handleProviderBackupSucceeded_def patchProviderBackupCompletedStatus_def
    ensureBackupRunCompleted_def Let_def
  subgoal by (auto intro!: outcome_intro outcome_anyPatch split: stage_splits prod.splits)
  by (auto intro!: outcome_intro outcome_datedPatch [where E = "client c"] dated_intro split: stage_splits bool.splits)

lemma runStages_dates:
  assumes "list_all (keepsDates E) ss"
  shows "outcome (runStages d ss b) (\<lambda>_ es. \<forall>e \<in> set es. datesOnce E e)"
  using assms
proof (induction ss arbitrary: b)
  case Nil
  show ?case by (auto intro!: runStages_Nil)
next
  case (Cons s ss)
  then have "outcome (s b) (\<lambda>(act, err, b') es. \<forall>e \<in> set es. datesOnce E e)"
    by (auto simp: keepsDates_def elim!: outcome_mono)
  then show ?case
    by (rule runStages_Cons) (use Cons in \<open>auto intro!: outcome_mono [OF Cons.IH]\<close>)
qed

lemma stages_keep_dates:
  "list_all (keepsDates (client c)) (getStagesForOperation (reconcilerOf c) op)"
  using keepsDates_deletion keepsDates_run keepsDates_prepared
    contract_leaseReleased [THEN keepsDates_within] contract_orphanedBackupDeleted [THEN keepsDates_within]
    contract_backupSetup [THEN keepsDates_within] contract_activeLease [THEN keepsDates_within]
    contract_maintenanceDeactivated [THEN keepsDates_within]
  by (cases op) (auto simp: reconcilerOf_def cleanupStages_def finalizeStages_def)

text \<open>What starting and completing a run does to its timestamp: exactly a missing one is set.\<close>

definition setsMissing :: "'s env \<Rightarrow> instant \<Rightarrow> instant \<Rightarrow> bool" where
  "setsMissing E t t' \<longleftrightarrow> (if isZero t then clockTime E t' else t' = t)"

lemma marks_set_missing:
  "outcome (markStarted c st) (\<lambda>st' _. setsMissing (client c) (startTimestamp st) (startTimestamp st'))"
  "outcome (markCompleted c s r m st)
     (\<lambda>st' _. setsMissing (client c) (completionTimestamp st) (completionTimestamp st'))"
  unfolding markStarted_def markCompleted_def setCondition_def setsMissing_def
  by (auto intro!: outcome_bind outcome_setStatusCondition outcome_return outcome_now_clock)

text \<open>
  C28: No reconciliation overwrites the start or the completion of a run: every status patch of a
  backup that was not copied from the provider either keeps each of the two timestamps as it was, or
  sets it from nothing to a time the clock of the process answers, however the clock moves between two
  readings. Marking a run as started or as completed sets a missing timestamp to such a time and keeps
  one that is there.
\<close>

theorem timestamps_written_once:
  "outcome (Reconcile (backupController c d) k) (\<lambda>res es. list_all (datesOnce (client c)) es) \<and>
   outcome (markStarted c st) (\<lambda>st' _. setsMissing (client c) (startTimestamp st) (startTimestamp st')) \<and>
   outcome (markCompleted c s r m st)
     (\<lambda>st' _. setsMissing (client c) (completionTimestamp st) (completionTimestamp st'))"
proof (intro conjI marks_set_missing)
  show "outcome (Reconcile (backupController c d) k) (\<lambda>res es. list_all (datesOnce (client c)) es)"
    by (rule Reconcile_outcome [where R = "\<lambda>_ _ es. \<forall>e \<in> set es. datesOnce (client c) e",
          OF runStages_dates [OF stages_keep_dates]])
      (auto simp: list_all_iff)
qed

section \<open>Reporting a wait\<close>

text \<open>
  C40: The change detection answers no exactly when setting the condition leaves status, reason and
  message of every condition as they are, whatever the clock says.
\<close>

theorem will_change_exact:
  assumes "meta_laws E"
  shows "WillChange E cs d \<longleftrightarrow> \<not> (\<forall>t. sameReport (findCond cs t) (findCond (upsertCond u cs d) t))"
  by (rule WillChange_iff [OF assms])

text \<open>
  A condition that tells how long something has been waited for changes exactly once a minute: the
  rendered duration is injective on whole minutes, so the change detection reports again if and only
  if another minute has passed.
\<close>

theorem wait_reported_every_minute:
  assumes "meta_laws E" "0 \<le> before" "0 \<le> after"
    "findCond cs t = Some ((newCondition t st r (m @ FormatWaitDuration before @ n))\<lparr>c_transition := u\<rparr>)"
  shows "WillChange E cs (newCondition t st r (m @ FormatWaitDuration after @ n)) \<longleftrightarrow>
    before div minute \<noteq> after div minute"
  using FormatWaitDuration_inject [OF assms(2,3)]
  by (simp add: WillChange_def meta_find [OF assms(1)] assms(4))

section \<open>Metadata\<close>

lemma merge_flag: "snd (mergeMissingOrChangedValues target kvs) \<longleftrightarrow>
    (\<exists>(k, v) \<in> set kvs. target k \<noteq> Some v)" if "distinct (List.map fst kvs)"
  using that
proof (induction target kvs rule: mergeMissingOrChangedValues.induct)
  case (2 target k v kvs)
  then show ?case by (cases "target k = Some v") auto
qed simp

lemma merge_map: "fst (mergeMissingOrChangedValues target kvs) = target ++ map_of kvs"
    if "distinct (List.map fst kvs)"
  using that
proof (induction target kvs rule: mergeMissingOrChangedValues.induct)
  case (2 target k v kvs)
  then have "map_of kvs k = None" "distinct (List.map fst kvs)"
    by (simp_all add: map_of_eq_None_iff image_iff)
  then have upd: "(target(k \<mapsto> v)) ++ map_of kvs = target ++ map_of ((k, v) # kvs)"
    by (simp add: map_add_upd_left domIff del: fun_upd_apply)
  show ?case
  proof (cases "target k = Some v")
    case True
    with 2 \<open>distinct (List.map fst kvs)\<close> have "fst (mergeMissingOrChangedValues target kvs) = target ++ map_of kvs"
      by blast
    then show ?thesis using upd unfolding map_add_upd_eq [of target, OF True]
      by (simp only: mergeMissingOrChangedValues.simps True simp_thms if_True)
  next
    case False
    with 2 \<open>distinct (List.map fst kvs)\<close>
    have "fst (mergeMissingOrChangedValues (target(k \<mapsto> v)) kvs) = (target(k \<mapsto> v)) ++ map_of kvs"
      by blast
    then show ?thesis using upd by (simp only: mergeMissingOrChangedValues.simps if_not_P [OF False] fst_conv)
  qed
qed simp

text \<open>
  Merging labels or annotations keeps every foreign key, sets the wanted ones, reports a change
  exactly when one was missing or different, and changes nothing the second time.
\<close>

theorem merge_exact:
  assumes "distinct (List.map fst kvs)"
  shows "mergeMissingOrChangedValues target kvs =
      (target ++ map_of kvs, list_ex (\<lambda>(k, v). target k \<noteq> Some v) kvs) \<and>
    mergeMissingOrChangedValues (target ++ map_of kvs) kvs = (target ++ map_of kvs, False)"
proof -
  have flag: "snd (mergeMissingOrChangedValues m kvs) = list_ex (\<lambda>(k, v). m k \<noteq> Some v) kvs" for m
    using merge_flag [OF assms] by (auto simp: list_ex_iff)
  have "mergeMissingOrChangedValues target kvs =
      (target ++ map_of kvs, list_ex (\<lambda>(k, v). target k \<noteq> Some v) kvs)"
    by (rule prod_eqI) (simp_all add: merge_map [OF assms] flag)
  moreover have "\<not> list_ex (\<lambda>(k, v). (target ++ map_of kvs) k \<noteq> Some v) kvs"
    using assms by (auto simp: list_ex_iff map_of_is_SomeI)
  then have "mergeMissingOrChangedValues (target ++ map_of kvs) kvs = (target ++ map_of kvs, False)"
    by (auto simp: merge_map [OF assms] flag map_add_assoc [symmetric] map_add_subsumed1 simp del: map_add_assoc
        intro!: prod_eqI)
  ultimately show ?thesis by blast
qed

section \<open>Concrete runs\<close>

theorem status_update_exact_witness:
  "let run = updateStatus clusterEnv demoBackup (setCondition clusterEnv
         (newCondition ConditionCanceled ConditionTrue ''r'' ''m''));
       w = \<lparr>outside = demoCluster, log = []\<rparr>
   in updateReport clusterEnv (newCondition ConditionCanceled ConditionTrue ''r'' ''m'') demoBackup
        (fst (result run w)) (snd (result run w)) (events run w) \<and>
      fst (result run w) = None \<and> legacyStatus (b_status (snd (result run w))) = StatusFailed"
proof -
  have "distinct (List.map c_type (backupConditions demoBackup))"
    by (simp add: demoBackup_def obj_meta.defs emptyBackupStatus_def)
  from outcomeD [OF status_update_exact [OF clusterEnv_meta this]]
  have "let run = updateStatus clusterEnv demoBackup (setCondition clusterEnv
         (newCondition ConditionCanceled ConditionTrue ''r'' ''m''));
       w = \<lparr>outside = demoCluster, log = []\<rparr>
    in updateReport clusterEnv (newCondition ConditionCanceled ConditionTrue ''r'' ''m'') demoBackup
        (fst (result run w)) (snd (result run w)) (events run w)"
    by (simp add: Let_def case_prod_beta)
  moreover have "let run = updateStatus clusterEnv demoBackup (setCondition clusterEnv
         (newCondition ConditionCanceled ConditionTrue ''r'' ''m''));
       w = \<lparr>outside = demoCluster, log = []\<rparr>
    in fst (result run w) = None \<and> legacyStatus (b_status (snd (result run w))) = StatusFailed"
    by (simp add: result_def run_simps call_defs status_defs cluster_defs metric_defs Let_def
        cong: bind_cong_weak del: run_state_bind)
  ultimately show ?thesis by (simp add: Let_def)
qed

theorem will_change_exact_witness:
  "\<not> WillChange clusterEnv [(newCondition ConditionPrepared ConditionTrue ''r'' ''m'')\<lparr>c_transition := 4\<rparr>]
     (newCondition ConditionPrepared ConditionTrue ''r'' ''m'')"
  by (simp add: will_change_exact [OF clusterEnv_meta, of _ _ 5] sameReport_def findCond_def)

theorem wait_reported_every_minute_witness:
  "WillChange clusterEnv [newCondition ConditionDeleting ConditionTrue ''r'' (FormatWaitDuration (90 * second))]
     (newCondition ConditionDeleting ConditionTrue ''r'' (FormatWaitDuration (125 * second))) \<and>
   \<not> WillChange clusterEnv [newCondition ConditionDeleting ConditionTrue ''r'' (FormatWaitDuration (90 * second))]
     (newCondition ConditionDeleting ConditionTrue ''r'' (FormatWaitDuration (110 * second)))"
  using wait_reported_every_minute [OF clusterEnv_meta, of "90 * second" "125 * second" _ ConditionDeleting 0
      ConditionTrue "''r''" "[]" "[]"]
    wait_reported_every_minute [OF clusterEnv_meta, of "90 * second" "110 * second" _ ConditionDeleting 0
      ConditionTrue "''r''" "[]" "[]"]
  by (simp add: findCond_def newCondition_def duration_units)

theorem merge_exact_witness:
  "mergeMissingOrChangedValues [''app'' \<mapsto> ''other'', ''own'' \<mapsto> ''x''] defaultLabels =
     ([''app'' \<mapsto> ''other'', ''own'' \<mapsto> ''x''] ++ map_of defaultLabels, True)"
  using merge_exact [of defaultLabels "[''app'' \<mapsto> ''other'', ''own'' \<mapsto> ''x'']"]
  by (simp add: defaultLabels_def)

end
