(* ===== verification/VeleroSync.thy ===== *)
theory VeleroSync
  imports BackupRuns Cluster
begin

text \<open>
  \<open>internal/controller/backup/velero_backup_controller.go\<close> and \<open>velero_backup_reconciler.go\<close>: every
  Velero backup gets a backup object, and a backup object goes with its Velero backup. The controller
  sees the reconciler through its interface, whose laws are the locale \<open>velero_backup_reconciler\<close>.
\<close>

section \<open>The reconciler\<close>

abbreviation ProviderVelero :: "'s env \<Rightarrow> string" where
  "ProviderVelero E \<equiv> libConstant E ''backupv1.ProviderVelero''"

definition copyDefaultLabels :: "string \<rightharpoonup> string" where
  "copyDefaultLabels = foldl (\<lambda>m (k, v). m(k \<mapsto> v)) Map.empty defaultLabels"

text \<open>The backup object made for a Velero backup the operator did not create.\<close>

definition syncedBackup :: "'s env \<Rightarrow> velero_backup \<Rightarrow> backup" where
  "syncedBackup E v = obj_meta.extend
     ((newMeta (o_namespace v) (o_name v))\<lparr>o_labels := copyDefaultLabels,
        o_annotations := GetBackupAnnotations v, o_finalizers := [BackupFinalizer E]\<rparr>)
     \<lparr>b_provider = ProviderVelero E, b_synced = True, b_status = emptyBackupStatus\<rparr>"

definition ensureBackupExists :: "'s env \<Rightarrow> velero_backup \<Rightarrow> ('s, err option) prog" where
  "ensureBackupExists E v = do {
     got \<leftarrow> apiGet (backups E) OnBackup (keyOf v);
     case got of
       Inr b \<Rightarrow> return None
     | Inl e \<Rightarrow>
         if \<not> isNotFound e then return (Some (Wrapf ''get cloudogu backup'' (Api e)))
         else do {
           created \<leftarrow> apiCreate (backups E) OnBackup (syncedBackup E v);
           return (case created of
             Inl e' \<Rightarrow> Some (Wrapf ''create cloudogu backup'' (Api e'))
           | Inr b \<Rightarrow> None)
         }
   }"

definition ensureDeleteBackupRequestExists :: "'s env \<Rightarrow> key \<Rightarrow> ('s, err option) prog" where
  "ensureDeleteBackupRequestExists E k = do {
     got \<leftarrow> apiGet (deleteRequests E) OnDeleteRequest k;
     case got of
       Inr r \<Rightarrow> return None
     | Inl e \<Rightarrow>
         if \<not> isNotFound e then return (Some (Wrapf ''get velero delete backup request'' (Api e)))
         else do {
           created \<leftarrow> apiCreate (deleteRequests E) OnDeleteRequest (newDeleteRequest k);
           return (case created of
             Inl e' \<Rightarrow> if isAlreadyExists e' then None
                        else Some (Wrapf ''create velero delete backup request'' (Api e'))
           | Inr r \<Rightarrow> None)
         }
   }"

definition deleteBackupIfExists :: "'s env \<Rightarrow> key \<Rightarrow> ('s, err option) prog" where
  "deleteBackupIfExists E k = do {
     got \<leftarrow> apiGet (backups E) OnBackup k;
     case got of
       Inl e \<Rightarrow> return (if isNotFound e then None else Some (Wrapf ''get cloudogu backup'' (Api e)))
     | Inr b \<Rightarrow> do {
         requested \<leftarrow> ensureDeleteBackupRequestExists E k;
         case requested of
           Some e \<Rightarrow> return (Some e)
         | None \<Rightarrow>
             if isStatusConditionTrue E (backupConditions b) ConditionCanceled then return None
             else do {
               del \<leftarrow> apiDelete (backups E) OnBackup b noOptions;
               return (case del of
                 Inl e \<Rightarrow> if isNotFound e then None else Some (Wrapf ''delete cloudogu backup'' (Api e))
               | Inr _ \<Rightarrow> None)
             }
       }
   }"

section \<open>The controller\<close>

record 's veleroBackupReconciler =
  vr_ensureBackupExists :: "velero_backup \<Rightarrow> ('s, err option) prog"
  vr_deleteBackupIfExists :: "key \<Rightarrow> ('s, err option) prog"

definition veleroBackupReconcilerOf :: "'s env \<Rightarrow> 's veleroBackupReconciler" where
  "veleroBackupReconcilerOf E = \<lparr>vr_ensureBackupExists = ensureBackupExists E,
     vr_deleteBackupIfExists = deleteBackupIfExists E\<rparr>"

definition nameOf :: "key \<Rightarrow> string" where
  "nameOf k = fst k @ ''/'' @ snd k"

definition ReconcileVeleroBackup :: "'s env \<Rightarrow> 's veleroBackupReconciler \<Rightarrow> key \<Rightarrow> ('s, err option) prog" where
  "ReconcileVeleroBackup E r k = do {
     got \<leftarrow> apiGet (veleroBackups E) OnVeleroBackup k;
     case got of
       Inl e \<Rightarrow>
         if \<not> isNotFound e then return (Some (Wrapf (''get velero backup '' @ nameOf k) (Api e)))
         else do {
           derr \<leftarrow> vr_deleteBackupIfExists r k;
           return (map_option (Wrapf (''delete cloudogu backup for deleted velero backup '' @ nameOf k)) derr)
         }
     | Inr v \<Rightarrow>
         if \<not> isZeroPtr (o_deletion v) then do {
           derr \<leftarrow> vr_deleteBackupIfExists r k;
           return (map_option (Wrapf (''delete cloudogu backup for deleting velero backup '' @ nameOf k)) derr)
         }
         else do {
           cerr \<leftarrow> vr_ensureBackupExists r v;
           return (case cerr of
             None \<Rightarrow> None
           | Some e \<Rightarrow>
               if apiReasonOf e = Some AlreadyExists then None
               else Some (Wrapf (''ensure cloudogu backup for velero backup '' @ nameOf k) e))
         }
   }"

section \<open>The laws of the interface\<close>

text \<open>The effects on backup objects this controller can have.\<close>

fun createsBackup :: "backup \<Rightarrow> event \<Rightarrow> bool" where
  "createsBackup b (OnBackup (Create x r)) \<longleftrightarrow> x = b"
| "createsBackup b e = False"

fun deletesBackup :: "event \<Rightarrow> bool" where
  "deletesBackup (OnBackup (Delete b d r)) = True"
| "deletesBackup e = False"

lemma deletesBackup_effect: "deletesBackup e \<longleftrightarrow> effectOf e = DeletesBackup"
  by (cases e rule: deletesBackup.cases) (auto elim!: effectOf.elims split: if_splits)

definition sawVeleroGoing :: "key \<Rightarrow> event \<Rightarrow> bool" where
  "sawVeleroGoing k e \<longleftrightarrow> (\<exists>x. e = OnVeleroBackup (Get k (Inl x)) \<and> isNotFound x) \<or>
     (\<exists>v. e = OnVeleroBackup (Get k (Inr v)) \<and> \<not> isZeroPtr (o_deletion v))"

definition deletionRequestKnown :: "key \<Rightarrow> event \<Rightarrow> bool" where
  "deletionRequestKnown k e \<longleftrightarrow> (\<exists>r. e = OnDeleteRequest (Get k (Inr r))) \<or>
     (\<exists>r. e = OnDeleteRequest (Create (newDeleteRequest k) (Inr r))) \<or>
     (\<exists>x. e = OnDeleteRequest (Create (newDeleteRequest k) (Inl x)) \<and> isAlreadyExists x)"

locale velero_backup_reconciler =
  fixes E :: "'s env" and r :: "'s veleroBackupReconciler"
  assumes ensure_creates: "outcome (vr_ensureBackupExists r v) (\<lambda>err es.
      list_all (\<lambda>e. observing e \<or> createsBackup (syncedBackup E v) e) es \<and>
      preceded (\<lambda>e. \<exists>x. e = OnBackup (Get (keyOf v) (Inl x)) \<and> isNotFound x)
        (createsBackup (syncedBackup E v)) es)"
    and delete_effects: "outcome (vr_deleteBackupIfExists r k) (\<lambda>err es.
      within {RequestsDeletion, DeletesBackup} es \<and>
      preceded (deletionRequestKnown k) deletesBackup es)"
begin

lemma creates_missing_only:
  "outcome (ReconcileVeleroBackup E r k) (\<lambda>_ es.
     preceded (\<lambda>e. \<exists>v. e = OnVeleroBackup (Get k (Inr v)) \<and> isZeroPtr (o_deletion v) \<and> b = syncedBackup E v)
       (createsBackup b) es)"
  unfolding ReconcileVeleroBackup_def
proof (rule outcome_bind, rule outcome_apiGet, goal_cases)
  case (1 got)
  have delete: "outcome (vr_deleteBackupIfExists r k) (\<lambda>err es. preceded G (createsBackup b) es)" for G
    by (rule outcome_mono [OF delete_effects])
      (auto simp: within_def intro!: preceded_none elim!: createsBackup.elims)
  have ensure: "outcome (vr_ensureBackupExists r v)
      (\<lambda>err es. b = syncedBackup E v \<or> preceded G (createsBackup b) es)" for v G
    by (rule outcome_mono [OF ensure_creates])
      (auto simp: list_all_iff intro!: preceded_none elim!: createsBackup.elims)
  show ?case
    by (auto intro!: outcome_return outcome_call [OF delete] outcome_call [OF ensure] split: sum.splits)
qed

lemma deletes_after_velero:
  "outcome (ReconcileVeleroBackup E r k) (\<lambda>_ es. preceded (sawVeleroGoing k) deletesBackup es \<and>
     preceded (deletionRequestKnown k) deletesBackup es)"
  unfolding ReconcileVeleroBackup_def
proof (rule outcome_bind, rule outcome_apiGet, goal_cases)
  case (1 got)
  have ensure: "outcome (vr_ensureBackupExists r v) (\<lambda>err es. preceded G deletesBackup es)" for v G
    by (rule outcome_mono [OF ensure_creates])
      (auto simp: list_all_iff intro!: preceded_none elim!: deletesBackup.elims)
  show ?case
    by (auto intro!: outcome_return outcome_call [OF outcome_conj [OF ensure ensure]]
        outcome_call [OF delete_effects] simp: preceded_append sawVeleroGoing_def split: sum.splits)
qed

end

section \<open>The reconciler of the operator\<close>

lemma ensureDeleteBackupRequestExists_outcome:
  "outcome (ensureDeleteBackupRequestExists E k) (\<lambda>err es.
     within {RequestsDeletion} es \<and>
     (err = None \<longrightarrow> (\<exists>e \<in> set es. deletionRequestKnown k e)))"
  unfolding ensureDeleteBackupRequestExists_def
  by (auto intro!: outcome_intro split: sum.splits if_splits simp: deletionRequestKnown_def)

lemma requests_within: "within {RequestsDeletion} es \<Longrightarrow> within {RequestsDeletion, DeletesBackup} es"
  by (auto elim: within_mono)

lemma requests_preceded: "within {RequestsDeletion} es \<Longrightarrow> preceded G deletesBackup es"
  by (rule preceded_none) (auto simp: within_def deletesBackup_effect)

interpretation velero_sync: velero_backup_reconciler E "veleroBackupReconcilerOf E" for E
proof
  show "outcome (vr_ensureBackupExists (veleroBackupReconcilerOf E) v) (\<lambda>err es.
      list_all (\<lambda>e. observing e \<or> createsBackup (syncedBackup E v) e) es \<and>
      preceded (\<lambda>e. \<exists>x. e = OnBackup (Get (keyOf v) (Inl x)) \<and> isNotFound x)
        (createsBackup (syncedBackup E v)) es)" for v
    by (auto simp: veleroBackupReconcilerOf_def ensureBackupExists_def intro!: outcome_intro
        split: sum.splits if_splits)
  show "outcome (vr_deleteBackupIfExists (veleroBackupReconcilerOf E) k) (\<lambda>err es.
      within {RequestsDeletion, DeletesBackup} es \<and>
      preceded (deletionRequestKnown k) deletesBackup es)" for k
    unfolding veleroBackupReconcilerOf_def deleteBackupIfExists_def
    by (auto intro!: outcome_return outcome_bind [of "apiGet _ _ _"] outcome_apiGet
        outcome_bind [of "apiDelete _ _ _ _"] outcome_apiDelete
        outcome_call [OF ensureDeleteBackupRequestExists_outcome]
        split: sum.splits if_splits option.splits simp: preceded_append requests_within
        requests_preceded) blast+
qed

section \<open>Properties\<close>

text \<open>
  C25: The synchronization with Velero creates a backup object only for a Velero backup it has read and
  that is not being deleted, and that object carries the Velero backup's identity and is marked as
  synced; it deletes a backup object only after it has seen the Velero backup gone or going, and
  after a delete request for the stored data is known to exist.
\<close>

theorem velero_sync_is_safe:
  "outcome (ReconcileVeleroBackup E (veleroBackupReconcilerOf E) k) (\<lambda>_ es.
     preceded (\<lambda>e. \<exists>v. e = OnVeleroBackup (Get k (Inr v)) \<and> isZeroPtr (o_deletion v) \<and> b = syncedBackup E v)
       (createsBackup b) es \<and>
     preceded (sawVeleroGoing k) deletesBackup es \<and> preceded (deletionRequestKnown k) deletesBackup es)"
  by (intro outcome_conj velero_sync.creates_missing_only velero_sync.deletes_after_velero)

end
