(* ===== verification/Retention.thy ===== *)
theory Retention
  imports Cluster
begin

text \<open>
  \<open>internal/retention\<close>: the strategies that decide which of the completed backups the garbage
  collection removes. A strategy splits a list of backups in two; the interface is the locale
  \<open>retention_strategy\<close>, whose law (nothing is lost, nothing invented) all four strategies satisfy.
\<close>

section \<open>Loops over Go maps\<close>

text \<open>
  A \<open>range\<close> loop over a map visits the entries in an order the runtime picks. The pick is a list of
  numbers from the outside (each chooses among the entries left), so that every order is possible
  and every order is a permutation.
\<close>

fun arrange :: "nat list \<Rightarrow> 'a list \<Rightarrow> 'a list" where
  "arrange ns [] = []"
| "arrange [] xs = xs"
| "arrange (n # ns) xs = (let i = n mod length xs in xs ! i # arrange ns (take i xs @ drop (Suc i) xs))"

lemma mset_remove_nth:
  assumes "i < length xs"
  shows "add_mset (xs ! i) (mset (take i xs @ drop (Suc i) xs)) = mset xs"
proof -
  have "mset xs = mset (take i xs @ xs ! i # drop (Suc i) xs)"
    using id_take_nth_drop [OF assms] by simp
  then show ?thesis by simp
qed

lemma mset_arrange [simp]: "mset (arrange ns xs) = mset xs"
proof (induction ns xs rule: arrange.induct)
  case (3 n ns x xs)
  define i where "i = n mod length (x # xs)"
  have i: "i < length (x # xs)" by (simp add: i_def)
  have "arrange (n # ns) (x # xs) = (x # xs) ! i # arrange ns (take i (x # xs) @ drop (Suc i) (x # xs))"
    unfolding i_def by (simp add: Let_def)
  then show ?case
    using 3 [OF i_def] mset_remove_nth [OF i] by (simp only: mset.simps)
qed simp_all

lemma set_arrange [simp]: "set (arrange ns xs) = set xs"
  by (metis mset_arrange set_mset_mset)

text \<open>Every permutation is one of the orders.\<close>

lemma arrange_complete: "mset ys = mset xs \<Longrightarrow> \<exists>ns. arrange ns xs = ys"
proof (induction ys arbitrary: xs)
  case Nil
  then show ?case by (intro exI [of _ "[]"]) simp
next
  case (Cons y ys)
  then have "y \<in> set xs" by (metis list.set_intros(1) set_mset_mset)
  then obtain i where i: "i < length xs" "xs ! i = y" by (metis in_set_conv_nth)
  from mset_remove_nth [OF i(1)] Cons.prems i have "mset ys = mset (take i xs @ drop (Suc i) xs)"
    by (metis add_mset_add_mset_same_iff mset.simps(2))
  from Cons.IH [OF this] obtain ns where "arrange ns (take i xs @ drop (Suc i) xs) = ys" ..
  with i show ?case
    by (intro exI [of _ "i # ns"]) (cases xs; simp add: Let_def)
qed

section \<open>Strategies\<close>

type_synonym strategyId = string

definition KeepAllStrategy :: strategyId where
  "KeepAllStrategy = ''keepAll''"

definition RemoveAllButKeepLatestStrategy :: strategyId where
  "RemoveAllButKeepLatestStrategy = ''removeAllButKeepLatest''"

definition KeepLastSevenDaysStrategy :: strategyId where
  "KeepLastSevenDaysStrategy = ''keepLastSevenDays''"

definition KeepLast7DaysOldestOf1Month1Quarter1HalfYear1YearStrategy :: strategyId where
  "KeepLast7DaysOldestOf1Month1Quarter1HalfYear1YearStrategy = ''keep7Days1Month1Quarter1Year''"

lemmas strategy_ids = KeepAllStrategy_def RemoveAllButKeepLatestStrategy_def
  KeepLastSevenDaysStrategy_def KeepLast7DaysOldestOf1Month1Quarter1HalfYear1YearStrategy_def

text \<open>The two results of \<open>FilterForRemoval\<close>: the removed and the retained backups.\<close>

record 's strategy =
  st_filterForRemoval :: "backup list \<Rightarrow> ('s, backup list \<times> backup list) prog"
  st_name :: strategyId

abbreviation startOf :: "backup \<Rightarrow> instant" where
  "startOf b \<equiv> startTimestamp (b_status b)"

definition keepAllStrategy :: "'s strategy" where
  "keepAllStrategy = \<lparr>st_filterForRemoval = (\<lambda>bs. return ([], bs)), st_name = KeepAllStrategy\<rparr>"

text \<open>The index of the first backup that no other one beats (\<open>later\<close> or \<open>older\<close> than it).\<close>

definition bestIndex :: "(instant \<Rightarrow> instant \<Rightarrow> bool) \<Rightarrow> backup list \<Rightarrow> nat" where
  "bestIndex beats bs = foldl (\<lambda>best i. if beats (startOf (bs ! i)) (startOf (bs ! best)) then i else best)
     0 [0..<length bs]"

definition deleteAt :: "nat \<Rightarrow> 'a list \<Rightarrow> 'a list" where
  "deleteAt i xs = take i xs @ drop (Suc i) xs"

definition latestBackup :: "backup list \<Rightarrow> backup list \<times> backup list" where
  "latestBackup bs = (if bs = [] then ([], [])
     else let i = bestIndex (\<lambda>t u. t > u) bs in (deleteAt i bs, [bs ! i]))"

definition removeAllButKeepLatestStrategy :: "'s strategy" where
  "removeAllButKeepLatestStrategy = \<lparr>st_filterForRemoval = (\<lambda>bs. return (latestBackup bs)),
     st_name = RemoveAllButKeepLatestStrategy\<rparr>"

definition day :: duration where
  "day = 24 * hour"

definition keepLastSevenDays :: "'s env \<Rightarrow> backup list \<Rightarrow> ('s, backup list \<times> backup list) prog" where
  "keepLastSevenDays E bs = do {
     t \<leftarrow> now E;
     let sevenDaysBefore = t - 7 * day;
     return (filter (\<lambda>b. startOf b < sevenDaysBefore) bs, filter (\<lambda>b. \<not> startOf b < sevenDaysBefore) bs)
   }"

definition keepLastSevenDaysStrategy :: "'s env \<Rightarrow> 's strategy" where
  "keepLastSevenDaysStrategy E = \<lparr>st_filterForRemoval = keepLastSevenDays E,
     st_name = KeepLastSevenDaysStrategy\<rparr>"

section \<open>Intervals\<close>

record timeInterval =
  ti_name :: string
  ti_start :: int
  ti_end :: int
  ti_mode :: string

definition keepAllIntervalMode :: string where "keepAllIntervalMode = ''ALL''"
definition keepOldestIntervalMode :: string where "keepOldestIntervalMode = ''OLDEST''"

definition validRetentionModes :: "string list" where
  "validRetentionModes = [keepAllIntervalMode, keepOldestIntervalMode]"

definition validateRetentionMode :: "string \<Rightarrow> bool" where
  "validateRetentionMode mode \<longleftrightarrow> list_ex (\<lambda>m. mode = m) validRetentionModes"

definition newTimeInterval :: "string \<Rightarrow> int \<Rightarrow> int \<Rightarrow> string \<Rightarrow> timeInterval" where
  "newTimeInterval nm s e mode = \<lparr>ti_name = nm, ti_start = s, ti_end = e,
     ti_mode = (if validateRetentionMode mode then mode else validRetentionModes ! 0)\<rparr>"

definition isTimestampInInterval :: "timeInterval \<Rightarrow> instant \<Rightarrow> instant \<Rightarrow> bool" where
  "isTimestampInInterval iv timestamp current = (
     let intervalStart = truncateTime day (current + mulDuration (- ti_start iv) day);
         intervalEnd = truncateTime day (current + mulDuration (- ti_end iv) day);
         t = truncateTime day timestamp
     in intervalEnd \<le> t \<and> t \<le> intervalStart)"

record intervalCalendar =
  ic_name :: strategyId
  ic_timeIntervals :: "timeInterval list"

definition newIntervalCalendar :: "strategyId \<Rightarrow> intervalCalendar" where
  "newIntervalCalendar nm = \<lparr>ic_name = nm, ic_timeIntervals = []\<rparr>"

definition addTimeIntervals :: "intervalCalendar \<Rightarrow> timeInterval list \<Rightarrow> intervalCalendar" where
  "addTimeIntervals ic ivs = ic\<lparr>ic_timeIntervals := ic_timeIntervals ic @ ivs\<rparr>"

text \<open>The configuration check: \<open>None\<close> for a calendar without gaps or overlaps, else the bad interval.\<close>

fun firstGap :: "int \<Rightarrow> timeInterval list \<Rightarrow> string option" where
  "firstGap current [] = None"
| "firstGap current (iv # ivs) =
     (if current \<noteq> ti_start iv then Some (ti_name iv) else firstGap (ti_end iv + 1) ivs)"

definition validateConfig :: "intervalCalendar \<Rightarrow> string option" where
  "validateConfig ic = firstGap 0 (ic_timeIntervals ic)"

text \<open>The map from intervals to backups, in order of insertion; \<open>append\<close> on a missing key starts it.\<close>

type_synonym mappings = "(timeInterval \<times> backup list) list"

fun appendTo :: "timeInterval \<Rightarrow> backup \<Rightarrow> mappings \<Rightarrow> mappings" where
  "appendTo iv b [] = [(iv, [b])]"
| "appendTo iv b ((iv', bs) # ms) = (if iv' = iv then (iv', bs @ [b]) # ms else (iv', bs) # appendTo iv b ms)"

definition mapBackupsToIntervals :: "'s env \<Rightarrow> intervalCalendar \<Rightarrow> backup \<Rightarrow> mappings \<times> backup list
    \<Rightarrow> ('s, mappings \<times> backup list) prog" where
  "mapBackupsToIntervals E ic b acc = do {
     t \<leftarrow> now E;
     let fits = filter (\<lambda>iv. isTimestampInInterval iv (startOf b) t) (ic_timeIntervals ic);
     return (foldl (\<lambda>m iv. appendTo iv b m) (fst acc) fits,
       if fits = [] then snd acc @ [b] else snd acc)
   }"

definition retainOldestBackup :: "backup list \<Rightarrow> backup list \<times> backup list" where
  "retainOldestBackup bs = (if bs = [] then ([], [])
     else let i = bestIndex (\<lambda>t u. t < u) bs in (deleteAt i bs, [bs ! i]))"

definition retainAllBackups :: "backup list \<Rightarrow> backup list \<times> backup list" where
  "retainAllBackups bs = ([], bs)"

definition retainByMode :: "timeInterval \<Rightarrow> backup list \<Rightarrow> backup list \<times> backup list" where
  "retainByMode iv bs =
     (if ti_mode iv = keepAllIntervalMode then retainAllBackups bs
      else if ti_mode iv = keepOldestIntervalMode then retainOldestBackup bs
      else ([], []))"

fun filterByRetentionMode :: "mappings \<Rightarrow> backup list \<times> backup list \<Rightarrow> backup list \<times> backup list" where
  "filterByRetentionMode [] acc = acc"
| "filterByRetentionMode ((iv, bs) # ms) acc =
     filterByRetentionMode ms (fst acc @ fst (retainByMode iv bs), snd acc @ snd (retainByMode iv bs))"

definition intervalFilterForRemoval :: "'s env \<Rightarrow> intervalCalendar \<Rightarrow> backup list
    \<Rightarrow> ('s, backup list \<times> backup list) prog" where
  "intervalFilterForRemoval E ic allBackups = do {
     (mapped, removed) \<leftarrow> fold_io (mapBackupsToIntervals E ic) allBackups ([], []);
     order \<leftarrow> ask (mapOrder E);
     return (filterByRetentionMode (arrange order mapped) (removed, []))
   }"

definition newIntervalBasedStrategy :: "'s env \<Rightarrow> strategyId \<Rightarrow> intervalCalendar \<Rightarrow> 's strategy" where
  "newIntervalBasedStrategy E nm ic = \<lparr>st_filterForRemoval = intervalFilterForRemoval E ic, st_name = nm\<rparr>"

definition yearCalendar :: intervalCalendar where
  "yearCalendar = addTimeIntervals
     (newIntervalCalendar KeepLast7DaysOldestOf1Month1Quarter1HalfYear1YearStrategy)
     [newTimeInterval ''sevenDays'' 0 7 keepAllIntervalMode,
      newTimeInterval ''thirtyDays'' 8 30 keepOldestIntervalMode,
      newTimeInterval ''ninetyDays'' 31 90 keepOldestIntervalMode,
      newTimeInterval ''oneHundredEightyDays'' 91 180 keepOldestIntervalMode,
      newTimeInterval ''threeHundredSixtyDays'' 181 360 keepOldestIntervalMode]"

definition newKeepLast7DaysStrategy :: "'s env \<Rightarrow> 's strategy" where
  "newKeepLast7DaysStrategy E =
     newIntervalBasedStrategy E KeepLast7DaysOldestOf1Month1Quarter1HalfYear1YearStrategy yearCalendar"

definition getStrategy :: "'s env \<Rightarrow> strategyId \<Rightarrow> err + 's strategy" where
  "getStrategy E nm =
     (if nm = KeepAllStrategy then Inr keepAllStrategy
      else if nm = RemoveAllButKeepLatestStrategy then Inr removeAllButKeepLatestStrategy
      else if nm = KeepLastSevenDaysStrategy then Inr (keepLastSevenDaysStrategy E)
      else if nm = KeepLast7DaysOldestOf1Month1Quarter1HalfYear1YearStrategy
      then Inr (newKeepLast7DaysStrategy E)
      else Inl (Errorf (''no matching strategy for name '' @ quote nm)))"

section \<open>The best backup\<close>

definition strictOrder :: "(instant \<Rightarrow> instant \<Rightarrow> bool) \<Rightarrow> bool" where
  "strictOrder beats \<longleftrightarrow> (\<forall>x. \<not> beats x x) \<and> (\<forall>x y z. beats x y \<longrightarrow> \<not> beats z y \<longrightarrow> \<not> beats z x)"

lemma strictOrder_simps [simp]: "strictOrder (\<lambda>t u. t < u)" "strictOrder (\<lambda>t u. u < t)"
  by (auto simp: strictOrder_def)

lemma bestIndex_invariant:
  fixes bs :: "backup list"
  assumes "strictOrder beats" "0 < n"
  defines "best k \<equiv> foldl (\<lambda>j i. if beats (startOf (bs ! i)) (startOf (bs ! j)) then i else j) 0 [0..<k]"
  shows "best n < n \<and> (\<forall>j < n. \<not> beats (startOf (bs ! j)) (startOf (bs ! best n)))"
  using assms(2)
proof (induction n rule: nat_induct_non_zero)
  case 1
  show ?case using assms(1) by (simp add: best_def strictOrder_def)
next
  case (Suc n)
  have step: "best (Suc n) = (if beats (startOf (bs ! n)) (startOf (bs ! best n)) then n else best n)"
    by (simp add: best_def)
  show ?case
  proof (cases "beats (startOf (bs ! n)) (startOf (bs ! best n))")
    case True
    have "\<not> beats (startOf (bs ! j)) (startOf (bs ! n))" if "j < Suc n" for j
    proof (cases "j = n")
      case True
      then show ?thesis using assms(1) by (simp add: strictOrder_def)
    next
      case False
      with that Suc.IH have "\<not> beats (startOf (bs ! j)) (startOf (bs ! best n))" by simp
      with True assms(1) show ?thesis unfolding strictOrder_def by blast
    qed
    with True show ?thesis by (simp add: step)
  next
    case False
    with Suc.IH show ?thesis by (auto simp: step less_Suc_eq)
  qed
qed

lemma bestIndex:
  assumes "strictOrder beats" "bs \<noteq> []"
  shows "bestIndex beats bs < length bs"
    and "x \<in> set bs \<Longrightarrow> \<not> beats (startOf x) (startOf (bs ! bestIndex beats bs))"
  using bestIndex_invariant [OF assms(1), of "length bs" bs] assms(2)
  by (auto simp: bestIndex_def in_set_conv_nth)

lemma mset_deleteAt: "i < length xs \<Longrightarrow> mset (deleteAt i xs) + mset [xs ! i] = mset xs"
  using mset_remove_nth [of i xs] by (simp add: deleteAt_def)

lemma latestBackup_spec:
  assumes "latestBackup bs = (removed, retained)"
  shows "mset removed + mset retained = mset bs"
    and "bs \<noteq> [] \<Longrightarrow> \<exists>b. retained = [b] \<and> b \<in> set bs \<and> (\<forall>x \<in> set bs. startOf x \<le> startOf b)"
  using assms bestIndex [of "\<lambda>t u. u < t" bs] mset_deleteAt [of "bestIndex (\<lambda>t u. u < t) bs" bs]
  by (auto simp: latestBackup_def Let_def not_less split: if_splits)

lemma retainOldestBackup_spec:
  assumes "retainOldestBackup bs = (removed, retained)"
  shows "mset removed + mset retained = mset bs"
    and "bs \<noteq> [] \<Longrightarrow> \<exists>b. retained = [b] \<and> b \<in> set bs \<and> (\<forall>x \<in> set bs. startOf b \<le> startOf x)"
  using assms bestIndex [of "\<lambda>t u. t < u" bs] mset_deleteAt [of "bestIndex (\<lambda>t u. t < u) bs" bs]
  by (auto simp: retainOldestBackup_def Let_def not_less split: if_splits)

lemma retainByMode_spec:
  assumes "validateRetentionMode (ti_mode iv)"
  shows "mset (fst (retainByMode iv bs)) + mset (snd (retainByMode iv bs)) = mset bs"
  using assms retainOldestBackup_spec(1) [of bs]
  by (cases "retainOldestBackup bs")
    (auto simp: retainByMode_def retainAllBackups_def validateRetentionMode_def validRetentionModes_def)

section \<open>Days and calendars\<close>

lemma day_pos: "0 < day"
  by (simp add: day_def duration_units)

definition dayOf :: "instant \<Rightarrow> int" where
  "dayOf t = t div day"

text \<open>The age of a timestamp in days, as the calendar counts them.\<close>

definition age :: "instant \<Rightarrow> instant \<Rightarrow> int" where
  "age t u = dayOf t - dayOf u"

lemma truncate_day: "truncateTime day t = dayOf t * day"
  using day_pos by (simp add: truncateTime_def dayOf_def minus_mod_eq_div_mult)

lemma dayOf_add: "dayOf (t + k * day) = dayOf t + k"
  using day_pos by (simp add: dayOf_def)

text \<open>Up to 106751 days the duration of an interval border fits into 64 bits.\<close>

definition representable :: "timeInterval \<Rightarrow> bool" where
  "representable iv \<longleftrightarrow> 0 \<le> ti_start iv \<and> ti_start iv \<le> 106751 \<and> 0 \<le> ti_end iv \<and> ti_end iv \<le> 106751"

lemma mulDuration_days:
  assumes "0 \<le> k" "k \<le> 106751"
  shows "mulDuration (- k) day = - k * day"
  unfolding mulDuration_def
  by (rule wrap64_id) (use assms in \<open>auto simp: day_def duration_units minInt64_def maxInt64_def\<close>)

lemma isTimestampInInterval_age:
  assumes "representable iv"
  shows "isTimestampInInterval iv u t \<longleftrightarrow> ti_start iv \<le> age t u \<and> age t u \<le> ti_end iv"
proof -
  have border: "truncateTime day (t + mulDuration (- k) day) = (dayOf t - k) * day"
    if "0 \<le> k" "k \<le> 106751" for k
    using dayOf_add [of t "- k"] that by (simp add: mulDuration_days truncate_day)
  have "isTimestampInInterval iv u t \<longleftrightarrow>
      (dayOf t - ti_end iv) * day \<le> dayOf u * day \<and> dayOf u * day \<le> (dayOf t - ti_start iv) * day"
    using assms border unfolding isTimestampInInterval_def Let_def representable_def truncate_day [of u]
    by metis
  also have "\<dots> \<longleftrightarrow> ti_start iv \<le> age t u \<and> age t u \<le> ti_end iv"
    using day_pos by (auto simp: age_def mult_le_cancel_right)
  finally show ?thesis .
qed

text \<open>
  The (unused) configuration check is what makes a calendar a partition: in a calendar that passes
  it every timestamp fits at most one interval, and exactly one when its age is covered.
\<close>

definition wellCalendar :: "intervalCalendar \<Rightarrow> bool" where
  "wellCalendar ic \<longleftrightarrow> validateConfig ic = None \<and>
     list_all (\<lambda>iv. representable iv \<and> ti_start iv \<le> ti_end iv \<and> validateRetentionMode (ti_mode iv))
       (ic_timeIntervals ic)"

fun lastEnd :: "int \<Rightarrow> timeInterval list \<Rightarrow> int" where
  "lastEnd current [] = current"
| "lastEnd current (iv # ivs) = lastEnd (ti_end iv + 1) ivs"

lemma firstGap_fits:
  assumes "firstGap current ivs = None"
    "\<forall>iv \<in> set ivs. representable iv \<and> ti_start iv \<le> ti_end iv"
  shows "current \<le> lastEnd current ivs \<and>
    length (filter (\<lambda>iv. isTimestampInInterval iv u t) ivs) =
      (if current \<le> age t u \<and> age t u < lastEnd current ivs then 1 else 0)"
  using assms
proof (induction ivs arbitrary: current)
  case Nil
  then show ?case by simp
next
  case (Cons iv ivs)
  then have iv: "ti_start iv = current" "representable iv" "current \<le> ti_end iv"
    by (auto split: if_splits)
  have "ti_end iv + 1 \<le> lastEnd (ti_end iv + 1) ivs \<and>
    length (filter (\<lambda>iv. isTimestampInInterval iv u t) ivs) =
      (if ti_end iv + 1 \<le> age t u \<and> age t u < lastEnd (ti_end iv + 1) ivs then 1 else 0)"
    using Cons by (intro Cons.IH) (auto split: if_splits)
  with iv show ?case
    by (auto simp: isTimestampInInterval_age)
qed

lemma wellCalendar_fits:
  assumes "wellCalendar ic"
  shows "length (filter (\<lambda>iv. isTimestampInInterval iv u t) (ic_timeIntervals ic)) =
    (if 0 \<le> age t u \<and> age t u < lastEnd 0 (ic_timeIntervals ic) then 1 else 0)"
  using firstGap_fits [of 0 "ic_timeIntervals ic" u t] assms
  by (auto simp: wellCalendar_def validateConfig_def list_all_iff)

lemma yearCalendar_well: "wellCalendar yearCalendar"
  by (simp add: wellCalendar_def yearCalendar_def addTimeIntervals_def newIntervalCalendar_def
      validateConfig_def newTimeInterval_def representable_def validateRetentionMode_def
      validRetentionModes_def keepAllIntervalMode_def keepOldestIntervalMode_def)

section \<open>Placing backups into intervals\<close>

definition fits :: "timeInterval \<Rightarrow> instant \<Rightarrow> backup \<Rightarrow> bool" where
  "fits iv t b \<longleftrightarrow> isTimestampInInterval iv (startOf b) t"

definition place :: "intervalCalendar \<Rightarrow> instant \<Rightarrow> backup \<Rightarrow> mappings \<times> backup list \<Rightarrow> mappings \<times> backup list" where
  "place ic t b acc = (let ivs = filter (\<lambda>iv. fits iv t b) (ic_timeIntervals ic)
     in (foldl (\<lambda>m iv. appendTo iv b m) (fst acc) ivs, if ivs = [] then snd acc @ [b] else snd acc))"

lemma mapBackupsToIntervals_outcome:
  "outcome (mapBackupsToIntervals E ic b acc) (\<lambda>acc' es. es = [] \<and> (\<exists>t. acc' = place ic t b acc))"
  unfolding mapBackupsToIntervals_def place_def Let_def fits_def
  by (auto intro!: outcome_intro)

definition held :: "mappings \<Rightarrow> backup multiset" where
  "held m = mset (concat (map snd m))"

lemma held_appendTo [simp]: "held (appendTo iv b m) = add_mset b (held m)"
  by (induction iv b m rule: appendTo.induct) (auto simp: held_def)

lemma keys_appendTo [simp]: "fst ` set (appendTo iv b m) = insert iv (fst ` set m)"
  by (induction iv b m rule: appendTo.induct) auto

text \<open>In a partitioning calendar a backup goes to its one interval or to the removed ones.\<close>

lemma place_cases:
  assumes "wellCalendar ic"
  obtains iv where "iv \<in> set (ic_timeIntervals ic)" "fits iv t b" "\<And>jv. jv \<in> set (ic_timeIntervals ic) \<Longrightarrow> fits jv t b \<Longrightarrow> jv = iv"
      "\<And>acc. place ic t b acc = (appendTo iv b (fst acc), snd acc)"
  | "\<And>iv. iv \<in> set (ic_timeIntervals ic) \<Longrightarrow> \<not> fits iv t b"
      "\<And>acc. place ic t b acc = (fst acc, snd acc @ [b])"
proof (cases "filter (\<lambda>iv. fits iv t b) (ic_timeIntervals ic)")
  case Nil
  then show thesis
    by (intro that(2)) (auto simp: place_def filter_empty_conv)
next
  case (Cons iv ivs)
  moreover have "length (filter (\<lambda>iv. fits iv t b) (ic_timeIntervals ic)) \<le> 1"
    using wellCalendar_fits [OF assms] by (simp add: fits_def)
  ultimately have one: "filter (\<lambda>iv. fits iv t b) (ic_timeIntervals ic) = [iv]" by simp
  then have only: "{jv \<in> set (ic_timeIntervals ic). fits jv t b} = {iv}"
    by (metis list.set(1) list.set(2) set_filter)
  show thesis
  proof (rule that(1))
    show "iv \<in> set (ic_timeIntervals ic)" "fits iv t b" using only by blast+
    show "jv = iv" if "jv \<in> set (ic_timeIntervals ic)" "fits jv t b" for jv using that only by blast
    show "place ic t b acc = (appendTo iv b (fst acc), snd acc)" for acc by (simp add: place_def one)
  qed
qed

definition placed :: "intervalCalendar \<Rightarrow> backup multiset \<Rightarrow> mappings \<times> backup list \<Rightarrow> bool" where
  "placed ic bs acc \<longleftrightarrow> held (fst acc) + mset (snd acc) = bs \<and> fst ` set (fst acc) \<subseteq> set (ic_timeIntervals ic)"

lemma placed_place:
  assumes "wellCalendar ic" "placed ic bs acc"
  shows "placed ic (add_mset b bs) (place ic t b acc)"
  using assms(1)
proof (cases rule: place_cases [where t = t and b = b])
  case (1 iv)
  show ?thesis using assms(2) 1(1) unfolding 1(4) by (simp add: placed_def)
next
  case 2
  show ?thesis using assms(2) unfolding 2(2) by (simp add: placed_def)
qed

lemma fold_placed:
  assumes "wellCalendar ic" "placed ic cs acc"
  shows "outcome (fold_io (mapBackupsToIntervals E ic) bs acc) (\<lambda>acc' es. es = [] \<and> placed ic (cs + mset bs) acc')"
  using assms(2)
proof (induction bs arbitrary: acc cs)
  case Nil
  then show ?case by (auto intro!: outcome_return)
next
  case (Cons b bs)
  show ?case
    unfolding fold_io.simps
  proof (rule outcome_call [OF mapBackupsToIntervals_outcome], goal_cases)
    case (1 acc' es)
    then have "placed ic (add_mset b cs) acc'" using placed_place [OF assms(1) Cons.prems] by auto
    from Cons.IH [OF this] 1 show ?case by (auto elim!: outcome_mono)
  qed
qed

section \<open>The retained backups\<close>

lemma filterByRetentionMode_eq:
  "filterByRetentionMode ms acc =
     (fst acc @ concat (map (\<lambda>(iv, bs). fst (retainByMode iv bs)) ms),
      snd acc @ concat (map (\<lambda>(iv, bs). snd (retainByMode iv bs)) ms))"
  by (induction ms acc rule: filterByRetentionMode.induct) auto

lemma filterByRetentionMode_partition:
  assumes "\<forall>(iv, bs) \<in> set ms. validateRetentionMode (ti_mode iv)"
  shows "mset (fst (filterByRetentionMode ms (removed, []))) + mset (snd (filterByRetentionMode ms (removed, []))) =
    mset removed + held ms"
  using assms
proof (induction ms)
  case Nil
  then show ?case by (simp add: held_def)
next
  case (Cons m ms)
  obtain iv bs where m: "m = (iv, bs)" by (cases m)
  have "mset (fst (retainByMode iv bs)) + mset (snd (retainByMode iv bs)) = mset bs"
    using Cons.prems m by (intro retainByMode_spec) auto
  with Cons m show ?case
    by (auto simp: filterByRetentionMode_eq held_def ac_simps split: prod.splits)
qed

lemma held_arrange [simp]: "held (arrange ns m) = held m"
proof -
  have "held xs = (\<Sum>p \<in># mset xs. mset (snd p))" for xs
    by (induction xs) (auto simp: held_def)
  then show ?thesis by simp
qed

lemma interval_partition:
  assumes "wellCalendar ic"
  shows "outcome (intervalFilterForRemoval E ic bs)
    (\<lambda>(removed, retained) es. es = [] \<and> mset removed + mset retained = mset bs)"
proof -
  have modes: "\<forall>(iv, bs) \<in> set (arrange ns m). validateRetentionMode (ti_mode iv)"
    if "fst ` set m \<subseteq> set (ic_timeIntervals ic)" for ns m
    using that assms by (fastforce simp: wellCalendar_def list_all_iff)
  have "outcome (fold_io (mapBackupsToIntervals E ic) bs ([], [])) (\<lambda>acc' es. es = [] \<and> placed ic (mset bs) acc')"
    using fold_placed [OF assms, of "{#}" "([], [])" E bs] by (simp add: placed_def held_def)
  then show ?thesis
    unfolding intervalFilterForRemoval_def
    by (rule outcome_call)
      (auto intro!: outcome_intro simp: placed_def filterByRetentionMode_partition [OF modes] case_prod_beta add.commute)
qed

section \<open>Under a fixed clock\<close>

definition groupOf :: "mappings \<Rightarrow> timeInterval \<Rightarrow> backup list" where
  "groupOf m iv = (case map_of m iv of None \<Rightarrow> [] | Some bs \<Rightarrow> bs)"

lemma groupOf_appendTo [simp]:
  "groupOf (appendTo iv b m) jv = (if jv = iv then groupOf m iv @ [b] else groupOf m jv)"
  by (induction iv b m rule: appendTo.induct) (auto simp: groupOf_def)

lemma distinct_appendTo [simp]: "distinct (map fst (appendTo iv b m)) = distinct (map fst m)"
proof (induction iv b m rule: appendTo.induct)
  case (2 iv b iv' bs ms)
  then show ?case by (auto simp: image_iff dest: sym)
qed simp

text \<open>What the loop over all backups has done after the backups \<open>bs\<close>, read at time \<open>t\<close>.\<close>

definition grouped :: "intervalCalendar \<Rightarrow> instant \<Rightarrow> backup list \<Rightarrow> mappings \<times> backup list \<Rightarrow> bool" where
  "grouped ic t bs acc \<longleftrightarrow> distinct (map fst (fst acc)) \<and> fst ` set (fst acc) \<subseteq> set (ic_timeIntervals ic) \<and>
     (\<forall>iv \<in> set (ic_timeIntervals ic). groupOf (fst acc) iv = filter (fits iv t) bs)"

lemma grouped_place:
  assumes "wellCalendar ic" "grouped ic t bs acc"
  shows "grouped ic t (bs @ [b]) (place ic t b acc)"
  using assms(1)
proof (cases rule: place_cases [where t = t and b = b])
  case (1 iv)
  have "fits jv t b \<longleftrightarrow> jv = iv" if "jv \<in> set (ic_timeIntervals ic)" for jv
    using 1(2,3) that by blast
  then show ?thesis unfolding 1(4) using assms(2) 1(1) by (simp add: grouped_def)
next
  case 2
  show ?thesis unfolding 2(2) using assms(2) 2(1) by (auto simp: grouped_def)
qed

lemma mapBackupsToIntervals_frozen:
  "frozenClock E t \<Longrightarrow> outcome (mapBackupsToIntervals E ic b acc) (\<lambda>acc' es. es = [] \<and> acc' = place ic t b acc)"
  unfolding mapBackupsToIntervals_def place_def Let_def fits_def
  by (auto intro!: outcome_bind outcome_now_frozen [of E t] outcome_return)

lemma fold_grouped:
  assumes "wellCalendar ic" "frozenClock E t" "grouped ic t cs acc"
  shows "outcome (fold_io (mapBackupsToIntervals E ic) bs acc) (\<lambda>acc' es. es = [] \<and> grouped ic t (cs @ bs) acc')"
  using assms(3)
proof (induction bs arbitrary: acc cs)
  case Nil
  then show ?case by (auto intro!: outcome_return)
next
  case (Cons b bs)
  show ?case
    unfolding fold_io.simps
  proof (rule outcome_call [OF mapBackupsToIntervals_frozen [OF assms(2)]], goal_cases)
    case (1 acc' es)
    then have "grouped ic t (cs @ [b]) acc'" using grouped_place [OF assms(1) Cons.prems] by auto
    from Cons.IH [OF this] 1 show ?case by (auto elim!: outcome_mono)
  qed
qed

lemma retainByMode_subset: "set (snd (retainByMode iv bs)) \<subseteq> set bs"
proof (cases "bs = []")
  case False
  then have "bestIndex (\<lambda>t u. t < u) bs < length bs" by (intro bestIndex(1)) auto
  then show ?thesis
    by (auto simp: retainByMode_def retainAllBackups_def retainOldestBackup_def Let_def)
qed (simp add: retainByMode_def retainAllBackups_def retainOldestBackup_def)

text \<open>Of every interval exactly the backups its mode retains are retained, and no others.\<close>

lemma retained_of_interval:
  assumes "distinct (map fst m)"
    "\<forall>(iv, bs) \<in> set m. \<forall>b \<in> set bs. \<forall>jv \<in> J. fits jv t b \<longleftrightarrow> jv = iv" "jv \<in> J"
  shows "filter (fits jv t) (concat (map (\<lambda>(iv, bs). snd (retainByMode iv bs)) m)) =
    snd (retainByMode jv (groupOf m jv))"
  using assms(1,2)
proof (induction m)
  case Nil
  then show ?case by (simp add: groupOf_def retainByMode_def retainAllBackups_def retainOldestBackup_def)
next
  case (Cons p m)
  obtain iv bs where p: "p = (iv, bs)" by (cases p)
  have one: "filter (fits jv t) (snd (retainByMode iv bs)) = (if jv = iv then snd (retainByMode iv bs) else [])"
    using Cons.prems(2) p assms(3) retainByMode_subset [of iv bs]
    by (auto simp: filter_empty_conv filter_id_conv)
  have IH: "filter (fits jv t) (concat (map (\<lambda>(iv, bs). snd (retainByMode iv bs)) m)) =
      snd (retainByMode jv (groupOf m jv))"
    using Cons by auto
  show ?case
  proof (cases "jv = iv")
    case True
    then have "groupOf m jv = []" using Cons.prems(1) p by (auto simp: groupOf_def image_iff split: option.splits dest: map_of_SomeD)
    then have "snd (retainByMode jv (groupOf m jv)) = []"
      by (simp add: retainByMode_def retainAllBackups_def retainOldestBackup_def)
    with IH one True p show ?thesis by (simp add: groupOf_def)
  next
    case False
    with IH one p show ?thesis by (simp add: groupOf_def)
  qed
qed

lemma interval_retained:
  assumes "wellCalendar ic" "frozenClock E t"
  shows "outcome (intervalFilterForRemoval E ic bs) (\<lambda>(removed, retained) es.
     (\<forall>iv \<in> set (ic_timeIntervals ic). filter (fits iv t) retained = snd (retainByMode iv (filter (fits iv t) bs))) \<and>
     (\<forall>b \<in> set retained. \<exists>iv \<in> set (ic_timeIntervals ic). fits iv t b))"
proof -
  have retained: "(\<forall>iv \<in> set (ic_timeIntervals ic). filter (fits iv t) (snd (filterByRetentionMode (arrange ns m) (rm, []))) =
        snd (retainByMode iv (filter (fits iv t) bs))) \<and>
      (\<forall>b \<in> set (snd (filterByRetentionMode (arrange ns m) (rm, []))). \<exists>iv \<in> set (ic_timeIntervals ic). fits iv t b)"
    if g: "grouped ic t bs (m, rm)" for m rm ns
  proof -
    let ?m = "arrange ns m"
    have d: "distinct (map fst ?m)"
      using g unfolding grouped_def by (metis fst_conv mset_arrange mset_map mset_eq_imp_distinct_iff)
    have eq: "map_of ?m = map_of m"
      using d g by (intro map_of_eqI) (auto simp: grouped_def image_iff dest: map_of_is_SomeI)
    have group: "groupOf ?m iv = filter (fits iv t) bs" if "iv \<in> set (ic_timeIntervals ic)" for iv
      using g that by (simp add: groupOf_def eq grouped_def)
    have elems: "iv \<in> set (ic_timeIntervals ic) \<and> cs = filter (fits iv t) bs" if "(iv, cs) \<in> set ?m" for iv cs
    proof -
      have iv: "iv \<in> set (ic_timeIntervals ic)" using g that by (force simp: grouped_def)
      have "groupOf ?m iv = cs" using d that by (simp add: groupOf_def)
      with iv group show ?thesis by simp
    qed
    have own: "\<forall>(iv, cs) \<in> set ?m. \<forall>b \<in> set cs. \<forall>jv \<in> set (ic_timeIntervals ic). fits jv t b \<longleftrightarrow> jv = iv"
    proof (clarify)
      fix iv cs b jv assume cs: "(iv, cs) \<in> set ?m" "b \<in> set cs" and jv: "jv \<in> set (ic_timeIntervals ic)"
      from elems [OF cs(1)] cs(2) have "fits iv t b" "iv \<in> set (ic_timeIntervals ic)" by simp_all
      then show "fits jv t b \<longleftrightarrow> jv = iv"
        using jv place_cases [OF assms(1), of t b] by metis
    qed
    show ?thesis
      using retained_of_interval [OF d own] group elems retainByMode_subset
      by (fastforce simp: filterByRetentionMode_eq)
  qed
  have "outcome (fold_io (mapBackupsToIntervals E ic) bs ([], [])) (\<lambda>acc' es. es = [] \<and> grouped ic t bs acc')"
    using fold_grouped [OF assms, of "[]" "([], [])" bs] by (simp add: grouped_def groupOf_def)
  then show ?thesis
    unfolding intervalFilterForRemoval_def
    by (rule outcome_call) (auto intro!: outcome_intro simp: case_prod_beta retained)
qed

section \<open>The interface of the garbage collection\<close>

locale retention_strategy =
  fixes filterForRemoval :: "backup list \<Rightarrow> ('s, backup list \<times> backup list) prog"
  assumes partitions: "outcome (filterForRemoval bs)
    (\<lambda>(removed, retained) es. es = [] \<and> mset removed + mset retained = mset bs)"

interpretation keep_all: retention_strategy "st_filterForRemoval keepAllStrategy"
  by unfold_locales (auto simp: keepAllStrategy_def intro!: outcome_return)

interpretation keep_latest: retention_strategy "st_filterForRemoval removeAllButKeepLatestStrategy"
  by unfold_locales (auto simp: removeAllButKeepLatestStrategy_def latestBackup_spec(1) intro!: outcome_return)

lemma mset_filter_split: "mset (filter P xs) + mset (filter (\<lambda>x. \<not> P x) xs) = mset xs"
  by (induction xs) auto

interpretation keep_seven_days: retention_strategy "st_filterForRemoval (keepLastSevenDaysStrategy E)" for E
  by unfold_locales
    (auto simp: keepLastSevenDaysStrategy_def keepLastSevenDays_def Let_def mset_filter_split
      simp del: mset_filter intro!: outcome_intro)

interpretation keep_year: retention_strategy "st_filterForRemoval (newKeepLast7DaysStrategy E)" for E
  by unfold_locales
    (simp add: newKeepLast7DaysStrategy_def newIntervalBasedStrategy_def interval_partition yearCalendar_well)

lemma getStrategy_law: "getStrategy E nm = Inr st \<Longrightarrow> retention_strategy (st_filterForRemoval st)"
  unfolding getStrategy_def
  using keep_all.retention_strategy_axioms keep_latest.retention_strategy_axioms
    keep_seven_days.retention_strategy_axioms keep_year.retention_strategy_axioms
  by (auto split: if_splits)

section \<open>Properties\<close>

text \<open>
  C35: Every retention strategy the operator knows splits the backups it is given: each one is either
  removed or retained, none is lost or doubled, whatever the clock and the map iteration order do.
\<close>

theorem strategies_partition:
  assumes "getStrategy E nm = Inr st"
  shows "outcome (st_filterForRemoval st bs)
    (\<lambda>(removed, retained) es. es = [] \<and> mset removed + mset retained = mset bs)"
  by (rule retention_strategy.partitions [OF getStrategy_law [OF assms]])

theorem strategies_partition_witness:
  "outcome (st_filterForRemoval (newKeepLast7DaysStrategy clusterEnv) [])
    (\<lambda>(removed, retained) es. es = [] \<and> mset removed + mset retained = mset [])"
  by (rule strategies_partition [of _ KeepLast7DaysOldestOf1Month1Quarter1HalfYear1YearStrategy])
    (simp add: getStrategy_def strategy_ids)

text \<open>
  The strategy \<open>removeAllButKeepLatest\<close> retains exactly one backup of a non-empty list, and no
  backup of the list started later than it.
\<close>

theorem keep_latest_retains_latest:
  assumes "bs \<noteq> []"
  shows "outcome (st_filterForRemoval removeAllButKeepLatestStrategy bs) (\<lambda>(removed, retained) es.
     \<exists>b. retained = [b] \<and> b \<in> set bs \<and> (\<forall>x \<in> set bs. startOf x \<le> startOf b))"
  using assms latestBackup_spec(2) [of bs]
  by (cases "latestBackup bs") (auto simp: removeAllButKeepLatestStrategy_def intro!: outcome_return)

definition backupAt :: "instant \<Rightarrow> backup" where
  "backupAt t = obj_meta.extend (newMeta ''ns'' (showInt t)) \<lparr>b_provider = [], b_synced = False,
     b_status = emptyBackupStatus\<lparr>startTimestamp := t\<rparr>\<rparr>"

lemma startOf_backupAt [simp]: "startOf (backupAt t) = t"
  by (simp add: backupAt_def obj_meta.defs)

theorem keep_latest_retains_latest_witness:
  "\<exists>b. snd (result (st_filterForRemoval removeAllButKeepLatestStrategy [backupAt 3, backupAt 9, backupAt 5])
      \<lparr>outside = (), log = []\<rparr>) = [b] \<and> startOf b \<ge> 9"
  using outcomeD [OF keep_latest_retains_latest [of "[backupAt 3, backupAt 9, backupAt 5]"]]
  by (auto simp: case_prod_beta)

text \<open>
  The strategy \<open>keepLastSevenDays\<close> removes exactly the backups that started more than seven days
  before now, in their order, and retains the others.
\<close>

theorem seven_days_exact:
  assumes "frozenClock E t"
  shows "outcome (st_filterForRemoval (keepLastSevenDaysStrategy E) bs) (\<lambda>(removed, retained) es.
     removed = filter (\<lambda>b. startOf b < t - 7 * day) bs \<and> retained = filter (\<lambda>b. t - 7 * day \<le> startOf b) bs)"
  unfolding keepLastSevenDaysStrategy_def keepLastSevenDays_def Let_def
  by (auto intro!: outcome_bind outcome_now_frozen [OF assms] outcome_return simp: not_less)

theorem seven_days_exact_witness:
  "result (st_filterForRemoval (keepLastSevenDaysStrategy (clusterEnv\<lparr>clock_now := \<lambda>s. (10 * day, s)\<rparr>))
     [backupAt (2 * day), backupAt (3 * day), backupAt (9 * day)]) \<lparr>outside = emptyCluster 0, log = []\<rparr>
   = ([backupAt (2 * day)], [backupAt (3 * day), backupAt (9 * day)])"
  using outcomeD [OF seven_days_exact [OF clusterEnv_frozen [of "10 * day"],
      of "[backupAt (2 * day), backupAt (3 * day), backupAt (9 * day)]"]] day_pos
  by (auto simp: case_prod_beta prod_eq_iff)

definition between :: "instant \<Rightarrow> int \<Rightarrow> int \<Rightarrow> backup \<Rightarrow> bool" where
  "between t lo hi b \<longleftrightarrow> lo \<le> age t (startOf b) \<and> age t (startOf b) \<le> hi"

definition oldestRetained :: "(backup \<Rightarrow> bool) \<Rightarrow> backup list \<Rightarrow> backup list \<Rightarrow> bool" where
  "oldestRetained P bs retained \<longleftrightarrow>
     (if filter P bs = [] then filter P retained = []
      else \<exists>b. filter P retained = [b] \<and> b \<in> set bs \<and> P b \<and> (\<forall>x \<in> set bs. P x \<longrightarrow> startOf b \<le> startOf x))"

lemma fits_between: "representable iv \<Longrightarrow> fits iv t = between t (ti_start iv) (ti_end iv)"
  by (rule ext) (simp add: fits_def between_def isTimestampInInterval_age)

lemma retained_oldest:
  assumes "filter P retained = snd (retainOldestBackup (filter P bs))"
  shows "oldestRetained P bs retained"
proof (cases "filter P bs = []")
  case True
  with assms show ?thesis by (simp add: oldestRetained_def retainOldestBackup_def)
next
  case False
  obtain rm rt where r: "retainOldestBackup (filter P bs) = (rm, rt)" by fastforce
  from retainOldestBackup_spec(2) [OF r False] assms r False show ?thesis
    by (auto simp: oldestRetained_def)
qed

lemma yearIntervals:
  assumes "\<forall>iv \<in> set (ic_timeIntervals yearCalendar). Q iv"
  shows "Q \<lparr>ti_name = ''sevenDays'', ti_start = 0, ti_end = 7, ti_mode = keepAllIntervalMode\<rparr>"
    "Q \<lparr>ti_name = ''thirtyDays'', ti_start = 8, ti_end = 30, ti_mode = keepOldestIntervalMode\<rparr>"
    "Q \<lparr>ti_name = ''ninetyDays'', ti_start = 31, ti_end = 90, ti_mode = keepOldestIntervalMode\<rparr>"
    "Q \<lparr>ti_name = ''oneHundredEightyDays'', ti_start = 91, ti_end = 180, ti_mode = keepOldestIntervalMode\<rparr>"
    "Q \<lparr>ti_name = ''threeHundredSixtyDays'', ti_start = 181, ti_end = 360, ti_mode = keepOldestIntervalMode\<rparr>"
  using assms
  by (simp_all add: yearCalendar_def addTimeIntervals_def newIntervalCalendar_def newTimeInterval_def
      validateRetentionMode_def validRetentionModes_def)

lemma modes_distinct: "keepOldestIntervalMode \<noteq> keepAllIntervalMode"
  by (simp add: keepOldestIntervalMode_def keepAllIntervalMode_def)

lemma year_strategy_retains:
  assumes "frozenClock E t"
  shows "outcome (st_filterForRemoval (newKeepLast7DaysStrategy E) bs) (\<lambda>(removed, retained) es.
     filter (between t 0 7) retained = filter (between t 0 7) bs \<and>
     oldestRetained (between t 8 30) bs retained \<and> oldestRetained (between t 31 90) bs retained \<and>
     oldestRetained (between t 91 180) bs retained \<and> oldestRetained (between t 181 360) bs retained \<and>
     list_all (between t 0 360) retained)"
  unfolding newKeepLast7DaysStrategy_def newIntervalBasedStrategy_def strategy.simps
proof (rule outcome_mono [OF interval_retained [OF yearCalendar_well assms]], goal_cases)
  case (1 a es)
  obtain removed retained where a: "a = (removed, retained)" by (cases a)
  let ?Q = "\<lambda>iv. representable iv \<longrightarrow>
    filter (between t (ti_start iv) (ti_end iv)) retained =
      snd (retainByMode iv (filter (between t (ti_start iv) (ti_end iv)) bs))"
  have "\<forall>iv \<in> set (ic_timeIntervals yearCalendar). ?Q iv"
    using 1 a by (auto simp flip: fits_between)
  note each = yearIntervals [of ?Q, OF this, unfolded retainByMode_def, simplified representable_def, simplified]
  have "0 \<le> age t (startOf b) \<and> age t (startOf b) \<le> 360" if "b \<in> set retained" for b
  proof -
    from 1 a that obtain iv where iv: "iv \<in> set (ic_timeIntervals yearCalendar)" "fits iv t b" by auto
    have "\<forall>iv \<in> set (ic_timeIntervals yearCalendar). representable iv \<and> 0 \<le> ti_start iv \<and> ti_end iv \<le> 360"
      using yearCalendar_well by (simp add: wellCalendar_def yearCalendar_def addTimeIntervals_def
          newIntervalCalendar_def newTimeInterval_def)
    with iv show ?thesis by (fastforce simp: fits_between between_def)
  qed
  then show ?case
    using each by (simp add: a retained_oldest modes_distinct retainAllBackups_def list_all_iff between_def [of t 0 360])
qed

text \<open>
  C36: The strategy \<open>keep7Days1Month1Quarter1Year\<close>, with the age of a backup counted in calendar days:
  every backup up to 7 days old is retained; of the backups 8 to 30, 31 to 90, 91 to 180 and 181 to
  360 days old exactly one is retained, if there are any, and it is an oldest one; nothing else is.
\<close>

theorem year_strategy_exact:
  assumes "frozenClock E t"
  shows "outcome (st_filterForRemoval (newKeepLast7DaysStrategy E) bs) (\<lambda>(removed, retained) es.
     filter (between t 0 7) retained = filter (between t 0 7) bs \<and>
     oldestRetained (between t 8 30) bs retained \<and> oldestRetained (between t 31 90) bs retained \<and>
     oldestRetained (between t 91 180) bs retained \<and> oldestRetained (between t 181 360) bs retained \<and>
     list_all (between t 0 360) retained)"
  by (rule year_strategy_retains [OF assms])

theorem year_strategy_exact_witness:
  "let bs = [backupAt (399 * day), backupAt (380 * day), backupAt (375 * day)];
       E = clusterEnv\<lparr>clock_now := \<lambda>s. (400 * day, s)\<rparr>;
       retained = snd (result (st_filterForRemoval (newKeepLast7DaysStrategy E) bs)
         \<lparr>outside = emptyCluster 0, log = []\<rparr>)
   in filter (between (400 * day) 0 7) retained = filter (between (400 * day) 0 7) bs \<and>
      oldestRetained (between (400 * day) 8 30) bs retained"
  using outcomeD [OF year_strategy_exact [OF clusterEnv_frozen [of "400 * day"],
      of "[backupAt (399 * day), backupAt (380 * day), backupAt (375 * day)]"]]
  by (simp add: case_prod_beta Let_def)

lemma length_split:
  "(\<And>x. x \<in> set xs \<Longrightarrow> P x \<longleftrightarrow> Q x \<or> R x) \<Longrightarrow> (\<And>x. \<not> (Q x \<and> R x)) \<Longrightarrow>
     length (filter P xs) = length (filter Q xs) + length (filter R xs)"
  by (induction xs) auto

lemma between_split:
  assumes "lo \<le> mid + 1" "mid \<le> hi"
  shows "length (filter (between t lo hi) xs) =
    length (filter (between t lo mid) xs) + length (filter (between t (mid + 1) hi) xs)"
  by (rule length_split) (use assms in \<open>auto simp: between_def\<close>)

lemma oldest_length: "oldestRetained P bs retained \<Longrightarrow>
    length (filter P retained) = (if filter P bs = [] then 0 else 1)"
  by (auto simp: oldestRetained_def split: if_splits)

text \<open>
  The same strategy retains as many backups as there are from today and the seven days before it,
  plus one for each of the four older intervals that has any; a year of daily backups leaves twelve.
\<close>

theorem year_strategy_size:
  assumes "frozenClock E t"
  shows "outcome (st_filterForRemoval (newKeepLast7DaysStrategy E) bs) (\<lambda>(removed, retained) es.
     length retained = length (filter (between t 0 7) bs) + length (filter (\<lambda>(lo, hi). filter (between t lo hi) bs \<noteq> [])
       [(8, 30), (31, 90), (91, 180), (181, 360)]))"
proof (rule outcome_mono [OF year_strategy_retains [OF assms]], goal_cases)
  case (1 a es)
  obtain removed retained where a: "a = (removed, retained)" by (cases a)
  have "filter (between t 0 360) retained = retained"
    using 1 a by (simp add: list_all_iff filter_id_conv)
  then have "length retained = length (filter (between t 0 360) retained)" by simp
  also have "\<dots> = length (filter (between t 0 7) retained) + length (filter (between t 8 30) retained)
      + length (filter (between t 31 90) retained) + length (filter (between t 91 180) retained)
      + length (filter (between t 181 360) retained)"
    using between_split [of 0 7 360 t retained] between_split [of 8 30 360 t retained]
      between_split [of 31 90 360 t retained] between_split [of 91 180 360 t retained] by simp
  finally have sum: "length retained = \<dots>" .
  from 1 a have exact: "filter (between t 0 7) retained = filter (between t 0 7) bs"
    and oldest: "oldestRetained (between t 8 30) bs retained" "oldestRetained (between t 31 90) bs retained"
      "oldestRetained (between t 91 180) bs retained" "oldestRetained (between t 181 360) bs retained"
    by simp_all
  show ?case unfolding a case_prod_conv sum exact oldest [THEN oldest_length] by simp
qed

text \<open>A year of daily backups, one per day from 360 days ago to today.\<close>

lemma age_days: "age (m * day) (n * day) = m - n"
  using day_pos by (simp add: age_def dayOf_def)

lemma between_daily: "filter (between (1000 * day) lo hi) (map (\<lambda>a. backupAt ((1000 - a) * day)) xs) =
    map (\<lambda>a. backupAt ((1000 - a) * day)) (filter (\<lambda>a. lo \<le> a \<and> a \<le> hi) xs)"
  by (induction xs) (auto simp: between_def age_days)

lemma year_of_days: "length (filter (\<lambda>a. 0 \<le> a \<and> a \<le> 7) [0..360::int]) = 8"
    "filter (\<lambda>a. 8 \<le> a \<and> a \<le> 30) [0..360::int] \<noteq> []" "filter (\<lambda>a. 31 \<le> a \<and> a \<le> 90) [0..360::int] \<noteq> []"
    "filter (\<lambda>a. 91 \<le> a \<and> a \<le> 180) [0..360::int] \<noteq> []" "filter (\<lambda>a. 181 \<le> a \<and> a \<le> 360) [0..360::int] \<noteq> []"
proof -
  have "[0..360::int] = [0..7] @ [8..360]" using upto_split2 [of 0 7 360] by (simp del: upto_rec_numeral)
  moreover have "filter (\<lambda>a. 0 \<le> a \<and> a \<le> 7) [8..360::int] = []" by (auto simp: filter_empty_conv)
  moreover have "filter (\<lambda>a. 0 \<le> a \<and> a \<le> 7) [0..7::int] = [0..7]" by (auto simp: filter_id_conv)
  ultimately show "length (filter (\<lambda>a. 0 \<le> a \<and> a \<le> 7) [0..360::int]) = 8"
    by (simp del: upto_rec_numeral)
qed (auto simp: filter_empty_conv simp del: upto_rec_numeral
    intro: bexI [of _ 8] bexI [of _ 31] bexI [of _ 91] bexI [of _ 181])

theorem year_strategy_size_witness:
  "length (snd (result (st_filterForRemoval (newKeepLast7DaysStrategy (clusterEnv\<lparr>clock_now := \<lambda>s. (1000 * day, s)\<rparr>))
     (map (\<lambda>a. backupAt ((1000 - a) * day)) [0..360])) \<lparr>outside = emptyCluster 0, log = []\<rparr>)) = 12"
  using outcomeD [OF year_strategy_size [OF clusterEnv_frozen [of "1000 * day"],
      of "map (\<lambda>a. backupAt ((1000 - a) * day)) [0..360]"]]
  by (simp add: case_prod_beta between_daily year_of_days del: upto_rec_numeral)

end
