(* ===== verification/GarbageCollection.thy ===== *)
theory GarbageCollection
  imports Retention
begin

text \<open>
  \<open>internal/garbagecollection/manager.go\<close>: the garbage collection lists the backups, gives the
  completed ones to the configured retention strategy and deletes exactly those the strategy removes. It
  relies on the strategy only through the interface \<open>retention_strategy\<close>.
\<close>

record 's gcManager =
  gc_clientSet :: "'s env"
  gc_namespace :: string
  gc_strategyName :: strategyId
  gc_strategyGetter :: "strategyId \<Rightarrow> err + 's strategy"

definition newGcManager :: "'s env \<Rightarrow> string \<Rightarrow> string \<Rightarrow> 's gcManager" where
  "newGcManager E n strategyName = \<lparr>gc_clientSet = E, gc_namespace = n, gc_strategyName = strategyName,
     gc_strategyGetter = getStrategy E\<rparr>"

definition filterCompleted :: "backup list \<Rightarrow> backup list" where
  "filterCompleted bs = filter (\<lambda>b. legacyStatus (b_status b) = StatusCompleted) bs"

text \<open>
  The loop over the backups to remove: a failed deletion is kept as an error and the loop goes on. The
  typed client deletes by its own namespace and the name of the backup.
\<close>

fun deleteBackups :: "'s env \<Rightarrow> string \<Rightarrow> backup list \<Rightarrow> ('s, err list) prog" where
  "deleteBackups E n [] = return []"
| "deleteBackups E n (b # bs) = do {
     del \<leftarrow> apiDelete (backups E) OnBackup (b\<lparr>o_namespace := n\<rparr>) noOptions;
     errs \<leftarrow> deleteBackups E n bs;
     return (case del of
       Inl e \<Rightarrow> Wrapf (''failed to delete backup '' @ quote (o_name b)) (Api e) # errs
     | Inr _ \<Rightarrow> errs)
   }"

definition removeBackups :: "'s env \<Rightarrow> string \<Rightarrow> (backup list \<Rightarrow> ('s, backup list \<times> backup list) prog)
    \<Rightarrow> backup list \<Rightarrow> ('s, err option) prog" where
  "removeBackups E n filterForRemoval items = do {
     (toRemove, _) \<leftarrow> filterForRemoval (filterCompleted items);
     errs \<leftarrow> deleteBackups E n toRemove;
     return (if errs = [] then None else Some (Joined errs))
   }"

definition CollectGarbage :: "'s gcManager \<Rightarrow> ('s, err option) prog" where
  "CollectGarbage m = (case gc_strategyGetter m (gc_strategyName m) of
     Inl e \<Rightarrow> return (Some (Wrapf ''failed to get retention strategy'' e))
   | Inr st \<Rightarrow> do {
       listed \<leftarrow> apiList (backups (gc_clientSet m)) OnBackup (gc_namespace m) [];
       case listed of
         Inl e \<Rightarrow> return (Some (Wrapf ''failed to list backups'' (Api e)))
       | Inr items \<Rightarrow> removeBackups (gc_clientSet m) (gc_namespace m) (st_filterForRemoval st) items
     })"

section \<open>What is deleted\<close>

definition deletions :: "string \<Rightarrow> backup list \<Rightarrow> (api_error + unit) list \<Rightarrow> event list" where
  "deletions n bs us = map2 (\<lambda>b u. OnBackup (Delete (b\<lparr>o_namespace := n\<rparr>) noOptions u)) bs us"

lemma deleteBackups_outcome:
  "outcome (deleteBackups E n bs) (\<lambda>errs es. \<exists>us. length us = length bs \<and> es = deletions n bs us \<and>
     (errs = [] \<longleftrightarrow> (\<forall>u \<in> set us. u = Inr ())))"
proof (induction bs)
  case Nil
  show ?case by (auto intro!: outcome_return simp: deletions_def)
next
  case (Cons b bs)
  show ?case
    unfolding deleteBackups.simps
  proof (rule outcome_bind, rule outcome_apiDelete, goal_cases)
    case (1 r)
    show ?case
    proof (rule outcome_call [OF Cons.IH], rule outcome_return, goal_cases)
      case (1 errs es)
      then obtain us where "length us = length bs" "es = deletions n bs us"
        "errs = [] \<longleftrightarrow> (\<forall>u \<in> set us. u = Inr ())" by blast
      then show ?case
        by (intro exI [of _ "r # us"]) (auto simp: deletions_def split: sum.splits)
    qed
  qed
qed

context retention_strategy begin

text \<open>
  Whatever the strategy, exactly the backups it answers to remove are deleted, and those are completed
  ones, each at most as often as it was listed; one failed deletion stops no other one, and is
  reported.
\<close>

lemma removeBackups_outcome:
  "outcome (removeBackups E n filterForRemoval items) (\<lambda>err es. \<exists>removed retained us.
     (\<exists>w. result (filterForRemoval (filterCompleted items)) w = (removed, retained)) \<and>
     mset removed + mset retained = mset (filterCompleted items) \<and> length us = length removed \<and>
     es = deletions n removed us \<and> (err = None \<longleftrightarrow> (\<forall>u \<in> set us. u = Inr ())))"
  unfolding removeBackups_def
proof (rule outcome_call [OF outcome_result [OF partitions]], clarsimp simp del: mset_filter, goal_cases)
  case (1 removed retained w)
  show ?case
  proof (rule outcome_call [OF deleteBackups_outcome], rule outcome_return, goal_cases)
    case (1 errs es)
    then obtain us where "length us = length removed" "es = deletions n removed us"
      "errs = [] \<longleftrightarrow> (\<forall>u \<in> set us. u = Inr ())" by blast
    then show ?case
      using \<open>(removed, retained) = _\<close> \<open>mset removed + mset retained = _\<close>
      by (intro exI [of _ removed] exI [of _ retained] exI [of _ us]) (auto simp del: mset_filter)
  qed
qed

end

section \<open>Properties\<close>

text \<open>
  What a run of the garbage collection may do, for the strategy of the configured name: nothing but
  an error when there is no such strategy; a failed list and an error; or a list, and after it the
  deletion of exactly what the strategy, asked about the completed backups of the list, answers to
  remove. The strategy answers from the clock and from the order of a map, so which state of the
  outside it was asked in is left open.
\<close>

definition asksStrategy :: "'s strategy \<Rightarrow> backup list \<Rightarrow> backup list \<Rightarrow> backup list \<Rightarrow> bool" where
  "asksStrategy st bs removed retained \<longleftrightarrow>
     (\<exists>w. result (st_filterForRemoval st bs) w = (removed, retained))"

definition gcRun :: "'s env \<Rightarrow> string \<Rightarrow> string \<Rightarrow> err option \<Rightarrow> event list \<Rightarrow> bool" where
  "gcRun E n nm err es \<longleftrightarrow> (case getStrategy E nm of
     Inl e \<Rightarrow> es = [] \<and> err \<noteq> None
   | Inr st \<Rightarrow>
       (\<exists>e. es = [OnBackup (ListIn n [] (Inl e))] \<and> err \<noteq> None) \<or>
       (\<exists>items completed removed retained us.
          completed = filter (\<lambda>b. legacyStatus (b_status b) = StatusCompleted) items \<and>
          asksStrategy st completed removed retained \<and>
          mset removed + mset retained = mset completed \<and>
          es = OnBackup (ListIn n [] (Inr items)) # deletions n removed us \<and>
          length us = length removed \<and>
          (err = None \<longleftrightarrow> list_all (\<lambda>u. u = Inr ()) us)))"

lemma gcRun_intro:
  assumes "getStrategy E nm = Inr st"
  shows "gcRun E n nm (Some x) [OnBackup (ListIn n [] (Inl e))]"
    and "\<exists>removed retained us. (\<exists>w. result (st_filterForRemoval st (filterCompleted items)) w = (removed, retained)) \<and>
      mset removed + mset retained = mset (filterCompleted items) \<and> length us = length removed \<and>
      es = deletions n removed us \<and> (err = None \<longleftrightarrow> (\<forall>u \<in> set us. u = Inr ())) \<Longrightarrow>
    gcRun E n nm err (OnBackup (ListIn n [] (Inr items)) # es)"
  unfolding gcRun_def asksStrategy_def filterCompleted_def list_all_iff assms sum.case by blast+

text \<open>
  C37: The garbage collection asks the configured retention strategy about exactly the completed
  backups of the list it read, and deletes exactly the backups the strategy answers to remove, none
  that it retains: removed and retained ones together are the completed ones. It tries every deletion
  even after a failure, and reports success exactly when all deletions succeeded. With an unknown
  strategy or a failed list it deletes nothing and reports an error.
\<close>

theorem gc_deletes_completed_only:
  "outcome (CollectGarbage (newGcManager E n nm)) (gcRun E n nm)"
proof (cases "getStrategy E nm")
  case (Inl e)
  then show ?thesis
    by (auto simp: CollectGarbage_def newGcManager_def gcRun_def intro!: outcome_return)
next
  case (Inr st)
  note remove = retention_strategy.removeBackups_outcome [OF getStrategy_law [OF Inr]]
  from Inr show ?thesis
    by (auto simp: CollectGarbage_def newGcManager_def split: sum.splits
        intro!: outcome_bind outcome_apiList outcome_return outcome_mono [OF remove] gcRun_intro [OF Inr])
qed

end
