(* ===== verification/ScheduledBackup.thy ===== *)
theory ScheduledBackup
  imports Cluster Conditions
begin

text \<open>
  \<open>internal/scheduledbackup/manager.go\<close>: the job of a backup schedule creates one backup, named after
  the schedule and the time. The time is rendered by \<open>time.Format\<close> with the layout
  \<open>2006-01-02t15.04.05\<close>, in the proleptic Gregorian calendar of Go.
\<close>

section \<open>Calendar dates\<close>

definition isLeap :: "nat \<Rightarrow> bool" where
  "isLeap y \<longleftrightarrow> y mod 4 = 0 \<and> (y mod 100 \<noteq> 0 \<or> y mod 400 = 0)"

definition daysIn :: "nat \<Rightarrow> nat" where
  "daysIn y = (if isLeap y then 366 else 365)"

definition monthLengths :: "nat \<Rightarrow> nat list" where
  "monthLengths y = [31, if isLeap y then 29 else 28, 31, 30, 31, 30, 31, 31, 30, 31, 30, 31]"

lemma daysIn_pos: "0 < daysIn y"
  by (simp add: daysIn_def)

text \<open>The year of a day (counted from the start of year \<open>y\<close>) and the day in that year, from 0.\<close>

function yearAndDay :: "nat \<Rightarrow> nat \<Rightarrow> nat \<times> nat" where
  "yearAndDay y d = (if d < daysIn y then (y, d) else yearAndDay (Suc y) (d - daysIn y))"
  by auto

termination
  by (relation "measure snd") (auto simp: daysIn_def)

declare yearAndDay.simps [simp del]

text \<open>The month (from \<open>m\<close> on) and the day in that month, from 0.\<close>

fun monthAndDay :: "nat \<Rightarrow> nat list \<Rightarrow> nat \<Rightarrow> nat \<times> nat" where
  "monthAndDay m [] d = (m, d)"
| "monthAndDay m (l # ls) d = (if d < l then (m, d) else monthAndDay (Suc m) ls (d - l))"

text \<open>Decimal numbers padded with zeros.\<close>

definition pad :: "nat \<Rightarrow> nat \<Rightarrow> string" where
  "pad w n = replicate (w - length (showNat n)) (digit 0) @ showNat n"

definition timeFormatK8sAcceptableName :: "instant \<Rightarrow> string" where
  "timeFormatK8sAcceptableName t = (
     let secs = nat (t div second);
         days = secs div 86400; s = secs mod 86400;
         (y, dy) = yearAndDay 1 days;
         (m, dm) = monthAndDay 1 (monthLengths y) dy
     in pad 4 y @ ''-'' @ pad 2 m @ ''-'' @ pad 2 (Suc dm) @ ''t'' @
        pad 2 (s div 3600) @ ''.'' @ pad 2 (s mod 3600 div 60) @ ''.'' @ pad 2 (s mod 60))"

section \<open>The manager\<close>

record options =
  opt_name :: string
  opt_namespace :: string
  opt_provider :: string

record 's scheduleManager =
  sm_clientSet :: "'s env"
  sm_options :: options

definition scheduledLabels :: "(string \<times> string) list" where
  "scheduledLabels = [(''app'', ''ces''), (''k8s.cloudogu.com/part-of'', ''backup''),
     (''app.kubernetes.io/name'', ''backup''), (''app.kubernetes.io/part-of'', ''k8s-backup-operator''),
     (''app.kubernetes.io/created-by'', ''k8s-backup-operator'')]"

definition scheduledBackup :: "options \<Rightarrow> string \<Rightarrow> backup" where
  "scheduledBackup opts backupName = obj_meta.extend
     ((newMeta (opt_namespace opts) backupName)\<lparr>o_labels := map_of scheduledLabels\<rparr>)
     \<lparr>b_provider = opt_provider opts, b_synced = False, b_status = emptyBackupStatus\<rparr>"

definition ScheduleBackup :: "'s scheduleManager \<Rightarrow> ('s, err option) prog" where
  "ScheduleBackup dm = do {
     t \<leftarrow> now (sm_clientSet dm);
     let backupName = opt_name (sm_options dm) @ ''-'' @ timeFormatK8sAcceptableName t;
     created \<leftarrow> apiCreate (backups (sm_clientSet dm)) OnBackup (scheduledBackup (sm_options dm) backupName);
     return (case created of
       Inl e \<Rightarrow> Some (Wrapf (''failed to apply backup '' @ quote backupName) (Api e))
     | Inr _ \<Rightarrow> None)
   }"

section \<open>The rendering is injective\<close>

text \<open>The number of days before a year and before a month.\<close>

definition daysBefore :: "nat \<Rightarrow> nat \<Rightarrow> nat" where
  "daysBefore y0 y = (\<Sum>k = y0..<y. daysIn k)"

lemma yearAndDay_inverse:
  assumes "yearAndDay y d = (y', d')"
  shows "y \<le> y' \<and> d' < daysIn y' \<and> d = daysBefore y y' + d'"
  using assms
proof (induction y d arbitrary: y' d' rule: yearAndDay.induct)
  case (1 y d)
  show ?case
  proof (cases "d < daysIn y")
    case True
    with 1(2) show ?thesis by (simp add: yearAndDay.simps [of y d] daysBefore_def)
  next
    case False
    with 1 have "Suc y \<le> y' \<and> d' < daysIn y' \<and> d - daysIn y = daysBefore (Suc y) y' + d'"
      by (simp add: yearAndDay.simps [of y d])
    moreover from this have "daysBefore y y' = daysIn y + daysBefore (Suc y) y'"
      by (simp add: daysBefore_def sum.atLeast_Suc_lessThan)
    ultimately show ?thesis using False by linarith
  qed
qed

lemma monthAndDay_inverse:
  assumes "monthAndDay m ls d = (m', d')" "d < sum_list ls"
  shows "m \<le> m' \<and> m' < m + length ls \<and> d' < ls ! (m' - m) \<and> d = sum_list (take (m' - m) ls) + d'"
  using assms
proof (induction m ls d rule: monthAndDay.induct)
  case (1 m d)
  then show ?case by simp
next
  case (2 m l ls d)
  show ?case
  proof (cases "d < l")
    case True
    with 2(2) show ?thesis by auto
  next
    case False
    with 2 have IH: "Suc m \<le> m' \<and> m' < Suc m + length ls \<and> d' < ls ! (m' - Suc m) \<and>
        d - l = sum_list (take (m' - Suc m) ls) + d'" by auto
    then have "m' - m = Suc (m' - Suc m)" by linarith
    with IH False show ?thesis by auto
  qed
qed

lemma sum_monthLengths: "sum_list (monthLengths y) = daysIn y"
  by (simp add: monthLengths_def daysIn_def)

lemma digit_inject [simp]: "a < 10 \<Longrightarrow> b < 10 \<Longrightarrow> digit a = digit b \<longleftrightarrow> a = b"
  by (metis digitVal_digit)

lemma digitsVal_replicate: "digitsVal (replicate k (digit 0) @ s) = digitsVal s"
proof (induction k)
  case (Suc k)
  have "digitsVal (digit 0 # xs) = digitsVal xs" for xs
    by (simp add: digitsVal_def)
  with Suc show ?case by simp
qed simp

lemma digitsVal_pad [simp]: "digitsVal (pad w n) = n"
  by (simp add: pad_def digitsVal_replicate)

lemma pad_digits: "list_all isDigit (pad w n)"
  by (auto simp: pad_def showNat_digits list_all_iff [of _ "replicate _ _"])

lemma pad_inject [simp]: "pad w m = pad w n \<longleftrightarrow> m = n"
  by (metis digitsVal_pad)

lemma pad_sep: "\<not> isDigit c \<Longrightarrow> pad w m @ c # us = pad w n @ c # vs \<longleftrightarrow> m = n \<and> us = vs"
  using append_digits_cancel [OF pad_digits pad_digits] by simp

lemma not_isDigit_separators: "\<not> isDigit (CHR ''t'')" "\<not> isDigit (CHR ''.'')"
  by (simp_all add: isDigit_def)

lemma format_inject:
  assumes "0 \<le> t" "0 \<le> u"
  shows "timeFormatK8sAcceptableName t = timeFormatK8sAcceptableName u \<longleftrightarrow> t div second = u div second"
proof
  assume eq: "timeFormatK8sAcceptableName t = timeFormatK8sAcceptableName u"
  define a b where "a = nat (t div second)" and "b = nat (u div second)"
  obtain y d where y: "yearAndDay 1 (a div 86400) = (y, d)" by fastforce
  obtain y' d' where y': "yearAndDay 1 (b div 86400) = (y', d')" by fastforce
  obtain m e where m: "monthAndDay 1 (monthLengths y) d = (m, e)" by fastforce
  obtain m' e' where m': "monthAndDay 1 (monthLengths y') d' = (m', e')" by fastforce
  from eq have parts: "y = y'" "m = m'" "e = e'" "a mod 86400 div 3600 = b mod 86400 div 3600"
      "a mod 86400 mod 3600 div 60 = b mod 86400 mod 3600 div 60" "a mod 86400 mod 60 = b mod 86400 mod 60"
    by (simp_all add: timeFormatK8sAcceptableName_def Let_def a_def [symmetric] b_def [symmetric]
        y [unfolded One_nat_def] y' [unfolded One_nat_def] m [unfolded One_nat_def] m' [unfolded One_nat_def]
        pad_sep not_isDigit_signs not_isDigit_separators)
  from yearAndDay_inverse [OF y] yearAndDay_inverse [OF y']
  have "d < sum_list (monthLengths y)" "d' < sum_list (monthLengths y')" by (simp_all add: sum_monthLengths)
  with monthAndDay_inverse [OF m] monthAndDay_inverse [OF m'] parts have "d = d'" by simp
  with yearAndDay_inverse [OF y] yearAndDay_inverse [OF y'] parts have "a div 86400 = b div 86400" by simp
  moreover have "a mod 86400 = b mod 86400"
  proof -
    have "x = 3600 * (x div 3600) + 60 * (x mod 3600 div 60) + x mod 60" for x :: nat
    proof -
      have "x mod 3600 mod 60 = x mod 60" by (rule mod_mod_cancel) simp
      then show ?thesis
        using mult_div_mod_eq [of 3600 x] mult_div_mod_eq [of 60 "x mod 3600"] by linarith
    qed
    with parts(4-6) show ?thesis by metis
  qed
  ultimately have "a = b" by (metis div_mult_mod_eq)
  moreover have "0 \<le> t div second" "0 \<le> u div second"
    using assms by (simp_all add: second_def pos_imp_zdiv_nonneg_iff)
  ultimately show "t div second = u div second" by (simp add: a_def b_def)
qed (simp add: timeFormatK8sAcceptableName_def)

section \<open>Properties\<close>

definition createdByJob :: "options \<Rightarrow> instant \<Rightarrow> backup" where
  "createdByJob opts t = scheduledBackup opts (opt_name opts @ ''-'' @ timeFormatK8sAcceptableName t)"

text \<open>
  A scheduled backup creates exactly one object, in the namespace and for the provider of the
  schedule, not marked as synced, and fails exactly when that creation fails; the backups of one
  schedule have the same name only when they are created in the same second.
\<close>

theorem scheduled_backup_created:
  assumes "0 \<le> t" "0 \<le> u"
  shows "outcome (ScheduleBackup dm) (\<lambda>err es. \<exists>now r. es = [OnBackup (Create (createdByJob (sm_options dm) now) r)] \<and>
       (err = None \<longleftrightarrow> (\<exists>b. r = Inr b))) \<and>
     (o_name (createdByJob opts t) = o_name (createdByJob opts u) \<longleftrightarrow> t div second = u div second)"
  using format_inject [OF assms]
  by (auto simp: ScheduleBackup_def createdByJob_def Let_def scheduledBackup_def obj_meta.defs newMeta_def
      intro!: outcome_intro split: sum.splits)

theorem scheduled_backup_created_witness:
  "o_name (createdByJob \<lparr>opt_name = ''nightly'', opt_namespace = ''ns'', opt_provider = ''velero''\<rparr> 0) \<noteq>
   o_name (createdByJob \<lparr>opt_name = ''nightly'', opt_namespace = ''ns'', opt_provider = ''velero''\<rparr> second)"
  using scheduled_backup_created [of 0 second
      "\<lparr>sm_clientSet = clusterEnv, sm_options = \<lparr>opt_name = [], opt_namespace = [], opt_provider = []\<rparr>\<rparr>"
      "\<lparr>opt_name = ''nightly'', opt_namespace = ''ns'', opt_provider = ''velero''\<rparr>"]
  by (simp add: second_def)

end
