(* ===== verification/VeleroRestore.thy ===== *)
theory VeleroRestore
  imports VeleroProvider
begin

text \<open>
  \<open>internal/provider/velero/restore.go\<close> and \<open>restorePhase.go\<close>: the Velero restore a Cloudogu restore
  expects, whether an existing one may be used as such, its creation (once) and deletion (only of the
  very object that was classified), and the provider-independent reading of its phase.
\<close>

section \<open>The expected child\<close>

definition RestoreSourceNameLabel :: string where
  "RestoreSourceNameLabel = ''k8s.cloudogu.com/restore-source-name''"

definition RestoreSourceUIDLabel :: string where
  "RestoreSourceUIDLabel = ''k8s.cloudogu.com/restore-source-uid''"

definition restoreDoguModifierConfigMapName :: string where
  "restoreDoguModifierConfigMapName = ''k8s-backup-operator-restore-dogu-modifier''"

definition restoreKind :: string where
  "restoreKind = ''Restore''"

record conflict_error =
  ce_name :: string
  ce_reason :: string

definition conflictText :: "conflict_error \<Rightarrow> string" where
  "conflictText e = ''velero restore ['' @ ce_name e @ ''] conflicts with the expected child: '' @ ce_reason e"

text \<open>The errors of this file; callers tell a \<open>*ConflictError\<close> from the rest by \<open>errors.As\<close>.\<close>

datatype restore_error = IsConflictError conflict_error | PlainError err

definition BuildRestore :: "'s env \<Rightarrow> restore \<Rightarrow> velero_restore" where
  "BuildRestore E parent = obj_meta.extend
     ((newMeta (o_namespace parent) (o_name parent))\<lparr>
        o_labels := [RestoreSourceNameLabel \<mapsto> o_name parent, RestoreSourceUIDLabel \<mapsto> o_uid parent],
        o_owners := [\<lparr>ow_apiVersion = libConstant E ''k8sv1.GroupVersion'', ow_kind = restoreKind,
          ow_name = o_name parent, ow_uid = o_uid parent, ow_controller = True,
          ow_blockDeletion = True\<rparr>]\<rparr>)
     \<lparr>vre_spec = \<lparr>
        vsp_backupName = re_backupName parent,
        vsp_existingResourcePolicy = libConstant E ''velerov1.PolicyTypeUpdate'',
        vsp_modifierGroup = Some [],
        vsp_modifierKind = ''ConfigMap'',
        vsp_modifierName = restoreDoguModifierConfigMapName\<rparr>,
      vre_phase = RestorePhaseNone\<rparr>"

definition GetRestore :: "'s env \<Rightarrow> restore \<Rightarrow> ('s, err + velero_restore option) prog" where
  "GetRestore E parent = do {
     got \<leftarrow> apiGet (veleroRestores E) OnVeleroRestore (keyOf parent);
     return (case got of
       Inl e \<Rightarrow>
         if isNotFound e then Inr None
         else Inl (Wrapf (''failed to get velero restore ['' @ o_name parent @ '']'') (Api e))
     | Inr child \<Rightarrow> Inr (Some child))
   }"

definition IsOwnedRestore :: "'s env \<Rightarrow> restore \<Rightarrow> velero_restore \<Rightarrow> bool" where
  "IsOwnedRestore E parent child =
     (case getControllerOf E (o_owners child) of
        None \<Rightarrow> False
      | Some ctrl \<Rightarrow> ow_uid ctrl \<noteq> [] \<and> ow_uid ctrl = o_uid parent)"

definition CheckRestoreForConflicts :: "'s env \<Rightarrow> restore \<Rightarrow> velero_restore \<Rightarrow> conflict_error option" where
  "CheckRestoreForConflicts E parent child =
     (if \<not> IsOwnedRestore E parent child then Some \<lparr>ce_name = o_name child, ce_reason =
        ''it is not controlled by restore ['' @ o_name parent @ ''] and must not be adopted''\<rparr>
      else if vsp_backupName (vre_spec child) \<noteq> re_backupName parent then Some \<lparr>ce_name = o_name child,
        ce_reason = ''it restores backup ['' @ vsp_backupName (vre_spec child) @ ''] but restore ['' @
          o_name parent @ ''] expects backup ['' @ re_backupName parent @ '']''\<rparr>
      else None)"

section \<open>Creating and deleting it\<close>

text \<open>\<open>Create\<close> fills the object it is given, so what is returned is the server's answer.\<close>

definition EnsureRestore :: "'s env \<Rightarrow> restore \<Rightarrow> ('s, restore_error + velero_restore) prog" where
  "EnsureRestore E parent = do {
     res \<leftarrow> GetRestore E parent;
     case res of
       Inl e \<Rightarrow> return (Inl (PlainError e))
     | Inr (Some existing) \<Rightarrow>
         (case CheckRestoreForConflicts E parent existing of
            Some conflictErr \<Rightarrow> return (Inl (IsConflictError conflictErr))
          | None \<Rightarrow> return (Inr existing))
     | Inr None \<Rightarrow> do {
         created \<leftarrow> apiCreate (veleroRestores E) OnVeleroRestore (BuildRestore E parent);
         return (case created of
           Inl e \<Rightarrow> Inl (PlainError (Wrapf (''failed to create velero restore ['' @
             o_name (BuildRestore E parent) @ '']'') (Api e)))
         | Inr child \<Rightarrow> Inr child)
       }
   }"

definition DeleteRestore :: "'s env \<Rightarrow> velero_restore \<Rightarrow> ('s, err option) prog" where
  "DeleteRestore E child = do {
     del \<leftarrow> apiDelete (veleroRestores E) OnVeleroRestore child (DeleteOptions (Some (o_uid child)) None);
     return (case del of
       Inl e \<Rightarrow>
         if isNotFound e then None
         else Some (Wrapf (''failed to delete velero restore ['' @ o_name child @ '']'') (Api e))
     | Inr _ \<Rightarrow> None)
   }"

section \<open>Reading its phase\<close>

datatype restore_state =
  RestorePending | RestoreRunning | RestoreSucceeded | RestoreFailed | RestoreStateUnknown

definition ObserveRestorePhase :: "velero_restore_phase \<Rightarrow> restore_state" where
  "ObserveRestorePhase phase =
     (if phase = RestorePhaseNone \<or> phase = RestorePhaseNew then RestorePending
      else if phase \<in> {RestorePhaseInProgress, RestorePhaseWaitingForPluginOperations,
        RestorePhaseWaitingForPluginOperationsPartiallyFailed, RestorePhaseFinalizing,
        RestorePhaseFinalizingPartiallyFailed} then RestoreRunning
      else if phase = RestorePhaseCompleted then RestoreSucceeded
      else if phase \<in> {RestorePhaseFailedValidation, RestorePhasePartiallyFailed, RestorePhaseFailed}
      then RestoreFailed
      else RestoreStateUnknown)"

lemma Observe_outcomes:
  "ObserveRestorePhase p = RestoreSucceeded \<longleftrightarrow> p = RestorePhaseCompleted"
  "ObserveRestorePhase p = RestoreFailed \<longleftrightarrow>
     p \<in> {RestorePhaseFailedValidation, RestorePhasePartiallyFailed, RestorePhaseFailed}"
  by (auto simp: ObserveRestorePhase_def)

section \<open>What the operations do\<close>

text \<open>The child it builds is its own and conflicts with nothing.\<close>

lemma BuildRestore_simps [simp]:
  "keyOf (BuildRestore E r) = keyOf r" "vre_phase (BuildRestore E r) = RestorePhaseNone"
  "vsp_backupName (vre_spec (BuildRestore E r)) = re_backupName r"
  by (simp_all add: BuildRestore_def obj_meta.defs newMeta_def)

lemma BuildRestore_owned:
  assumes "controller_laws E" "o_uid r \<noteq> []"
  shows "IsOwnedRestore E r (BuildRestore E r)"
  using assms by (simp add: IsOwnedRestore_def controller_laws_def BuildRestore_def obj_meta.defs)

lemma CheckRestoreForConflicts_None:
  "CheckRestoreForConflicts E r c = None \<longleftrightarrow>
     IsOwnedRestore E r c \<and> vsp_backupName (vre_spec c) = re_backupName r"
  by (auto simp: CheckRestoreForConflicts_def)

lemma GetRestore_outcome:
  "outcome (GetRestore E r) (\<lambda>res es. \<exists>got. es = [OnVeleroRestore (Get (keyOf r) got)] \<and>
     (res = Inr None \<longleftrightarrow> (\<exists>e. got = Inl e \<and> isNotFound e)) \<and>
     (\<forall>c. res = Inr (Some c) \<longleftrightarrow> got = Inr c) \<and>
     ((\<exists>x. res = Inl x) \<longleftrightarrow> (\<exists>e. got = Inl e \<and> \<not> isNotFound e)))"
  unfolding GetRestore_def
  by (auto intro!: outcome_intro split: sum.splits)

text \<open>
  \<open>EnsureRestore\<close> writes at most once, only the child it builds, and only after it saw that there is none.
  What it returns is usable: its own with the expected backup, or just created.
\<close>

lemma EnsureRestore_outcome:
  "outcome (EnsureRestore E r) (\<lambda>res es.
     (\<forall>c. es = [OnVeleroRestore (Get (keyOf r) (Inr c))] \<longrightarrow>
        res = (case CheckRestoreForConflicts E r c of
          Some x \<Rightarrow> Inl (IsConflictError x) | None \<Rightarrow> Inr c)) \<and>
     ((\<exists>got. es = [OnVeleroRestore (Get (keyOf r) got)] \<and> (\<forall>e. got = Inl e \<longrightarrow> \<not> isNotFound e)) \<or>
      (\<exists>e u. isNotFound e \<and> es = [OnVeleroRestore (Get (keyOf r) (Inl e)),
         OnVeleroRestore (Create (BuildRestore E r) u)] \<and> (\<forall>c. res = Inr c \<longleftrightarrow> u = Inr c) \<and>
         (\<forall>x. res \<noteq> Inl (IsConflictError x)))) \<and>
     (\<forall>c. res = Inr c \<longrightarrow>
        es = [OnVeleroRestore (Get (keyOf r) (Inr c))] \<and> CheckRestoreForConflicts E r c = None \<or>
        OnVeleroRestore (Create (BuildRestore E r) (Inr c)) \<in> set es) \<and>
     (\<forall>x. res = Inl (IsConflictError x) \<longrightarrow> (\<exists>c. es = [OnVeleroRestore (Get (keyOf r) (Inr c))] \<and>
        CheckRestoreForConflicts E r c = Some x)))"
  unfolding EnsureRestore_def GetRestore_def
  by (auto intro!: outcome_intro split: sum.splits option.splits)

lemma DeleteRestore_outcome:
  "outcome (DeleteRestore E c) (\<lambda>res es. \<exists>u.
     es = [OnVeleroRestore (Delete c (DeleteOptions (Some (o_uid c)) None) u)] \<and>
     (res = None \<longleftrightarrow> u = Inr () \<or> (\<exists>e. u = Inl e \<and> isNotFound e)))"
  unfolding DeleteRestore_def
  by (auto intro!: outcome_intro split: sum.splits)

end
