(* ===== verification/RestoreStatus.thy ===== *)
theory RestoreStatus
  imports VeleroRestore Metrics
begin

text \<open>
  The status of a restore (\<open>internal/controller/restore/conditions.go\<close> and \<open>conditionUpdater.go\<close>): the
  reasons, the initial conditions, the reading of a status that predates conditions, the deprecated
  scalar status, and the condition updater, which writes a status only when it changes and tries
  again a bounded number of times when the write conflicts.
\<close>

section \<open>Reasons\<close>

definition ReasonWaitingForActiveRestore :: string where "ReasonWaitingForActiveRestore = ''WaitingForActiveRestore''"
definition ReasonRestoreLeaseAcquired :: string where "ReasonRestoreLeaseAcquired = ''RestoreLeaseAcquired''"
definition ReasonInvalidRestoreLease :: string where "ReasonInvalidRestoreLease = ''InvalidRestoreLease''"
definition ReasonCleanupCompleted :: string where "ReasonCleanupCompleted = ''CleanupCompleted''"
definition ReasonCleanupFailed :: string where "ReasonCleanupFailed = ''CleanupFailed''"
definition ReasonPreparing :: string where "ReasonPreparing = ''Preparing''"
definition ReasonPreparationFailed :: string where "ReasonPreparationFailed = ''PreparationFailed''"
definition ReasonPreparationCompleted :: string where "ReasonPreparationCompleted = ''PreparationCompleted''"
definition ReasonProviderRestorePending :: string where "ReasonProviderRestorePending = ''ProviderRestorePending''"
definition ReasonProviderRestoreRunning :: string where "ReasonProviderRestoreRunning = ''ProviderRestoreRunning''"
definition ReasonProviderRestoreCompleted :: string where "ReasonProviderRestoreCompleted = ''ProviderRestoreCompleted''"
definition ReasonProviderRestoreFailed :: string where "ReasonProviderRestoreFailed = ''ProviderRestoreFailed''"
definition ReasonProviderRestoreStateUnknown :: string where "ReasonProviderRestoreStateUnknown = ''ProviderRestoreStateUnknown''"
definition ReasonProviderRestoreConflict :: string where "ReasonProviderRestoreConflict = ''ProviderRestoreConflict''"
definition ReasonRecoveringWorkloads :: string where "ReasonRecoveringWorkloads = ''RecoveringWorkloads''"
definition ReasonWorkloadRecoveryCompleted :: string where "ReasonWorkloadRecoveryCompleted = ''WorkloadRecoveryCompleted''"
definition ReasonWorkloadRecoveryFailed :: string where "ReasonWorkloadRecoveryFailed = ''WorkloadRecoveryFailed''"
definition ReasonRecoveryNotAttemptedAfterProviderFailure :: string where "ReasonRecoveryNotAttemptedAfterProviderFailure = ''RecoveryNotAttemptedAfterProviderFailure''"
definition ReasonRestoreCompleted :: string where "ReasonRestoreCompleted = ''RestoreCompleted''"
definition ReasonRestoreStarted :: string where "ReasonRestoreStarted = ''RestoreStarted''"
definition ReasonMigratedFromLegacyStatus :: string where "ReasonMigratedFromLegacyStatus = ''MigratedFromLegacyStatus''"
definition ReasonScaleUpInitiated :: string where "ReasonScaleUpInitiated = ''ScaleUpInitiated''"
definition ReasonWaitingForWorkloads :: string where "ReasonWaitingForWorkloads = ''WaitingForWorkloads''"
definition ReasonWorkloadsReady :: string where "ReasonWorkloadsReady = ''WorkloadsReady''"
definition ReasonScaleUpFinalized :: string where "ReasonScaleUpFinalized = ''ScaleUpFinalized''"
definition ReasonProviderReady :: string where "ReasonProviderReady = ''ProviderReady''"
definition ReasonMaintenanceModeActivated :: string where "ReasonMaintenanceModeActivated = ''MaintenanceModeActivated''"
definition ReasonMaintenanceModeDeactivated :: string where "ReasonMaintenanceModeDeactivated = ''MaintenanceModeDeactivated''"

lemmas restore_reasons =
  ReasonWaitingForActiveRestore_def ReasonRestoreLeaseAcquired_def ReasonInvalidRestoreLease_def
  ReasonCleanupCompleted_def ReasonCleanupFailed_def ReasonPreparing_def
  ReasonPreparationFailed_def ReasonPreparationCompleted_def ReasonProviderRestorePending_def
  ReasonProviderRestoreRunning_def ReasonProviderRestoreCompleted_def
  ReasonProviderRestoreFailed_def ReasonProviderRestoreStateUnknown_def
  ReasonProviderRestoreConflict_def ReasonWorkloadRecoveryCompleted_def
  ReasonWorkloadRecoveryFailed_def ReasonRecoveryNotAttemptedAfterProviderFailure_def
  ReasonRestoreCompleted_def ReasonRestoreStarted_def ReasonMigratedFromLegacyStatus_def
  ReasonScaleUpInitiated_def ReasonWaitingForWorkloads_def ReasonWorkloadsReady_def
  ReasonScaleUpFinalized_def ReasonProviderReady_def ReasonMaintenanceModeActivated_def
  ReasonMaintenanceModeDeactivated_def

section \<open>Conditions\<close>

abbreviation restoreConditions :: "restore \<Rightarrow> condition list" where
  "restoreConditions r \<equiv> rst_conditions (re_status r)"

definition pendingRestoreMilestone :: "cond_type \<Rightarrow> condition" where
  "pendingRestoreMilestone t = newCondition t ConditionUnknown ReasonPending
     ''The restore workflow has not reached this milestone yet.''"

definition initialWorkflowConditions :: "condition list" where
  "initialWorkflowConditions = [
     pendingRestoreMilestone ConditionSucceeded,
     pendingRestoreMilestone ConditionPrepared,
     pendingRestoreMilestone ConditionProviderSucceeded,
     pendingRestoreMilestone ConditionWorkloadsRecovered]"

definition reachedMilestone :: "cond_type \<Rightarrow> string \<Rightarrow> string \<Rightarrow> condition" where
  "reachedMilestone t reason message = newCondition t ConditionTrue reason message"

fun observeProviderRestoreState :: "restore_state \<Rightarrow> cond_status \<times> string" where
  "observeProviderRestoreState RestorePending = (ConditionUnknown, ReasonProviderRestorePending)"
| "observeProviderRestoreState RestoreRunning = (ConditionUnknown, ReasonProviderRestoreRunning)"
| "observeProviderRestoreState RestoreSucceeded = (ConditionTrue, ReasonProviderRestoreCompleted)"
| "observeProviderRestoreState RestoreFailed = (ConditionFalse, ReasonProviderRestoreFailed)"
| "observeProviderRestoreState RestoreStateUnknown = (ConditionUnknown, ReasonProviderRestoreStateUnknown)"

definition findSuccessfulCondition :: "'s env \<Rightarrow> restore \<Rightarrow> condition option" where
  "findSuccessfulCondition E r = findStatusCondition E (restoreConditions r) ConditionSucceeded"

definition determineLegacySuccessfulCondition :: "'s env \<Rightarrow> restore \<Rightarrow> condition option" where
  "determineLegacySuccessfulCondition E r =
     map_option (\<lambda>status. newCondition ConditionSucceeded status ReasonMigratedFromLegacyStatus
         (''Derived from the deprecated status '' @ quote (legacyText E (rst_legacy (re_status r))) @
          '' of a restore created before conditions existed.''))
       (case rst_legacy (re_status r) of
          StatusCompleted \<Rightarrow> Some ConditionTrue
        | StatusFailed \<Rightarrow> Some ConditionFalse
        | StatusInProgress \<Rightarrow> Some ConditionUnknown
        | _ \<Rightarrow> None)"

definition effectiveSuccessfulCondition :: "'s env \<Rightarrow> restore \<Rightarrow> condition option" where
  "effectiveSuccessfulCondition E r =
     (case findSuccessfulCondition E r of
        Some c \<Rightarrow> Some c
      | None \<Rightarrow> determineLegacySuccessfulCondition E r)"

definition isTerminal :: "'s env \<Rightarrow> restore \<Rightarrow> bool" where
  "isTerminal E r =
     (case effectiveSuccessfulCondition E r of
        None \<Rightarrow> False
      | Some c \<Rightarrow> c_status c \<noteq> ConditionUnknown)"

definition isTerminalLegacyStatus :: "legacy_status \<Rightarrow> bool" where
  "isTerminalLegacyStatus st \<longleftrightarrow> st = StatusCompleted \<or> st = StatusFailed"

definition legacyStatusFor :: "'s env \<Rightarrow> restore \<Rightarrow> legacy_status" where
  "legacyStatusFor E r =
     (if \<not> isZeroPtr (o_deletion r) then StatusDeleting
      else case findSuccessfulCondition E r of
        None \<Rightarrow>
          if length (restoreConditions r) = 0 \<or> isTerminalLegacyStatus (rst_legacy (re_status r))
          then rst_legacy (re_status r)
          else StatusInProgress
      | Some c \<Rightarrow>
          if c_status c = ConditionTrue then StatusCompleted
          else if c_status c = ConditionFalse then StatusFailed
          else StatusInProgress)"

definition restoreOutcome :: "'s env \<Rightarrow> restore \<Rightarrow> string" where
  "restoreOutcome E r =
     (case effectiveSuccessfulCondition E r of
        None \<Rightarrow> ''unknown''
      | Some c \<Rightarrow>
          if c_status c = ConditionTrue then ''succeeded''
          else if c_status c = ConditionFalse then ''failed''
          else ''unknown'')"

section \<open>The condition updater\<close>

record restore_transition =
  rt_type :: cond_type
  rt_from :: cond_status
  rt_to :: cond_status

text \<open>\<open>cu_legacy\<close> is \<open>None\<close> where the Go field is empty.\<close>

record condition_update =
  cu_restore :: restore
  cu_transitions :: "restore_transition list"
  cu_legacy :: "legacy_status option"

text \<open>One iteration of the loop of \<open>applyConditions\<close>, and \<open>applyConditions\<close>.\<close>

definition applyCondition :: "'s env \<Rightarrow> condition \<Rightarrow> restore \<times> restore_transition list
    \<Rightarrow> ('s, restore \<times> restore_transition list) prog" where
  "applyCondition E c = (\<lambda>(r, transitions). do {
     let previous = findStatusCondition E (restoreConditions r) (c_type c);
     cs \<leftarrow> setStatusCondition E (restoreConditions r) (c\<lparr>c_generation := o_generation r\<rparr>);
     return (r\<lparr>re_status := (re_status r)\<lparr>rst_conditions := cs\<rparr>\<rparr>,
       transitions @ (case previous of
         None \<Rightarrow> []
       | Some p \<Rightarrow>
           if c_status p \<noteq> c_status c
           then [\<lparr>rt_type = c_type c, rt_from = c_status p, rt_to = c_status c\<rparr>] else []))
   })"

definition applyConditions :: "'s env \<Rightarrow> restore \<Rightarrow> condition list
    \<Rightarrow> ('s, restore \<times> restore_transition list) prog" where
  "applyConditions E restore conds = do {
     (r, transitions) \<leftarrow> fold_io (applyCondition E) conds (restore, []);
     return (r\<lparr>re_status := (re_status r)\<lparr>rst_legacy := legacyStatusFor E r\<rparr>\<rparr>, transitions)
   }"

text \<open>A successful \<open>Status().Update\<close> leaves the object the API server answered in \<open>desired\<close>.\<close>

definition tryPersistConditions :: "'s env \<Rightarrow> restore \<Rightarrow> condition list
    \<Rightarrow> ('s, err + condition_update) prog" where
  "tryPersistConditions E current conds = do {
     (desired, transitions) \<leftarrow> applyConditions E current conds;
     let legacyStatusChanged = (rst_legacy (re_status current) \<noteq> rst_legacy (re_status desired));
     if re_status current = re_status desired
     then return (Inr \<lparr>cu_restore = current, cu_transitions = [], cu_legacy = None\<rparr>)
     else do {
       updated \<leftarrow> apiUpdateStatus (restores E) OnRestore desired;
       return (case updated of
         Inl e \<Rightarrow> Inl (Api e)
       | Inr desired' \<Rightarrow> Inr \<lparr>cu_restore = desired', cu_transitions = transitions, cu_legacy =
           (if legacyStatusChanged then Some (rst_legacy (re_status desired')) else None)\<rparr>)
     }
   }"

text \<open>
  The function given to \<open>retry.RetryOnConflict\<close>: its error and the object of the next attempt, or the
  update. The library calls it again while the error is a conflict, \<open>conflictRetries\<close> times at most.
\<close>

definition persistAttempt :: "'s env \<Rightarrow> restore \<Rightarrow> condition list \<Rightarrow> restore
    \<Rightarrow> ('s, (err \<times> restore) + condition_update) prog" where
  "persistAttempt E restore conds current = do {
     updated \<leftarrow> tryPersistConditions E current conds;
     case updated of
       Inr u \<Rightarrow> return (Inr u)
     | Inl e \<Rightarrow>
         if apiReasonOf e = Some ConflictReason then do {
           got \<leftarrow> apiGet (restores E) OnRestore (keyOf restore);
           return (case got of
             Inl ge \<Rightarrow> Inl (Wrapf (''failed to get restore '' @ quote (o_name restore) @
               '' after a conflicting status update'') (Api ge), current)
           | Inr refreshed \<Rightarrow> Inl (e, refreshed))
         }
         else return (Inl (e, current))
   }"

fun retryOnConflict :: "nat \<Rightarrow> ('c \<Rightarrow> ('s, (err \<times> 'c) + 'a) prog) \<Rightarrow> 'c \<Rightarrow> ('s, err + 'a) prog" where
  "retryOnConflict n attempt current = do {
     res \<leftarrow> attempt current;
     case res of
       Inr x \<Rightarrow> return (Inr x)
     | Inl (e, current') \<Rightarrow>
         if apiReasonOf e = Some ConflictReason
         then (case n of 0 \<Rightarrow> return (Inl e) | Suc m \<Rightarrow> retryOnConflict m attempt current')
         else return (Inl e)
   }"

declare retryOnConflict.simps [simp del]

definition persistConditions :: "'s env \<Rightarrow> restore \<Rightarrow> condition list
    \<Rightarrow> ('s, err + condition_update) prog" where
  "persistConditions E restore conds =
     retryOnConflict (conflictRetries E) (persistAttempt E restore conds) restore"

definition recordConditionUpdateMetrics :: "'s env \<Rightarrow> condition_update \<Rightarrow> ('s, unit) prog" where
  "recordConditionUpdateMetrics E u = do {
     let r = cu_restore u;
     _ \<leftarrow> for_each (\<lambda>t. UpdateRestoreConditionTransitionMetric (o_namespace r) (o_name r)
           (re_backupName r) (rt_type t) (rt_from t) (rt_to t)) (cu_transitions u);
     case cu_legacy u of
       None \<Rightarrow> return ()
     | Some st \<Rightarrow>
         if legacyText E st \<noteq> []
         then UpdateRestoreStatusMetrics (o_namespace r) (o_name r) (re_backupName r) st
         else return ()
   }"

text \<open>On an error the restore the caller passed stays the current one.\<close>

definition setConditions :: "'s env \<Rightarrow> restore \<Rightarrow> condition list \<Rightarrow> ('s, err + restore) prog" where
  "setConditions E restore conds = do {
     res \<leftarrow> persistConditions E restore conds;
     case res of
       Inl e \<Rightarrow> return (Inl (Wrapf (''failed to update status of restore '' @ quote (o_name restore)) e))
     | Inr u \<Rightarrow> do {
         _ \<leftarrow> recordConditionUpdateMetrics E u;
         return (Inr (cu_restore u))
       }
   }"

definition setConditionsFromLegacyStatus :: "'s env \<Rightarrow> restore \<Rightarrow> ('s, err + restore) prog" where
  "setConditionsFromLegacyStatus E restore =
     (if findSuccessfulCondition E restore \<noteq> None then return (Inr restore)
      else case determineLegacySuccessfulCondition E restore of
        None \<Rightarrow> return (Inr restore)
      | Some c \<Rightarrow> setConditions E restore [c])"

section \<open>What a terminal restore is\<close>

text \<open>A terminal restore is never one without an outcome in its effective condition.\<close>

lemma isTerminal_outcome:
  "isTerminal E r \<longleftrightarrow> (\<exists>c. effectiveSuccessfulCondition E r = Some c \<and> c_status c \<noteq> ConditionUnknown)"
  by (auto simp: isTerminal_def split: option.splits)

lemma effective_written:
  "findSuccessfulCondition E r = Some c \<Longrightarrow> effectiveSuccessfulCondition E r = Some c"
  by (simp add: effectiveSuccessfulCondition_def)

section \<open>Retrying on conflicts\<close>

text \<open>An invariant of the log and of the current object carries over all attempts, ...\<close>

lemma retryOnConflict_outcome:
  assumes "\<And>pre c. I pre c \<Longrightarrow> outcome (attempt c) (\<lambda>res es. case res of
      Inl (e, c') \<Rightarrow> I (pre @ es) c' \<and> F e (pre @ es) | Inr x \<Rightarrow> Q x (pre @ es))"
    and "I pre c"
  shows "outcome (retryOnConflict n attempt c) (\<lambda>res es. case res of
      Inl e \<Rightarrow> F e (pre @ es) | Inr x \<Rightarrow> Q x (pre @ es))"
  using assms(2)
proof (induction n arbitrary: pre c)
  case 0
  show ?case
    by (subst retryOnConflict.simps, rule outcome_call [OF assms(1) [OF 0]])
      (auto intro!: outcome_return split: sum.splits)
next
  case (Suc n)
  show ?case
  proof (subst retryOnConflict.simps, rule outcome_call [OF assms(1) [OF Suc.prems]], goal_cases)
    case (1 res es)
    then show ?case
      by (auto intro!: outcome_return outcome_mono [OF Suc.IH [of "pre @ es"]]
          split: sum.splits prod.splits)
  qed
qed

text \<open>... and there is one attempt more than retries at most.\<close>

lemma retryOnConflict_bound:
  assumes "\<And>c. outcome (attempt c) (\<lambda>res es. length (filter P es) \<le> k)"
  shows "outcome (retryOnConflict n attempt c) (\<lambda>res es. length (filter P es) \<le> Suc n * k)"
proof (induction n arbitrary: c)
  case 0
  show ?case
    by (subst retryOnConflict.simps, rule outcome_call [OF assms])
      (auto intro!: outcome_return split: sum.splits)
next
  case (Suc n)
  show ?case
  proof (subst retryOnConflict.simps, rule outcome_call [OF assms], goal_cases)
    case (1 res es)
    then show ?case
      by (auto intro!: outcome_return outcome_mono [OF Suc.IH] split: sum.splits)
  qed
qed

section \<open>What the updater writes\<close>

text \<open>Applying conditions changes nothing but the status, and makes no call.\<close>

definition statusOnly :: "restore \<Rightarrow> restore \<Rightarrow> bool" where
  "statusOnly c x \<longleftrightarrow> (\<exists>st. x = c\<lparr>re_status := st\<rparr>)"

lemma statusOnly_refl [simp]: "statusOnly c c"
  unfolding statusOnly_def by (rule exI [of _ "re_status c"]) simp

lemma statusOnly_update: "statusOnly c x \<Longrightarrow> statusOnly c (x\<lparr>re_status := st\<rparr>)"
  by (auto simp: statusOnly_def)

lemma applyCondition_outcome:
  "statusOnly r x \<Longrightarrow> outcome (applyCondition E c (x, ts)) (\<lambda>(y, _) es. es = [] \<and> statusOnly r y)"
  unfolding applyCondition_def prod.case Let_def
  by (auto intro!: outcome_intro statusOnly_update)

lemma fold_applyCondition_outcome:
  assumes "statusOnly r x"
  shows "outcome (fold_io (applyCondition E) cs (x, ts)) (\<lambda>(y, _) es. es = [] \<and> statusOnly r y)"
  using assms
proof (induction cs arbitrary: x ts)
  case Nil
  then show ?case by (auto intro!: outcome_intro)
next
  case (Cons c cs)
  show ?case
    unfolding fold_io.simps
    by (rule outcome_call [OF applyCondition_outcome [OF Cons.prems]])
      (auto intro!: outcome_mono [OF Cons.IH])
qed

lemma applyConditions_statusOnly:
  "outcome (applyConditions E c cs) (\<lambda>(x, _) es. es = [] \<and> statusOnly c x)"
  unfolding applyConditions_def
  by (rule outcome_call [OF fold_applyCondition_outcome [OF statusOnly_refl]])
    (auto intro!: outcome_intro statusOnly_update)

text \<open>
  Where an object the updater works on comes from: it was given, or read again after a conflict.
  \<open>W\<close> is what applying the conditions does to an object.
\<close>

definition givenOrRead :: "restore \<Rightarrow> event list \<Rightarrow> restore \<Rightarrow> bool" where
  "givenOrRead r es c \<longleftrightarrow> c = r \<or> OnRestore (Get (keyOf r) (Inr c)) \<in> set es"

lemma givenOrRead_refl [simp]: "givenOrRead r es r"
  by (simp add: givenOrRead_def)

definition statusWrite :: "(restore \<Rightarrow> restore \<Rightarrow> bool) \<Rightarrow> restore \<Rightarrow> event list \<Rightarrow> event \<Rightarrow> bool" where
  "statusWrite W r es e \<longleftrightarrow> (\<exists>m n. e = MetricAdd m n) \<or> (\<exists>got. e = OnRestore (Get (keyOf r) got)) \<or>
     (\<exists>c x u. e = OnRestore (UpdateStatus x u) \<and> givenOrRead r es c \<and> W c x \<and> re_status x \<noteq> re_status c)"

definition statusWrites :: "(restore \<Rightarrow> restore \<Rightarrow> bool) \<Rightarrow> restore \<Rightarrow> event list \<Rightarrow> bool" where
  "statusWrites W r es \<longleftrightarrow> (\<forall>i < length es. statusWrite W r (take i es) (es ! i))"

definition persisted :: "(restore \<Rightarrow> restore \<Rightarrow> bool) \<Rightarrow> restore \<Rightarrow> restore \<Rightarrow> event list \<Rightarrow> bool" where
  "persisted W r r' es \<longleftrightarrow> (\<exists>x. OnRestore (UpdateStatus x (Inr r')) \<in> set es) \<or>
     givenOrRead r es r' \<and> (\<exists>x. W r' x \<and> re_status x = re_status r')"

lemma givenOrRead_mono: "givenOrRead r xs c \<Longrightarrow> set xs \<subseteq> set ys \<Longrightarrow> givenOrRead r ys c"
  by (auto simp: givenOrRead_def)

lemma statusWrite_mono: "statusWrite W r xs e \<Longrightarrow> set xs \<subseteq> set ys \<Longrightarrow> statusWrite W r ys e"
  unfolding statusWrite_def by (blast intro: givenOrRead_mono)

lemma statusWrites_snoc:
  "statusWrites W r (xs @ [e]) \<longleftrightarrow> statusWrites W r xs \<and> statusWrite W r xs e"
  by (auto simp: statusWrites_def nth_append less_Suc_eq)

lemma statusWrites_append:
  "statusWrites W r xs \<Longrightarrow> statusWrites W r ys \<Longrightarrow> statusWrites W r (xs @ ys)"
proof (induction ys rule: rev_induct)
  case Nil
  then show ?case by simp
next
  case (snoc y ys)
  have "statusWrite W r (xs @ ys) y"
    using snoc.prems(2) by (auto simp: statusWrites_snoc intro: statusWrite_mono)
  with snoc show ?case
    by (simp add: statusWrites_snoc flip: append_assoc)
qed

lemma statusWrites_simps [simp]:
  "statusWrites W r []" "statusWrites W r [OnRestore (Get (keyOf r) got)]"
  "statusWrites W r [MetricAdd m n]"
  by (auto simp: statusWrites_def statusWrite_def)

lemma statusWrites_write:
  assumes "givenOrRead r pre c" "statusWrites W r pre" "W c x" "re_status x \<noteq> re_status c"
  shows "statusWrites W r (pre @ [OnRestore (UpdateStatus x u)])"
  unfolding statusWrites_snoc using assms by (auto simp: statusWrite_def)

lemma persisted_append: "persisted W r r' xs \<Longrightarrow> persisted W r r' (xs @ ys)"
  by (auto simp: persisted_def givenOrRead_def)

lemma statusWrite_effect:
  "statusWrite W r es e \<Longrightarrow> effectOf e = Observes \<or> effectOf e = UpdatesRestoreStatus"
  by (elim statusWrite_def [THEN iffD1, elim_format] disjE exE conjE) simp_all

lemma statusWrites_member: "statusWrites W r es \<Longrightarrow> e \<in> set es \<Longrightarrow> statusWrite W r es e"
proof -
  assume w: "statusWrites W r es" and "e \<in> set es"
  then obtain i where i: "i < length es" "e = es ! i" by (auto simp: in_set_conv_nth)
  with w have "statusWrite W r (take i es) e" by (simp add: statusWrites_def)
  then show ?thesis by (rule statusWrite_mono) (rule set_take_subset)
qed

lemma statusWrites_within:
  assumes "statusWrites W r es" "UpdatesRestoreStatus \<in> A"
  shows "within A es"
proof -
  have "effectOf e = Observes \<or> effectOf e = UpdatesRestoreStatus" if "e \<in> set es" for e
    using statusWrite_effect [OF statusWrites_member [OF assms(1) that]] .
  with assms(2) show ?thesis unfolding within_def by metis
qed

text \<open>
  A status with some property \<open>P\<close> the conditions do not establish is written only after an object with
  it was given or read.
\<close>

definition answered :: "restore \<Rightarrow> event \<Rightarrow> bool" where
  "answered y e \<longleftrightarrow> (\<exists>k. e = OnRestore (Get k (Inr y))) \<or> (\<exists>x. e = OnRestore (UpdateStatus x (Inr y)))"

definition writesStatus :: "(restore_status \<Rightarrow> bool) \<Rightarrow> event \<Rightarrow> bool" where
  "writesStatus P e \<longleftrightarrow> (\<exists>x u. e = OnRestore (UpdateStatus x u) \<and> P (re_status x))"

definition answeredStatus :: "(restore_status \<Rightarrow> bool) \<Rightarrow> event \<Rightarrow> bool" where
  "answeredStatus P e \<longleftrightarrow> (\<exists>y. answered y e \<and> P (re_status y))"

lemma statusWrites_preceded:
  assumes "statusWrites W r es" "\<And>c x. W c x \<Longrightarrow> P (re_status x) \<Longrightarrow> P (re_status c)" "\<not> P (re_status r)"
  shows "preceded (answeredStatus P) (writesStatus P) es"
  unfolding preceded_iff
proof (intro allI impI)
  fix i assume i: "i < length es" "writesStatus P (es ! i)"
  then obtain x u where x: "es ! i = OnRestore (UpdateStatus x u)" "P (re_status x)"
    by (auto simp: writesStatus_def)
  from assms(1) i(1) have "statusWrite W r (take i es) (es ! i)" by (simp add: statusWrites_def)
  with x obtain c where c: "givenOrRead r (take i es) c" "W c x" by (auto simp: statusWrite_def)
  with assms(2,3) x(2) have "P (re_status c)" "c \<noteq> r" by auto
  with c(1) have "OnRestore (Get (keyOf r) (Inr c)) \<in> set (take i es)" by (simp add: givenOrRead_def)
  then obtain j where j: "j < length (take i es)" "take i es ! j = OnRestore (Get (keyOf r) (Inr c))"
    by (metis in_set_conv_nth)
  with \<open>P (re_status c)\<close> show "\<exists>j<i. answeredStatus P (es ! j)"
    by (intro exI [of _ j]) (auto simp: answeredStatus_def answered_def)
qed

definition persistResult :: "(restore \<Rightarrow> restore \<Rightarrow> bool) \<Rightarrow> restore \<Rightarrow> err + condition_update \<Rightarrow> event list \<Rightarrow> bool" where
  "persistResult W c res es \<longleftrightarrow> (\<exists>x. W c x \<and>
    (es = [] \<and> re_status x = re_status c \<and> (\<exists>v. res = Inr v \<and> cu_restore v = c) \<or>
     re_status x \<noteq> re_status c \<and>
       ((\<exists>e. es = [OnRestore (UpdateStatus x (Inl e))] \<and> res = Inl (Api e)) \<or>
        (\<exists>y v. es = [OnRestore (UpdateStatus x (Inr y))] \<and> res = Inr v \<and> cu_restore v = y))))"

lemma persistResult_intros:
  "W c x \<Longrightarrow> re_status c = re_status x \<Longrightarrow> cu_restore v = c \<Longrightarrow> persistResult W c (Inr v) []"
  "W c x \<Longrightarrow> re_status c \<noteq> re_status x \<Longrightarrow>
    persistResult W c (Inl (Api e)) [OnRestore (UpdateStatus x (Inl e))]"
  "W c x \<Longrightarrow> re_status c \<noteq> re_status x \<Longrightarrow> cu_restore v = y \<Longrightarrow>
    persistResult W c (Inr v) [OnRestore (UpdateStatus x (Inr y))]"
  unfolding persistResult_def by metis+

lemma tryPersistConditions_outcome:
  assumes "\<And>c. outcome (applyConditions E c cs) (\<lambda>(x, _) es. es = [] \<and> W c x)"
  shows "outcome (tryPersistConditions E c cs) (persistResult W c)"
  unfolding tryPersistConditions_def
proof (rule outcome_call [OF assms], goal_cases)
  case (1 a es)
  obtain x ts where a: "a = (x, ts)" by (cases a)
  with 1 have x: "es = []" "W c x" by auto
  show ?case
  proof (cases "re_status c = re_status x")
    case True
    with x a show ?thesis
      by (auto intro!: outcome_return persistResult_intros(1))
  next
    case False
    with x a show ?thesis
      by (auto intro!: outcome_intro persistResult_intros(2,3) split: sum.splits)
  qed
qed

lemma persistAttempt_outcome:
  assumes "\<And>c. outcome (applyConditions E c cs) (\<lambda>(x, _) es. es = [] \<and> W c x)"
    and "givenOrRead r pre c" "statusWrites W r pre"
  shows "outcome (persistAttempt E r cs c) (\<lambda>res es. case res of
      Inl (e, c') \<Rightarrow> (givenOrRead r (pre @ es) c' \<and> statusWrites W r (pre @ es)) \<and> statusWrites W r (pre @ es)
    | Inr u \<Rightarrow> statusWrites W r (pre @ es) \<and> persisted W r (cu_restore u) (pre @ es))"
proof -
  have wr: "statusWrites W r (pre @ [OnRestore (UpdateStatus x u)])"
    and rd: "statusWrites W r (pre @ [OnRestore (UpdateStatus x u), OnRestore (Get (keyOf r) got)])"
    if "W c x" "re_status x \<noteq> re_status c" for x u got
    using statusWrites_write [OF assms(2,3) that, of u]
      statusWrites_append [of W r "pre @ [_]" "[OnRestore (Get (keyOf r) got)]"] by auto
  show ?thesis
    unfolding persistAttempt_def
  proof (rule outcome_call [OF tryPersistConditions_outcome [OF assms(1)]], goal_cases)
    case (1 res es)
    then consider
        (same) x v where "W c x" "es = []" "re_status x = re_status c" "res = Inr v" "cu_restore v = c"
      | (err) x e where "W c x" "re_status x \<noteq> re_status c" "res = Inl (Api e)"
          "es = [OnRestore (UpdateStatus x (Inl e))]"
      | (ok) x v where "W c x" "re_status x \<noteq> re_status c" "res = Inr v"
          "es = [OnRestore (UpdateStatus x (Inr (cu_restore v)))]"
      unfolding persistResult_def by auto
    then show ?case
    proof cases
      case same
      with assms(2,3) show ?thesis by (auto intro!: outcome_return simp: persisted_def)
    next
      case err
      from err assms(2) show ?thesis
        by (auto intro!: outcome_intro wr [OF err(1,2)] rd [OF err(1,2)] split: sum.splits simp: givenOrRead_def)
    next
      case ok
      from ok wr [OF ok(1,2)] show ?thesis
        by (auto intro!: outcome_intro simp: persisted_def)
    qed
  qed
qed

lemma recordConditionUpdateMetrics_outcome:
  "outcome (recordConditionUpdateMetrics E u) (\<lambda>_ es. metricsOnly es)"
proof -
  have "outcome (for_each (\<lambda>t. UpdateRestoreConditionTransitionMetric n nm b (rt_type t) (rt_from t) (rt_to t)) ts)
      (\<lambda>_ es. metricsOnly es)" for n nm b ts
    unfolding metricsOnly_def
    by (rule outcome_for_each) (auto simp: UpdateRestoreConditionTransitionMetric_def intro!: outcome_intro)
  then show ?thesis
    unfolding recordConditionUpdateMetrics_def Let_def
    by (rule outcome_call)
      (auto intro!: outcome_intro simp: UpdateRestoreStatusMetrics_def split: option.splits)
qed

lemma statusWrites_metrics: "metricsOnly es \<Longrightarrow> statusWrites W r es"
  unfolding statusWrites_def statusWrite_def by (metis metricsOnly_def nth_mem)

lemma persistConditions_outcome:
  assumes "\<And>c. outcome (applyConditions E c cs) (\<lambda>(x, _) es. es = [] \<and> W c x)"
  shows "outcome (persistConditions E r cs) (\<lambda>res es. statusWrites W r es \<and>
    (\<forall>u. res = Inr u \<longrightarrow> persisted W r (cu_restore u) es))"
proof -
  have att: "outcome (persistAttempt E r cs c) (\<lambda>res es. case res of
      Inl (e, c') \<Rightarrow> (givenOrRead r (pre @ es) c' \<and> statusWrites W r (pre @ es)) \<and> statusWrites W r (pre @ es)
    | Inr u \<Rightarrow> statusWrites W r (pre @ es) \<and> persisted W r (cu_restore u) (pre @ es))"
    if "givenOrRead r pre c \<and> statusWrites W r pre" for pre c
    using that by (intro persistAttempt_outcome [OF assms]) auto
  show ?thesis
    unfolding persistConditions_def
    by (rule outcome_mono [OF retryOnConflict_outcome [where pre = "[]", OF att]])
      (auto split: sum.splits)
qed

text \<open>
  What \<open>setConditions\<close> does: metrics, reads of the restore, and status writes of applied conditions
  that change the status; on success the caller gets what the server answered to the write, or an
  object whose status the conditions do not change.
\<close>

lemma setConditions_outcome:
  assumes "\<And>c. outcome (applyConditions E c cs) (\<lambda>(x, _) es. es = [] \<and> W c x)"
  shows "outcome (setConditions E r cs) (\<lambda>res es. statusWrites W r es \<and>
    (\<forall>r'. res = Inr r' \<longrightarrow> persisted W r r' es))"
  unfolding setConditions_def
  by (rule outcome_call [OF persistConditions_outcome [OF assms]])
    (auto intro!: outcome_intro outcome_call [OF recordConditionUpdateMetrics_outcome]
      statusWrites_append [OF _ statusWrites_metrics] persisted_append split: sum.splits)

text \<open>The bound on its status writes.\<close>

definition statusUpdates :: "event list \<Rightarrow> nat" where
  "statusUpdates es = length (filter (\<lambda>e. \<exists>x u. e = OnRestore (UpdateStatus x u)) es)"

lemma setConditions_bound:
  "outcome (setConditions E r cs) (\<lambda>_ es. statusUpdates es \<le> Suc (conflictRetries E))"
proof -
  have att: "outcome (persistAttempt E r cs c)
      (\<lambda>_ es. length (filter (\<lambda>e. \<exists>x u. e = OnRestore (UpdateStatus x u)) es) \<le> 1)" for c
    unfolding persistAttempt_def
    by (rule outcome_call [OF tryPersistConditions_outcome [OF applyConditions_statusOnly]])
      (auto intro!: outcome_intro split: sum.splits simp: persistResult_def)
  have none: "statusUpdates ms = 0" if "metricsOnly ms" for ms
    using that by (auto simp: statusUpdates_def metricsOnly_def filter_empty_conv)
  show ?thesis
    unfolding setConditions_def persistConditions_def
    by (rule outcome_call [OF retryOnConflict_bound [OF att]])
      (auto intro!: outcome_intro outcome_call [OF recordConditionUpdateMetrics_outcome] dest!: none
        simp: statusUpdates_def split: sum.splits)
qed

section \<open>What applying conditions means\<close>

text \<open>
  Under the documented behaviour of the condition helpers: every given condition is reported with its
  status, reason and message, and no condition of another type changes.
\<close>

definition reports :: "restore \<Rightarrow> condition \<Rightarrow> bool" where
  "reports x c \<longleftrightarrow> sameReport (findCond (restoreConditions x) (c_type c)) (Some c)"

definition applied :: "condition list \<Rightarrow> restore \<Rightarrow> restore \<Rightarrow> bool" where
  "applied cs c x \<longleftrightarrow> statusOnly c x \<and> (\<forall>d \<in> set cs. reports x d) \<and>
     (\<forall>t. t \<notin> c_type ` set cs \<longrightarrow> findCond (restoreConditions x) t = findCond (restoreConditions c) t)"


lemma reports_iff: "reports x c \<longleftrightarrow> (\<exists>d. findCond (restoreConditions x) (c_type c) = Some d \<and>
    c_status d = c_status c \<and> c_reason d = c_reason c \<and> c_message d = c_message c)"
  by (auto simp: reports_def sameReport_def split: option.splits)

lemma applyCondition_law:
  assumes "meta_laws E"
  shows "outcome (applyCondition E d (x, ts)) (\<lambda>(y, _) es. es = [] \<and> reports y d \<and>
    (statusOnly r x \<longrightarrow> statusOnly r y) \<and>
    (\<forall>t. t \<noteq> c_type d \<longrightarrow> findCond (restoreConditions y) t = findCond (restoreConditions x) t))"
  unfolding applyCondition_def prod.case Let_def
  by (rule outcome_bind, rule outcome_setStatusCondition_law [OF assms])
    (auto intro!: outcome_return statusOnly_update simp: reports_iff findCond_upsert)

lemma fold_applyCondition_law:
  assumes "meta_laws E" "distinct (map c_type cs)" "statusOnly r x"
  shows "outcome (fold_io (applyCondition E) cs (x, ts)) (\<lambda>(y, _) es. es = [] \<and> statusOnly r y \<and>
    (\<forall>d \<in> set cs. reports y d) \<and>
    (\<forall>t. t \<notin> c_type ` set cs \<longrightarrow> findCond (restoreConditions y) t = findCond (restoreConditions x) t))"
  using assms(2,3)
proof (induction cs arbitrary: x ts)
  case Nil
  then show ?case by (auto intro!: outcome_return)
next
  case (Cons d cs)
  have d: "c_type d \<notin> c_type ` set cs" "distinct (map c_type cs)" using Cons.prems(1) by auto
  show ?case
    unfolding fold_io.simps
  proof (rule outcome_call [OF applyCondition_law [OF assms(1), where r = r]], goal_cases)
    case (1 a es)
    obtain y ts' where a: "a = (y, ts')" by (cases a)
    from 1 a Cons.prems(2) have y: "es = []" "reports y d" "statusOnly r y"
      "\<And>t. t \<noteq> c_type d \<Longrightarrow> findCond (restoreConditions y) t = findCond (restoreConditions x) t" by auto
    show ?case
      unfolding a y(1)
      by (rule outcome_mono [OF Cons.IH [OF d(2) y(3)]])
        (use y(2,4) d(1) in \<open>auto simp: reports_def\<close>)
  qed
qed

lemma applyConditions_law:
  assumes "meta_laws E" "distinct (map c_type cs)"
  shows "outcome (applyConditions E c cs) (\<lambda>(x, _) es. es = [] \<and> applied cs c x)"
  unfolding applyConditions_def
  by (rule outcome_call [OF fold_applyCondition_law [OF assms statusOnly_refl]])
    (auto intro!: outcome_return statusOnly_update simp: applied_def reports_def)

text \<open>A write that leaves the status as it is already reported everything.\<close>

lemma persisted_reports:
  assumes "persisted (applied cs) r r' es" "d \<in> set cs"
  shows "reports r' d \<or> (\<exists>x. OnRestore (UpdateStatus x (Inr r')) \<in> set es)"
  using assms by (auto simp: persisted_def applied_def reports_def)

end
