(* ===== verification/Scale.thy ===== *)
theory Scale
  imports Effects Cluster
begin

text \<open>
  \<open>internal/controller/restore/scale.go\<close>: scaling the labelled workloads of the namespace to zero before
  a restore and back to their old sizes afterwards. The old size is kept in a label of the workload,
  which survives a crash of the operator; \<open>FinalizeScaleUp\<close> removes it. The reconciler sees the manager
  through its interface \<open>scaleManager\<close>, a record of the four operations.
\<close>

section \<open>One workload\<close>

definition labelScaledownScope :: string where
  "labelScaledownScope = ''k8s.cloudogu.com/restore-scaledown-scope''"

definition labelScaledownReplicas :: string where
  "labelScaledownReplicas = ''k8s.cloudogu.com/restore-scaledown-replicas''"

lemma scale_labels [simp]:
  "labelScaledownScope \<noteq> labelScaledownReplicas" "labelScaledownReplicas \<noteq> labelScaledownScope"
  by (simp_all add: labelScaledownScope_def labelScaledownReplicas_def)

definition zeroReplicas :: "int option" where
  "zeroReplicas = Some 0"

text \<open>\<open>None\<close> when there is no stored count.\<close>

definition storedTargetReplicasIfPresent ::
    "(string \<rightharpoonup> string) \<Rightarrow> string \<Rightarrow> string \<Rightarrow> err + int option" where
  "storedTargetReplicasIfPresent labels resourceKind resourceName =
     (case labels labelScaledownReplicas of
        None \<Rightarrow> Inr None
      | Some replicaValue \<Rightarrow>
          (case parseInt 32 replicaValue of
             Inl e \<Rightarrow> Inl (Wrapf (''failed to parse stored replica count for '' @ resourceKind @ '' '' @
               resourceName) (Errorf (numErrorOf ''ParseInt'' replicaValue e)))
           | Inr replicas \<Rightarrow> Inr (Some replicas)))"

definition storedTargetReplicas :: "(string \<rightharpoonup> string) \<Rightarrow> string \<Rightarrow> string \<Rightarrow> err + int" where
  "storedTargetReplicas labels resourceKind resourceName =
     (case storedTargetReplicasIfPresent labels resourceKind resourceName of
        Inl e \<Rightarrow> Inl e
      | Inr None \<Rightarrow> Inl (Errorf (resourceKind @ '' '' @ resourceName @ '' has no stored replica count''))
      | Inr (Some replicas) \<Rightarrow> Inr replicas)"

definition targetReplicasForReadiness ::
    "(string \<rightharpoonup> string) \<Rightarrow> int option \<Rightarrow> string \<Rightarrow> string \<Rightarrow> err + int" where
  "targetReplicasForReadiness labels desiredReplicas resourceKind resourceName =
     (if labels labelScaledownReplicas \<noteq> None then storedTargetReplicas labels resourceKind resourceName
      else case desiredReplicas of
        None \<Rightarrow> Inl (Errorf (resourceKind @ '' '' @ resourceName @
          '' has neither a stored nor a desired replica count''))
      | Some n \<Rightarrow> Inr n)"

definition scaleDownWorkload :: "'s env \<Rightarrow> workload_kind \<Rightarrow> workload \<Rightarrow> string \<Rightarrow> ('s, err option) prog" where
  "scaleDownWorkload E k w resourceKind =
     (if o_labels w labelScaledownReplicas \<noteq> None then return None
      else do {
        let currentReplicas = (case w_replicas w of None \<Rightarrow> 0 | Some n \<Rightarrow> n);
        res \<leftarrow> apiUpdate (workloads E k) (OnWorkload k) (w\<lparr>
          o_labels := (o_labels w)(labelScaledownReplicas \<mapsto> showInt currentReplicas),
          w_replicas := zeroReplicas\<rparr>);
        return (case res of
          Inl e \<Rightarrow> Some (Wrapf (''failed to scale down '' @ resourceKind @ '' '' @ o_name w) (Api e))
        | Inr _ \<Rightarrow> None)
      })"

definition scaleUpWorkload :: "'s env \<Rightarrow> workload_kind \<Rightarrow> workload \<Rightarrow> string \<Rightarrow> ('s, err option) prog" where
  "scaleUpWorkload E k w resourceKind =
     (case storedTargetReplicasIfPresent (o_labels w) resourceKind (o_name w) of
        Inl e \<Rightarrow> return (Some e)
      | Inr None \<Rightarrow> return None
      | Inr (Some targetReplicas) \<Rightarrow>
          if w_replicas w = Some targetReplicas then return None
          else do {
            res \<leftarrow> apiUpdate (workloads E k) (OnWorkload k) (w\<lparr>w_replicas := Some targetReplicas\<rparr>);
            return (case res of
              Inl e \<Rightarrow> Some (Wrapf (''failed to scale up '' @ resourceKind @ '' '' @ o_name w) (Api e))
            | Inr _ \<Rightarrow> None)
          })"

definition removeStoredReplicasLabel ::
    "'s env \<Rightarrow> workload_kind \<Rightarrow> workload \<Rightarrow> string \<Rightarrow> ('s, err option) prog" where
  "removeStoredReplicasLabel E k w resourceKind = do {
     res \<leftarrow> apiUpdate (workloads E k) (OnWorkload k)
       (w\<lparr>o_labels := (o_labels w)(labelScaledownReplicas := None)\<rparr>);
     return (case res of
       Inl e \<Rightarrow> Some (Wrapf (''failed to finalize scale-up for '' @ resourceKind @ '' '' @ o_name w) (Api e))
     | Inr _ \<Rightarrow> None)
   }"

section \<open>All workloads of a kind\<close>

fun applyWorkloads :: "(workload \<Rightarrow> ('s, err option) prog) \<Rightarrow> workload list \<Rightarrow> ('s, err option) prog" where
  "applyWorkloads apply [] = return None"
| "applyWorkloads apply (w # ws) = do {
     e \<leftarrow> apply w;
     if e \<noteq> None then return e else applyWorkloads apply ws
   }"

definition forEachWorkload :: "'s env \<Rightarrow> workload_kind \<Rightarrow> string \<Rightarrow> string list \<Rightarrow> string
    \<Rightarrow> (workload \<Rightarrow> ('s, err option) prog) \<Rightarrow> ('s, err option) prog" where
  "forEachWorkload E k n hasLabels listError apply = do {
     res \<leftarrow> apiList (workloads E k) (OnWorkload k) n hasLabels;
     case res of
       Inl e \<Rightarrow> return (Some (Wrapf listError (Api e)))
     | Inr ws \<Rightarrow> applyWorkloads apply ws
   }"

text \<open>The default manager: the client and the namespace.\<close>

record 's default_manager =
  dm_client :: "'s env"
  dm_namespace :: string

definition scaleDownDeployments :: "'s default_manager \<Rightarrow> string list \<Rightarrow> ('s, err option) prog" where
  "scaleDownDeployments m listOpts = forEachWorkload (dm_client m) Deployment (dm_namespace m) listOpts
     ''failed to list deployments for scaledown''
     (\<lambda>w. scaleDownWorkload (dm_client m) Deployment w ''deployment'')"

definition scaleDownStatefulSets :: "'s default_manager \<Rightarrow> string list \<Rightarrow> ('s, err option) prog" where
  "scaleDownStatefulSets m listOpts = forEachWorkload (dm_client m) StatefulSet (dm_namespace m) listOpts
     ''failed to list statefulsets for scaledown''
     (\<lambda>w. scaleDownWorkload (dm_client m) StatefulSet w ''statefulset'')"

definition scaleDownReplicaSets :: "'s default_manager \<Rightarrow> string list \<Rightarrow> ('s, err option) prog" where
  "scaleDownReplicaSets m listOpts = forEachWorkload (dm_client m) ReplicaSet (dm_namespace m) listOpts
     ''failed to list replicasets for scaledown''
     (\<lambda>w. if length (o_owners w) > 0 then return None
          else scaleDownWorkload (dm_client m) ReplicaSet w ''replicaset'')"

definition scaleDownReplicationControllers :: "'s default_manager \<Rightarrow> string list \<Rightarrow> ('s, err option) prog" where
  "scaleDownReplicationControllers m listOpts = forEachWorkload (dm_client m) ReplicationController
     (dm_namespace m) listOpts ''failed to list replicationcontrollers for scaledown''
     (\<lambda>w. scaleDownWorkload (dm_client m) ReplicationController w ''replicationcontroller'')"

definition scaleUpDeployments :: "'s default_manager \<Rightarrow> string list \<Rightarrow> ('s, err option) prog" where
  "scaleUpDeployments m listOpts = forEachWorkload (dm_client m) Deployment (dm_namespace m) listOpts
     ''failed to list deployments for scaleup''
     (\<lambda>w. scaleUpWorkload (dm_client m) Deployment w ''deployment'')"

definition scaleUpStatefulSets :: "'s default_manager \<Rightarrow> string list \<Rightarrow> ('s, err option) prog" where
  "scaleUpStatefulSets m listOpts = forEachWorkload (dm_client m) StatefulSet (dm_namespace m) listOpts
     ''failed to list statefulsets for scaleup''
     (\<lambda>w. scaleUpWorkload (dm_client m) StatefulSet w ''statefulset'')"

definition scaleUpReplicaSets :: "'s default_manager \<Rightarrow> string list \<Rightarrow> ('s, err option) prog" where
  "scaleUpReplicaSets m listOpts = forEachWorkload (dm_client m) ReplicaSet (dm_namespace m) listOpts
     ''failed to list replicasets for scaleup''
     (\<lambda>w. scaleUpWorkload (dm_client m) ReplicaSet w ''replicaset'')"

definition scaleUpReplicationControllers :: "'s default_manager \<Rightarrow> string list \<Rightarrow> ('s, err option) prog" where
  "scaleUpReplicationControllers m listOpts = forEachWorkload (dm_client m) ReplicationController
     (dm_namespace m) listOpts ''failed to list replicationcontrollers for scaleup''
     (\<lambda>w. scaleUpWorkload (dm_client m) ReplicationController w ''replicationcontroller'')"

definition finalizeWorkloads :: "'s default_manager \<Rightarrow> workload_kind \<Rightarrow> string list \<Rightarrow> string \<Rightarrow> string
    \<Rightarrow> ('s, err option) prog" where
  "finalizeWorkloads m k listOpts listError resourceKind =
     forEachWorkload (dm_client m) k (dm_namespace m) listOpts listError
       (\<lambda>w. removeStoredReplicasLabel (dm_client m) k w resourceKind)"

section \<open>The operations of the manager\<close>

text \<open>One call of a kind after the other, up to the first error, which is wrapped.\<close>

fun inOrder :: "(string \<times> ('s, err option) prog) list \<Rightarrow> ('s, err option) prog" where
  "inOrder [] = return None"
| "inOrder ((what, f) # fs) = do {
     e \<leftarrow> f;
     case e of
       Some x \<Rightarrow> return (Some (if what = [] then x else Wrapf what x))
     | None \<Rightarrow> inOrder fs
   }"

definition ScaleDown :: "'s default_manager \<Rightarrow> ('s, err option) prog" where
  "ScaleDown m = (let listOpts = [labelScaledownScope] in inOrder [
     (''failed to scale down Deployments'', scaleDownDeployments m listOpts),
     (''failed to scale down StatefulSets'', scaleDownStatefulSets m listOpts),
     (''failed to scale down ReplicaSets'', scaleDownReplicaSets m listOpts),
     (''failed to scale down ReplicationControllers'', scaleDownReplicationControllers m listOpts)])"

definition ScaleUp :: "'s default_manager \<Rightarrow> ('s, err option) prog" where
  "ScaleUp m = (let listOpts = [labelScaledownScope] in inOrder [
     (''failed to scale up Deployments'', scaleUpDeployments m listOpts),
     (''failed to scale up StatefulSets'', scaleUpStatefulSets m listOpts),
     (''failed to scale up ReplicaSets'', scaleUpReplicaSets m listOpts),
     (''failed to scale up ReplicationControllers'', scaleUpReplicationControllers m listOpts)])"

definition FinalizeScaleUp :: "'s default_manager \<Rightarrow> ('s, err option) prog" where
  "FinalizeScaleUp m = (let listOpts = [labelScaledownScope, labelScaledownReplicas] in inOrder [
     ([], finalizeWorkloads m Deployment listOpts
        ''failed to list deployments for scale-up finalization'' ''deployment''),
     ([], finalizeWorkloads m StatefulSet listOpts
        ''failed to list statefulsets for scale-up finalization'' ''statefulset''),
     ([], finalizeWorkloads m ReplicaSet listOpts
        ''failed to list replicasets for scale-up finalization'' ''replicaset''),
     ([], finalizeWorkloads m ReplicationController listOpts
        ''failed to list replicationcontrollers for scale-up finalization'' ''replicationcontroller'')])"

section \<open>Readiness\<close>

record workload_readiness =
  wr_labels :: "string \<rightharpoonup> string"
  wr_desiredReplicas :: "int option"
  wr_resourceKind :: string
  wr_resourceName :: string
  wr_generation :: int
  wr_observedGeneration :: int
  wr_replicas :: int
  wr_readyReplicas :: int
  wr_availableReplicas :: int

definition readinessOf :: "string \<Rightarrow> workload \<Rightarrow> workload_readiness" where
  "readinessOf resourceKind w = \<lparr>
     wr_labels = o_labels w, wr_desiredReplicas = w_replicas w,
     wr_resourceKind = resourceKind, wr_resourceName = o_name w,
     wr_generation = o_generation w, wr_observedGeneration = w_observedGeneration w,
     wr_replicas = w_statusReplicas w, wr_readyReplicas = w_ready w,
     wr_availableReplicas = w_available w\<rparr>"

text \<open>The loop of \<open>workloadsReady\<close>; the accumulator is \<open>allReady\<close>.\<close>

fun readinessLoop :: "(workload \<Rightarrow> workload_readiness) \<Rightarrow> bool \<Rightarrow> workload list \<Rightarrow> err + bool" where
  "readinessLoop readiness allReady [] = Inr allReady"
| "readinessLoop readiness allReady (w # ws) =
     (let state = readiness w in
      case targetReplicasForReadiness (wr_labels state) (wr_desiredReplicas state)
          (wr_resourceKind state) (wr_resourceName state) of
        Inl e \<Rightarrow> Inl e
      | Inr target \<Rightarrow> readinessLoop readiness
          (allReady \<and> wr_desiredReplicas state = Some target \<and>
            wr_generation state \<le> wr_observedGeneration state \<and> wr_replicas state = target \<and>
            wr_readyReplicas state = target \<and> wr_availableReplicas state = target) ws)"

text \<open>The answer comes with the listed workloads, which \<open>deploymentsReady\<close> looks at again.\<close>

definition workloadsReady :: "'s default_manager \<Rightarrow> workload_kind \<Rightarrow> string list \<Rightarrow> string
    \<Rightarrow> (workload \<Rightarrow> workload_readiness) \<Rightarrow> ('s, err + bool \<times> workload list) prog" where
  "workloadsReady m k listOpts listError readiness = do {
     res \<leftarrow> apiList (workloads (dm_client m) k) (OnWorkload k) (dm_namespace m) listOpts;
     return (case res of
       Inl e \<Rightarrow> Inl (Wrapf listError (Api e))
     | Inr ws \<Rightarrow> (case readinessLoop readiness True ws of Inl e \<Rightarrow> Inl e | Inr ready \<Rightarrow> Inr (ready, ws)))
   }"

definition deploymentsReady :: "'s default_manager \<Rightarrow> string list \<Rightarrow> ('s, err + bool) prog" where
  "deploymentsReady m listOpts = do {
     res \<leftarrow> workloadsReady m Deployment listOpts
       ''failed to list deployments for readiness check'' (readinessOf ''deployment'');
     return (case res of
       Inl e \<Rightarrow> Inl e
     | Inr (ready, ws) \<Rightarrow>
         if \<not> ready then Inr False
         else Inr (list_all (\<lambda>w. w_updated w = w_statusReplicas w \<and> w_unavailable w = 0) ws))
   }"

definition otherReady :: "'s default_manager \<Rightarrow> workload_kind \<Rightarrow> string list \<Rightarrow> string \<Rightarrow> string
    \<Rightarrow> ('s, err + bool) prog" where
  "otherReady m k listOpts listError resourceKind = do {
     res \<leftarrow> workloadsReady m k listOpts listError (readinessOf resourceKind);
     return (case res of Inl e \<Rightarrow> Inl e | Inr (ready, _) \<Rightarrow> Inr ready)
   }"

definition statefulSetsReady :: "'s default_manager \<Rightarrow> string list \<Rightarrow> ('s, err + bool) prog" where
  "statefulSetsReady m listOpts = otherReady m StatefulSet listOpts
     ''failed to list statefulsets for readiness check'' ''statefulset''"

definition replicaSetsReady :: "'s default_manager \<Rightarrow> string list \<Rightarrow> ('s, err + bool) prog" where
  "replicaSetsReady m listOpts = otherReady m ReplicaSet listOpts
     ''failed to list replicasets for readiness check'' ''replicaset''"

definition replicationControllersReady :: "'s default_manager \<Rightarrow> string list \<Rightarrow> ('s, err + bool) prog" where
  "replicationControllersReady m listOpts = otherReady m ReplicationController listOpts
     ''failed to list replicationcontrollers for readiness check'' ''replicationcontroller''"

text \<open>All four are asked, up to the first error, before the conjunction is taken.\<close>

fun allInOrder :: "(string \<times> ('s, err + bool) prog) list \<Rightarrow> bool \<Rightarrow> ('s, err + bool) prog" where
  "allInOrder [] ready = return (Inr ready)"
| "allInOrder ((what, f) # fs) ready = do {
     res \<leftarrow> f;
     case res of
       Inl e \<Rightarrow> return (Inl (Wrapf what e))
     | Inr r \<Rightarrow> allInOrder fs (ready \<and> r)
   }"

definition AreWorkloadsReady :: "'s default_manager \<Rightarrow> ('s, err + bool) prog" where
  "AreWorkloadsReady m = (let listOpts = [labelScaledownScope] in allInOrder [
     (''failed to check Deployment readiness'', deploymentsReady m listOpts),
     (''failed to check StatefulSet readiness'', statefulSetsReady m listOpts),
     (''failed to check ReplicaSet readiness'', replicaSetsReady m listOpts),
     (''failed to check ReplicationController readiness'', replicationControllersReady m listOpts)] True)"

section \<open>The interface of the reconciler\<close>

record 's scaleManager =
  sm_down :: "('s, err option) prog"
  sm_up :: "('s, err option) prog"
  sm_ready :: "('s, err + bool) prog"
  sm_finalize :: "('s, err option) prog"

definition NewScaleManager :: "'s env \<Rightarrow> string \<Rightarrow> 's scaleManager" where
  "NewScaleManager E n = (let m = \<lparr>dm_client = E, dm_namespace = n\<rparr> in
     \<lparr>sm_down = ScaleDown m, sm_up = ScaleUp m, sm_ready = AreWorkloadsReady m,
      sm_finalize = FinalizeScaleUp m\<rparr>)"

text \<open>
  What the reconciler relies on: scaling changes nothing but workloads, asking whether they are ready
  changes nothing, and the answer yes rests on some evidence in the log.
\<close>

locale scale_manager =
  fixes sm :: "'s scaleManager" and evidence :: "event \<Rightarrow> bool"
  assumes down_within: "outcome (sm_down sm) (\<lambda>_ es. within {ScalesWorkload} es)"
    and up_within: "outcome (sm_up sm) (\<lambda>_ es. within {ScalesWorkload} es)"
    and finalize_within: "outcome (sm_finalize sm) (\<lambda>_ es. within {ScalesWorkload} es)"
    and ready_observes: "outcome (sm_ready sm) (\<lambda>_ es. list_all observing es)"
    and ready_evidence: "outcome (sm_ready sm) (\<lambda>res es. res = Inr True \<longrightarrow> list_ex evidence es)"
begin

lemma ready_within: "outcome (sm_ready sm) (\<lambda>_ es. within A es)"
  by (rule outcome_mono [OF ready_observes]) (auto intro: within_observing simp: list_all_iff)

end

lemma applyWorkloads_within:
  assumes "\<And>w. outcome (f w) (\<lambda>_ es. within A es)"
  shows "outcome (applyWorkloads f ws) (\<lambda>_ es. within A es)"
  by (induction ws) (auto intro!: outcome_return outcome_call [OF assms] elim!: outcome_mono)

lemma forEachWorkload_within:
  assumes "\<And>w. outcome (f w) (\<lambda>_ es. within A es)"
  shows "outcome (forEachWorkload E k n ls m f) (\<lambda>_ es. within A es)"
  unfolding forEachWorkload_def
  by (auto intro!: outcome_intro outcome_mono [OF applyWorkloads_within [OF assms]] split: sum.splits)

lemma inOrder_within:
  "list_all (\<lambda>(_, f). outcome f (\<lambda>_ es. within A es)) fs \<Longrightarrow> outcome (inOrder fs) (\<lambda>_ es. within A es)"
  by (induction fs rule: inOrder.induct)
    (auto intro!: outcome_return elim!: outcome_call outcome_mono split: option.splits)

declare inOrder.simps [simp del]

lemma workload_within:
  "outcome (scaleDownWorkload E k w n) (\<lambda>_ es. within {ScalesWorkload} es)"
  "outcome (scaleUpWorkload E k w n) (\<lambda>_ es. within {ScalesWorkload} es)"
  "outcome (removeStoredReplicasLabel E k w n) (\<lambda>_ es. within {ScalesWorkload} es)"
  unfolding scaleDownWorkload_def scaleUpWorkload_def removeStoredReplicasLabel_def Let_def
  by (auto intro!: outcome_intro split: sum.splits option.splits)

lemma workloadsReady_observes: "outcome (workloadsReady m k ls e f) (\<lambda>_ es. list_all observing es)"
  unfolding workloadsReady_def by (auto intro!: outcome_intro)

lemma allInOrder_observes:
  "list_all (\<lambda>(_, f). outcome f (\<lambda>_ es. list_all observing es)) fs \<Longrightarrow>
     outcome (allInOrder fs r) (\<lambda>_ es. list_all observing es)"
  by (induction fs r rule: allInOrder.induct)
    (auto intro!: outcome_return elim!: outcome_call outcome_mono split: sum.splits)

declare allInOrder.simps [simp del]

lemmas scale_defs = scaleDownDeployments_def scaleDownStatefulSets_def scaleDownReplicaSets_def
  scaleDownReplicationControllers_def scaleUpDeployments_def scaleUpStatefulSets_def
  scaleUpReplicaSets_def scaleUpReplicationControllers_def finalizeWorkloads_def

lemmas ready_defs = deploymentsReady_def statefulSetsReady_def replicaSetsReady_def
  replicationControllersReady_def otherReady_def

end
