(* ===== verification/RestoreBase.thy ===== *)
theory RestoreBase
  imports RestoreStatus Scale
begin

text \<open>
  What the stages of the restore reconciler share (\<open>internal/controller/restore\<close>: \<open>stageOutcome.go\<close>, the
  constants and the type of \<open>restoreReconciler.go\<close>), and the stages for metadata and the lease
  (\<open>reconcile_ensureMetadata.go\<close>, \<open>reconcile_ensureActiveRestoreLease.go\<close>,
  \<open>reconcile_ensureRestoreLeaseReleased.go\<close>).
\<close>

section \<open>Constants\<close>

definition restoreMaintenanceModeTitle :: string where
  "restoreMaintenanceModeTitle = ''Service temporary unavailable''"

definition restoreMaintenanceModeText :: string where
  "restoreMaintenanceModeText = ''Restore in progress''"

definition actionStartRestore :: string where "actionStartRestore = ''StartRestore''"
definition actionPrepareRestore :: string where "actionPrepareRestore = ''PrepareRestore''"
definition actionCompleteRestore :: string where "actionCompleteRestore = ''CompleteRestore''"
definition actionDeleteRestore :: string where "actionDeleteRestore = ''DeleteRestore''"
definition restoreActionCheckProviderReadiness :: string where "restoreActionCheckProviderReadiness = ''CheckProviderReadiness''"
definition actionCheckSourceBackup :: string where "actionCheckSourceBackup = ''CheckSourceBackup''"
definition actionCreateProviderRestore :: string where "actionCreateProviderRestore = ''CreateProviderRestore''"
definition actionCompleteProviderRestore :: string where "actionCompleteProviderRestore = ''CompleteProviderRestore''"
definition actionDeleteProviderRestore :: string where "actionDeleteProviderRestore = ''DeleteProviderRestore''"
definition actionRecoverWorkloads :: string where "actionRecoverWorkloads = ''RecoverWorkloads''"
definition actionCheckMaintenanceMode :: string where "actionCheckMaintenanceMode = ''CheckMaintenanceMode''"
definition restoreActionActivateMaintenanceMode :: string where "restoreActionActivateMaintenanceMode = ''ActivateMaintenanceMode''"
definition restoreActionDeactivateMaintenanceMode :: string where "restoreActionDeactivateMaintenanceMode = ''DeactivateMaintenanceMode''"

text \<open>Constants of the k8s-backup-lib, by their Go names.\<close>

abbreviation RestoreFinalizer :: "'s env \<Rightarrow> string" where
  "RestoreFinalizer E \<equiv> libConstant E ''k8sv1.RestoreFinalizer''"

abbreviation ErrorOnCreateEventReason :: "'s env \<Rightarrow> string" where
  "ErrorOnCreateEventReason E \<equiv> libConstant E ''k8sv1.ErrorOnCreateEventReason''"

abbreviation CreateEventReason :: "'s env \<Rightarrow> string" where
  "CreateEventReason E \<equiv> libConstant E ''k8sv1.CreateEventReason''"

abbreviation DeleteEventReason :: "'s env \<Rightarrow> string" where
  "DeleteEventReason E \<equiv> libConstant E ''k8sv1.DeleteEventReason''"

definition defaultRequeueDelay :: duration where
  "defaultRequeueDelay = 5 * second"

definition providerObservationRecoveryDelay :: duration where
  "providerObservationRecoveryDelay = 5 * minute"

section \<open>Stage outcomes\<close>

datatype stage_action = actionNext | actionRetry | actionAbort

record stage_outcome =
  so_action :: stage_action
  so_requeueAfter :: duration
  so_err :: "err option"

definition nextStage :: stage_outcome where
  "nextStage = \<lparr>so_action = actionNext, so_requeueAfter = 0, so_err = None\<rparr>"

definition retryAfter :: "duration \<Rightarrow> stage_outcome" where
  "retryAfter delay = \<lparr>so_action = actionRetry, so_requeueAfter = delay, so_err = None\<rparr>"

definition retryOnError :: "err option \<Rightarrow> stage_outcome" where
  "retryOnError e = (case e of
     None \<Rightarrow> retryAfter defaultRequeueDelay
   | Some _ \<Rightarrow> \<lparr>so_action = actionRetry, so_requeueAfter = 0, so_err = e\<rparr>)"

definition abortStage :: stage_outcome where
  "abortStage = \<lparr>so_action = actionAbort, so_requeueAfter = 0, so_err = None\<rparr>"

definition outcomeResult :: "stage_outcome \<Rightarrow> duration \<Rightarrow> reconcile_result" where
  "outcomeResult so defaultDelay =
     (if so_err so \<noteq> None then \<lparr>requeueAfter = 0, rerr = so_err so\<rparr>
      else if so_action so = actionRetry
      then (let delay = (if so_requeueAfter so \<le> 0 then defaultDelay else so_requeueAfter so)
            in \<lparr>requeueAfter = delay, rerr = None\<rparr>)
      else \<lparr>requeueAfter = 0, rerr = None\<rparr>)"

text \<open>No stage answers a nil restore, so \<open>updated\<close> always replaces the restore.\<close>

type_synonym 's restore_stage = "restore \<Rightarrow> ('s, restore \<times> stage_outcome) prog"

fun runRestoreStages :: "restore \<Rightarrow> duration \<Rightarrow> 's restore_stage list \<Rightarrow> ('s, reconcile_result) prog" where
  "runRestoreStages restore defaultDelay [] = return (outcomeResult abortStage defaultDelay)"
| "runRestoreStages restore defaultDelay (stage # stages) = do {
     (restore', so) \<leftarrow> stage restore;
     if so_action so \<noteq> actionNext then return (outcomeResult so defaultDelay)
     else runRestoreStages restore' defaultDelay stages
   }"

lemma stage_actions [simp]:
  "so_action nextStage = actionNext" "so_action (retryAfter d) = actionRetry"
  "so_action (retryOnError e) = actionRetry" "so_action abortStage = actionAbort"
  by (simp_all add: nextStage_def retryAfter_def retryOnError_def abortStage_def split: option.splits)

section \<open>The reconciler\<close>

record 's restoreReconciler =
  rr_client :: "'s env"
  rr_namespace :: string
  rr_cleanup :: "('s, err option) prog"
  rr_scaleManager :: "'s scaleManager"
  rr_requeueDelay :: duration
  rr_backupStorageName :: string
  rr_providerDeploymentName :: string

definition NewRestoreReconciler :: "'s env \<Rightarrow> string \<Rightarrow> ('s, err option) prog \<Rightarrow> 's scaleManager
    \<Rightarrow> duration \<Rightarrow> string \<Rightarrow> string \<Rightarrow> 's restoreReconciler" where
  "NewRestoreReconciler E n cleanup scaleManager delay storageName deploymentName = \<lparr>
     rr_client = E, rr_namespace = n, rr_cleanup = cleanup, rr_scaleManager = scaleManager,
     rr_requeueDelay = delay, rr_backupStorageName = storageName,
     rr_providerDeploymentName = deploymentName\<rparr>"

text \<open>The maintenance mode switch of the k8s-registry-lib; \<open>GetStatus\<close> answers a flag even with an error.\<close>

definition switchStatus :: "'s env \<Rightarrow> ('s, api_error + bool) prog" where
  "switchStatus E = query (mm_getStatus E) MaintenanceStatus"

definition switchActivate :: "'s env \<Rightarrow> string \<Rightarrow> string \<Rightarrow> ('s, api_error option) prog" where
  "switchActivate E title txt = query (mm_activate E title txt False) (MaintenanceActivate title txt False)"

definition switchDeactivate :: "'s env \<Rightarrow> ('s, api_error option) prog" where
  "switchDeactivate E = query (mm_deactivate E False) (MaintenanceDeactivate False)"

lemma switch_outcomes [outcome_intro]:
  "(\<And>r. Q r [MaintenanceStatus r]) \<Longrightarrow> outcome (switchStatus E) Q"
  "(\<And>r. Q' r [MaintenanceActivate t x False r]) \<Longrightarrow> outcome (switchActivate E t x) Q'"
  "(\<And>r. Q' r [MaintenanceDeactivate False r]) \<Longrightarrow> outcome (switchDeactivate E) Q'"
  unfolding switchStatus_def switchActivate_def switchDeactivate_def by (auto intro: outcome_query)

datatype restore_operation = restoreOperationCreate | restoreOperationDelete | restoreOperationIgnore

definition requiredRestoreOperation :: "'s env \<Rightarrow> restore \<Rightarrow> restore_operation" where
  "requiredRestoreOperation E r =
     (if \<not> isZeroPtr (o_deletion r) then restoreOperationDelete
      else if isTerminal E r then restoreOperationIgnore
      else restoreOperationCreate)"

section \<open>Metadata\<close>

definition restoreLabels :: "'s env \<Rightarrow> (string \<times> string) list" where
  "restoreLabels E =
     [(libConstant E ''ecosystem.AppLabelKey'', libConstant E ''ecosystem.AppLabelValueCes''),
      (libConstant E ''ecosystem.PartOfLabelKey'', libConstant E ''ecosystem.PartOfLabelValueBackup'')]"

text \<open>\<open>%v\<close> of these labels: Go prints a map in the order of its keys, \<open>app\<close> first.\<close>

definition labelsText :: "(string \<times> string) list \<Rightarrow> string" where
  "labelsText kvs = ''map['' @ concat (List.map (\<lambda>(i, k, v). (if i = 0 then [] else '' '') @ k @ '':'' @ v)
     (enumerate 0 kvs)) @ '']''"

definition applyLabels :: "'s env \<Rightarrow> restore \<Rightarrow> restore \<times> bool" where
  "applyLabels E r =
     (let desired = restoreLabels E;
          changed = list_ex (\<lambda>(k, v). lookupStr (o_labels r) k \<noteq> v) desired
      in if \<not> changed then (r, False)
         else (r\<lparr>o_labels := foldl (\<lambda>m (k, v). m(k \<mapsto> v)) (o_labels r) desired\<rparr>, True))"

text \<open>The restore as the function leaves it: changed in memory, and what the server answered to a write.\<close>

definition ensureRestoreMetadata :: "'s env \<Rightarrow> restore \<Rightarrow> ('s, (err + bool) \<times> restore) prog" where
  "ensureRestoreMetadata E r = do {
     let (fs, added) = addFinalizer E (o_finalizers r) (RestoreFinalizer E);
     let (r1, labelled) = applyLabels E (r\<lparr>o_finalizers := fs\<rparr>);
     let changed = (added \<or> labelled);
     if \<not> changed then return (Inr False, r1)
     else do {
       updated \<leftarrow> apiUpdate (restores E) OnRestore r1;
       return (case updated of
         Inl e \<Rightarrow> (Inl (Wrapf (''failed to write finalizer '' @ RestoreFinalizer E @ '' and labels '' @
           labelsText (restoreLabels E) @ '' of restore'') (Api e)), r1)
       | Inr r2 \<Rightarrow> (Inr True, r2))
     }
   }"

definition removeRestoreFinalizer :: "'s env \<Rightarrow> restore \<Rightarrow> string \<Rightarrow> ('s, err option \<times> restore) prog" where
  "removeRestoreFinalizer E r finalizer = do {
     let (fs, removed) = removeFinalizer E (o_finalizers r) finalizer;
     let r1 = r\<lparr>o_finalizers := fs\<rparr>;
     if \<not> removed then return (None, r1)
     else do {
       updated \<leftarrow> apiUpdate (restores E) OnRestore r1;
       return (case updated of
         Inl e \<Rightarrow> (Some (Wrapf (''failed to remove finalizer '' @ finalizer @ '' from restore'') (Api e)), r1)
       | Inr r2 \<Rightarrow> (None, r2))
     }
   }"

definition ensureMetadata :: "'s restoreReconciler \<Rightarrow> 's restore_stage" where
  "ensureMetadata c r = do {
     (written, r') \<leftarrow> ensureRestoreMetadata (rr_client c) r;
     return (case written of
       Inl e \<Rightarrow> (r', retryOnError (Some (Wrapf (''failed to converge the metadata of restore '' @ o_name r') e)))
     | Inr True \<Rightarrow> (r', retryAfter (rr_requeueDelay c))
     | Inr False \<Rightarrow> (r', nextStage))
   }"

section \<open>The lease\<close>

definition restoreLeaseName :: string where
  "restoreLeaseName = DefaultName"

definition restoreLeaseHolderNameAnnotation :: string where
  "restoreLeaseHolderNameAnnotation = HolderNameAnnotation"

definition restoreLeaseHolderKind :: string where
  "restoreLeaseHolderKind = ''Restore''"

definition restoreHolderResolver :: "'s env \<Rightarrow> ('s, restore) resolver" where
  "restoreHolderResolver E = \<lparr>
     rv_kind = restoreLeaseHolderKind,
     rv_get = (\<lambda>n nm. do {
       got \<leftarrow> apiGet (restores E) OnRestore (n, nm);
       return (case got of Inl e \<Rightarrow> Inl e | Inr r \<Rightarrow> Inr (Some r))
     }),
     rv_isTerminal = isTerminal E\<rparr>"

definition restoreLeaseManager :: "'s restoreReconciler \<Rightarrow> ('s, restore) manager" where
  "restoreLeaseManager c =
     NewManager (rr_client c) (rr_namespace c) restoreLeaseName [restoreHolderResolver (rr_client c)]"

definition continueWithAcquiredLease :: "'s restoreReconciler \<Rightarrow> 's restore_stage" where
  "continueWithAcquiredLease c r =
     (case findSuccessfulCondition (rr_client c) r of
        None \<Rightarrow> return (r, nextStage)
      | Some cond \<Rightarrow>
          if c_reason cond \<noteq> ReasonWaitingForActiveRestore \<and> c_reason cond \<noteq> ReasonInvalidRestoreLease
          then return (r, nextStage)
          else do {
            updated \<leftarrow> setConditions (rr_client c) r [newCondition ConditionSucceeded ConditionUnknown
              ReasonRestoreLeaseAcquired
              ''The restore holds the namespace-wide restore lease and can continue.''];
            return (case updated of
              Inl e \<Rightarrow> (r, retryOnError (Some (Wrapf
                (''failed to report lease acquisition for restore '' @ o_name r) e)))
            | Inr r' \<Rightarrow> (r', retryAfter defaultRequeueDelay))
          })"

definition reportWaitingForLease :: "'s restoreReconciler \<Rightarrow> string \<Rightarrow> 's restore_stage" where
  "reportWaitingForLease c holder r = do {
     let message = (if holder \<noteq> [] then ''Operation '' @ quote holder @
         '' currently holds the namespace-wide backup/restore lease.''
       else ''Another operation currently holds the namespace-wide backup/restore lease.'');
     updated \<leftarrow> setConditions (rr_client c) r [newCondition ConditionSucceeded ConditionUnknown
       ReasonWaitingForActiveRestore message];
     return (case updated of
       Inl e \<Rightarrow> (r, retryOnError (Some (Wrapf (''failed to report that restore '' @ o_name r @
         '' is waiting for the active operation'') e)))
     | Inr r' \<Rightarrow> (r', retryAfter defaultRequeueDelay))
   }"

definition reportInvalidRestoreLease :: "'s restoreReconciler \<Rightarrow> 's restore_stage" where
  "reportInvalidRestoreLease c r = do {
     let leaseError = Errorf (''restore is blocked by invalid lease '' @ rr_namespace c @ ''/'' @
       restoreLeaseName @ '' without a resolvable holder'');
     _ \<leftarrow> UpdateInvalidLeaseTotalMetric (o_namespace r) (o_name r);
     updated \<leftarrow> setConditions (rr_client c) r [newCondition ConditionSucceeded ConditionUnknown
       ReasonInvalidRestoreLease (errText leaseError @
         ''. Delete the lease after verifying that no backup or restore is active.'')];
     return (case updated of
       Inl e \<Rightarrow> (r, retryOnError (Some (Wrapf
         (''failed to report invalid restore lease for restore '' @ o_name r) e)))
     | Inr r' \<Rightarrow> (r', retryOnError (Some leaseError)))
   }"

definition ensureActiveRestoreLease :: "'s restoreReconciler \<Rightarrow> 's restore_stage" where
  "ensureActiveRestoreLease c r =
     (if requiredRestoreOperation (rr_client c) r \<noteq> restoreOperationCreate then return (r, nextStage)
      else do {
        res \<leftarrow> Acquire (restoreLeaseManager c) r restoreLeaseHolderKind;
        case res of
          Inl e \<Rightarrow> return (r, retryOnError (Some (Wrapf
            (''failed to acquire restore lease for restore '' @ o_name r) e)))
        | Inr a \<Rightarrow> (case lr_state a of
            StateAcquired \<Rightarrow> do {
              _ \<leftarrow> eventf EventTypeNormal ReasonRestoreStarted actionStartRestore ''The restore has started'';
              return (r, retryAfter defaultRequeueDelay)
            }
          | StateConflict \<Rightarrow> return (r, retryAfter defaultRequeueDelay)
          | StateInvalid \<Rightarrow> reportInvalidRestoreLease c r
          | StateWaiting \<Rightarrow> reportWaitingForLease c (lr_holder a) r
          | StateHeld \<Rightarrow> continueWithAcquiredLease c r)
      })"

definition ensureRestoreLeaseReleased :: "'s restoreReconciler \<Rightarrow> 's restore_stage" where
  "ensureRestoreLeaseReleased c r = do {
     res \<leftarrow> Release (restoreLeaseManager c) r restoreLeaseHolderKind;
     return (case res of
       Inl e \<Rightarrow> (r, retryOnError (Some (Wrapf
         (''failed to release restore lease for restore '' @ o_name r) e)))
     | Inr released \<Rightarrow> (r, nextStage))
   }"

end
