(* ===== verification/RestoreWorkflow.thy ===== *)
theory RestoreWorkflow
  imports RestoreBase
begin

text \<open>
  The remaining stages of the restore reconciler (\<open>restoreReconciler.go\<close> and the files
  \<open>reconcile_ensure*.go\<close>): conditions, the provider child as the safety barrier, the provider gates,
  the destructive preparation, the provider restore, the recovery of the workloads, completion and
  deletion. Every stage answers the restore as it left it and a stage outcome.
\<close>

text \<open>A stage that ends with a status write: its error is wrapped, on success it answers \<open>so\<close>.\<close>

definition finishWith :: "'s env \<Rightarrow> restore \<Rightarrow> condition list \<Rightarrow> string \<Rightarrow> stage_outcome
    \<Rightarrow> ('s, restore \<times> stage_outcome) prog" where
  "finishWith E r conds failure so = do {
     updated \<leftarrow> setConditions E r conds;
     return (case updated of
       Inl e \<Rightarrow> (r, retryOnError (Some (Wrapf failure e)))
     | Inr r' \<Rightarrow> (r', so))
   }"

section \<open>Conditions\<close>

definition ensureRestoreConditionsInitialized :: "'s restoreReconciler \<Rightarrow> 's restore_stage" where
  "ensureRestoreConditionsInitialized c r =
     (let missing = Missing (rr_client c) (restoreConditions r) initialWorkflowConditions in
      if length missing = 0 then return (r, nextStage)
      else finishWith (rr_client c) r missing
        (''failed to initialize the conditions of restore '' @ o_name r) (retryAfter (rr_requeueDelay c)))"

definition ensureLegacyConditionsMigrated :: "'s restoreReconciler \<Rightarrow> 's restore_stage" where
  "ensureLegacyConditionsMigrated c r = do {
     migrated \<leftarrow> setConditionsFromLegacyStatus (rr_client c) r;
     return (case migrated of
       Inl e \<Rightarrow> (r, retryOnError (Some e))
     | Inr r' \<Rightarrow> (r', nextStage))
   }"

section \<open>The provider child\<close>

definition failOnProviderChildConflict :: "'s restoreReconciler \<Rightarrow> restore \<Rightarrow> conflict_error
    \<Rightarrow> ('s, restore \<times> stage_outcome) prog" where
  "failOnProviderChildConflict c r conflictErr = do {
     _ \<leftarrow> eventf EventTypeWarning (ErrorOnCreateEventReason (rr_client c)) actionCreateProviderRestore
           (conflictText conflictErr);
     finishWith (rr_client c) r
       [newCondition ConditionProviderSucceeded ConditionFalse ReasonProviderRestoreConflict
          (conflictText conflictErr),
        newCondition ConditionSucceeded ConditionFalse ReasonProviderRestoreConflict
          (''The restore was not started: '' @ conflictText conflictErr)]
       (''failed to report the provider restore conflict of restore '' @ o_name r) abortStage
   }"

definition ensureProviderChildState :: "'s restoreReconciler \<Rightarrow> 's restore_stage" where
  "ensureProviderChildState c r = do {
     got \<leftarrow> GetRestore (rr_client c) r;
     case got of
       Inl e \<Rightarrow> return (r, retryOnError (Some (Wrapf
         (''failed to read the provider restore of restore '' @ o_name r) e)))
     | Inr None \<Rightarrow> return (r, nextStage)
     | Inr (Some child) \<Rightarrow>
         (case CheckRestoreForConflicts (rr_client c) r child of
            Some conflictErr \<Rightarrow> failOnProviderChildConflict c r conflictErr
          | None \<Rightarrow> return (r, nextStage))
   }"

definition isAlreadyPrepared :: "'s restoreReconciler \<Rightarrow> restore \<Rightarrow> ('s, err + bool) prog" where
  "isAlreadyPrepared c r =
     (if isStatusConditionTrue (rr_client c) (restoreConditions r) ConditionPrepared
      then return (Inr True)
      else do {
        got \<leftarrow> GetRestore (rr_client c) r;
        return (case got of
          Inl e \<Rightarrow> Inl (Wrapf (''failed to read the provider restore of restore '' @ o_name r) e)
        | Inr None \<Rightarrow> Inr False
        | Inr (Some child) \<Rightarrow> Inr (IsOwnedRestore (rr_client c) r child))
      })"

section \<open>The provider gates\<close>

definition wasWaitingForProvider :: "'s env \<Rightarrow> restore \<Rightarrow> bool" where
  "wasWaitingForProvider E r =
     (case findStatusCondition E (restoreConditions r) ConditionPrepared of
        None \<Rightarrow> False
      | Some cond \<Rightarrow> c_status cond = ConditionFalse \<and> IsProviderNotReadyReason (c_reason cond))"

definition reportUnreadyProvider :: "'s restoreReconciler \<Rightarrow> restore \<Rightarrow> readiness
    \<Rightarrow> ('s, restore \<times> stage_outcome) prog" where
  "reportUnreadyProvider c r rd = do {
     let notReady = newCondition ConditionPrepared ConditionFalse (rd_reason rd) (rd_message rd);
     let report = WillChange (rr_client c) (restoreConditions r) notReady;
     updated \<leftarrow> setConditions (rr_client c) r [notReady];
     case updated of
       Inl e \<Rightarrow> return (r, retryOnError (Some (Wrapf
         (''failed to report the unready provider of restore '' @ o_name r) e)))
     | Inr r' \<Rightarrow> do {
         _ \<leftarrow> (if report
               then eventf EventTypeWarning (rd_reason rd) restoreActionCheckProviderReadiness (rd_message rd)
               else return ());
         return (r', retryAfter (rr_requeueDelay c))
       }
   }"

definition ensureProviderReady :: "'s restoreReconciler \<Rightarrow> 's restore_stage" where
  "ensureProviderReady c r = do {
     prepared \<leftarrow> isAlreadyPrepared c r;
     case prepared of
       Inl e \<Rightarrow> return (r, retryOnError (Some e))
     | Inr True \<Rightarrow> return (r, nextStage)
     | Inr False \<Rightarrow> do {
         res \<leftarrow> CheckReady (rr_client c) (o_namespace r) (rr_backupStorageName c) (rr_providerDeploymentName c);
         case res of
           Inl e \<Rightarrow> return (r, retryOnError (Some (Wrapf
             (''failed to check whether the provider of restore '' @ o_name r @ '' is ready'') e)))
         | Inr rd \<Rightarrow>
             if \<not> rd_ready rd then reportUnreadyProvider c r rd
             else do {
               _ \<leftarrow> (if wasWaitingForProvider (rr_client c) r
                     then eventf EventTypeNormal ReasonProviderReady restoreActionCheckProviderReadiness
                       (rd_message rd)
                     else return ());
               return (r, nextStage)
             }
       }
   }"

definition failOnUnusableSourceBackup :: "'s restoreReconciler \<Rightarrow> restore \<Rightarrow> source_backup_check
    \<Rightarrow> ('s, restore \<times> stage_outcome) prog" where
  "failOnUnusableSourceBackup c r check = do {
     _ \<leftarrow> eventf EventTypeWarning (sb_reason check) actionCheckSourceBackup (sb_message check);
     finishWith (rr_client c) r
       [newCondition ConditionPrepared ConditionFalse (sb_reason check) (sb_message check),
        newCondition ConditionSucceeded ConditionFalse (sb_reason check)
          (''The restore was not started: '' @ sb_message check)]
       (''failed to report the unusable backup of restore '' @ o_name r) abortStage
   }"

definition ensureSourceBackupUsable :: "'s restoreReconciler \<Rightarrow> 's restore_stage" where
  "ensureSourceBackupUsable c r = do {
     prepared \<leftarrow> isAlreadyPrepared c r;
     case prepared of
       Inl e \<Rightarrow> return (r, retryOnError (Some e))
     | Inr True \<Rightarrow> return (r, nextStage)
     | Inr False \<Rightarrow> do {
         res \<leftarrow> CheckSourceBackup (rr_client c) (o_namespace r) (re_backupName r);
         case res of
           Inl e \<Rightarrow> return (r, retryOnError (Some (Wrapf
             (''failed to check the backup to be restored of restore '' @ o_name r) e)))
         | Inr check \<Rightarrow>
             if sb_usable check then return (r, nextStage)
             else failOnUnusableSourceBackup c r check
       }
   }"

section \<open>Maintenance mode and preparation\<close>

definition hasWorkflowDeactivatedMaintenanceMode :: "'s env \<Rightarrow> restore \<Rightarrow> bool" where
  "hasWorkflowDeactivatedMaintenanceMode E r =
     (if isStatusConditionTrue E (restoreConditions r) ConditionWorkloadsRecovered then True
      else case findStatusCondition E (restoreConditions r) ConditionWorkloadsRecovered of
        None \<Rightarrow> False
      | Some recovery \<Rightarrow> c_reason recovery = ReasonMaintenanceModeDeactivated)"

definition ensureMaintenanceModeActivated :: "'s restoreReconciler \<Rightarrow> 's restore_stage" where
  "ensureMaintenanceModeActivated c r =
     (if hasWorkflowDeactivatedMaintenanceMode (rr_client c) r then return (r, nextStage)
      else do {
        st \<leftarrow> switchStatus (rr_client c);
        isActive \<leftarrow> (case st of
            Inr active \<Rightarrow> return active
          | Inl e \<Rightarrow> do {
              _ \<leftarrow> eventf EventTypeNormal ReasonMaintenanceModeActivated actionCheckMaintenanceMode
                    ''Could not get maintenance mode status; continuing restore.'';
              return (mm_activeOnError (rr_client c) e)
            });
        _ \<leftarrow> (if \<not> isActive then do {
              merr \<leftarrow> switchActivate (rr_client c) restoreMaintenanceModeTitle restoreMaintenanceModeText;
              (if merr \<noteq> None
               then eventf EventTypeNormal ReasonMaintenanceModeActivated restoreActionActivateMaintenanceMode
                 ''Could not activate maintenance mode; continuing restore.''
               else eventf EventTypeNormal ReasonMaintenanceModeActivated restoreActionActivateMaintenanceMode
                 ''Maintenance mode activated'')
            } else return ());
        return (r, nextStage)
      })"

definition reportFailedPreparation :: "'s restoreReconciler \<Rightarrow> restore \<Rightarrow> err
    \<Rightarrow> ('s, restore \<times> stage_outcome) prog" where
  "reportFailedPreparation c r preparationErr = do {
     updated \<leftarrow> setConditions (rr_client c) r [newCondition ConditionPrepared ConditionFalse
       ReasonPreparationFailed
       (''The preparation of the ecosystem failed and is retried: '' @ errText preparationErr)];
     let (r', preparationErr') = (case updated of
         Inl e \<Rightarrow> (r, Joined [preparationErr, Wrapf
           (''failed to report the failed preparation of restore '' @ o_name r) e])
       | Inr x \<Rightarrow> (x, preparationErr));
     _ \<leftarrow> eventf EventTypeWarning ReasonPreparationFailed actionPrepareRestore
           ''The preparation of the ecosystem failed -> retrying'';
     return (r', retryOnError (Some preparationErr'))
   }"

definition ensurePreparation :: "'s restoreReconciler \<Rightarrow> 's restore_stage" where
  "ensurePreparation c r = do {
     prepared \<leftarrow> isAlreadyPrepared c r;
     case prepared of
       Inl e \<Rightarrow> return (r, retryOnError (Some e))
     | Inr True \<Rightarrow> return (r, nextStage)
     | Inr False \<Rightarrow> do {
         _ \<leftarrow> eventf EventTypeNormal ReasonPreparing actionPrepareRestore
               ''Preparation in progress - scale down and cleanup'';
         scaled \<leftarrow> sm_down (rr_scaleManager c);
         case scaled of
           Some e \<Rightarrow> reportFailedPreparation c r (Wrapf ''failed to scale down workloads before restore'' e)
         | None \<Rightarrow> do {
             cleaned \<leftarrow> rr_cleanup c;
             case cleaned of
               Some e \<Rightarrow> do {
                 _ \<leftarrow> eventf EventTypeWarning ReasonCleanupFailed actionPrepareRestore
                       ''Cleanup before restore failed'';
                 reportFailedPreparation c r (Wrapf ''failed to cleanup before restore'' e)
               }
             | None \<Rightarrow> do {
                 _ \<leftarrow> eventf EventTypeNormal ReasonCleanupCompleted actionPrepareRestore
                       ''Cleanup before restore completed'';
                 updated \<leftarrow> setConditions (rr_client c) r [newCondition ConditionPrepared ConditionTrue
                   ReasonPreparationCompleted
                   (''The ecosystem was prepared for the restore: workloads are scaled down '' @
                    ''and the resources to be restored are removed.'')];
                 case updated of
                   Inl e \<Rightarrow> return (r, retryOnError (Some (Wrapf
                     (''failed to persist the preparation of restore '' @ o_name r) e)))
                 | Inr r' \<Rightarrow> do {
                     _ \<leftarrow> eventf EventTypeNormal ReasonPreparationCompleted actionPrepareRestore
                           ''Preparation completed'';
                     return (r', retryAfter (rr_requeueDelay c))
                   }
               }
           }
       }
   }"

section \<open>The provider restore\<close>

text \<open>A conflict is final; any other error of \<open>EnsureRestore\<close> is retried.\<close>

definition ensureProviderRestore :: "'s restoreReconciler \<Rightarrow> 's restore_stage" where
  "ensureProviderRestore c r =
     (if isStatusConditionTrue (rr_client c) (restoreConditions r) ConditionProviderSucceeded
      then return (r, nextStage)
      else do {
        existing \<leftarrow> GetRestore (rr_client c) r;
        case existing of
          Inl e \<Rightarrow> return (r, retryOnError (Some (Wrapf
            (''failed to read the provider restore of restore '' @ o_name r) e)))
        | Inr (Some child) \<Rightarrow> return (r, nextStage)
        | Inr None \<Rightarrow> do {
            _ \<leftarrow> eventf EventTypeNormal ReasonProviderRestoreRunning actionCreateProviderRestore
                  ''Start provider restore process'';
            res \<leftarrow> EnsureRestore (rr_client c) r;
            case res of
              Inl (IsConflictError conflictErr) \<Rightarrow> failOnProviderChildConflict c r conflictErr
            | Inl (PlainError e) \<Rightarrow> do {
                _ \<leftarrow> eventf EventTypeWarning ReasonProviderRestoreFailed actionCreateProviderRestore (errText e);
                return (r, retryOnError (Some (Wrapf
                  (''failed to start the provider restore of restore '' @ o_name r) e)))
              }
            | Inr child \<Rightarrow> return (r, retryAfter (rr_requeueDelay c))
          }
      })"

definition failOnProviderRestore :: "'s restoreReconciler \<Rightarrow> restore \<Rightarrow> velero_restore \<Rightarrow> string
    \<Rightarrow> ('s, restore \<times> stage_outcome) prog" where
  "failOnProviderRestore c r child reason = do {
     let message = ''The provider restore '' @ quote (o_name child) @ '' failed terminally in the phase '' @
       quote (restorePhaseText (vre_phase child)) @ ''.'';
     _ \<leftarrow> eventf EventTypeWarning (ErrorOnCreateEventReason (rr_client c)) actionCompleteProviderRestore message;
     _ \<leftarrow> switchDeactivate (rr_client c);
     finishWith (rr_client c) r
       [newCondition ConditionProviderSucceeded ConditionFalse reason message,
        newCondition ConditionWorkloadsRecovered ConditionFalse ReasonRecoveryNotAttemptedAfterProviderFailure
          ''The workloads were deliberately left scaled down because the provider restore failed.'',
        newCondition ConditionSucceeded ConditionFalse reason message]
       (''failed to report the failed provider restore of restore '' @ o_name r) abortStage
   }"

definition ensureProviderCompletion :: "'s restoreReconciler \<Rightarrow> 's restore_stage" where
  "ensureProviderCompletion c r =
     (if isStatusConditionTrue (rr_client c) (restoreConditions r) ConditionProviderSucceeded
      then return (r, nextStage)
      else do {
        got \<leftarrow> GetRestore (rr_client c) r;
        case got of
          Inl e \<Rightarrow> return (r, retryOnError (Some (Wrapf
            (''failed to read the provider restore of restore '' @ o_name r) e)))
        | Inr None \<Rightarrow> return (r, retryAfter (rr_requeueDelay c))
        | Inr (Some child) \<Rightarrow>
            (let (status, reason) = observeProviderRestoreState (ObserveRestorePhase (vre_phase child)) in
             if status = ConditionFalse then failOnProviderRestore c r child reason
             else do {
               message \<leftarrow> (if status = ConditionTrue then do {
                   _ \<leftarrow> eventf EventTypeNormal (CreateEventReason (rr_client c)) actionCompleteProviderRestore
                         (''Successfully completed the provider restore ['' @ o_name child @ '']'');
                   return (''The provider restored the backup '' @ quote (re_backupName r) @ ''.'')
                 } else return (''The provider restore '' @ quote (o_name child) @ '' reports the phase '' @
                     quote (restorePhaseText (vre_phase child)) @ ''.''));
               _ \<leftarrow> now (rr_client c);
               finishWith (rr_client c) r
                 [newCondition ConditionProviderSucceeded status reason message]
                 (''failed to persist the provider restore state of restore '' @ o_name r)
                 (if status = ConditionTrue then retryAfter (rr_requeueDelay c)
                  else retryAfter providerObservationRecoveryDelay)
             })
      })"

section \<open>Recovery of the workloads\<close>

text \<open>Whether the recovery is pending with one of some reasons.\<close>

definition recoveryPending :: "'s env \<Rightarrow> restore \<Rightarrow> string list \<Rightarrow> bool" where
  "recoveryPending E r reasons =
     (case findStatusCondition E (restoreConditions r) ConditionWorkloadsRecovered of
        None \<Rightarrow> False
      | Some cond \<Rightarrow> c_status cond = ConditionUnknown \<and> c_reason cond \<in> set reasons)"

text \<open>The common tail of a failed scaling step: two events, \<open>WorkloadsRecovered=False\<close>, a retry.\<close>

definition failRecovery :: "'s restoreReconciler \<Rightarrow> restore \<Rightarrow> string \<Rightarrow> err \<Rightarrow> string \<Rightarrow> string
    \<Rightarrow> ('s, restore \<times> stage_outcome) prog" where
  "failRecovery c r note recoveryErr message failure = do {
     _ \<leftarrow> eventf EventTypeWarning ReasonWorkloadRecoveryFailed actionRecoverWorkloads note;
     _ \<leftarrow> eventf EventTypeWarning (ErrorOnCreateEventReason (rr_client c)) actionRecoverWorkloads
           (errText recoveryErr);
     updated \<leftarrow> setConditions (rr_client c) r [newCondition ConditionWorkloadsRecovered ConditionFalse
       ReasonWorkloadRecoveryFailed (message @ errText recoveryErr)];
     return (case updated of
       Inl e \<Rightarrow> (r, retryOnError (Some (Joined [recoveryErr, Wrapf (failure @ o_name r) e])))
     | Inr r' \<Rightarrow> (r', retryOnError (Some recoveryErr)))
   }"

definition ensureScaleUpInitiated :: "'s restoreReconciler \<Rightarrow> 's restore_stage" where
  "ensureScaleUpInitiated c r = do {
     scaled \<leftarrow> sm_up (rr_scaleManager c);
     case scaled of
       Some e \<Rightarrow> failRecovery c r ''failed to initiate workload scale-up after restore''
         (Wrapf ''failed to initiate workload scale-up after restore'' e)
         ''The workload scale-up could not be initiated and will be retried: ''
         ''failed to report the unsuccessful workload scale-up initiation for restore ''
     | None \<Rightarrow>
         if recoveryPending (rr_client c) r [ReasonScaleUpInitiated, ReasonWaitingForWorkloads,
           ReasonWorkloadsReady, ReasonScaleUpFinalized, ReasonMaintenanceModeDeactivated]
         then return (r, nextStage)
         else finishWith (rr_client c) r
           [newCondition ConditionWorkloadsRecovered ConditionUnknown ReasonScaleUpInitiated
             (''The desired replica counts were restored. '' @
              ''The controller is waiting for the workloads to become ready.'')]
           (''failed to persist initiated workload scale-up for restore '' @ o_name r)
           (retryAfter defaultRequeueDelay)
   }"

definition handleWorkloadsNotReady :: "'s restoreReconciler \<Rightarrow> 's restore_stage" where
  "handleWorkloadsNotReady c r =
     (if recoveryPending (rr_client c) r [ReasonWaitingForWorkloads]
      then return (r, retryAfter defaultRequeueDelay)
      else finishWith (rr_client c) r
        [newCondition ConditionWorkloadsRecovered ConditionUnknown ReasonWaitingForWorkloads
          ''The workloads have not reached their target replica count and availability yet.'']
        (''failed to persist workload readiness wait for restore '' @ o_name r)
        (retryAfter defaultRequeueDelay))"

definition handleWorkloadsReady :: "'s restoreReconciler \<Rightarrow> 's restore_stage" where
  "handleWorkloadsReady c r =
     (if recoveryPending (rr_client c) r [ReasonWorkloadsReady, ReasonScaleUpFinalized,
        ReasonMaintenanceModeDeactivated]
      then return (r, nextStage)
      else finishWith (rr_client c) r
        [newCondition ConditionWorkloadsRecovered ConditionUnknown ReasonWorkloadsReady
          ''All workloads reached their target replica count and availability.'']
        (''failed to persist workload readiness for restore '' @ o_name r)
        (retryAfter defaultRequeueDelay))"

definition ensureWorkloadsReady :: "'s restoreReconciler \<Rightarrow> 's restore_stage" where
  "ensureWorkloadsReady c r = do {
     ready \<leftarrow> sm_ready (rr_scaleManager c);
     case ready of
       Inl e \<Rightarrow> return (r, retryOnError (Some (Wrapf ''failed to observe workloads after scale-up'' e)))
     | Inr False \<Rightarrow> handleWorkloadsNotReady c r
     | Inr True \<Rightarrow> handleWorkloadsReady c r
   }"

definition ensureScaleUpFinalized :: "'s restoreReconciler \<Rightarrow> 's restore_stage" where
  "ensureScaleUpFinalized c r = do {
     finalized \<leftarrow> sm_finalize (rr_scaleManager c);
     case finalized of
       Some e \<Rightarrow> failRecovery c r ''failed to finalize workload scale-up after restore''
         (Wrapf ''failed to finalize workload scale-up after restore'' e)
         ''The workload scale-up could not be finalized and will be retried: ''
         ''failed to report the unsuccessful workload scale-up finalization for restore ''
     | None \<Rightarrow>
         if recoveryPending (rr_client c) r [ReasonScaleUpFinalized, ReasonMaintenanceModeDeactivated]
         then return (r, nextStage)
         else finishWith (rr_client c) r
           [newCondition ConditionWorkloadsRecovered ConditionUnknown ReasonScaleUpFinalized
             ''The temporary replica recovery labels were removed from all workloads.'']
           (''failed to persist finalized workload scale-up for restore '' @ o_name r)
           (retryAfter defaultRequeueDelay)
   }"

definition ensureMaintenanceModeDeactivated :: "'s restoreReconciler \<Rightarrow> 's restore_stage" where
  "ensureMaintenanceModeDeactivated c r = do {
     merr \<leftarrow> switchDeactivate (rr_client c);
     case merr of
       Some e \<Rightarrow> do {
         _ \<leftarrow> eventf EventTypeWarning ReasonMaintenanceModeDeactivated restoreActionDeactivateMaintenanceMode
               ''Failed to deactivate maintenance mode after restore'';
         return (r, retryOnError (Some (Wrapf
           (''failed to deactivate maintenance mode after restore '' @ o_name r) (Api e))))
       }
     | None \<Rightarrow>
         if recoveryPending (rr_client c) r [ReasonMaintenanceModeDeactivated] then do {
           _ \<leftarrow> eventf EventTypeNormal ReasonMaintenanceModeDeactivated restoreActionDeactivateMaintenanceMode
                 ''Maintenance mode deactivated'';
           return (r, nextStage)
         }
         else do {
           updated \<leftarrow> setConditions (rr_client c) r
             [newCondition ConditionWorkloadsRecovered ConditionUnknown ReasonMaintenanceModeDeactivated
               ''The maintenance mode was deactivated after workload recovery.''];
           case updated of
             Inl e \<Rightarrow> do {
               _ \<leftarrow> eventf EventTypeWarning ReasonMaintenanceModeDeactivated restoreActionDeactivateMaintenanceMode
                     ''Failed to persist maintenance mode deactivation for restore'';
               return (r, retryOnError (Some (Wrapf
                 (''failed to persist maintenance mode deactivation for restore '' @ o_name r) e)))
             }
           | Inr r' \<Rightarrow> return (r', retryAfter defaultRequeueDelay)
         }
   }"

definition ensureRestoreCompleted :: "'s restoreReconciler \<Rightarrow> 's restore_stage" where
  "ensureRestoreCompleted c r =
     (if isStatusConditionTrue (rr_client c) (restoreConditions r) ConditionWorkloadsRecovered \<and>
         isStatusConditionTrue (rr_client c) (restoreConditions r) ConditionSucceeded
      then return (r, abortStage)
      else if \<not> recoveryPending (rr_client c) r [ReasonMaintenanceModeDeactivated]
      then return (r, retryAfter defaultRequeueDelay)
      else do {
        updated \<leftarrow> setConditions (rr_client c) r
          [reachedMilestone ConditionWorkloadsRecovered ReasonWorkloadRecoveryCompleted
             (''The workloads reached their target state, their recovery labels were removed '' @
              ''and the maintenance mode was switched off.''),
           reachedMilestone ConditionSucceeded ReasonRestoreCompleted
             ''The restore workflow finished successfully.''];
        case updated of
          Inl e \<Rightarrow> return (r, retryOnError (Some (Wrapf
            (''failed to persist the completed restore '' @ o_name r) e)))
        | Inr r' \<Rightarrow> do {
            _ \<leftarrow> eventf EventTypeNormal ReasonRestoreCompleted actionCompleteRestore ''Restore successful'';
            return (r', abortStage)
          }
      })"

section \<open>Deletion\<close>

definition ensureDeletingStatus :: "'s restoreReconciler \<Rightarrow> 's restore_stage" where
  "ensureDeletingStatus c r =
     (if rst_legacy (re_status r) = StatusDeleting then return (r, nextStage)
      else finishWith (rr_client c) r [] (''failed to persist deleting status of restore '' @ o_name r)
        (retryAfter (rr_requeueDelay c)))"

definition ensureProviderRestoreDeleted :: "'s restoreReconciler \<Rightarrow> 's restore_stage" where
  "ensureProviderRestoreDeleted c r = do {
     got \<leftarrow> GetRestore (rr_client c) r;
     case got of
       Inl e \<Rightarrow> return (r, retryOnError (Some (Wrapf
         (''failed to get provider restore of restore '' @ o_name r) e)))
     | Inr None \<Rightarrow> return (r, nextStage)
     | Inr (Some child) \<Rightarrow>
         (let isLegacyRestore = (case effectiveSuccessfulCondition (rr_client c) r of
              None \<Rightarrow> False | Some cond \<Rightarrow> c_reason cond = ReasonMigratedFromLegacyStatus) in
          if \<not> IsOwnedRestore (rr_client c) r child \<and> \<not> isLegacyRestore then do {
            _ \<leftarrow> eventf EventTypeWarning (DeleteEventReason (rr_client c)) actionDeleteProviderRestore
                  (''Leaving provider restore ['' @ o_name child @
                   ''] untouched because it is not owned by this restore. '' @
                   ''Remove it manually if it is not needed.'');
            return (r, nextStage)
          }
          else if \<not> isZeroPtr (o_deletion child) then return (r, retryAfter (rr_requeueDelay c))
          else do {
            res \<leftarrow> DeleteRestore (rr_client c) child;
            return (case res of
              Some e \<Rightarrow> (r, retryOnError (Some (Wrapf
                (''failed to delete provider restore of restore '' @ o_name r) e)))
            | None \<Rightarrow> (r, retryAfter (rr_requeueDelay c)))
          })
   }"

definition ensureDeletionFinalized :: "'s restoreReconciler \<Rightarrow> 's restore_stage" where
  "ensureDeletionFinalized c r =
     (if \<not> containsFinalizer (rr_client c) (o_finalizers r) (RestoreFinalizer (rr_client c))
      then return (r, abortStage)
      else do {
        (res, r') \<leftarrow> removeRestoreFinalizer (rr_client c) r (RestoreFinalizer (rr_client c));
        case res of
          Some e \<Rightarrow> do {
            let wrappedErr = Wrapf (''failed to remove finalizer '' @ RestoreFinalizer (rr_client c) @
              '' from restore '' @ o_name r') e;
            _ \<leftarrow> eventf EventTypeWarning (DeleteEventReason (rr_client c)) actionDeleteRestore
                  (''Delete failed. Reason: '' @ errText wrappedErr);
            return (r', retryOnError (Some wrappedErr))
          }
        | None \<Rightarrow> do {
            _ \<leftarrow> eventf EventTypeNormal (DeleteEventReason (rr_client c)) actionDeleteRestore
                  ''Delete successful'';
            return (r', abortStage)
          }
      })"

section \<open>Reconcile\<close>

definition restoreStages :: "'s restoreReconciler \<Rightarrow> restore_operation \<Rightarrow> 's restore_stage list" where
  "restoreStages c op = (case op of
     restoreOperationDelete \<Rightarrow>
       [ensureProviderRestoreDeleted c, ensureDeletingStatus c, ensureRestoreLeaseReleased c,
        ensureDeletionFinalized c]
   | restoreOperationIgnore \<Rightarrow> [ensureLegacyConditionsMigrated c, ensureRestoreLeaseReleased c]
   | restoreOperationCreate \<Rightarrow>
       [ensureLegacyConditionsMigrated c, ensureRestoreConditionsInitialized c, ensureMetadata c,
        ensureProviderChildState c, ensureActiveRestoreLease c, ensureProviderReady c,
        ensureSourceBackupUsable c, ensureMaintenanceModeActivated c, ensurePreparation c,
        ensureProviderRestore c, ensureProviderCompletion c, ensureScaleUpInitiated c,
        ensureWorkloadsReady c, ensureScaleUpFinalized c, ensureMaintenanceModeDeactivated c,
        ensureRestoreCompleted c])"

text \<open>The namespace of the request is not used: the reconciler serves its own namespace.\<close>

definition ReconcileRestore :: "'s restoreReconciler \<Rightarrow> key \<Rightarrow> ('s, reconcile_result) prog" where
  "ReconcileRestore c req = do {
     _ \<leftarrow> UpdateRestoreReconcileTotalMetric;
     got \<leftarrow> apiGet (restores (rr_client c)) OnRestore (rr_namespace c, snd req);
     case got of
       Inl e \<Rightarrow> return \<lparr>requeueAfter = 0, rerr = (if isNotFound e then None else Some (Api e))\<rparr>
     | Inr r \<Rightarrow> do {
         _ \<leftarrow> InitRestoreConditionTransitionMetrics (o_namespace r) (o_name r) (re_backupName r);
         _ \<leftarrow> InitRestoreStatusMetrics (o_namespace r) (o_name r) (re_backupName r);
         _ \<leftarrow> InitInvalidLeaseTotalMetric (o_namespace r) (o_name r);
         runRestoreStages r (rr_requeueDelay c)
           (restoreStages c (requiredRestoreOperation (rr_client c) r))
       }
   }"

end
