(* ===== verification/Cleanup.thy ===== *)
theory Cleanup
  imports Effects Cluster
begin

text \<open>
  \<open>internal/cleanup\<close>: before a restore, all dogus of the namespace and all config maps, secrets and
  volume claims in the backup scope are deleted, and the deletions awaited up to a deadline. Every
  deletion starts a goroutine that polls until its object is gone. \<open>polls\<close> stands for the scheduler:
  which of the waiting goroutines poll next, between two calls of the main routine and, at the end, up
  to the deadline. A goroutine whose context is done gives up, so that at the deadline both cases of
  the final \<^verbatim>\<open>select\<close> are ready, and \<open>selectsFirst\<close> tells which one Go takes.
\<close>

section \<open>Waiting\<close>

definition backupScopeLabelKey :: string where
  "backupScopeLabelKey = ''k8s.cloudogu.com/backup-scope''"

datatype deletion = DoguDeletion string | ResourceDeletion string string

text \<open>One round of a waiting goroutine: whether it saw its object gone.\<close>

definition observeDoguGone :: "'s env \<Rightarrow> string \<Rightarrow> string \<Rightarrow> ('s, bool) prog" where
  "observeDoguGone E n nm = do {
     got \<leftarrow> apiGet (doguResources E) OnDogu (n, nm);
     return (case got of Inl e \<Rightarrow> isNotFound e | Inr _ \<Rightarrow> False)
   }"

definition observeResourceGone :: "'s env \<Rightarrow> string \<Rightarrow> string \<Rightarrow> string \<Rightarrow> ('s, bool) prog" where
  "observeResourceGone E n resource nm = do {
     got \<leftarrow> apiGet (additionalResources E resource) (OnAdditional resource) (n, nm);
     return (case got of Inl e \<Rightarrow> isNotFound e | Inr _ \<Rightarrow> False)
   }"

fun observeGone :: "'s env \<Rightarrow> string \<Rightarrow> deletion \<Rightarrow> ('s, bool) prog" where
  "observeGone E n (DoguDeletion nm) = observeDoguGone E n nm"
| "observeGone E n (ResourceDeletion resource nm) = observeResourceGone E n resource nm"

text \<open>The wait group: the deletions that are not seen to be done yet.\<close>

definition poll :: "'s env \<Rightarrow> string \<Rightarrow> nat \<Rightarrow> deletion list \<Rightarrow> ('s, deletion list) prog" where
  "poll E n i wg =
     (if i < length wg then do {
        gone \<leftarrow> observeGone E n (wg ! i);
        return (if gone then take i wg @ drop (Suc i) wg else wg)
      } else return wg)"

definition runWaiters :: "'s env \<Rightarrow> string \<Rightarrow> deletion list \<Rightarrow> ('s, deletion list) prog" where
  "runWaiters E n wg = do {
     is \<leftarrow> ask (polls E);
     fold_io (poll E n) is wg
   }"

section \<open>Deleting\<close>

fun deleteDogus :: "'s env \<Rightarrow> string \<Rightarrow> dogu list \<Rightarrow> deletion list \<Rightarrow> ('s, err + deletion list) prog" where
  "deleteDogus E n [] wg = return (Inr wg)"
| "deleteDogus E n (d # ds) wg = do {
     deleted \<leftarrow> apiDelete (doguResources E) OnDogu d PropagationForeground;
     case deleted of
       Inl e \<Rightarrow> return (Inl (Wrapf (''failed to delete dogu '' @ quote (o_name d)) (Api e)))
     | Inr _ \<Rightarrow> do {
         wg' \<leftarrow> runWaiters E n (wg @ [DoguDeletion (o_name d)]);
         deleteDogus E n ds wg'
       }
   }"

definition cleanupDogus :: "'s env \<Rightarrow> string \<Rightarrow> deletion list \<Rightarrow> ('s, err + deletion list) prog" where
  "cleanupDogus E n wg = do {
     listed \<leftarrow> apiList (doguResources E) OnDogu n [];
     case listed of
       Inl e \<Rightarrow> return (Inl (Wrapf ''failed to list dogus'' (Api e)))
     | Inr ds \<Rightarrow> deleteDogus E n ds wg
   }"

fun deleteResources :: "'s env \<Rightarrow> string \<Rightarrow> string \<Rightarrow> unstructured list \<Rightarrow> deletion list
    \<Rightarrow> ('s, err + deletion list) prog" where
  "deleteResources E n resource [] wg = return (Inr wg)"
| "deleteResources E n resource (x # xs) wg = do {
     deleted \<leftarrow> apiDelete (additionalResources E resource) (OnAdditional resource) x PropagationForeground;
     case deleted of
       Inl e \<Rightarrow> return (Inl (Wrapf (''failed to delete '' @ un_kind x @ '' '' @ quote (o_name x)) (Api e)))
     | Inr _ \<Rightarrow> do {
         wg' \<leftarrow> runWaiters E n (wg @ [ResourceDeletion resource (o_name x)]);
         deleteResources E n resource xs wg'
       }
   }"

text \<open>The clients of the manager; the loop visits their keys sorted by group, version and resource.\<close>

definition sortedKeys :: "string list" where
  "sortedKeys = [''configmaps'', ''persistentvolumeclaims'', ''secrets'']"

fun cleanupResources :: "'s env \<Rightarrow> string \<Rightarrow> string list \<Rightarrow> deletion list
    \<Rightarrow> ('s, err + deletion list) prog" where
  "cleanupResources E n [] wg = return (Inr wg)"
| "cleanupResources E n (resource # resources) wg = do {
     listed \<leftarrow> apiList (additionalResources E resource) (OnAdditional resource) n [backupScopeLabelKey];
     case listed of
       Inl e \<Rightarrow> return (Inl (Wrapf (''failed to list '' @ resource) (Api e)))
     | Inr xs \<Rightarrow> do {
         res \<leftarrow> deleteResources E n resource xs wg;
         case res of
           Inl e \<Rightarrow> return (Inl e)
         | Inr wg' \<Rightarrow> cleanupResources E n resources wg'
       }
   }"

definition cleanupAdditionalResources :: "'s env \<Rightarrow> string \<Rightarrow> deletion list
    \<Rightarrow> ('s, err + deletion list) prog" where
  "cleanupAdditionalResources E n wg = cleanupResources E n sortedKeys wg"

section \<open>Cleanup\<close>

text \<open>
  The end of \<open>Cleanup\<close>: the goroutines poll up to the deadline. If all deletions are done and the
  deadline has not passed, only the first case of the \<^verbatim>\<open>select\<close> is ready; otherwise the deadline has
  passed, the remaining goroutines give up, and both cases are ready.
\<close>

definition awaitDeletions :: "'s env \<Rightarrow> string \<Rightarrow> deletion list \<Rightarrow> ('s, err option) prog" where
  "awaitDeletions E n wg = do {
     wg' \<leftarrow> runWaiters E n wg;
     expired \<leftarrow> ask (deadlinePassed E);
     if wg' = [] \<and> \<not> expired then return None
     else do {
       first \<leftarrow> ask (selectsFirst E);
       return (if first then None
         else Some (Wrapf ''cleanup timed out'' (Errorf ''context deadline exceeded'')))
     }
   }"

definition Cleanup :: "'s env \<Rightarrow> string \<Rightarrow> ('s, err option) prog" where
  "Cleanup E n = do {
     dogus \<leftarrow> cleanupDogus E n [];
     case dogus of
       Inl e \<Rightarrow> return (Some (Wrapf ''failed to cleanup dogus'' e))
     | Inr wg \<Rightarrow> do {
         additional \<leftarrow> cleanupAdditionalResources E n wg;
         case additional of
           Inl e \<Rightarrow> return (Some (Wrapf ''failed to cleanup additional resources'' e))
         | Inr wg' \<Rightarrow> awaitDeletions E n wg'
       }
   }"

section \<open>The interface of the reconciler\<close>

locale cleanup_manager =
  fixes cleanup :: "('s, err option) prog"
  assumes cleanup_within: "outcome cleanup (\<lambda>_ es. within {CleansUp} es)"

text \<open>
  Deletions are awaited or seen gone: what a run adds to the wait group it has deleted, and what it
  takes from it it has seen gone.
\<close>

definition deleted :: "event list \<Rightarrow> deletion \<Rightarrow> bool" where
  "deleted es d = (case d of
     DoguDeletion nm \<Rightarrow> \<exists>x. o_name x = nm \<and> OnDogu (Delete x PropagationForeground (Inr ())) \<in> set es
   | ResourceDeletion resource nm \<Rightarrow>
       \<exists>x. o_name x = nm \<and> OnAdditional resource (Delete x PropagationForeground (Inr ())) \<in> set es)"

definition seenGone :: "string \<Rightarrow> deletion \<Rightarrow> event \<Rightarrow> bool" where
  "seenGone n d e \<longleftrightarrow> (\<exists>x. isNotFound x \<and> (case d of
     DoguDeletion nm \<Rightarrow> e = OnDogu (Get (n, nm) (Inl x))
   | ResourceDeletion resource nm \<Rightarrow> e = OnAdditional resource (Get (n, nm) (Inl x))))"

text \<open>The deletions a list asks for: of dogus, and of the resources of a kind.\<close>

fun deletionsOf :: "event \<Rightarrow> deletion list" where
  "deletionsOf (OnDogu (ListIn n ls (Inr ds))) = List.map (\<lambda>d. DoguDeletion (o_name d)) ds"
| "deletionsOf (OnAdditional k (ListIn n ls (Inr xs))) = List.map (\<lambda>x. ResourceDeletion k (o_name x)) xs"
| "deletionsOf e = []"

definition asked :: "event list \<Rightarrow> deletion list" where
  "asked es = concat (List.map deletionsOf es)"

lemma asked_simps [simp]: "asked [] = []" "asked (e # es) = deletionsOf e @ asked es"
  "asked (xs @ ys) = asked xs @ asked ys"
  by (simp_all add: asked_def)

lemma observeGone_outcome:
  "outcome (observeGone E n d) (\<lambda>gone es. \<exists>e. es = [e] \<and> observing e \<and> deletionsOf e = [] \<and> (gone \<longrightarrow> seenGone n d e))"
  by (cases d) (auto simp: observeDoguGone_def observeResourceGone_def seenGone_def
      intro!: outcome_intro split: sum.splits)

text \<open>Progress of the waiters: they only read objects, and a deletion leaves the wait group when seen gone.\<close>

definition waits :: "string \<Rightarrow> deletion list \<Rightarrow> deletion list \<Rightarrow> event list \<Rightarrow> bool" where
  "waits n wg wg' es \<longleftrightarrow> list_all observing es \<and> asked es = [] \<and> set wg' \<subseteq> set wg \<and>
     (\<forall>d \<in> set wg. d \<in> set wg' \<or> (\<exists>e \<in> set es. seenGone n d e))"

lemma waits_refl [simp]: "waits n wg wg []"
  by (simp add: waits_def)

lemma waits_trans: "waits n a b xs \<Longrightarrow> waits n b c ys \<Longrightarrow> waits n a c (xs @ ys)"
  by (fastforce simp: waits_def)

lemma poll_outcome: "outcome (poll E n i wg) (\<lambda>wg' es. waits n wg wg' es)"
proof (cases "i < length wg")
  case True
  let ?rest = "take i wg @ drop (Suc i) wg"
  have members: "d = wg ! i \<or> d \<in> set ?rest" if "d \<in> set wg" for d
    using that id_take_nth_drop [OF True] by (metis Un_iff insert_iff list.simps(15) set_append)
  have sub: "set ?rest \<subseteq> set wg"
    using set_take_subset [of i wg] set_drop_subset [of "Suc i" wg] by simp
  show ?thesis
    unfolding poll_def if_P [OF True]
  proof (rule outcome_call [OF observeGone_outcome], rule outcome_return, goal_cases)
    case (1 gone es)
    then obtain e where e: "es = [e]" "observing e" "deletionsOf e = []" "gone \<longrightarrow> seenGone n (wg ! i) e" by blast
    show ?case
    proof (cases gone)
      case True
      with e have "\<forall>d \<in> set wg. d \<in> set ?rest \<or> seenGone n d e" using members by blast
      with True e(1-3) sub show ?thesis by (simp add: waits_def)
    qed (use e in \<open>simp add: waits_def\<close>)
  qed
qed (simp add: poll_def outcome_return)

lemma fold_poll_outcome: "outcome (fold_io (poll E n) is wg) (\<lambda>wg' es. waits n wg wg' es)"
proof (induction "is" arbitrary: wg)
  case Nil
  show ?case by (auto intro!: outcome_return)
next
  case (Cons i "is")
  show ?case
    unfolding fold_io.simps
    by (rule outcome_call [OF poll_outcome], rule outcome_mono [OF Cons.IH]) (rule waits_trans)
qed

lemma runWaiters_outcome: "outcome (runWaiters E n wg) (\<lambda>wg' es. waits n wg wg' es)"
  unfolding runWaiters_def by (auto intro!: outcome_bind [of "ask _"] outcome_ask fold_poll_outcome)

text \<open>
  Deleting: everything listed is deleted, one by one, up to the first error; what is in the wait group
  afterwards has been deleted, and what is not any more has been seen gone.
\<close>

definition tracks :: "string \<Rightarrow> deletion list \<Rightarrow> deletion list \<Rightarrow> deletion list \<Rightarrow> event list \<Rightarrow> bool" where
  "tracks n ds wg wg' es \<longleftrightarrow>
     (\<forall>d \<in> set ds. deleted es d) \<and> set wg' \<subseteq> set wg \<union> set ds \<and>
     (\<forall>d \<in> set wg \<union> set ds. d \<in> set wg' \<or> (\<exists>e \<in> set es. seenGone n d e))"

lemma deleted_append: "deleted xs d \<Longrightarrow> deleted (xs @ ys) d" "deleted ys d \<Longrightarrow> deleted (xs @ ys) d"
  by (auto simp: deleted_def split: deletion.splits)

lemma tracks_trans: "tracks n a wg wg1 xs \<Longrightarrow> tracks n b wg1 wg2 ys \<Longrightarrow> tracks n (a @ b) wg wg2 (xs @ ys)"
  unfolding tracks_def using deleted_append by (auto simp: subset_iff) blast+

lemma tracks_step:
  assumes "deleted [e] d" "waits n (wg @ [d]) wg1 es"
  shows "tracks n [d] wg wg1 (e # es)"
  using assms deleted_append(1) [OF assms(1), of es] by (auto simp: tracks_def waits_def)

lemma tracks_Cons:
  assumes "deleted [e] d" "waits n (wg @ [d]) wg1 es" "tracks n ds wg1 wg2 es'"
  shows "tracks n (d # ds) wg wg2 (e # es @ es')"
  using tracks_trans [OF tracks_step [OF assms(1,2)] assms(3)] by simp

definition deletes :: "event \<Rightarrow> bool" where
  "deletes e \<longleftrightarrow> observing e \<or> effectOf e = CleansUp"

lemma deletes_within: "list_all deletes es \<Longrightarrow> within {CleansUp} es"
  by (auto simp: deletes_def within_def list_all_iff effectOf_observing)

lemma waits_deletes: "waits n a b es \<Longrightarrow> list_all deletes es \<and> asked es = []"
  by (auto simp: waits_def deletes_def list_all_iff)

lemma deleteDogus_outcome:
  "outcome (deleteDogus E n ds wg) (\<lambda>res es. list_all deletes es \<and> asked es = [] \<and>
     (\<forall>wg'. res = Inr wg' \<longrightarrow> tracks n (List.map (\<lambda>d. DoguDeletion (o_name d)) ds) wg wg' es))"
proof (induction ds arbitrary: wg)
  case Nil
  show ?case by (auto intro!: outcome_return simp: tracks_def)
next
  case (Cons d ds)
  have del: "deleted [OnDogu (Delete d PropagationForeground (Inr ()))] (DoguDeletion (o_name d))"
    by (auto simp: deleted_def)
  show ?case
    unfolding deleteDogus.simps
  proof (rule outcome_bind, rule outcome_apiDelete, goal_cases)
    case (1 r)
    show ?case
    proof (cases r)
      case (Inr u)
      show ?thesis
        unfolding Inr sum.case
        by (rule outcome_call [OF runWaiters_outcome], rule outcome_mono [OF Cons.IH])
          (auto dest: waits_deletes intro: tracks_Cons [OF del] simp: deletes_def [of "OnDogu _"])
    qed (auto intro!: outcome_return simp: deletes_def)
  qed
qed

lemma deleteResources_outcome:
  "outcome (deleteResources E n k xs wg) (\<lambda>res es. list_all deletes es \<and> asked es = [] \<and>
     (\<forall>wg'. res = Inr wg' \<longrightarrow> tracks n (List.map (\<lambda>x. ResourceDeletion k (o_name x)) xs) wg wg' es))"
proof (induction xs arbitrary: wg)
  case Nil
  show ?case by (auto intro!: outcome_return simp: tracks_def)
next
  case (Cons x xs)
  have del: "deleted [OnAdditional k (Delete x PropagationForeground (Inr ()))] (ResourceDeletion k (o_name x))"
    by (auto simp: deleted_def)
  show ?case
    unfolding deleteResources.simps
  proof (rule outcome_bind, rule outcome_apiDelete, goal_cases)
    case (1 r)
    show ?case
    proof (cases r)
      case (Inr u)
      show ?thesis
        unfolding Inr sum.case
        by (rule outcome_call [OF runWaiters_outcome], rule outcome_mono [OF Cons.IH])
          (auto dest: waits_deletes intro: tracks_Cons [OF del] simp: deletes_def [of "OnAdditional _ _"])
    qed (auto intro!: outcome_return simp: deletes_def)
  qed
qed

section \<open>What a cleanup has done\<close>

lemma cleanupDogus_outcome:
  "outcome (cleanupDogus E n wg) (\<lambda>res es. list_all deletes es \<and>
     (\<forall>wg'. res = Inr wg' \<longrightarrow> tracks n (asked es) wg wg' es \<and>
        (\<exists>ds. OnDogu (ListIn n [] (Inr ds)) \<in> set es)))"
  unfolding cleanupDogus_def
proof (rule outcome_bind, rule outcome_apiList, goal_cases)
  case (1 r)
  show ?case
  proof (cases r)
    case (Inr ds)
    have skip: "tracks n a wg wg' (OnDogu (ListIn n [] (Inr ds)) # es)" if "tracks n a wg wg' es" for a wg' es
      using tracks_trans [of n "[]" wg wg "[OnDogu (ListIn n [] (Inr ds))]", OF _ that] by (simp add: tracks_def)
    show ?thesis
      unfolding Inr sum.case
      by (rule outcome_mono [OF deleteDogus_outcome]) (auto simp: deletes_def [of "OnDogu _"] intro: skip)
  qed (auto intro!: outcome_return simp: deletes_def)
qed

definition listed :: "string \<Rightarrow> string \<Rightarrow> event list \<Rightarrow> bool" where
  "listed n k es \<longleftrightarrow> (\<exists>xs. OnAdditional k (ListIn n [backupScopeLabelKey] (Inr xs)) \<in> set es)"

lemma listed_simps [simp]:
  "listed n k (OnAdditional k (ListIn n [backupScopeLabelKey] (Inr xs)) # es)"
  "listed n k es \<Longrightarrow> listed n k (e # es)" "listed n k ys \<Longrightarrow> listed n k (es @ ys)"
  "listed n k es \<Longrightarrow> listed n k (es @ ys)"
  by (auto simp: listed_def)

lemma cleanupResources_outcome:
  "outcome (cleanupResources E n ks wg) (\<lambda>res es. list_all deletes es \<and>
     (\<forall>wg'. res = Inr wg' \<longrightarrow> tracks n (asked es) wg wg' es \<and>
        (\<forall>k \<in> set ks. listed n k es)))"
proof (induction ks arbitrary: wg)
  case Nil
  show ?case by (auto intro!: outcome_return simp: tracks_def)
next
  case (Cons k ks)
  show ?case
    unfolding cleanupResources.simps
  proof (rule outcome_bind, rule outcome_apiList, goal_cases)
    case (1 r)
    show ?case
    proof (cases r)
      case (Inr xs)
      let ?l = "OnAdditional k (ListIn n [backupScopeLabelKey] (Inr xs))"
      show ?thesis
        unfolding Inr sum.case
      proof (rule outcome_call [OF deleteResources_outcome], goal_cases)
        case (1 res es)
        show ?case
        proof (cases res)
          case (Inr wg1)
          with 1 have t: "tracks n (deletionsOf ?l) wg wg1 (?l # es)"
            using tracks_trans [of n "[]" wg wg "[?l]" "deletionsOf ?l" wg1 es] by (simp add: tracks_def)
          show ?thesis
            unfolding Inr sum.case
          proof (rule outcome_mono [OF Cons.IH], goal_cases)
            case (1 res' es')
            with t \<open>list_all deletes es \<and> asked es = [] \<and> _\<close> show ?case
              using tracks_trans [OF t] by (auto simp: deletes_def [of ?l])
          qed
        qed (use 1 in \<open>auto intro!: outcome_return simp: deletes_def [of ?l]\<close>)
      qed
    qed (auto intro!: outcome_return simp: deletes_def)
  qed
qed

text \<open>A complete cleanup: everything was listed, all of it deleted and seen gone.\<close>

definition listedAll :: "string \<Rightarrow> event list \<Rightarrow> bool" where
  "listedAll n es \<longleftrightarrow> (\<exists>ds. OnDogu (ListIn n [] (Inr ds)) \<in> set es) \<and>
     (\<forall>k \<in> set sortedKeys. listed n k es)"

definition cleanedUp :: "string \<Rightarrow> event list \<Rightarrow> bool" where
  "cleanedUp n es \<longleftrightarrow> listedAll n es \<and>
     (\<forall>d \<in> set (asked es). deleted es d \<and> (\<exists>e \<in> set es. seenGone n d e))"

text \<open>
  A \<^verbatim>\<open>select\<close> that is blocked when the deadline passes takes that case, before the goroutines have
  given up. (Only if the deadline passed just before the \<^verbatim>\<open>select\<close> was reached could the other case be
  ready as well, and be taken.)
\<close>

definition deadlineWins :: "'s env \<Rightarrow> bool" where
  "deadlineWins E \<longleftrightarrow> (\<forall>s. \<not> fst (selectsFirst E s))"

lemma awaitDeletions_outcome:
  "outcome (awaitDeletions E n wg) (\<lambda>res es. list_all deletes es \<and> asked es = [] \<and>
     (deadlineWins E \<and> res = None \<longrightarrow> (\<exists>es'. es' = es \<and> waits n wg [] es')))"
  unfolding awaitDeletions_def
proof (rule outcome_call [OF runWaiters_outcome], rule outcome_bind, rule outcome_ask, goal_cases)
  case (1 wg' es expired)
  have pick: "outcome (ask (selectsFirst E)) (\<lambda>a es'. es' = [] \<and> (deadlineWins E \<longrightarrow> \<not> a))"
    by (auto simp: outcome_def ask_def deadlineWins_def split: prod.splits) (metis fst_conv)
  from waits_deletes [OF 1] 1 show ?case
    by (auto intro!: outcome_return outcome_call [OF pick])
qed

lemma Cleanup_outcome:
  "outcome (Cleanup E n) (\<lambda>res es. list_all deletes es \<and>
     (deadlineWins E \<and> res = None \<longrightarrow> cleanedUp n es))"
  unfolding Cleanup_def
proof (rule outcome_call [OF cleanupDogus_outcome], goal_cases)
  case (1 r1 es1)
  show ?case
  proof (cases r1)
    case (Inr wg1)
    with 1 have dogus: "list_all deletes es1" "tracks n (asked es1) [] wg1 es1"
      "\<exists>ds. OnDogu (ListIn n [] (Inr ds)) \<in> set es1" by auto
    show ?thesis
      unfolding Inr sum.case cleanupAdditionalResources_def
    proof (rule outcome_call [OF cleanupResources_outcome], goal_cases)
      case (1 r2 es2)
      show ?case
      proof (cases r2)
        case (Inr wg2)
        with 1 have res: "list_all deletes es2" "tracks n (asked es2) wg1 wg2 es2"
          "\<forall>k \<in> set sortedKeys. listed n k es2" by auto
        have all: "tracks n (asked (es1 @ es2)) [] wg2 (es1 @ es2)"
          using tracks_trans [OF dogus(2) res(2)] by simp
        show ?thesis
          unfolding Inr sum.case
        proof (rule outcome_mono [OF awaitDeletions_outcome], goal_cases)
          case (1 r3 es3)
          have "cleanedUp n (es1 @ es2 @ es3)" if "waits n wg2 [] es3"
          proof -
            have "tracks n [] wg2 [] es3" using that by (auto simp: tracks_def waits_def)
            from tracks_trans [OF all this] have "tracks n (asked (es1 @ es2 @ es3)) [] [] (es1 @ es2 @ es3)"
              using 1 by simp
            then show ?thesis
              using dogus(3) res(3) by (auto simp: cleanedUp_def listedAll_def tracks_def)
          qed
          with 1 dogus(1) res(1) show ?case by auto
        qed
      qed (use 1 dogus in \<open>auto intro!: outcome_return\<close>)
    qed
  qed (use 1 in \<open>auto intro!: outcome_return\<close>)
qed

interpretation default_cleanup: cleanup_manager "Cleanup E n" for E n
  by unfold_locales (rule outcome_mono [OF Cleanup_outcome], auto intro: deletes_within)

section \<open>Properties\<close>

text \<open>
  C30: When the deadline is noticed, a cleanup that succeeds has listed all dogus of the namespace and
  all config maps, volume claims and secrets in the backup scope, has deleted every one of them, and
  has then seen every one of them gone; and it never does anything but list, read and delete.
\<close>

theorem cleanup_success_means_gone:
  assumes "deadlineWins E"
  shows "outcome (Cleanup E n) (\<lambda>res es. list_all deletes es \<and> (res \<noteq> None \<or> cleanedUp n es))"
  by (rule outcome_mono [OF Cleanup_outcome]) (use assms in auto)

text \<open>A cluster with one dogu; each deletion is followed by polls.\<close>

definition demoDogu :: dogu where
  "demoDogu = newMeta ''ns'' ''cas''"

definition pollingEnv :: "bool \<Rightarrow> cluster env" where
  "pollingEnv first = clusterEnv\<lparr>polls := \<lambda>s. ([0, 0], s), selectsFirst := \<lambda>s. (first, s)\<rparr>"

definition doguCluster :: cluster where
  "doguCluster = (emptyCluster 0)\<lparr>cl_dogus := [((''ns'', ''cas''), demoDogu)]\<rparr>"

lemmas cleanup_run_defs = Cleanup_def cleanupDogus_def cleanupAdditionalResources_def sortedKeys_def
  awaitDeletions_def runWaiters_def poll_def observeDoguGone_def apiGet_def apiList_def apiDelete_def
  doguCluster_def demoDogu_def pollingEnv_def clusterEnv_def tableResource_def emptyCluster_def newMeta_def

theorem cleanup_success_means_gone_witness:
  "result (Cleanup (pollingEnv False) ''ns'') \<lparr>outside = doguCluster, log = []\<rparr> = None \<and>
   cleanedUp ''ns'' (events (Cleanup (pollingEnv False) ''ns'') \<lparr>outside = doguCluster, log = []\<rparr>)"
proof -
  have "result (Cleanup (pollingEnv False) ''ns'') \<lparr>outside = doguCluster, log = []\<rparr> = None"
    by (simp add: result_def run_simps cleanup_run_defs Let_def cong: bind_cong_weak del: run_state_bind)
  moreover have "deadlineWins (pollingEnv False)" by (simp add: deadlineWins_def pollingEnv_def)
  ultimately show ?thesis
    using outcomeD [OF cleanup_success_means_gone [of "pollingEnv False" "''ns''"]] by blast
qed

end
