(* ===== verification/RestoreStages.thy ===== *)
theory RestoreStages
  imports RestoreWorkflow Cleanup
begin

text \<open>
  What the stages of the restore reconciler do, stage by stage: the effects a stage can have, and what
  is known of the restore and of the log when it lets the workflow go on. The reconciler is taken with
  any scale manager and any cleanup that keep to their interfaces (locale \<open>restore_managers\<close>).
\<close>

section \<open>The resolver interface on the restore resolver\<close>

definition restoreObserved :: "string \<Rightarrow> string \<Rightarrow> api_error + restore option \<Rightarrow> event" where
  "restoreObserved n nm a = OnRestore (Get (n, nm)
     (case a of Inl e \<Rightarrow> Inl e | Inr None \<Rightarrow> Inl (ApiError NotFound []) | Inr (Some r) \<Rightarrow> Inr r))"

interpretation restore_holder: holder_resolver "restoreHolderResolver E" restoreObserved for E
  by unfold_locales
    (auto simp: restoreHolderResolver_def restoreObserved_def intro!: outcome_intro split: sum.splits)

lemma restoreHolderResolver_simps [simp]:
  "rv_kind (restoreHolderResolver E) = restoreLeaseHolderKind"
  "rv_isTerminal (restoreHolderResolver E) = isTerminal E"
  by (simp_all add: restoreHolderResolver_def)

lemma restoreLeaseManager_simps [simp]:
  "m_resolvers (restoreLeaseManager c) = [restoreLeaseHolderKind \<mapsto> restoreHolderResolver (rr_client c)]"
  "leaseKey (restoreLeaseManager c) = (rr_namespace c, DefaultName)"
  by (simp_all add: restoreLeaseManager_def restoreLeaseName_def)

lemmas restore_acquire_answers = restore_holder.Acquire_answers
  [of "restoreLeaseManager c" "rr_client c" for c, simplified]

lemmas restore_acquire_writes = restore_holder.Acquire_writes
  [of "restoreLeaseManager c" "rr_client c" for c, simplified]

lemmas restore_release = Release_deletes_own_lease
  [of "restoreLeaseManager c" r restoreLeaseHolderKind for c r, simplified]

section \<open>Contracts\<close>

definition restoreContract ::
    "effect set \<Rightarrow> (restore \<Rightarrow> restore \<Rightarrow> event list \<Rightarrow> bool) \<Rightarrow> 's restore_stage \<Rightarrow> bool" where
  "restoreContract A N s \<longleftrightarrow> (\<forall>r. outcome (s r) (\<lambda>(r', so) es.
     within A es \<and> (so_action so = actionNext \<longrightarrow> N r r' es)))"

abbreviation unchanged :: "restore \<Rightarrow> restore \<Rightarrow> event list \<Rightarrow> bool" where
  "unchanged \<equiv> \<lambda>r r' es. r' = r"

abbreviation never :: "restore \<Rightarrow> restore \<Rightarrow> event list \<Rightarrow> bool" where
  "never \<equiv> \<lambda>r r' es. False"

lemma outcome_setConditions:
  assumes "\<And>e es. within {UpdatesRestoreStatus} es \<Longrightarrow> Q (Inl e) es"
    and "\<And>r' es. within {UpdatesRestoreStatus} es \<Longrightarrow> r' = r \<or> list_ex (answered r') es \<Longrightarrow> Q (Inr r') es"
  shows "outcome (setConditions E r cs) Q"
proof (rule outcome_mono [OF setConditions_outcome [OF applyConditions_statusOnly]], goal_cases)
  case (1 res es)
  then have w: "within {UpdatesRestoreStatus} es" using statusWrites_within by blast
  show ?case
  proof (cases res)
    case (Inr r')
    with 1 have "r' = r \<or> list_ex (answered r') es"
      by (auto simp: persisted_def givenOrRead_def answered_def list_ex_iff)
    with w Inr assms(2) show ?thesis by simp
  qed (use w assms(1) in simp)
qed

text \<open>A stage that writes and stops.\<close>

lemma outcome_finishWith:
  assumes "\<And>e es. within {UpdatesRestoreStatus} es \<Longrightarrow> Q (r, retryOnError e) es"
    and "\<And>r' es. within {UpdatesRestoreStatus} es \<Longrightarrow> Q (r', so) es"
  shows "outcome (finishWith E r cs m so) Q"
  unfolding finishWith_def
  by (rule outcome_bind, rule outcome_setConditions) (auto intro!: outcome_return assms)

lemma within_ex [simp]: "within {} es \<Longrightarrow> within A es"
  by (auto simp: within_def)

lemma within_insert: "within {a} es \<Longrightarrow> a \<in> A \<Longrightarrow> within A es"
  by (auto simp: within_def)

section \<open>Stages on conditions and metadata\<close>

text \<open>A migrated restore is the given one or one the API server answered in this run.\<close>

lemma legacyMigrated_contract:
  "restoreContract {UpdatesRestoreStatus} (\<lambda>r r' es. r' = r \<or> list_ex (answered r') es)
     (ensureLegacyConditionsMigrated c)"
  unfolding restoreContract_def ensureLegacyConditionsMigrated_def setConditionsFromLegacyStatus_def
  by (auto intro!: outcome_bind outcome_return outcome_setConditions split: option.splits)

lemma conditionsInitialized_contract:
  "restoreContract {UpdatesRestoreStatus} unchanged (ensureRestoreConditionsInitialized c)"
  unfolding restoreContract_def ensureRestoreConditionsInitialized_def Let_def
  by (auto intro!: outcome_return outcome_finishWith)

text \<open>Metadata that needs no write leaves everything but the finalizers alone.\<close>

definition sameRestore :: "restore \<Rightarrow> restore \<Rightarrow> bool" where
  "sameRestore r r' \<longleftrightarrow> r' = r\<lparr>o_finalizers := o_finalizers r'\<rparr>"

lemma sameRestore_simps:
  assumes "sameRestore r r'"
  shows "re_status r' = re_status r" "keyOf r' = keyOf r" "o_uid r' = o_uid r"
    "o_deletion r' = o_deletion r" "re_backupName r' = re_backupName r"
proof -
  have r': "r' = r\<lparr>o_finalizers := o_finalizers r'\<rparr>" using assms unfolding sameRestore_def .
  show "re_status r' = re_status r" by (subst r') simp
  show "keyOf r' = keyOf r" by (subst (1 2) r') simp
  show "o_uid r' = o_uid r" by (subst r') simp
  show "o_deletion r' = o_deletion r" by (subst r') simp
  show "re_backupName r' = re_backupName r" by (subst r') simp
qed

lemma metadata_contract:
  "restoreContract {UpdatesRestore} (\<lambda>r r' es. sameRestore r r') (ensureMetadata c)"
  unfolding restoreContract_def ensureMetadata_def ensureRestoreMetadata_def Let_def applyLabels_def
  by (auto intro!: outcome_intro split: prod.splits sum.splits bool.splits simp: sameRestore_def)

section \<open>Lease stages\<close>

definition sawOwnRestoreLease :: "'s restoreReconciler \<Rightarrow> restore \<Rightarrow> event \<Rightarrow> bool" where
  "sawOwnRestoreLease c r e \<longleftrightarrow>
     (\<exists>l. e = OnLease (Get (rr_namespace c, DefaultName) (Inr l)) \<and> IsHolder l r restoreLeaseHolderKind)"

definition sawRestoreLeaseGone :: "'s restoreReconciler \<Rightarrow> restore \<Rightarrow> event \<Rightarrow> bool" where
  "sawRestoreLeaseGone c r e \<longleftrightarrow>
     (\<exists>x. e = OnLease (Get (rr_namespace c, DefaultName) (Inl x)) \<and> isNotFound x) \<or>
     (\<exists>l. e = OnLease (Get (rr_namespace c, DefaultName) (Inr l)) \<and> \<not> IsHolder l r restoreLeaseHolderKind) \<or>
     (\<exists>l opts. e = OnLease (Delete l opts (Inr ()))) \<or>
     (\<exists>l opts x. e = OnLease (Delete l opts (Inl x)) \<and> isNotFound x)"

lemma continueWithAcquiredLease_outcome:
  "outcome (continueWithAcquiredLease c r) (\<lambda>(r', so) es. within {UpdatesRestoreStatus} es \<and>
     (so_action so = actionNext \<longrightarrow> r' = r))"
  unfolding continueWithAcquiredLease_def
  by (auto intro!: outcome_return outcome_bind outcome_setConditions split: option.splits)

lemma reportWaitingForLease_outcome:
  "outcome (reportWaitingForLease c h r) (\<lambda>(r', so) es. within {UpdatesRestoreStatus} es \<and>
     so_action so \<noteq> actionNext)"
  unfolding reportWaitingForLease_def Let_def
  by (auto intro!: outcome_return outcome_bind outcome_setConditions)

lemma reportInvalidRestoreLease_outcome:
  "outcome (reportInvalidRestoreLease c r) (\<lambda>(r', so) es. within {UpdatesRestoreStatus} es \<and>
     so_action so \<noteq> actionNext)"
  unfolding reportInvalidRestoreLease_def Let_def UpdateInvalidLeaseTotalMetric_def
  by (auto intro!: outcome_return outcome_bind outcome_metricAdd outcome_setConditions)

lemma lease_effects:
  assumes "\<forall>e \<in> set es. observing e \<or> (\<exists>l u. e = OnLease (Create l u) \<or> e = OnLease (Update l u))"
  shows "within {ClaimsLease} es"
  using assms by (auto simp: within_def effectOf_observing)

lemma activeLease_contract:
  "restoreContract {UpdatesRestoreStatus, ClaimsLease} (\<lambda>r r' es. r' = r \<and>
     (requiredRestoreOperation (rr_client c) r \<noteq> restoreOperationCreate \<or> list_ex (sawOwnRestoreLease c r) es))
     (ensureActiveRestoreLease c)"
  unfolding restoreContract_def
proof
  fix r
  show "outcome (ensureActiveRestoreLease c r) (\<lambda>(r', so) es. within {UpdatesRestoreStatus, ClaimsLease} es \<and>
      (so_action so = actionNext \<longrightarrow> r' = r \<and> (requiredRestoreOperation (rr_client c) r \<noteq> restoreOperationCreate \<or>
        list_ex (sawOwnRestoreLease c r) es)))"
  proof (cases "requiredRestoreOperation (rr_client c) r = restoreOperationCreate")
    case True
    show ?thesis
      unfolding ensureActiveRestoreLease_def if_not_P [OF notI [OF notE [OF _ True]]]
    proof (simp add: True, rule outcome_call [OF outcome_conj [OF restore_acquire_writes restore_acquire_answers]], goal_cases)
      case (1 res es)
      then have w: "within {ClaimsLease} es" using lease_effects by blast
      then have w': "within {UpdatesRestoreStatus, ClaimsLease} es" by (rule within_mono) simp
      have more: "within {UpdatesRestoreStatus, ClaimsLease} es'" if "within {UpdatesRestoreStatus} es'" for es'
        using that by (rule within_mono) simp
      show ?case
      proof (cases res)
        case (Inr a)
        with 1 have held: "lr_state a = StateHeld \<longrightarrow> list_ex (sawOwnRestoreLease c r) es"
          by (auto simp: sawOwnRestoreLease_def)
        show ?thesis
          unfolding Inr sum.case
          by (cases "lr_state a")
            (use w' held more in \<open>auto intro!: outcome_intro outcome_mono [OF continueWithAcquiredLease_outcome]
              outcome_mono [OF reportWaitingForLease_outcome] outcome_mono [OF reportInvalidRestoreLease_outcome]\<close>)
      qed (use w' in \<open>auto intro!: outcome_return\<close>)
    qed
  qed (auto simp: ensureActiveRestoreLease_def intro!: outcome_return)
qed

lemma leaseReleased_contract:
  "restoreContract {ReleasesLease} (\<lambda>r r' es. r' = r \<and> list_ex (sawRestoreLeaseGone c r) es)
     (ensureRestoreLeaseReleased c)"
  unfolding restoreContract_def
proof
  fix r
  show "outcome (ensureRestoreLeaseReleased c r) (\<lambda>(r', so) es. within {ReleasesLease} es \<and>
      (so_action so = actionNext \<longrightarrow> r' = r \<and> list_ex (sawRestoreLeaseGone c r) es))"
    unfolding ensureRestoreLeaseReleased_def Release_def
    by (auto intro!: outcome_intro simp: sawRestoreLeaseGone_def restoreLeaseManager_def restoreLeaseName_def
        split: sum.splits if_splits)
qed

section \<open>The provider child\<close>

definition sawChild :: "restore \<Rightarrow> velero_restore \<Rightarrow> event \<Rightarrow> bool" where
  "sawChild r ch e \<longleftrightarrow> e = OnVeleroRestore (Get (keyOf r) (Inr ch))"

definition sawOwnChild :: "'s restoreReconciler \<Rightarrow> restore \<Rightarrow> event \<Rightarrow> bool" where
  "sawOwnChild c r e \<longleftrightarrow> (\<exists>ch. sawChild r ch e \<and> IsOwnedRestore (rr_client c) r ch)"

definition sawNoChild :: "restore \<Rightarrow> event \<Rightarrow> bool" where
  "sawNoChild r e \<longleftrightarrow> (\<exists>x. e = OnVeleroRestore (Get (keyOf r) (Inl x)) \<and> isNotFound x)"

abbreviation isPrepared :: "'s restoreReconciler \<Rightarrow> restore \<Rightarrow> bool" where
  "isPrepared c r \<equiv> isStatusConditionTrue (rr_client c) (restoreConditions r) ConditionPrepared"

abbreviation providerSucceeded :: "'s restoreReconciler \<Rightarrow> restore \<Rightarrow> bool" where
  "providerSucceeded c r \<equiv> isStatusConditionTrue (rr_client c) (restoreConditions r) ConditionProviderSucceeded"

lemma failOnProviderChildConflict_outcome:
  "outcome (failOnProviderChildConflict c r x) (\<lambda>(r', so) es. within {UpdatesRestoreStatus} es \<and>
     so_action so \<noteq> actionNext)"
  unfolding failOnProviderChildConflict_def
  by (auto intro!: outcome_bind [of "eventf _ _ _ _"] outcome_eventf outcome_finishWith)

lemma GetRestore_reads:
  "outcome (GetRestore E r) (\<lambda>res es. \<exists>got. es = [OnVeleroRestore (Get (keyOf r) got)] \<and>
     (res = Inr None \<longrightarrow> list_ex (sawNoChild r) es) \<and> (\<forall>ch. res = Inr (Some ch) \<longrightarrow> list_ex (sawChild r ch) es))"
  by (rule outcome_mono [OF GetRestore_outcome]) (auto simp: sawNoChild_def sawChild_def)

lemma providerChildState_contract:
  "restoreContract {UpdatesRestoreStatus} unchanged (ensureProviderChildState c)"
  unfolding restoreContract_def ensureProviderChildState_def
  by (auto intro!: outcome_return outcome_call [OF GetRestore_reads]
      outcome_mono [OF failOnProviderChildConflict_outcome] split: sum.splits option.splits)

lemma isAlreadyPrepared_outcome:
  "outcome (isAlreadyPrepared c r) (\<lambda>res es. list_all observing es \<and>
     (res = Inr True \<longrightarrow> isPrepared c r \<or> list_ex (sawOwnChild c r) es) \<and>
     (isPrepared c r \<longrightarrow> res = Inr True))"
  unfolding isAlreadyPrepared_def
  by (auto intro!: outcome_return outcome_call [OF GetRestore_reads] simp: sawOwnChild_def list_ex_iff
      split: sum.splits option.splits)

lemma observing_within: "list_all observing es \<Longrightarrow> within A es"
  by (rule within_observing) (simp add: list_all_iff)

section \<open>The provider gates\<close>

lemma reportUnreadyProvider_outcome:
  "outcome (reportUnreadyProvider c r rd) (\<lambda>(r', so) es. within {UpdatesRestoreStatus} es \<and>
     so_action so \<noteq> actionNext)"
  unfolding reportUnreadyProvider_def Let_def
  by (auto intro!: outcome_return outcome_bind outcome_setConditions outcome_eventf split: sum.splits)

lemma CheckReady_within: "outcome (CheckReady E n s d) (\<lambda>res es. within A es)"
  by (rule outcome_mono [OF CheckReady_outcome]) (auto intro: within_observing)

lemma isAlreadyPrepared_within:
  "outcome (isAlreadyPrepared c r) (\<lambda>res es. within A es \<and>
     (res = Inr True \<longrightarrow> isPrepared c r \<or> list_ex (sawOwnChild c r) es) \<and>
     (isPrepared c r \<longrightarrow> res = Inr True))"
  by (rule outcome_mono [OF isAlreadyPrepared_outcome]) (auto intro: observing_within)

lemma providerReady_contract:
  "restoreContract {UpdatesRestoreStatus} unchanged (ensureProviderReady c)"
  unfolding restoreContract_def
proof
  fix r
  show "outcome (ensureProviderReady c r) (\<lambda>(r', so) es. within {UpdatesRestoreStatus} es \<and>
      (so_action so = actionNext \<longrightarrow> r' = r))"
    unfolding ensureProviderReady_def
  proof (rule outcome_call [OF isAlreadyPrepared_within [where A = "{UpdatesRestoreStatus}"]], goal_cases)
    case (1 prepared es)
    then have w: "within {UpdatesRestoreStatus} es" by simp
    consider e where "prepared = Inl e" | "prepared = Inr True" | (check) "prepared = Inr False"
      by (cases prepared) auto
    then show ?case
    proof cases
      case check
      show ?thesis
        unfolding check sum.case bool.case
      proof (rule outcome_call [OF CheckReady_within [where A = "{UpdatesRestoreStatus}"]], goal_cases)
        case (1 res es')
        then show ?case
          by (cases res) (use w in \<open>auto intro!: outcome_return outcome_mono [OF reportUnreadyProvider_outcome]
            outcome_bind [of "eventf _ _ _ _"] outcome_eventf\<close>)
      qed
    qed (use w in \<open>auto intro!: outcome_return\<close>)
  qed
qed

definition sawUsableBackup :: "restore \<Rightarrow> event \<Rightarrow> bool" where
  "sawUsableBackup r e \<longleftrightarrow> (\<exists>v. e = OnVeleroBackup (Get (o_namespace r, re_backupName r) (Inr v)) \<and>
     vb_phase v \<in> {BackupPhaseCompleted, BackupPhasePartiallyFailed})"

lemma CheckSourceBackup_within:
  "outcome (CheckSourceBackup E (o_namespace r) (re_backupName r)) (\<lambda>res es. within A es \<and>
     (\<forall>x. res = Inr x \<and> sb_usable x \<longrightarrow> list_ex (sawUsableBackup r) es))"
  by (rule outcome_mono [OF CheckSourceBackup_outcome]) (auto simp: sawUsableBackup_def)

lemma failOnUnusableSourceBackup_outcome:
  "outcome (failOnUnusableSourceBackup c r x) (\<lambda>(r', so) es. within {UpdatesRestoreStatus} es \<and>
     so_action so \<noteq> actionNext)"
  unfolding failOnUnusableSourceBackup_def
  by (auto intro!: outcome_bind [of "eventf _ _ _ _"] outcome_eventf outcome_finishWith)

definition preparationAllowed :: "'s restoreReconciler \<Rightarrow> restore \<Rightarrow> event \<Rightarrow> bool" where
  "preparationAllowed c r e \<longleftrightarrow> sawUsableBackup r e \<or> sawOwnChild c r e"

lemma preparationAllowed_intros:
  "list_ex (sawUsableBackup r) es \<Longrightarrow> list_ex (preparationAllowed c r) es"
  "list_ex (sawOwnChild c r) es \<Longrightarrow> list_ex (preparationAllowed c r) es"
  by (auto simp: preparationAllowed_def list_ex_iff)

lemma sourceBackupUsable_contract:
  "restoreContract {UpdatesRestoreStatus} (\<lambda>r r' es. r' = r \<and>
     (isPrepared c r \<or> list_ex (preparationAllowed c r) es)) (ensureSourceBackupUsable c)"
  unfolding restoreContract_def
proof
  fix r
  show "outcome (ensureSourceBackupUsable c r) (\<lambda>(r', so) es. within {UpdatesRestoreStatus} es \<and>
      (so_action so = actionNext \<longrightarrow> r' = r \<and> (isPrepared c r \<or> list_ex (preparationAllowed c r) es)))"
    unfolding ensureSourceBackupUsable_def
  proof (rule outcome_call [OF isAlreadyPrepared_within [where A = "{UpdatesRestoreStatus}"]], goal_cases)
    case (1 prepared es)
    then have w: "within {UpdatesRestoreStatus} es" by simp
    consider e where "prepared = Inl e" | (prepared) "prepared = Inr True" | (check) "prepared = Inr False"
      by (cases prepared) auto
    then show ?case
    proof cases
      case prepared
      with 1 show ?thesis by (auto intro!: outcome_return dest: preparationAllowed_intros)
    next
      case check
      show ?thesis
        unfolding check sum.case bool.case
      proof (rule outcome_call [OF CheckSourceBackup_within [where A = "{UpdatesRestoreStatus}"]], goal_cases)
        case (1 res es')
        then show ?case
          by (cases res) (use w in \<open>auto intro!: outcome_return
            outcome_mono [OF failOnUnusableSourceBackup_outcome] dest: preparationAllowed_intros\<close>)
      qed
    qed (use w in \<open>auto intro!: outcome_return\<close>)
  qed
qed

lemma maintenanceModeActivated_contract:
  "restoreContract {MaintenanceOn} unchanged (ensureMaintenanceModeActivated c)"
  unfolding restoreContract_def ensureMaintenanceModeActivated_def
  by (auto intro!: outcome_intro split: sum.splits)

section \<open>The provider restore\<close>

fun createsChild :: "velero_restore \<Rightarrow> event \<Rightarrow> bool" where
  "createsChild v (OnVeleroRestore (Create x r)) \<longleftrightarrow> x = v"
| "createsChild v e = False"

lemma EnsureRestore_within:
  "outcome (EnsureRestore E r) (\<lambda>res es. within {CreatesProviderRestore} es)"
  unfolding EnsureRestore_def GetRestore_def
  by (auto intro!: outcome_intro split: sum.splits option.splits)

lemma providerRestore_contract:
  "restoreContract {UpdatesRestoreStatus, CreatesProviderRestore} (\<lambda>r r' es. r' = r \<and>
     (providerSucceeded c r \<or> (\<exists>ch. list_ex (sawChild r ch) es))) (ensureProviderRestore c)"
  unfolding restoreContract_def
proof
  fix r
  have conflict: "outcome (failOnProviderChildConflict c r x) (\<lambda>(r', so) es.
      within {UpdatesRestoreStatus, CreatesProviderRestore} es \<and> so_action so \<noteq> actionNext)" for x
    by (rule outcome_mono [OF failOnProviderChildConflict_outcome]) (auto intro: within_insert)
  have ensure: "outcome (EnsureRestore (rr_client c) r)
      (\<lambda>res es. within {UpdatesRestoreStatus, CreatesProviderRestore} es)"
    by (rule outcome_mono [OF EnsureRestore_within]) (auto intro: within_insert)
  show "outcome (ensureProviderRestore c r) (\<lambda>(r', so) es.
      within {UpdatesRestoreStatus, CreatesProviderRestore} es \<and> (so_action so = actionNext \<longrightarrow> r' = r \<and>
        (providerSucceeded c r \<or> (\<exists>ch. list_ex (sawChild r ch) es))))"
  proof (cases "providerSucceeded c r")
    case True
    then show ?thesis by (auto simp: ensureProviderRestore_def intro!: outcome_return)
  next
    case False
    show ?thesis
      unfolding ensureProviderRestore_def if_not_P [OF False]
    proof (rule outcome_call [OF GetRestore_reads], goal_cases)
      case (1 got es)
      consider e where "got = Inl e" | ch where "got = Inr (Some ch)" | (absent) "got = Inr None"
        by (cases got) (auto simp: split_option_all)
      then show ?case
      proof cases
        case absent
        show ?thesis
          unfolding absent sum.case option.case
        proof (rule outcome_bind [of "eventf _ _ _ _"], rule outcome_eventf,
            rule outcome_call [OF ensure], goal_cases)
          case (1 res es')
          then show ?case
            using \<open>\<exists>got. es = [OnVeleroRestore (Get (keyOf r) got)] \<and> _\<close>
            by (auto intro!: outcome_return outcome_bind [of "eventf _ _ _ _"] outcome_eventf
                outcome_mono [OF conflict] split: sum.splits restore_error.splits)
        qed
      qed (use 1 in \<open>auto intro!: outcome_return\<close>)
    qed
  qed
qed

lemma failOnProviderRestore_outcome:
  "outcome (failOnProviderRestore c r ch reason) (\<lambda>(r', so) es.
     within {UpdatesRestoreStatus, MaintenanceOff} es \<and> so_action so \<noteq> actionNext)"
  unfolding failOnProviderRestore_def Let_def
  by (auto intro!: outcome_bind [of "eventf _ _ _ _"] outcome_eventf outcome_bind [of "switchDeactivate _"]
      switch_outcomes outcome_finishWith intro: within_insert)

lemma providerCompletion_contract:
  "restoreContract {UpdatesRestoreStatus, MaintenanceOff} (\<lambda>r r' es. r' = r \<and> providerSucceeded c r)
     (ensureProviderCompletion c)"
  unfolding restoreContract_def
proof
  fix r
  have finish: "outcome (finishWith E r cs m so) (\<lambda>(r', so') es. within {UpdatesRestoreStatus, MaintenanceOff} es \<and>
      so_action so' \<noteq> actionNext)" if "so_action so \<noteq> actionNext" for E cs m so
    using that by (auto intro!: outcome_finishWith intro: within_insert)
  show "outcome (ensureProviderCompletion c r) (\<lambda>(r', so) es.
      within {UpdatesRestoreStatus, MaintenanceOff} es \<and>
      (so_action so = actionNext \<longrightarrow> r' = r \<and> providerSucceeded c r))"
  proof (cases "providerSucceeded c r")
    case True
    then show ?thesis by (auto simp: ensureProviderCompletion_def intro!: outcome_return)
  next
    case False
    show ?thesis
      unfolding ensureProviderCompletion_def if_not_P [OF False]
    proof (rule outcome_call [OF GetRestore_reads], goal_cases)
      case (1 got es)
      then obtain x where es: "es = [OnVeleroRestore (Get (keyOf r) x)]" by blast
      consider e where "got = Inl e" | (child) ch where "got = Inr (Some ch)" | "got = Inr None"
        by (cases got) (auto simp: split_option_all)
      then show ?case
      proof cases
        case child
        show ?thesis
          unfolding child sum.case option.case es
          by (cases "observeProviderRestoreState (ObserveRestorePhase (vre_phase ch))")
            (auto intro!: outcome_bind [of "eventf _ _ _ _"] outcome_bind [of "now _"] outcome_eventf outcome_now
              outcome_mono [OF failOnProviderRestore_outcome] outcome_mono [OF finish] outcome_return
              outcome_bind [of "return _"])
      qed (use es in \<open>auto intro!: outcome_return\<close>)
    qed
  qed
qed

section \<open>Stages over the managers\<close>

locale restore_managers = scale: scale_manager "rr_scaleManager c" evidence + cleanup_manager "rr_cleanup c"
  for c :: "'s restoreReconciler" and evidence
begin

lemma reportFailedPreparation_outcome:
  "outcome (reportFailedPreparation c r e) (\<lambda>(r', so) es. within {UpdatesRestoreStatus} es \<and>
     so_action so \<noteq> actionNext)"
  unfolding reportFailedPreparation_def Let_def
  by (auto intro!: outcome_return outcome_bind outcome_setConditions outcome_eventf split: sum.splits)

lemma failRecovery_outcome:
  "outcome (failRecovery c r n e m f) (\<lambda>(r', so) es. within {UpdatesRestoreStatus} es \<and>
     so_action so \<noteq> actionNext)"
  unfolding failRecovery_def
  by (auto intro!: outcome_return outcome_bind outcome_setConditions outcome_eventf)

lemma preparation_contract:
  "restoreContract {UpdatesRestoreStatus, ScalesWorkload, CleansUp} (\<lambda>r r' es. r' = r \<and>
     (isPrepared c r \<or> list_ex (sawOwnChild c r) es)) (ensurePreparation c)"
  unfolding restoreContract_def
proof
  fix r
  let ?A = "{UpdatesRestoreStatus, ScalesWorkload, CleansUp}"
  have down: "outcome (sm_down (rr_scaleManager c)) (\<lambda>_ es. within ?A es)"
    by (rule outcome_mono [OF scale.down_within]) (auto intro: within_insert)
  have clean: "outcome (rr_cleanup c) (\<lambda>_ es. within ?A es)"
    by (rule outcome_mono [OF cleanup_within]) (auto intro: within_insert)
  have fail: "outcome (reportFailedPreparation c r e) (\<lambda>(r', so) es. within ?A es \<and> so_action so \<noteq> actionNext)" for e
    by (rule outcome_mono [OF reportFailedPreparation_outcome]) (auto intro: within_insert)
  have set: "outcome (setConditions E r cs) (\<lambda>_ es. within ?A es)" for E cs
    by (rule outcome_setConditions) (auto intro: within_insert)
  show "outcome (ensurePreparation c r) (\<lambda>(r', so) es. within ?A es \<and>
      (so_action so = actionNext \<longrightarrow> r' = r \<and> (isPrepared c r \<or> list_ex (sawOwnChild c r) es)))"
    unfolding ensurePreparation_def
  proof (rule outcome_call [OF isAlreadyPrepared_within [where A = ?A]], goal_cases)
    case (1 prepared es)
    then have w: "within ?A es" by simp
    consider e where "prepared = Inl e" | (prepared) "prepared = Inr True" | (prepare) "prepared = Inr False"
      by (cases prepared) auto
    then show ?case
    proof cases
      case prepared
      with 1 show ?thesis by (auto intro!: outcome_return)
    next
      case prepare
      show ?thesis
        unfolding prepare sum.case bool.case
      proof (rule outcome_bind [of "eventf _ _ _ _"], rule outcome_eventf, rule outcome_call [OF down], goal_cases)
        case (1 scaled es1)
        show ?case
        proof (cases scaled)
          case None
          show ?thesis
            unfolding None option.case
          proof (rule outcome_call [OF clean], goal_cases)
            case (1 cleaned es2)
            with w \<open>within ?A es1\<close> show ?case
              by (cases cleaned) (auto intro!: outcome_bind [of "eventf _ _ _ _"] outcome_eventf outcome_mono [OF fail]
                  outcome_call [OF set] outcome_return split: sum.split)
          qed
        qed (use w 1 in \<open>auto intro!: outcome_mono [OF fail]\<close>)
      qed
    qed (use w in \<open>auto intro!: outcome_return\<close>)
  qed
qed

text \<open>The recovery writes nothing but the status and, through the scale manager, the workloads.\<close>

lemma recovery_sets:
  "within {ScalesWorkload} es \<Longrightarrow> within {UpdatesRestoreStatus, ScalesWorkload} es"
  "within {UpdatesRestoreStatus} es \<Longrightarrow> within {UpdatesRestoreStatus, ScalesWorkload} es"
  by (auto intro: within_insert)

lemma scaleUpInitiated_contract:
  "restoreContract {UpdatesRestoreStatus, ScalesWorkload} unchanged (ensureScaleUpInitiated c)"
  unfolding restoreContract_def ensureScaleUpInitiated_def
  by (intro allI, rule outcome_call [OF scale.up_within])
    (auto intro!: outcome_return outcome_mono [OF failRecovery_outcome] outcome_finishWith
      intro: recovery_sets split: option.splits)

lemma scaleUpFinalized_contract:
  "restoreContract {UpdatesRestoreStatus, ScalesWorkload} unchanged (ensureScaleUpFinalized c)"
  unfolding restoreContract_def ensureScaleUpFinalized_def
  by (intro allI, rule outcome_call [OF scale.finalize_within])
    (auto intro!: outcome_return outcome_mono [OF failRecovery_outcome] outcome_finishWith
      intro: recovery_sets split: option.splits)

lemma workloadsReady_contract:
  "restoreContract {UpdatesRestoreStatus} (\<lambda>r r' es. r' = r \<and> list_ex evidence es) (ensureWorkloadsReady c)"
  unfolding restoreContract_def
proof
  fix r
  show "outcome (ensureWorkloadsReady c r) (\<lambda>(r', so) es. within {UpdatesRestoreStatus} es \<and>
      (so_action so = actionNext \<longrightarrow> r' = r \<and> list_ex evidence es))"
    unfolding ensureWorkloadsReady_def
  proof (rule outcome_call [OF outcome_conj [OF scale.ready_within [of "{UpdatesRestoreStatus}"] scale.ready_evidence]], goal_cases)
    case (1 ready es)
    consider e where "ready = Inl e" | "ready = Inr True" | "ready = Inr False"
      by (cases ready) auto
    then show ?case
      by cases (use 1 in \<open>auto simp: handleWorkloadsReady_def handleWorkloadsNotReady_def
        intro!: outcome_return outcome_finishWith\<close>)
  qed
qed

end

definition sawMaintenanceOff :: "event \<Rightarrow> bool" where
  "sawMaintenanceOff e \<longleftrightarrow> e = MaintenanceDeactivate False None"

lemma status_or_off: "within {UpdatesRestoreStatus} es \<Longrightarrow> within {UpdatesRestoreStatus, MaintenanceOff} es"
  by (auto intro: within_insert)

lemma maintenanceModeDeactivated_contract:
  "restoreContract {UpdatesRestoreStatus, MaintenanceOff}
     (\<lambda>r r' es. r' = r \<and> list_ex sawMaintenanceOff es) (ensureMaintenanceModeDeactivated c)"
  unfolding restoreContract_def ensureMaintenanceModeDeactivated_def
  by (auto intro!: outcome_bind [of "switchDeactivate _"] switch_outcomes outcome_bind [of "eventf _ _ _ _"]
      outcome_eventf outcome_return outcome_bind [of "setConditions _ _ _"] outcome_setConditions
      simp: sawMaintenanceOff_def split: option.splits) (auto intro: status_or_off)

lemma restoreCompleted_contract:
  "restoreContract {UpdatesRestoreStatus} never (ensureRestoreCompleted c)"
  unfolding restoreContract_def ensureRestoreCompleted_def
  by (auto intro!: outcome_return outcome_bind [of "setConditions _ _ _"] outcome_setConditions
      outcome_bind [of "eventf _ _ _ _"] outcome_eventf)

section \<open>Deletion\<close>

text \<open>Nothing is left to delete: the child is gone or is seen not to be this restore's.\<close>

definition migratedRestore :: "'s restoreReconciler \<Rightarrow> restore \<Rightarrow> bool" where
  "migratedRestore c r \<longleftrightarrow> (\<exists>cond. effectiveSuccessfulCondition (rr_client c) r = Some cond \<and>
     c_reason cond = ReasonMigratedFromLegacyStatus)"

definition childHandled :: "'s restoreReconciler \<Rightarrow> restore \<Rightarrow> event \<Rightarrow> bool" where
  "childHandled c r e \<longleftrightarrow> sawNoChild r e \<or>
     (\<exists>ch. sawChild r ch e \<and> \<not> IsOwnedRestore (rr_client c) r ch \<and> \<not> migratedRestore c r)"

lemma childHandled_intros:
  "list_ex (sawNoChild r) es \<Longrightarrow> list_ex (childHandled c r) es"
  "list_ex (sawChild r ch) es \<Longrightarrow> \<not> IsOwnedRestore (rr_client c) r ch \<Longrightarrow> \<not> migratedRestore c r \<Longrightarrow>
     list_ex (childHandled c r) es"
  by (auto simp: childHandled_def list_ex_iff)

lemma migratedRestore_case:
  "(case effectiveSuccessfulCondition (rr_client c) r of
      None \<Rightarrow> False | Some cond \<Rightarrow> c_reason cond = ReasonMigratedFromLegacyStatus) \<longleftrightarrow> migratedRestore c r"
  by (auto simp: migratedRestore_def split: option.splits)

lemma providerRestoreDeleted_contract:
  "restoreContract {DeletesProviderRestore} (\<lambda>r r' es. r' = r \<and> list_ex (childHandled c r) es)
     (ensureProviderRestoreDeleted c)"
  unfolding restoreContract_def
proof
  fix r
  show "outcome (ensureProviderRestoreDeleted c r) (\<lambda>(r', so) es. within {DeletesProviderRestore} es \<and>
      (so_action so = actionNext \<longrightarrow> r' = r \<and> list_ex (childHandled c r) es))"
    unfolding ensureProviderRestoreDeleted_def Let_def migratedRestore_case
  proof (rule outcome_call [OF GetRestore_reads], goal_cases)
    case (1 got es)
    then obtain x where es: "es = [OnVeleroRestore (Get (keyOf r) x)]" by blast
    consider e where "got = Inl e" | "got = Inr None" | (child) ch where "got = Inr (Some ch)"
      by (cases got) (auto simp: split_option_all)
    then show ?case
    proof cases
      case child
      show ?thesis
        unfolding child sum.case option.case
        by (auto intro!: outcome_return outcome_bind [of "eventf _ _ _ _"] outcome_eventf
            outcome_call [OF DeleteRestore_outcome] childHandled_intros(2) [of _ ch] split: option.splits)
          (use 1 child es in \<open>auto intro: childHandled_intros(2) [of _ ch]\<close>)
    qed (use 1 es in \<open>auto intro!: outcome_return childHandled_intros(1)\<close>)
  qed
qed

lemma deletingStatus_contract: "restoreContract {UpdatesRestoreStatus} unchanged (ensureDeletingStatus c)"
  unfolding restoreContract_def ensureDeletingStatus_def
  by (auto intro!: outcome_return outcome_finishWith)

lemma deletionFinalized_contract: "restoreContract {UpdatesRestore} never (ensureDeletionFinalized c)"
  unfolding restoreContract_def ensureDeletionFinalized_def removeRestoreFinalizer_def Let_def
  by (auto intro!: outcome_intro split: sum.splits prod.splits)

end
