(* ===== verification/ScaleProperties.thy ===== *)
theory ScaleProperties
  imports Scale
begin

text \<open>
  What scaling does: which workloads it touches, when the workloads count as ready, and, on a store of
  workloads, the refinement of each operation to a map over all workloads, from which the round trip
  follows: scaling down, up and finalizing leaves every workload as it was.
\<close>

section \<open>Readiness\<close>

text \<open>A workload at its target: the stored count while there is one, else the desired count.\<close>

definition atTarget :: "workload \<Rightarrow> bool" where
  "atTarget w \<longleftrightarrow> (case w_replicas w of None \<Rightarrow> False | Some n \<Rightarrow>
     (case o_labels w labelScaledownReplicas of None \<Rightarrow> True | Some v \<Rightarrow> parseInt 32 v = Inr n) \<and>
     o_generation w \<le> w_observedGeneration w \<and>
     w_statusReplicas w = n \<and> w_ready w = n \<and> w_available w = n)"

definition rolledOut :: "workload \<Rightarrow> bool" where
  "rolledOut w \<longleftrightarrow> w_updated w = w_statusReplicas w \<and> w_unavailable w = 0"

lemma targetReplicas_atTarget:
  "(\<exists>t. targetReplicasForReadiness (o_labels w) (w_replicas w) r (o_name w) = Inr t \<and>
      w_replicas w = Some t \<and> o_generation w \<le> w_observedGeneration w \<and>
      w_statusReplicas w = t \<and> w_ready w = t \<and> w_available w = t) \<longleftrightarrow> atTarget w"
  unfolding atTarget_def targetReplicasForReadiness_def storedTargetReplicas_def
    storedTargetReplicasIfPresent_def
  by (cases "w_replicas w"; cases "o_labels w labelScaledownReplicas") (auto split: sum.splits)

lemma readinessLoop_True:
  "readinessLoop (readinessOf r) b ws = Inr True \<longleftrightarrow> b \<and> list_all atTarget ws"
proof (induction ws arbitrary: b)
  case Nil
  show ?case by simp
next
  case (Cons w ws)
  have "readinessLoop (readinessOf r) b (w # ws) = Inr True \<longleftrightarrow>
      (\<exists>t. targetReplicasForReadiness (o_labels w) (w_replicas w) r (o_name w) = Inr t \<and> b \<and>
        w_replicas w = Some t \<and> o_generation w \<le> w_observedGeneration w \<and>
        w_statusReplicas w = t \<and> w_ready w = t \<and> w_available w = t) \<and> list_all atTarget ws"
    by (cases "targetReplicasForReadiness (o_labels w) (w_replicas w) r (o_name w)")
      (auto simp: Let_def readinessOf_def Cons.IH)
  then show ?case
    unfolding list.pred_inject targetReplicas_atTarget [of w r, symmetric] by blast
qed

text \<open>The lists the answer rests on: one of each kind, every workload of the scope at its target.\<close>

definition allAtTarget :: "string \<Rightarrow> workload_kind \<Rightarrow> event \<Rightarrow> bool" where
  "allAtTarget n k e \<longleftrightarrow> (\<exists>ws. e = OnWorkload k (ListIn n [labelScaledownScope] (Inr ws)) \<and>
     list_all atTarget ws \<and> (k = Deployment \<longrightarrow> list_all rolledOut ws))"

lemma workloadsReady_answer:
  "outcome (workloadsReady m k ls e f) (\<lambda>res es. \<exists>got. es = [OnWorkload k (ListIn (dm_namespace m) ls got)] \<and>
     res = (case got of Inl x \<Rightarrow> Inl (Wrapf e (Api x))
       | Inr ws \<Rightarrow> (case readinessLoop f True ws of Inl x \<Rightarrow> Inl x | Inr ready \<Rightarrow> Inr (ready, ws))))"
  unfolding workloadsReady_def by (auto intro!: outcome_intro)

definition answersFor :: "(event \<Rightarrow> bool) \<Rightarrow> ('s, err + bool) prog \<Rightarrow> bool" where
  "answersFor G f \<longleftrightarrow> outcome f (\<lambda>res es. \<exists>e. es = [e] \<and> (res = Inr True \<longleftrightarrow> G e))"

lemma otherReady_answers:
  assumes "k \<noteq> Deployment"
  shows "answersFor (allAtTarget (dm_namespace m) k) (otherReady m k [labelScaledownScope] e r)"
  unfolding answersFor_def otherReady_def
proof (rule outcome_call [OF workloadsReady_answer], rule outcome_return, goal_cases)
  case (1 res es)
  then obtain got where es: "es = [OnWorkload k (ListIn (dm_namespace m) [labelScaledownScope] got)]"
    and res: "res = (case got of Inl x \<Rightarrow> Inl (Wrapf e (Api x))
       | Inr ws \<Rightarrow> (case readinessLoop (readinessOf r) True ws of Inl x \<Rightarrow> Inl x
           | Inr ready \<Rightarrow> Inr (ready, ws)))" by blast
  show ?case
    unfolding es append_Nil2
    using assms by (intro exI conjI refl)
      (auto simp: res allAtTarget_def readinessLoop_True [of r True, simplified, symmetric] split: sum.splits)
qed

lemma deploymentsReady_answers:
  "answersFor (allAtTarget (dm_namespace m) Deployment) (deploymentsReady m [labelScaledownScope])"
  unfolding answersFor_def deploymentsReady_def
proof (rule outcome_call [OF workloadsReady_answer], rule outcome_return, goal_cases)
  case (1 res es)
  then obtain e got where es: "es = [OnWorkload Deployment (ListIn (dm_namespace m) [labelScaledownScope] got)]"
    and res: "res = (case got of Inl x \<Rightarrow> Inl (Wrapf e (Api x))
       | Inr ws \<Rightarrow> (case readinessLoop (readinessOf ''deployment'') True ws of Inl x \<Rightarrow> Inl x
           | Inr ready \<Rightarrow> Inr (ready, ws)))" by blast
  have roll: "list_all (\<lambda>w. w_updated w = w_statusReplicas w \<and> w_unavailable w = 0) ws \<longleftrightarrow>
      list_all rolledOut ws" for ws
    by (simp add: list_all_iff rolledOut_def)
  show ?case
    unfolding es append_Nil2 roll
    by (intro exI conjI refl) (auto simp: res allAtTarget_def
        readinessLoop_True [of "''deployment''" True, simplified, symmetric] split: sum.splits)
qed

lemma allInOrder_exact:
  "list_all2 (\<lambda>(_, f) G. answersFor G f) fs Gs \<Longrightarrow>
     outcome (allInOrder fs r) (\<lambda>res es. res = Inr True \<longleftrightarrow> r \<and> list_all2 (\<lambda>G. G) Gs es)"
proof (induction fs r arbitrary: Gs rule: allInOrder.induct)
  case (1 r)
  then show ?case by (auto simp: allInOrder.simps intro!: outcome_return)
next
  case (2 what f fs r)
  then obtain G Gs' where Gs: "Gs = G # Gs'" "answersFor G f" "list_all2 (\<lambda>(_, f) G. answersFor G f) fs Gs'"
    by (auto simp: list_all2_Cons1)
  show ?case
    unfolding allInOrder.simps Gs(1)
  proof (rule outcome_call [OF Gs(2) [unfolded answersFor_def]], goal_cases)
    case (1 res es)
    then show ?case
      by (cases res) (auto intro!: outcome_return outcome_mono [OF "2.IH" [OF Gs(3)]])
  qed
qed

lemma AreWorkloadsReady_exact:
  "outcome (AreWorkloadsReady m) (\<lambda>res es. res = Inr True \<longleftrightarrow>
     list_all2 (allAtTarget (dm_namespace m)) [Deployment, StatefulSet, ReplicaSet, ReplicationController] es)"
  unfolding AreWorkloadsReady_def Let_def statefulSetsReady_def replicaSetsReady_def
    replicationControllersReady_def
  by (rule outcome_mono [OF allInOrder_exact [where Gs = "List.map (allAtTarget (dm_namespace m))
      [Deployment, StatefulSet, ReplicaSet, ReplicationController]"]])
    (simp_all add: deploymentsReady_answers otherReady_answers list_all2_Cons1)

text \<open>The default manager provides the interface; the evidence is the list of any one kind.\<close>

interpretation default_scale: scale_manager "NewScaleManager E n" "allAtTarget n k" for E n k
proof unfold_locales
  have owned: "outcome (if b then return None else scaleDownWorkload E k w r)
      (\<lambda>_ es. within {ScalesWorkload} es)" for b k w r
    by (auto intro!: outcome_return workload_within)
  show "outcome (sm_down (NewScaleManager E n)) (\<lambda>_ es. within {ScalesWorkload} es)"
    "outcome (sm_up (NewScaleManager E n)) (\<lambda>_ es. within {ScalesWorkload} es)"
    "outcome (sm_finalize (NewScaleManager E n)) (\<lambda>_ es. within {ScalesWorkload} es)"
    by (auto simp: NewScaleManager_def Let_def ScaleDown_def ScaleUp_def FinalizeScaleUp_def scale_defs
        intro!: inOrder_within forEachWorkload_within workload_within outcome_return)
  show "outcome (sm_ready (NewScaleManager E n)) (\<lambda>_ es. list_all observing es)"
    by (auto simp: NewScaleManager_def Let_def AreWorkloadsReady_def ready_defs
        intro!: allInOrder_observes outcome_call [OF workloadsReady_observes] outcome_return)
  show "outcome (sm_ready (NewScaleManager E n)) (\<lambda>res es. res = Inr True \<longrightarrow> list_ex (allAtTarget n k) es)"
    unfolding NewScaleManager_def Let_def scaleManager.simps
    by (rule outcome_mono [OF AreWorkloadsReady_exact], cases k)
      (auto simp: list_all2_Cons1)
qed

section \<open>Runs on a store\<close>

text \<open>What a run makes of the outside, whatever the log.\<close>

definition runs :: "('s, 'a) prog \<Rightarrow> 's \<Rightarrow> 'a \<Rightarrow> 's \<Rightarrow> bool" where
  "runs m s a s' \<longleftrightarrow> (\<forall>w. outside w = s \<longrightarrow> fst (run_state m w) = a \<and> outside (snd (run_state m w)) = s')"

lemma runs_bind: "runs m s a s1 \<Longrightarrow> runs (f a) s1 b s2 \<Longrightarrow> runs (State_Monad.bind m f) s b s2"
  unfolding runs_def run_bind by (simp split: prod.splits) (metis fst_conv snd_conv)

lemma runs_return: "runs (return a) s a s"
  by (simp add: runs_def)

lemma runs_query: "f s = (r, s') \<Longrightarrow> runs (query f ev) s r s'"
  by (simp add: runs_def run_query)

text \<open>The workloads of the in-memory cluster: a table per kind, each object under its own key.\<close>

definition wkey :: "workload \<Rightarrow> key" where
  "wkey w = keyOf w"

definition coherent :: "(key \<times> workload) list \<Rightarrow> bool" where
  "coherent t \<longleftrightarrow> distinct (List.map fst t) \<and> (\<forall>e \<in> set t. wkey (snd e) = fst e)"

lemma coherent_lookup:
  assumes "coherent t" "map_of t q = Some x"
  shows "wkey x = q"
  using assms map_of_SomeD [OF assms(2)] unfolding coherent_def by (metis fst_conv snd_conv)

lemma coherent_member: "coherent t \<Longrightarrow> e \<in> set t \<Longrightarrow> map_of t (wkey (snd e)) = Some (snd e)"
  unfolding coherent_def by (metis map_of_is_SomeI prod.collapse)

lemma map_of_store: "map_of (store q x t) = (map_of t)(q \<mapsto> x)"
proof
  fix p
  have "map_of (filter (\<lambda>(q', _). q' \<noteq> q) t) p = (if p = q then None else map_of t p)"
    by (induction t) auto
  then show "map_of (store q x t) p = ((map_of t)(q \<mapsto> x)) p"
    by (simp add: store_def)
qed

lemma coherent_store: "coherent t \<Longrightarrow> coherent (store (wkey x) x t)"
  unfolding coherent_def store_def by (auto simp: distinct_map_filter)

definition putWorkloads :: "cluster \<Rightarrow> workload_kind \<Rightarrow> (key \<times> workload) list \<Rightarrow> cluster" where
  "putWorkloads s k t = s\<lparr>cl_workloads := (cl_workloads s)(k := t)\<rparr>"

lemma putWorkloads_simps [simp]:
  "cl_workloads (putWorkloads s k t) k = t" "putWorkloads (putWorkloads s k t) k u = putWorkloads s k u"
  "k' \<noteq> k \<Longrightarrow> cl_workloads (putWorkloads s k t) k' = cl_workloads s k'"
  "putWorkloads s k (cl_workloads s k) = s"
  by (simp_all add: putWorkloads_def)

lemma runs_apiUpdate:
  assumes "map_of (cl_workloads s k) (wkey x) = Some y"
  shows "runs (apiUpdate (workloads clusterEnv k) ev x) s (Inr x)
    (putWorkloads s k (store (wkey x) x (cl_workloads s k)))"
  unfolding apiUpdate_def
  by (rule runs_query) (use assms in \<open>simp add: clusterEnv_def tableResource_def Let_def putWorkloads_def wkey_def\<close>)

lemma runs_apiList:
  "runs (apiList (workloads clusterEnv k) ev n ls) s (Inr (List.map snd (filter (\<lambda>(q, x). fst q = n \<and>
     list_all (\<lambda>l. o_labels x l \<noteq> None) ls) (cl_workloads s k)))) s"
  unfolding apiList_def
  by (rule runs_query) (simp add: clusterEnv_def tableResource_def Let_def)

text \<open>An operation on one workload: it stores \<open>f w\<close> when \<open>w\<close> needs it (\<open>P\<close>), and
  does nothing else, as long as \<open>w\<close> is good (\<open>G\<close>).\<close>

definition updates :: "workload_kind \<Rightarrow> (workload \<Rightarrow> bool) \<Rightarrow> (workload \<Rightarrow> bool) \<Rightarrow> (workload \<Rightarrow> workload)
    \<Rightarrow> (workload \<Rightarrow> (cluster, err option) prog) \<Rightarrow> bool" where
  "updates k G P f apply \<longleftrightarrow> (\<forall>w. wkey (f w) = wkey w) \<and>
     (\<forall>w s. map_of (cl_workloads s k) (wkey w) = Some w \<longrightarrow> G w \<longrightarrow> runs (apply w) s None
        (if P w then putWorkloads s k (store (wkey w) (f w) (cl_workloads s k)) else s))"

lemma applyWorkloads_runs:
  assumes "updates k G P f apply" "coherent (cl_workloads s k)" "distinct (List.map wkey ws)"
    and "list_all (\<lambda>w. map_of (cl_workloads s k) (wkey w) = Some w) ws" "list_all G ws"
  shows "\<exists>t. runs (applyWorkloads apply ws) s None (putWorkloads s k t) \<and> coherent t \<and>
    (\<forall>q. map_of t q = (if \<exists>w \<in> set ws. wkey w = q \<and> P w
       then map_option f (map_of (cl_workloads s k) q) else map_of (cl_workloads s k) q))"
  using assms(2-5)
proof (induction ws arbitrary: s)
  case Nil
  show ?case
    by (rule exI [of _ "cl_workloads s k"]) (use Nil in \<open>simp add: runs_return\<close>)
next
  case (Cons w ws)
  define t1 where "t1 = (if P w then store (wkey w) (f w) (cl_workloads s k) else cl_workloads s k)"
  have key: "wkey (f w) = wkey w" using assms(1) by (simp add: updates_def)
  have look: "map_of t1 q = (if q = wkey w \<and> P w then Some (f w) else map_of (cl_workloads s k) q)" for q
    by (simp add: t1_def map_of_store)
  have step: "runs (apply w) s None (putWorkloads s k t1)"
  proof -
    have "map_of (cl_workloads s k) (wkey w) = Some w" "G w" using Cons.prems(3,4) by simp_all
    with assms(1) have "runs (apply w) s None
        (if P w then putWorkloads s k (store (wkey w) (f w) (cl_workloads s k)) else s)"
      unfolding updates_def by blast
    then show ?thesis by (cases "P w") (simp_all add: t1_def)
  qed
  have "coherent t1"
    using Cons.prems(1) coherent_store [of _ "f w"] key by (simp add: t1_def)
  moreover have "list_all (\<lambda>v. map_of t1 (wkey v) = Some v) ws"
    unfolding list_all_iff
  proof
    fix v assume v: "v \<in> set ws"
    then have "wkey v \<in> wkey ` set ws" by (rule imageI)
    with Cons.prems(2) have "wkey v \<noteq> wkey w" by auto
    moreover have "map_of (cl_workloads s k) (wkey v) = Some v" using Cons.prems(3) v by (simp add: list_all_iff)
    ultimately show "map_of t1 (wkey v) = Some v" unfolding look by auto
  qed
  ultimately obtain t where t: "runs (applyWorkloads apply ws) (putWorkloads s k t1) None (putWorkloads s k t)"
    "coherent t" "\<And>q. map_of t q = (if \<exists>w \<in> set ws. wkey w = q \<and> P w
       then map_option f (map_of t1 q) else map_of t1 q)"
    using Cons.IH [of "putWorkloads s k t1"] Cons.prems(2,4)
    unfolding putWorkloads_simps list.map distinct.simps list.pred_inject by blast
  have "map_of t q = (if \<exists>v \<in> set (w # ws). wkey v = q \<and> P v
       then map_option f (map_of (cl_workloads s k) q) else map_of (cl_workloads s k) q)" for q
  proof (cases "q = wkey w")
    case True
    then have "\<not> (\<exists>v \<in> set ws. wkey v = q \<and> P v)" using Cons.prems(2)
      unfolding list.map distinct.simps set_map by (metis imageI)
    with True Cons.prems(3) show ?thesis unfolding t(3) look by auto
  next
    case False
    then show ?thesis unfolding t(3) look by auto
  qed
  moreover have "runs (applyWorkloads apply (w # ws)) s None (putWorkloads s k t)"
    unfolding applyWorkloads.simps by (rule runs_bind [OF step]) (simp add: t(1))
  ultimately show ?case using t(2) by blast
qed

text \<open>Applied to the list of a namespace and some labels, it changes exactly the workloads of that list.\<close>

definition inScope :: "string \<Rightarrow> string list \<Rightarrow> workload \<Rightarrow> bool" where
  "inScope n ls w \<longleftrightarrow> o_namespace w = n \<and> list_all (\<lambda>l. o_labels w l \<noteq> None) ls"

lemma distinct_filter_fst: "distinct (List.map fst t) \<Longrightarrow> distinct (List.map fst (filter P t))"
  by (rule distinct_map_filter)

lemma forEachWorkload_runs:
  assumes "updates k G P f apply" "coherent (cl_workloads s k)"
    and "\<forall>q w. map_of (cl_workloads s k) q = Some w \<longrightarrow> G w"
  shows "\<exists>t. runs (forEachWorkload clusterEnv k n ls e apply) s None (putWorkloads s k t) \<and> coherent t \<and>
    (\<forall>q. map_of t q = map_option (\<lambda>w. if inScope n ls w \<and> P w then f w else w) (map_of (cl_workloads s k) q))"
proof -
  let ?t = "cl_workloads s k"
  define es where "es = filter (\<lambda>(q, x). fst q = n \<and> list_all (\<lambda>l. o_labels x l \<noteq> None) ls) ?t"
  define ws where "ws = List.map snd es"
  have sub: "set es \<subseteq> set ?t" by (auto simp: es_def)
  have keys: "wkey (snd x) = fst x" if "x \<in> set es" for x
    using that sub assms(2) by (auto simp: coherent_def)
  have "List.map wkey ws = List.map fst es"
    unfolding ws_def List.map_map by (rule map_cong [OF refl]) (simp add: keys)
  then have dist: "distinct (List.map wkey ws)"
    using assms(2) unfolding es_def coherent_def by (simp add: distinct_filter_fst)
  have look: "list_all (\<lambda>w. map_of ?t (wkey w) = Some w) ws"
    using coherent_member [OF assms(2)] sub unfolding ws_def list_all_iff by auto
  have "list_all G ws" unfolding list_all_iff
  proof
    fix w assume "w \<in> set ws"
    with look have "map_of ?t (wkey w) = Some w" by (simp add: list_all_iff)
    with assms(3) show "G w" by blast
  qed
  from applyWorkloads_runs [OF assms(1,2) dist look this] obtain t where t:
    "runs (applyWorkloads apply ws) s None (putWorkloads s k t)" "coherent t"
    "\<And>q. map_of t q = (if \<exists>w \<in> set ws. wkey w = q \<and> P w
       then map_option f (map_of ?t q) else map_of ?t q)" by blast
  have "map_of t q = map_option (\<lambda>w. if inScope n ls w \<and> P w then f w else w) (map_of ?t q)" for q
  proof (cases "map_of ?t q")
    case None
    then show ?thesis by (simp add: t(3))
  next
    case (Some w)
    have kw: "wkey w = q" by (rule coherent_lookup [OF assms(2) Some])
    have "(\<exists>v \<in> set ws. wkey v = q \<and> P v) \<longleftrightarrow> w \<in> set ws \<and> P w"
    proof
      assume "\<exists>v \<in> set ws. wkey v = q \<and> P v"
      then obtain v where v: "v \<in> set ws" "wkey v = q" "P v" by blast
      with look have "map_of ?t q = Some v" by (auto simp: list_all_iff)
      with Some v show "w \<in> set ws \<and> P w" by simp
    qed (use kw in blast)
    moreover have "w \<in> set ws \<longleftrightarrow> inScope n ls w"
    proof
      assume "w \<in> set ws"
      then obtain x where "x \<in> set es" "snd x = w" by (auto simp: ws_def)
      then show "inScope n ls w" using keys [of x] by (auto simp: es_def inScope_def wkey_def)
    next
      assume "inScope n ls w"
      then have "(q, w) \<in> set es"
        using map_of_SomeD [OF Some] kw by (auto simp: es_def inScope_def wkey_def)
      then show "w \<in> set ws" unfolding ws_def by force
    qed
    ultimately show ?thesis by (simp add: t(3) Some)
  qed
  moreover have "runs (forEachWorkload clusterEnv k n ls e apply) s None (putWorkloads s k t)"
    unfolding forEachWorkload_def
    by (rule runs_bind [OF runs_apiList]) (use t(1) in \<open>simp only: sum.case ws_def es_def\<close>)
  ultimately show ?thesis using t(2) by blast
qed

section \<open>What each operation makes of a workload\<close>

definition scaledDown :: "workload \<Rightarrow> workload" where
  "scaledDown w = w\<lparr>
     o_labels := (o_labels w)(labelScaledownReplicas \<mapsto> showInt (case w_replicas w of None \<Rightarrow> 0 | Some n \<Rightarrow> n)),
     w_replicas := Some 0\<rparr>"

definition storedReplicas :: "workload \<Rightarrow> int option" where
  "storedReplicas w = (case o_labels w labelScaledownReplicas of
     None \<Rightarrow> None | Some v \<Rightarrow> (case parseInt 32 v of Inl _ \<Rightarrow> None | Inr n \<Rightarrow> Some n))"

text \<open>Labels that do not hold a number are the one way scaling up fails on the store.\<close>

definition readableLabel :: "workload \<Rightarrow> bool" where
  "readableLabel w \<longleftrightarrow> o_labels w labelScaledownReplicas = None \<or> storedReplicas w \<noteq> None"

definition unlabelled :: "workload \<Rightarrow> workload" where
  "unlabelled w = w\<lparr>o_labels := (o_labels w)(labelScaledownReplicas := None)\<rparr>"

definition resourceText :: "workload_kind \<Rightarrow> string" where
  "resourceText k = (case k of Deployment \<Rightarrow> ''deployment'' | StatefulSet \<Rightarrow> ''statefulset''
     | ReplicaSet \<Rightarrow> ''replicaset'' | ReplicationController \<Rightarrow> ''replicationcontroller'')"

text \<open>A replica set of a deployment is left to the deployment.\<close>

definition ownedReplicaSet :: "workload_kind \<Rightarrow> workload \<Rightarrow> bool" where
  "ownedReplicaSet k w \<longleftrightarrow> k = ReplicaSet \<and> o_owners w \<noteq> []"

definition scaleDownStep :: "workload_kind \<Rightarrow> workload \<Rightarrow> (cluster, err option) prog" where
  "scaleDownStep k w = (if ownedReplicaSet k w then return None
     else scaleDownWorkload clusterEnv k w (resourceText k))"

lemma runs_store:
  assumes "map_of (cl_workloads s k) (wkey w) = Some w" "wkey x = wkey w"
  shows "runs (apiUpdate (workloads clusterEnv k) (OnWorkload k) x) s (Inr x)
      (putWorkloads s k (store (wkey w) x (cl_workloads s k)))"
  using runs_apiUpdate [of s k x w] assms by simp

lemma updates_down: "updates k (\<lambda>_. True)
    (\<lambda>w. o_labels w labelScaledownReplicas = None \<and> \<not> ownedReplicaSet k w) scaledDown (scaleDownStep k)"
  unfolding updates_def
proof (intro conjI allI impI)
  fix w :: workload and s :: cluster assume w: "map_of (cl_workloads s k) (wkey w) = Some w"
  have "runs (apiUpdate (workloads clusterEnv k) (OnWorkload k) (scaledDown w)) s (Inr (scaledDown w))
      (putWorkloads s k (store (wkey w) (scaledDown w) (cl_workloads s k)))"
    by (rule runs_store [OF w]) (simp add: scaledDown_def wkey_def)
  then show "runs (scaleDownStep k w) s None
      (if o_labels w labelScaledownReplicas = None \<and> \<not> ownedReplicaSet k w
      then putWorkloads s k (store (wkey w) (scaledDown w) (cl_workloads s k)) else s)"
    unfolding scaleDownStep_def scaleDownWorkload_def zeroReplicas_def Let_def
    by (auto simp: scaledDown_def intro!: runs_return intro: runs_bind)
qed (simp add: scaledDown_def wkey_def)

definition scaledUp :: "workload \<Rightarrow> workload" where
  "scaledUp w = w\<lparr>w_replicas := storedReplicas w\<rparr>"

lemma updates_up: "updates k readableLabel
    (\<lambda>w. storedReplicas w \<noteq> None \<and> w_replicas w \<noteq> storedReplicas w) scaledUp
    (\<lambda>w. scaleUpWorkload clusterEnv k w (resourceText k))"
  unfolding updates_def
proof (intro conjI allI impI)
  fix w :: workload and s :: cluster
  assume w: "map_of (cl_workloads s k) (wkey w) = Some w" and g: "readableLabel w"
  have up: "runs (apiUpdate (workloads clusterEnv k) (OnWorkload k) (scaledUp w)) s (Inr (scaledUp w))
      (putWorkloads s k (store (wkey w) (scaledUp w) (cl_workloads s k)))"
    by (rule runs_store [OF w]) (simp add: scaledUp_def wkey_def)
  show "runs (scaleUpWorkload clusterEnv k w (resourceText k)) s None
      (if storedReplicas w \<noteq> None \<and> w_replicas w \<noteq> storedReplicas w
      then putWorkloads s k (store (wkey w) (scaledUp w) (cl_workloads s k)) else s)"
  proof (cases "storedReplicas w")
    case None
    with g show ?thesis
      by (auto simp: scaleUpWorkload_def storedTargetReplicasIfPresent_def readableLabel_def intro!: runs_return)
  next
    case (Some n)
    then have "storedTargetReplicasIfPresent (o_labels w) r nm = Inr (Some n)" for r nm
      by (auto simp: storedReplicas_def storedTargetReplicasIfPresent_def split: option.splits sum.splits)
    with Some up show ?thesis
      unfolding scaleUpWorkload_def
      by (auto simp: scaledUp_def intro!: runs_return intro: runs_bind)
  qed
qed (simp add: scaledUp_def wkey_def)

lemma updates_finalize: "updates k (\<lambda>_. True) (\<lambda>_. True) unlabelled
    (\<lambda>w. removeStoredReplicasLabel clusterEnv k w (resourceText k))"
  unfolding updates_def
proof (intro conjI allI impI)
  fix w :: workload and s :: cluster assume w: "map_of (cl_workloads s k) (wkey w) = Some w"
  have "runs (apiUpdate (workloads clusterEnv k) (OnWorkload k) (unlabelled w)) s (Inr (unlabelled w))
      (putWorkloads s k (store (wkey w) (unlabelled w) (cl_workloads s k)))"
    by (rule runs_store [OF w]) (simp add: unlabelled_def wkey_def)
  then show "runs (removeStoredReplicasLabel clusterEnv k w (resourceText k)) s None
      (if True then putWorkloads s k (store (wkey w) (unlabelled w) (cl_workloads s k)) else s)"
    unfolding removeStoredReplicasLabel_def
    by (auto simp: unlabelled_def intro!: runs_return intro: runs_bind)
qed (simp add: unlabelled_def wkey_def)

section \<open>What each operation makes of the store\<close>

text \<open>The abstract store: the workloads of every kind by their keys.\<close>

type_synonym workload_store = "workload_kind \<Rightarrow> key \<rightharpoonup> workload"

definition storeOf :: "cluster \<Rightarrow> workload_store" where
  "storeOf s = (\<lambda>k. map_of (cl_workloads s k))"

definition mapStore :: "(workload_kind \<Rightarrow> workload \<Rightarrow> workload) \<Rightarrow> workload_store \<Rightarrow> workload_store" where
  "mapStore f v = (\<lambda>k q. map_option (f k) (v k q))"

definition coherentCluster :: "cluster \<Rightarrow> bool" where
  "coherentCluster s \<longleftrightarrow> (\<forall>k. coherent (cl_workloads s k))"

text \<open>A run over some kinds, one after the other.\<close>

lemma inOrder_runs:
  assumes "\<And>k. updates k G (P k) f (apply k)" "\<And>w. G w \<Longrightarrow> G (f w)"
    and "coherentCluster s" "\<forall>k q w. storeOf s k q = Some w \<longrightarrow> G w" "distinct ks"
  shows "\<exists>T. runs (inOrder (List.map (\<lambda>k. (m k, forEachWorkload clusterEnv k n ls (e k) (apply k))) ks))
      s None (s\<lparr>cl_workloads := T\<rparr>) \<and> coherentCluster (s\<lparr>cl_workloads := T\<rparr>) \<and>
    storeOf (s\<lparr>cl_workloads := T\<rparr>) =
      mapStore (\<lambda>k w. if k \<in> set ks \<and> inScope n ls w \<and> P k w then f w else w) (storeOf s)"
  using assms(3-5)
proof (induction ks arbitrary: s)
  case Nil
  have "mapStore (\<lambda>k w. w) (storeOf s) = storeOf s"
    by (simp add: mapStore_def option.map_ident)
  with Nil.prems(1) show ?case
    by (intro exI [of _ "cl_workloads s"]) (simp add: inOrder.simps runs_return)
next
  case (Cons k ks)
  have co: "coherent (cl_workloads s k)" using Cons.prems(1) by (simp add: coherentCluster_def)
  have good: "\<forall>q w. map_of (cl_workloads s k) q = Some w \<longrightarrow> G w"
    using Cons.prems(2) by (simp add: storeOf_def)
  from forEachWorkload_runs [OF assms(1) co good, where n = n and ls = ls and e = "e k"] obtain t where t:
    "runs (forEachWorkload clusterEnv k n ls (e k) (apply k)) s None (putWorkloads s k t)" "coherent t"
    "\<And>q. map_of t q = map_option (\<lambda>w. if inScope n ls w \<and> P k w then f w else w) (map_of (cl_workloads s k) q)"
    by blast
  let ?s = "putWorkloads s k t"
  have view: "storeOf ?s = (storeOf s)(k := \<lambda>q. map_option (\<lambda>w. if inScope n ls w \<and> P k w then f w else w) (storeOf s k q))"
    by (rule ext, rule ext) (auto simp: storeOf_def putWorkloads_def t(3))
  have co': "coherentCluster ?s"
    using Cons.prems(1) t(2) by (simp add: coherentCluster_def putWorkloads_def)
  have good': "\<forall>j q w. storeOf ?s j q = Some w \<longrightarrow> G w"
    using Cons.prems(2) assms(2) unfolding view by (auto split: if_splits)
  from Cons.IH [OF co' good'] Cons.prems(3) obtain T where T:
    "runs (inOrder (List.map (\<lambda>k. (m k, forEachWorkload clusterEnv k n ls (e k) (apply k))) ks))
      ?s None (?s\<lparr>cl_workloads := T\<rparr>)" "coherentCluster (?s\<lparr>cl_workloads := T\<rparr>)"
    "storeOf (?s\<lparr>cl_workloads := T\<rparr>) =
      mapStore (\<lambda>k w. if k \<in> set ks \<and> inScope n ls w \<and> P k w then f w else w) (storeOf ?s)"
    by auto
  have same: "?s\<lparr>cl_workloads := T\<rparr> = s\<lparr>cl_workloads := T\<rparr>" by (simp add: putWorkloads_def)
  have "runs (inOrder (List.map (\<lambda>k. (m k, forEachWorkload clusterEnv k n ls (e k) (apply k))) (k # ks)))
      s None (s\<lparr>cl_workloads := T\<rparr>)"
    unfolding list.map inOrder.simps by (rule runs_bind [OF t(1)]) (simp add: T(1) [unfolded same])
  moreover have "storeOf (s\<lparr>cl_workloads := T\<rparr>) =
      mapStore (\<lambda>j w. if j \<in> set (k # ks) \<and> inScope n ls w \<and> P j w then f w else w) (storeOf s)"
    unfolding T(3) [unfolded same] view mapStore_def
    using Cons.prems(3) by (intro ext) (auto simp: option.map_comp comp_def intro!: option.map_cong)
  ultimately show ?case using T(2) [unfolded same] by blast
qed

section \<open>Refinement\<close>

definition clusterManager :: "string \<Rightarrow> cluster default_manager" where
  "clusterManager n = \<lparr>dm_client = clusterEnv, dm_namespace = n\<rparr>"

text \<open>What the operations promise, workload by workload.\<close>

definition downSpec :: "string \<Rightarrow> workload_kind \<Rightarrow> workload \<Rightarrow> workload" where
  "downSpec n k w = (if inScope n [labelScaledownScope] w \<and> o_labels w labelScaledownReplicas = None \<and>
     \<not> ownedReplicaSet k w then scaledDown w else w)"

definition upSpec :: "string \<Rightarrow> workload_kind \<Rightarrow> workload \<Rightarrow> workload" where
  "upSpec n k w = (if inScope n [labelScaledownScope] w \<and> storedReplicas w \<noteq> None then scaledUp w else w)"

definition finalizeSpec :: "string \<Rightarrow> workload_kind \<Rightarrow> workload \<Rightarrow> workload" where
  "finalizeSpec n k w =
     (if inScope n [labelScaledownScope, labelScaledownReplicas] w then unlabelled w else w)"

definition implements :: "(cluster, err option) prog \<Rightarrow> cluster \<Rightarrow> (workload_store \<Rightarrow> workload_store) \<Rightarrow> bool" where
  "implements m s F \<longleftrightarrow> (\<exists>T. runs m s None (s\<lparr>cl_workloads := T\<rparr>) \<and>
     coherentCluster (s\<lparr>cl_workloads := T\<rparr>) \<and> storeOf (s\<lparr>cl_workloads := T\<rparr>) = F (storeOf s))"

lemma ScaleDown_implements:
  assumes "coherentCluster s"
  shows "implements (ScaleDown (clusterManager n)) s (mapStore (downSpec n))"
proof -
  let ?e = "\<lambda>k. case k of Deployment \<Rightarrow> ''failed to list deployments for scaledown''
    | StatefulSet \<Rightarrow> ''failed to list statefulsets for scaledown''
    | ReplicaSet \<Rightarrow> ''failed to list replicasets for scaledown''
    | ReplicationController \<Rightarrow> ''failed to list replicationcontrollers for scaledown''"
  let ?m = "\<lambda>k. case k of Deployment \<Rightarrow> ''failed to scale down Deployments''
    | StatefulSet \<Rightarrow> ''failed to scale down StatefulSets'' | ReplicaSet \<Rightarrow> ''failed to scale down ReplicaSets''
    | ReplicationController \<Rightarrow> ''failed to scale down ReplicationControllers''"
  let ?ks = "[Deployment, StatefulSet, ReplicaSet, ReplicationController]"
  have eq: "ScaleDown (clusterManager n) = inOrder (List.map (\<lambda>k. (?m k, forEachWorkload clusterEnv k n
      [labelScaledownScope] (?e k) (scaleDownStep k))) ?ks)"
    by (simp add: ScaleDown_def Let_def scale_defs clusterManager_def scaleDownStep_def [abs_def]
        ownedReplicaSet_def resourceText_def cong: if_cong)
  have ks: "k \<in> set ?ks" for k by (cases k) simp_all
  have spec: "downSpec n = (\<lambda>k w. if k \<in> set ?ks \<and> inScope n [labelScaledownScope] w \<and>
      (o_labels w labelScaledownReplicas = None \<and> \<not> ownedReplicaSet k w) then scaledDown w else w)"
    by (intro ext) (simp only: downSpec_def ks simp_thms)
  show ?thesis
    unfolding implements_def eq spec by (rule inOrder_runs [OF updates_down _ assms]) simp_all
qed

lemma ScaleUp_implements:
  assumes "coherentCluster s" "\<forall>k q w. storeOf s k q = Some w \<longrightarrow> readableLabel w"
  shows "implements (ScaleUp (clusterManager n)) s (mapStore (upSpec n))"
proof -
  let ?e = "\<lambda>k. case k of Deployment \<Rightarrow> ''failed to list deployments for scaleup''
    | StatefulSet \<Rightarrow> ''failed to list statefulsets for scaleup''
    | ReplicaSet \<Rightarrow> ''failed to list replicasets for scaleup''
    | ReplicationController \<Rightarrow> ''failed to list replicationcontrollers for scaleup''"
  let ?m = "\<lambda>k. case k of Deployment \<Rightarrow> ''failed to scale up Deployments''
    | StatefulSet \<Rightarrow> ''failed to scale up StatefulSets'' | ReplicaSet \<Rightarrow> ''failed to scale up ReplicaSets''
    | ReplicationController \<Rightarrow> ''failed to scale up ReplicationControllers''"
  let ?ks = "[Deployment, StatefulSet, ReplicaSet, ReplicationController]"
  have eq: "ScaleUp (clusterManager n) = inOrder (List.map (\<lambda>k. (?m k, forEachWorkload clusterEnv k n
      [labelScaledownScope] (?e k) (\<lambda>w. scaleUpWorkload clusterEnv k w (resourceText k)))) ?ks)"
    by (simp add: ScaleUp_def Let_def scale_defs clusterManager_def resourceText_def)
  have ks: "k \<in> set ?ks" for k by (cases k) simp_all
  have readable: "readableLabel (scaledUp w)" if "readableLabel w" for w
    using that by (simp add: readableLabel_def scaledUp_def storedReplicas_def)
  have spec: "upSpec n = (\<lambda>k w. if k \<in> set ?ks \<and> inScope n [labelScaledownScope] w \<and>
      (storedReplicas w \<noteq> None \<and> w_replicas w \<noteq> storedReplicas w) then scaledUp w else w)"
    by (intro ext) (auto simp: upSpec_def scaledUp_def ks simp del: list.set)
  show ?thesis
    unfolding implements_def eq spec by (rule inOrder_runs [OF updates_up readable assms]) simp_all
qed

lemma FinalizeScaleUp_implements:
  assumes "coherentCluster s"
  shows "implements (FinalizeScaleUp (clusterManager n)) s (mapStore (finalizeSpec n))"
proof -
  let ?e = "\<lambda>k. case k of Deployment \<Rightarrow> ''failed to list deployments for scale-up finalization''
    | StatefulSet \<Rightarrow> ''failed to list statefulsets for scale-up finalization''
    | ReplicaSet \<Rightarrow> ''failed to list replicasets for scale-up finalization''
    | ReplicationController \<Rightarrow> ''failed to list replicationcontrollers for scale-up finalization''"
  let ?ks = "[Deployment, StatefulSet, ReplicaSet, ReplicationController]"
  let ?ls = "[labelScaledownScope, labelScaledownReplicas]"
  have eq: "FinalizeScaleUp (clusterManager n) = inOrder (List.map (\<lambda>k. ([], forEachWorkload clusterEnv k n
      ?ls (?e k) (\<lambda>w. removeStoredReplicasLabel clusterEnv k w (resourceText k)))) ?ks)"
    by (simp add: FinalizeScaleUp_def Let_def scale_defs clusterManager_def resourceText_def)
  have ks: "k \<in> set ?ks" for k by (cases k) simp_all
  have spec: "finalizeSpec n = (\<lambda>k w. if k \<in> set ?ks \<and> inScope n ?ls w \<and> True then unlabelled w else w)"
    by (intro ext) (simp only: finalizeSpec_def ks simp_thms)
  show ?thesis
    unfolding implements_def eq spec by (rule inOrder_runs [OF updates_finalize _ assms]) simp_all
qed

lemma implements_seq:
  assumes "implements m s F"
    and "\<And>s'. storeOf s' = F (storeOf s) \<Longrightarrow> coherentCluster s' \<Longrightarrow> implements m' s' F'"
  shows "implements (do { _ \<leftarrow> m; m' }) s (F' \<circ> F)"
proof -
  obtain T where T: "runs m s None (s\<lparr>cl_workloads := T\<rparr>)" "coherentCluster (s\<lparr>cl_workloads := T\<rparr>)"
    "storeOf (s\<lparr>cl_workloads := T\<rparr>) = F (storeOf s)"
    using assms(1) unfolding implements_def by blast
  from assms(2) [OF T(3,2)] obtain U where "runs m' (s\<lparr>cl_workloads := T\<rparr>) None (s\<lparr>cl_workloads := U\<rparr>)"
    "coherentCluster (s\<lparr>cl_workloads := U\<rparr>)" "storeOf (s\<lparr>cl_workloads := U\<rparr>) = F' (F (storeOf s))"
    unfolding implements_def T(3) by auto
  with T(1) show ?thesis
    unfolding implements_def by (auto intro: runs_bind)
qed

text \<open>A workload no scaling has touched, with a replica count of 32 bits.\<close>

definition untouched :: "workload \<Rightarrow> bool" where
  "untouched w \<longleftrightarrow> o_labels w labelScaledownReplicas = None \<and>
     (case w_replicas w of None \<Rightarrow> False | Some n \<Rightarrow> - (2 ^ 31) \<le> n \<and> n < 2 ^ 31)"

definition untouchedCluster :: "cluster \<Rightarrow> bool" where
  "untouchedCluster s \<longleftrightarrow> coherentCluster s \<and> (\<forall>k q w. storeOf s k q = Some w \<longrightarrow> untouched w)"

lemma storedReplicas_scaledDown: "untouched w \<Longrightarrow> storedReplicas (scaledDown w) = w_replicas w"
  by (auto simp: untouched_def storedReplicas_def scaledDown_def parseInt_showInt split: option.splits)

lemma readable_down: "untouched w \<Longrightarrow> readableLabel (downSpec n k w)"
  unfolding downSpec_def readableLabel_def
  by (auto simp: storedReplicas_scaledDown) (auto simp: untouched_def split: option.splits)

lemma trip_workload:
  assumes "untouched w"
  shows "finalizeSpec n k (upSpec n k (downSpec n k w)) = w"
proof (cases "inScope n [labelScaledownScope] w \<and> \<not> ownedReplicaSet k w")
  case True
  have down: "downSpec n k w = scaledDown w"
    using True assms by (simp add: downSpec_def untouched_def)
  have "inScope n [labelScaledownScope] (scaledDown w)"
    using True by (simp add: inScope_def scaledDown_def)
  moreover have "storedReplicas (scaledDown w) \<noteq> None"
    using assms by (auto simp: storedReplicas_scaledDown) (auto simp: untouched_def split: option.splits)
  ultimately have "upSpec n k (scaledDown w) = scaledUp (scaledDown w)"
    by (simp add: upSpec_def)
  moreover have "finalizeSpec n k (scaledUp (scaledDown w)) = unlabelled (scaledUp (scaledDown w))"
    using True by (simp add: finalizeSpec_def inScope_def scaledUp_def scaledDown_def)
  moreover have "unlabelled (scaledUp (scaledDown w)) = w"
    using assms storedReplicas_scaledDown [OF assms]
    by (simp add: unlabelled_def scaledUp_def) (simp add: scaledDown_def untouched_def fun_upd_idem)
  ultimately show ?thesis by (simp add: down)
next
  case False
  then have "downSpec n k w = w" by (auto simp: downSpec_def)
  with assms show ?thesis
    by (simp add: upSpec_def finalizeSpec_def untouched_def storedReplicas_def inScope_def)
qed

section \<open>Properties\<close>

text \<open>
  The workloads count as ready exactly when one list of each kind was read and every listed
  workload is at its target (the stored count as long as there is one), has observed its newest
  generation, and, for deployments, has finished its rollout.
\<close>

theorem workloads_ready_exact:
  "outcome (AreWorkloadsReady m) (\<lambda>res es. res = Inr True \<longleftrightarrow>
     list_all2 (allAtTarget (dm_namespace m)) [Deployment, StatefulSet, ReplicaSet, ReplicationController] es)"
  by (rule AreWorkloadsReady_exact)

text \<open>
  C17: On a store, each operation refines a map over all workloads: scaling down stores the count and
  sets zero on the workloads of the scope that are not scaled down yet (replica sets of a deployment
  excepted), scaling up restores stored counts, finalizing removes them.
\<close>

theorem scaling_refines:
  assumes "coherentCluster s"
  shows "implements (ScaleDown (clusterManager n)) s (mapStore (downSpec n)) \<and>
    implements (FinalizeScaleUp (clusterManager n)) s (mapStore (finalizeSpec n)) \<and>
    ((\<exists>k q w. storeOf s k q = Some w \<and> \<not> readableLabel w) \<or>
       implements (ScaleUp (clusterManager n)) s (mapStore (upSpec n)))"
  using ScaleDown_implements [OF assms] FinalizeScaleUp_implements [OF assms] ScaleUp_implements [OF assms]
  by blast

text \<open>
  C18: Scaling down, scaling up and finalizing is a round trip on every store of workloads no scaling
  has touched: each workload is stored as it was before, and no operation fails.
\<close>

theorem scaling_round_trip:
  assumes "untouchedCluster s"
  shows "implements (do { _ \<leftarrow> ScaleDown (clusterManager n); _ \<leftarrow> ScaleUp (clusterManager n);
    FinalizeScaleUp (clusterManager n) }) s (\<lambda>v. v)"
proof -
  have co: "coherentCluster s" and un: "\<forall>k q w. storeOf s k q = Some w \<longrightarrow> untouched w"
    using assms by (auto simp: untouchedCluster_def)
  have tail: "implements (do { _ \<leftarrow> ScaleUp (clusterManager n); FinalizeScaleUp (clusterManager n) }) s'
      (mapStore (finalizeSpec n) \<circ> mapStore (upSpec n))"
    if "storeOf s' = mapStore (downSpec n) (storeOf s)" "coherentCluster s'" for s'
    using that un by (intro implements_seq ScaleUp_implements FinalizeScaleUp_implements)
      (auto simp: mapStore_def readable_down)
  have "implements (do { _ \<leftarrow> ScaleDown (clusterManager n); _ \<leftarrow> ScaleUp (clusterManager n);
      FinalizeScaleUp (clusterManager n) }) s
      ((mapStore (finalizeSpec n) \<circ> mapStore (upSpec n)) \<circ> mapStore (downSpec n))"
    by (rule implements_seq [OF ScaleDown_implements [OF co] tail])
  moreover have "((mapStore (finalizeSpec n) \<circ> mapStore (upSpec n)) \<circ> mapStore (downSpec n)) (storeOf s) = storeOf s"
  proof (intro ext)
    fix k q
    show "((mapStore (finalizeSpec n) \<circ> mapStore (upSpec n)) \<circ> mapStore (downSpec n)) (storeOf s) k q = storeOf s k q"
    proof (cases "storeOf s k q")
      case (Some w)
      with un have "untouched w" by blast
      with Some show ?thesis by (simp add: mapStore_def trip_workload)
    qed (simp add: mapStore_def)
  qed
  ultimately show ?thesis by (simp add: implements_def)
qed

text \<open>A namespace with a deployment of three replicas in the scope and a replica set of its own.\<close>

definition demoWorkload :: "string \<Rightarrow> int \<Rightarrow> owner_ref list \<Rightarrow> workload" where
  "demoWorkload nm n os = obj_meta.extend ((newMeta ''ns'' nm)\<lparr>
       o_labels := [labelScaledownScope \<mapsto> []], o_owners := os\<rparr>)
     \<lparr>w_replicas = Some n, w_observedGeneration = 0, w_statusReplicas = n, w_ready = n, w_available = n,
      w_updated = n, w_unavailable = 0\<rparr>"

definition demoWorkloads :: cluster where
  "demoWorkloads = (emptyCluster 0)\<lparr>cl_workloads := (\<lambda>k. case k of
       Deployment \<Rightarrow> [((''ns'', ''a''), demoWorkload ''a'' 3 [])]
     | ReplicaSet \<Rightarrow> [((''ns'', ''r''), demoWorkload ''r'' 3 [\<lparr>ow_apiVersion = [], ow_kind = ''Deployment'',
         ow_name = ''a'', ow_uid = [], ow_controller = True, ow_blockDeletion = True\<rparr>])]
     | _ \<Rightarrow> [])\<rparr>"

lemma demoWorkloads_untouched: "untouchedCluster demoWorkloads"
  unfolding untouchedCluster_def coherentCluster_def
proof (intro conjI allI impI)
  show "coherent (cl_workloads demoWorkloads k)" for k
    by (cases k) (simp_all add: demoWorkloads_def coherent_def wkey_def demoWorkload_def obj_meta.defs newMeta_def)
  show "storeOf demoWorkloads k q = Some w \<Longrightarrow> untouched w" for k q w
    by (cases k) (auto simp: demoWorkloads_def storeOf_def untouched_def demoWorkload_def obj_meta.defs
        newMeta_def split: if_splits)
qed

theorem scaling_refines_witness:
  "implements (ScaleDown (clusterManager ''ns'')) demoWorkloads (mapStore (downSpec ''ns'')) \<and>
   mapStore (downSpec ''ns'') (storeOf demoWorkloads) Deployment (''ns'', ''a'') =
     Some (scaledDown (demoWorkload ''a'' 3 []))"
proof
  have "coherentCluster demoWorkloads"
    using demoWorkloads_untouched by (simp add: untouchedCluster_def)
  then show "implements (ScaleDown (clusterManager ''ns'')) demoWorkloads (mapStore (downSpec ''ns''))"
    by (rule scaling_refines [THEN conjunct1])
qed (simp add: mapStore_def storeOf_def demoWorkloads_def downSpec_def inScope_def demoWorkload_def
    obj_meta.defs newMeta_def ownedReplicaSet_def)

theorem scaling_round_trip_witness:
  "implements (do { _ \<leftarrow> ScaleDown (clusterManager ''ns''); _ \<leftarrow> ScaleUp (clusterManager ''ns'');
     FinalizeScaleUp (clusterManager ''ns'') }) demoWorkloads (\<lambda>v. v) \<and>
   storeOf demoWorkloads Deployment (''ns'', ''a'') = Some (demoWorkload ''a'' 3 [])"
  using scaling_round_trip [OF demoWorkloads_untouched, of "''ns''"]
  by (simp add: storeOf_def demoWorkloads_def)

end
