(* ===== verification/RestoreRuns.thy ===== *)
theory RestoreRuns
  imports RestoreStages ScaleProperties
begin

text \<open>
  Runs of the restore workflow: an order that every stage of a sequence keeps is kept by the sequence,
  and what the sequences of the three operations keep. \<open>theRestore\<close> is the restore a log shows to be at
  hand, to which the statements about the lease, the provider child and the cleanup are bound. The lemmas hold for every reconciler whose
  managers keep to their interfaces.
\<close>

section \<open>Sequences of stages\<close>

definition restoreStaged :: "effect set \<Rightarrow> 's restore_stage \<Rightarrow> bool" where
  "restoreStaged A s \<longleftrightarrow> (\<forall>r. outcome (s r) (\<lambda>_ es. within A es))"

lemma restoreContractD:
  "restoreContract A N s \<Longrightarrow> outcome (s r) (\<lambda>(r', so) es. within A es \<and> (so_action so = actionNext \<longrightarrow> N r r' es))"
  by (simp add: restoreContract_def)

lemma restoreStaged_contract: "restoreContract A N s \<Longrightarrow> A \<subseteq> B \<Longrightarrow> restoreStaged B s"
  unfolding restoreStaged_def
  by (auto intro!: outcome_mono [OF restoreContractD] elim: within_mono)

lemma restoreStaged_mono: "restoreStaged A s \<Longrightarrow> A \<subseteq> B \<Longrightarrow> restoreStaged B s"
  unfolding restoreStaged_def by (blast intro: outcome_mono within_mono)

lemma runRestoreStages_Cons:
  assumes "outcome (s r) M"
    and "\<And>r' so es. M (r', so) es \<Longrightarrow> so_action so \<noteq> actionNext \<Longrightarrow> R (outcomeResult so d) es"
    and "\<And>r' so es. M (r', so) es \<Longrightarrow> so_action so = actionNext \<Longrightarrow>
      outcome (runRestoreStages r' d ss) (\<lambda>res es'. R res (es @ es'))"
  shows "outcome (runRestoreStages r d (s # ss)) R"
  unfolding runRestoreStages.simps
  by (rule outcome_call [OF assms(1)]) (use assms(2,3) in \<open>auto intro!: outcome_return\<close>)

text \<open>
  A result is well formed: an error comes without a delay (the work queue backs off by itself), and
  a delay is positive when the configured one is.
\<close>

definition wellFormedResult :: "duration \<Rightarrow> reconcile_result \<Rightarrow> bool" where
  "wellFormedResult d res \<longleftrightarrow> (rerr res = None \<or> requeueAfter res = 0) \<and> (0 \<le> d \<longrightarrow> 0 \<le> requeueAfter res)"

lemma wellFormed_outcomeResult: "wellFormedResult d (outcomeResult so d)"
  by (auto simp: wellFormedResult_def outcomeResult_def Let_def)

lemma runRestoreStages_within:
  assumes "list_all (restoreStaged A) ss"
  shows "outcome (runRestoreStages r d ss) (\<lambda>res es. within A es \<and> wellFormedResult d res)"
  using assms
proof (induction ss arbitrary: r)
  case Nil
  show ?case by (auto intro!: outcome_return wellFormed_outcomeResult)
next
  case (Cons s ss)
  then have s: "outcome (s r) (\<lambda>_ es. within A es)" by (simp add: restoreStaged_def)
  show ?case
    by (rule runRestoreStages_Cons, rule s)
      (use Cons.prems in \<open>auto intro!: wellFormed_outcomeResult outcome_mono [OF Cons.IH]\<close>)
qed

text \<open>
  A stage keeps an order from one invariant of the restore to another: given a restore with \<open>I\<close> its own
  events are ordered, and when the workflow goes on, the restore it hands on has \<open>J\<close> or a \<open>G\<close> event has
  happened. A gate is a stage with \<open>J\<close> false.
\<close>

definition keepsOrder ::
    "(event \<Rightarrow> bool) \<Rightarrow> (event \<Rightarrow> bool) \<Rightarrow> (restore \<Rightarrow> bool) \<Rightarrow> (restore \<Rightarrow> bool) \<Rightarrow> 's restore_stage \<Rightarrow> bool" where
  "keepsOrder G B I J s \<longleftrightarrow> (\<forall>r. I r \<longrightarrow> outcome (s r) (\<lambda>(r', so) es. preceded G B es \<and>
     (so_action so = actionNext \<longrightarrow> list_ex G es \<or> J r')))"

lemma keepsOrder_step:
  assumes "keepsOrder G B I J s" "I r" "list_all (restoreStaged UNIV) ss"
    and "\<And>r. J r \<Longrightarrow> outcome (runRestoreStages r d ss) (\<lambda>_ es. preceded G B es)"
  shows "outcome (runRestoreStages r d (s # ss)) (\<lambda>_ es. preceded G B es)"
proof -
  have s: "outcome (s r) (\<lambda>(r', so) es. preceded G B es \<and>
      (so_action so = actionNext \<longrightarrow> list_ex G es \<or> J r'))"
    using assms(1,2) by (simp add: keepsOrder_def)
  show ?thesis
  proof (rule runRestoreStages_Cons, rule s, goal_cases)
    case (2 r' so es)
    then have B: "preceded G B es" and "list_ex G es \<or> J r'" by auto
    then consider "\<exists>e \<in> set es. G e" | "J r'" by (auto simp: list_ex_iff)
    then show ?case
    proof cases
      case 1
      have "outcome (runRestoreStages r' d ss) (\<lambda>_ _. True)"
        by (rule outcome_mono [OF runRestoreStages_within [OF assms(3)]]) simp
      then show ?thesis
        by (rule outcome_mono) (use 1 B in \<open>simp add: preceded_append\<close>)
    next
      case 2
      then show ?thesis
        by (intro outcome_mono [OF assms(4)]) (use B in \<open>auto simp: preceded_append\<close>)
    qed
  qed simp
qed

lemma keepsOrder_Nil: "outcome (runRestoreStages r d []) (\<lambda>_ es. preceded G B es)"
  by (simp add: outcome_return)

declare runRestoreStages.simps [simp del]

text \<open>A sequence of stages with one invariant.\<close>

lemma keepsOrder_run:
  assumes "list_all (keepsOrder G B I I) ss" "list_all (restoreStaged UNIV) (ss @ ss')" "I r"
    and "\<And>r. I r \<Longrightarrow> outcome (runRestoreStages r d ss') (\<lambda>_ es. preceded G B es)"
  shows "outcome (runRestoreStages r d (ss @ ss')) (\<lambda>_ es. preceded G B es)"
  using assms(1-3)
proof (induction ss arbitrary: r)
  case Nil
  with assms(4) show ?case by simp
next
  case (Cons s ss)
  then show ?case
    unfolding append_Cons by (intro keepsOrder_step [of G B I I s]) (auto intro!: Cons.IH)
qed

lemma keepsOrder_all:
  assumes "list_all (keepsOrder G B I I) ss" "list_all (restoreStaged UNIV) ss" "I r"
  shows "outcome (runRestoreStages r d ss) (\<lambda>_ es. preceded G B es)"
  using keepsOrder_run [OF assms(1), of "[]" r d] assms(2,3) keepsOrder_Nil by auto

text \<open>Nothing has to be shown of the stages behind a gate.\<close>

lemma keepsOrder_until:
  assumes "list_all (keepsOrder G B I I) ss" "keepsOrder G B I (\<lambda>_. False) s"
    and "list_all (restoreStaged UNIV) (ss @ s # ss')" "I r"
  shows "outcome (runRestoreStages r d (ss @ s # ss')) (\<lambda>_ es. preceded G B es)"
  by (rule keepsOrder_run [OF assms(1,3,4)], rule keepsOrder_step [OF assms(2)]) (use assms(3) in auto)

text \<open>A stage without \<open>B\<close> events, by its contract, ...\<close>

lemma keepsOrder_contract:
  assumes "restoreContract A N s" "\<And>e. B e \<Longrightarrow> effectOf e \<noteq> Observes \<and> effectOf e \<notin> A"
    and "\<And>r r' es. I r \<Longrightarrow> N r r' es \<Longrightarrow> list_ex G es \<or> J r'"
  shows "keepsOrder G B I J s"
  unfolding keepsOrder_def
proof (intro allI impI)
  fix r assume "I r"
  show "outcome (s r) (\<lambda>(r', so) es. preceded G B es \<and> (so_action so = actionNext \<longrightarrow> list_ex G es \<or> J r'))"
    by (rule outcome_mono [OF restoreContractD [OF assms(1)]])
      (use assms(2,3) \<open>I r\<close> in \<open>auto simp: within_def intro!: preceded_none\<close>)
qed

text \<open>... and one whose own events are ordered.\<close>

lemma keepsOrder_own:
  assumes "restoreContract A N s" "\<And>r. I r \<Longrightarrow> outcome (s r) (\<lambda>_ es. preceded G B es)"
    and "\<And>r r' es. I r \<Longrightarrow> N r r' es \<Longrightarrow> list_ex G es \<or> J r'"
  shows "keepsOrder G B I J s"
  unfolding keepsOrder_def
proof (intro allI impI)
  fix r assume "I r"
  show "outcome (s r) (\<lambda>(r', so) es. preceded G B es \<and> (so_action so = actionNext \<longrightarrow> list_ex G es \<or> J r'))"
    by (rule outcome_mono [OF outcome_conj [OF assms(2) restoreContractD [OF assms(1)]]])
      (use assms(3) \<open>I r\<close> in auto)
qed

section \<open>The effects of an operation\<close>

fun restoreEffects :: "restore_operation \<Rightarrow> effect set" where
  "restoreEffects restoreOperationDelete =
     {DeletesProviderRestore, UpdatesRestoreStatus, ReleasesLease, UpdatesRestore}"
| "restoreEffects restoreOperationIgnore = {UpdatesRestoreStatus, ReleasesLease}"
| "restoreEffects restoreOperationCreate =
     {UpdatesRestoreStatus, UpdatesRestore, ClaimsLease, MaintenanceOn, MaintenanceOff, ScalesWorkload,
      CleansUp, CreatesProviderRestore}"

context restore_managers begin

lemmas restore_contracts = legacyMigrated_contract conditionsInitialized_contract metadata_contract
  providerChildState_contract activeLease_contract providerReady_contract sourceBackupUsable_contract
  maintenanceModeActivated_contract preparation_contract providerRestore_contract
  providerCompletion_contract scaleUpInitiated_contract workloadsReady_contract scaleUpFinalized_contract
  maintenanceModeDeactivated_contract restoreCompleted_contract leaseReleased_contract
  providerRestoreDeleted_contract deletingStatus_contract deletionFinalized_contract

lemmas any_stage [simp] = restore_contracts [THEN restoreStaged_contract, OF subset_UNIV]

lemma all_staged: "list_all (restoreStaged (restoreEffects op)) (restoreStages c op)"
  by (cases op) (simp_all add: restoreStages_def restore_contracts [THEN restoreStaged_contract])

lemma any_staged: "list_all (restoreStaged UNIV) (restoreStages c op)"
  by (cases op) (simp_all add: restoreStages_def)

lemma operation_effects:
  "outcome (runRestoreStages r d (restoreStages c op)) (\<lambda>res es. within (restoreEffects op) es \<and> wellFormedResult d res)"
  by (rule runRestoreStages_within [OF all_staged])

lemma not_in_operation:
  assumes "\<And>e. B e \<Longrightarrow> effectOf e \<noteq> Observes \<and> effectOf e \<notin> restoreEffects op"
  shows "outcome (runRestoreStages r d (restoreStages c op)) (\<lambda>_ es. preceded G B es)"
  by (rule outcome_mono [OF operation_effects])
    (use assms in \<open>auto simp: within_def intro!: preceded_none\<close>)

end

section \<open>The restore at hand\<close>

text \<open>
  The restore a reconciliation of the key \<open>k\<close> works on, as its log shows it: the answer to the read of
  \<open>k\<close>, then whatever the API server answered to a later read of the restore at hand or to a write of
  its status.
\<close>

inductive theRestore :: "key \<Rightarrow> event list \<Rightarrow> restore \<Rightarrow> bool" for k es where
  onRead: "OnRestore (Get k (Inr r)) \<in> set es \<Longrightarrow> theRestore k es r"
| onReread: "theRestore k es a \<Longrightarrow> OnRestore (Get (keyOf a) (Inr r)) \<in> set es \<Longrightarrow> theRestore k es r"
| onStatus: "theRestore k es a \<Longrightarrow> OnRestore (UpdateStatus x (Inr r)) \<in> set es \<Longrightarrow> keyOf x = keyOf a \<Longrightarrow>
    theRestore k es r"

inductive_cases theRestore_elim: "theRestore k es r"

lemma theRestore_later: "theRestore k xs r \<Longrightarrow> theRestore k (xs @ ys) r"
  by (induction rule: theRestore.induct) (auto intro: theRestore.intros)

lemma theRestore_answered: "theRestore k es r \<Longrightarrow> \<exists>e \<in> set es. answered r e"
  unfolding answered_def by (erule theRestore_elim) blast+

lemma theRestore_persisted:
  assumes "theRestore k pre r" "statusWrites statusOnly r es" "persisted statusOnly r r' es"
  shows "theRestore k (pre @ es) r'"
proof -
  have given: "theRestore k (pre @ es) c" if "givenOrRead r xs c" "set xs \<subseteq> set es" for c xs
  proof -
    from assms(1) have r: "theRestore k (pre @ es) r" by (rule theRestore_later)
    show ?thesis
      using that r theRestore.onReread [OF r, of c] unfolding givenOrRead_def by auto
  qed
  from assms(3) show ?thesis
    unfolding persisted_def
  proof (elim disjE exE conjE)
    fix x assume x: "OnRestore (UpdateStatus x (Inr r')) \<in> set es"
    with assms(2) have "statusWrite statusOnly r es (OnRestore (UpdateStatus x (Inr r')))"
      by (rule statusWrites_member)
    then obtain c where c: "givenOrRead r es c" "statusOnly c x" by (auto simp: statusWrite_def)
    then have "keyOf x = keyOf c" by (auto simp: statusOnly_def)
    with given [OF c(1)] x show ?thesis by (auto intro: theRestore.onStatus)
  qed (auto intro: given)
qed

text \<open>The migration of old restores, the only stage that may hand on another answer, keeps to it.\<close>

lemma legacyMigrated_hands:
  "restoreContract {UpdatesRestoreStatus} (\<lambda>r r' es. \<forall>k pre. theRestore k pre r \<longrightarrow> theRestore k (pre @ es) r')
     (ensureLegacyConditionsMigrated c)"
proof -
  have set: "outcome (setConditions E r cs) (\<lambda>res es. within {UpdatesRestoreStatus} es \<and>
      (\<forall>r'. res = Inr r' \<longrightarrow> (\<forall>k pre. theRestore k pre r \<longrightarrow> theRestore k (pre @ es) r')))"
    for E :: "'a env" and r cs
    by (rule outcome_mono [OF setConditions_outcome [OF applyConditions_statusOnly]])
      (auto intro: theRestore_persisted statusWrites_within)
  show ?thesis
    unfolding restoreContract_def ensureLegacyConditionsMigrated_def setConditionsFromLegacyStatus_def
    by (auto intro!: outcome_bind outcome_return outcome_mono [OF set] simp: theRestore_later
        split: option.splits sum.splits)
qed

text \<open>
  An order kept for the restore at hand, whatever quiet log has shown it: by an order of the events, or
  because every answer that shows the restore is evidence already.
\<close>

definition guardsRestore ::
    "key \<Rightarrow> (restore \<Rightarrow> event \<Rightarrow> bool) \<Rightarrow> (event \<Rightarrow> bool) \<Rightarrow> restore \<Rightarrow> event list \<Rightarrow> bool" where
  "guardsRestore k G B r es \<longleftrightarrow>
     (\<forall>pre. theRestore k pre r \<longrightarrow> (\<forall>e \<in> set pre. \<not> B e) \<longrightarrow> guarded (theRestore k) G B (pre @ es))"

lemma guardsRestore_order: "preceded (G r) B es \<Longrightarrow> guardsRestore k G B r es"
  unfolding guardsRestore_def
  by (intro allI impI guarded_after [of _ B "theRestore k" r G]) (auto intro: theRestore_later)

lemma guardsRestore_shown:
  assumes "\<And>e. answered r e \<Longrightarrow> G r e"
  shows "guardsRestore k G B r es"
  unfolding guardsRestore_def
proof (intro allI impI)
  fix pre assume pre: "theRestore k pre r" "\<forall>e \<in> set pre. \<not> B e"
  from theRestore_answered [OF pre(1)] assms obtain g where g: "g \<in> set pre" "G r g" by blast
  show "guarded (theRestore k) G B (pre @ es)"
    unfolding guarded_def
  proof (intro allI impI)
    fix xs e ys assume "pre @ es = xs @ e # ys" "B e"
    with pre(2) obtain us where "xs = pre @ us"
      by (auto simp: append_eq_append_conv2 append_eq_Cons_conv)
    with g theRestore_later [OF pre(1), of us]
    show "\<exists>a. theRestore k xs a \<and> (\<exists>g \<in> set xs. G a g)" by auto
  qed
qed

lemma guardsRestore_quiet: "(\<And>e. e \<in> set es \<Longrightarrow> \<not> B e) \<Longrightarrow> guardsRestore k G B r es"
  by (intro guardsRestore_order preceded_none)

text \<open>The restore a stage hands on differs from the one at hand in its finalizers at most.\<close>

lemma sameRestore_refl [simp]: "sameRestore r r"
  by (simp add: sameRestore_def)

lemma sameRestore_iff: "sameRestore r r' \<longleftrightarrow> (\<exists>fs. r' = r\<lparr>o_finalizers := fs\<rparr>)"
  by (auto simp: sameRestore_def)

lemma sameRestore_trans: "sameRestore a r \<Longrightarrow> sameRestore r r' \<Longrightarrow> sameRestore a r'"
  by (auto simp: sameRestore_iff)

lemma sameRestore_operation:
  assumes "sameRestore r r'"
  shows "requiredRestoreOperation E r' = requiredRestoreOperation E r"
  unfolding requiredRestoreOperation_def isTerminal_def effectiveSuccessfulCondition_def
    determineLegacySuccessfulCondition_def findSuccessfulCondition_def isTerminalLegacyStatus_def
    sameRestore_simps [OF assms] ..

context restore_managers begin

text \<open>In every operation but the one that works on the cluster nothing happens to be guarded.\<close>

lemma guards_other_operations:
  assumes "\<And>e. B e \<Longrightarrow> effectOf e \<noteq> Observes \<and> effectOf e \<notin> restoreEffects op"
  shows "outcome (runRestoreStages r d (restoreStages c op)) (\<lambda>_ es. guardsRestore k G B r es)"
  by (rule outcome_mono [OF operation_effects])
    (use assms in \<open>auto simp: within_def intro!: guardsRestore_quiet\<close>)

text \<open>Past the migration of old restores, the order of the other stages decides.\<close>

lemma guards_after_migration:
  assumes "\<And>e. B e \<Longrightarrow> effectOf e \<noteq> Observes \<and> effectOf e \<noteq> UpdatesRestoreStatus"
    and "\<And>r. outcome (runRestoreStages r d (tl (restoreStages c restoreOperationCreate)))
      (\<lambda>_ es. guardsRestore k G B r es)"
  shows "outcome (runRestoreStages r d (restoreStages c restoreOperationCreate)) (\<lambda>_ es. guardsRestore k G B r es)"
proof -
  have stages: "restoreStages c restoreOperationCreate =
      ensureLegacyConditionsMigrated c # tl (restoreStages c restoreOperationCreate)"
    by (simp add: restoreStages_def)
  have quiet: "\<not> B e" if "within {UpdatesRestoreStatus} es" "e \<in> set es" for e es
    using assms(1) that by (auto simp: within_def)
  show ?thesis
  proof (subst stages, rule runRestoreStages_Cons, rule restoreContractD [OF legacyMigrated_hands], goal_cases)
    case (1 r' so es)
    then show ?case by (auto intro!: guardsRestore_quiet dest: quiet)
  next
    case (2 r' so es)
    then have w: "within {UpdatesRestoreStatus} es"
      and hands: "\<And>k pre. theRestore k pre r \<Longrightarrow> theRestore k (pre @ es) r'" by auto
    show ?case
    proof (rule outcome_mono [OF assms(2)])
      fix a es' assume rest: "guardsRestore k G B r' es'"
      show "guardsRestore k G B r (es @ es')"
        unfolding guardsRestore_def
      proof (intro allI impI)
        fix pre assume "theRestore k pre r" "\<forall>e \<in> set pre. \<not> B e"
        then have "theRestore k (pre @ es) r'" "\<forall>e \<in> set (pre @ es). \<not> B e"
          using hands quiet [OF w] by auto
        with rest have "guarded (theRestore k) G B ((pre @ es) @ es')"
          unfolding guardsRestore_def by blast
        then show "guarded (theRestore k) G B (pre @ es @ es')" by simp
      qed
    qed
  qed
qed

end

section \<open>The lease\<close>

text \<open>
  What lets a run work on the cluster: a lease read in this run that names the restore at hand. The only
  way past it is a restore that was answered, in this run, to need no work any more.
\<close>

definition mayWorkAs :: "'s env \<Rightarrow> string \<Rightarrow> restore \<Rightarrow> event \<Rightarrow> bool" where
  "mayWorkAs E n r e \<longleftrightarrow>
     (\<exists>l. e = OnLease (Get (n, DefaultName) (Inr l)) \<and> namesHolder l r restoreLeaseHolderKind) \<or>
     answered r e \<and> requiredRestoreOperation E r \<noteq> restoreOperationCreate"

definition worksOnCluster :: "event \<Rightarrow> bool" where
  "worksOnCluster e \<longleftrightarrow>
     effectOf e \<in> {MaintenanceOn, MaintenanceOff, ScalesWorkload, CleansUp, CreatesProviderRestore}"

lemma sawOwn_mayWork:
  assumes "list_ex (sawOwnRestoreLease c r) es" "sameRestore a r"
  shows "list_ex (mayWorkAs (rr_client c) (rr_namespace c) a) es"
  using assms sameRestore_simps [OF assms(2)]
  by (auto simp: list_ex_iff mayWorkAs_def sawOwnRestoreLease_def IsHolder_names namesHolder_def elim!: bexI [rotated])

context restore_managers begin

lemma works_as_holder:
  "outcome (runRestoreStages r d (restoreStages c restoreOperationCreate))
     (\<lambda>_ es. guardsRestore k (mayWorkAs (rr_client c) (rr_namespace c)) worksOnCluster r es)"
proof (rule guards_after_migration)
  fix r
  show "outcome (runRestoreStages r d (tl (restoreStages c restoreOperationCreate)))
     (\<lambda>_ es. guardsRestore k (mayWorkAs (rr_client c) (rr_namespace c)) worksOnCluster r es)"
  proof (cases "requiredRestoreOperation (rr_client c) r = restoreOperationCreate")
    case True
    let ?G = "mayWorkAs (rr_client c) (rr_namespace c) r"
    have "keepsOrder ?G worksOnCluster (sameRestore r) (sameRestore r) (ensureRestoreConditionsInitialized c)"
      by (rule keepsOrder_contract [OF conditionsInitialized_contract]) (auto simp: worksOnCluster_def)
    moreover have "keepsOrder ?G worksOnCluster (sameRestore r) (sameRestore r) (ensureMetadata c)"
      by (rule keepsOrder_contract [OF metadata_contract])
        (auto simp: worksOnCluster_def intro: sameRestore_trans)
    moreover have "keepsOrder ?G worksOnCluster (sameRestore r) (sameRestore r) (ensureProviderChildState c)"
      by (rule keepsOrder_contract [OF providerChildState_contract]) (auto simp: worksOnCluster_def)
    moreover have "keepsOrder ?G worksOnCluster (sameRestore r) (\<lambda>_. False) (ensureActiveRestoreLease c)"
      by (rule keepsOrder_contract [OF activeLease_contract])
        (auto simp: worksOnCluster_def sameRestore_operation True intro: sawOwn_mayWork)
    ultimately have "outcome (runRestoreStages r d (tl (restoreStages c restoreOperationCreate)))
        (\<lambda>_ es. preceded ?G worksOnCluster es)"
      unfolding restoreStages_def restore_operation.case list.sel
      by (elim keepsOrder_step) (simp_all only: list.pred_inject any_stage simp_thms sameRestore_refl)
    then show ?thesis by (rule outcome_mono) (rule guardsRestore_order)
  next
    case False
    then have shown: "guardsRestore k (mayWorkAs (rr_client c) (rr_namespace c)) worksOnCluster r es" for es
      by (intro guardsRestore_shown) (simp add: mayWorkAs_def)
    have "outcome (runRestoreStages r d (tl (restoreStages c restoreOperationCreate))) (\<lambda>_ _. True)"
      by (rule outcome_mono [OF runRestoreStages_within [of UNIV]]) (simp_all add: restoreStages_def)
    then show ?thesis by (rule outcome_mono) (rule shown)
  qed
qed (auto simp: worksOnCluster_def)

end

end
