(* ===== verification/RestoreOrders.thy ===== *)
theory RestoreOrders
  imports RestoreRuns
begin

text \<open>
  The order of the effects of a restore workflow: the provider child is checked before anything is
  claimed or changed, the backup the restore asks for before anything is removed, the preparation before the provider
  restore is created, and what a deletion removes last.
\<close>

section \<open>The provider child as the safety barrier\<close>

definition childAcceptable :: "'s restoreReconciler \<Rightarrow> restore \<Rightarrow> event \<Rightarrow> bool" where
  "childAcceptable c r e \<longleftrightarrow> sawNoChild r e \<or>
     (\<exists>ch. sawChild r ch e \<and> CheckRestoreForConflicts (rr_client c) r ch = None)"

lemma childAcceptable_intros:
  "list_ex (sawNoChild r) es \<Longrightarrow> list_ex (childAcceptable c r) es"
  "list_ex (sawChild r ch) es \<Longrightarrow> CheckRestoreForConflicts (rr_client c) r ch = None \<Longrightarrow>
     list_ex (childAcceptable c r) es"
  by (auto simp: childAcceptable_def list_ex_iff)

lemma providerChildState_gate:
  "restoreContract {UpdatesRestoreStatus} (\<lambda>r r' es. r' = r \<and> list_ex (childAcceptable c r) es)
     (ensureProviderChildState c)"
  unfolding restoreContract_def
proof
  fix r
  show "outcome (ensureProviderChildState c r) (\<lambda>(r', so) es. within {UpdatesRestoreStatus} es \<and>
      (so_action so = actionNext \<longrightarrow> r' = r \<and> list_ex (childAcceptable c r) es))"
    unfolding ensureProviderChildState_def
  proof (rule outcome_call [OF GetRestore_reads], goal_cases)
    case (1 got es)
    then obtain x where es: "es = [OnVeleroRestore (Get (keyOf r) x)]" by blast
    consider e where "got = Inl e" | "got = Inr None" | (child) ch where "got = Inr (Some ch)"
      by (cases got) (auto simp: split_option_all)
    then show ?case
    proof cases
      case child
      with 1 show ?thesis
        by (cases "CheckRestoreForConflicts (rr_client c) r ch")
          (auto intro!: outcome_return outcome_mono [OF failOnProviderChildConflict_outcome]
            intro: childAcceptable_intros(2))
    qed (use 1 es in \<open>auto intro!: outcome_return childAcceptable_intros(1)\<close>)
  qed
qed

text \<open>
  The reading of the statements: no provider restore of that name, or one the restore at hand controls
  (by the UID of the controller among its owners), restoring the backup it asks for.
\<close>

definition controls :: "'s env \<Rightarrow> restore \<Rightarrow> velero_restore \<Rightarrow> bool" where
  "controls E r ch \<longleftrightarrow> o_uid r \<noteq> [] \<and> (\<exists>ctrl. getControllerOf E (o_owners ch) = Some ctrl \<and> ow_uid ctrl = o_uid r)"

lemma IsOwned_controls: "IsOwnedRestore E r ch \<longleftrightarrow> controls E r ch"
  by (auto simp: IsOwnedRestore_def controls_def split: option.splits)

definition childFits :: "'s env \<Rightarrow> restore \<Rightarrow> event \<Rightarrow> bool" where
  "childFits E r e \<longleftrightarrow>
     (\<exists>x. e = OnVeleroRestore (Get (keyOf r) (Inl x)) \<and> isNotFound x) \<or>
     (\<exists>ch. e = OnVeleroRestore (Get (keyOf r) (Inr ch)) \<and> controls E r ch \<and>
        vsp_backupName (vre_spec ch) = re_backupName r)"

lemma acceptable_fits:
  assumes "list_ex (childAcceptable c r) es" "sameRestore a r"
  shows "list_ex (childFits (rr_client c) a) es"
  using assms sameRestore_simps [OF assms(2)]
  by (auto simp: list_ex_iff childAcceptable_def childFits_def sawNoChild_def sawChild_def
      CheckRestoreForConflicts_def IsOwned_controls controls_def split: if_splits elim!: bexI [rotated])

context restore_managers begin

lemma child_checked_first:
  "outcome (runRestoreStages r d (restoreStages c restoreOperationCreate)) (\<lambda>_ es.
     guardsRestore k (childFits (rr_client c)) (\<lambda>e. effectOf e = ClaimsLease \<or> worksOnCluster e) r es)"
proof (rule guards_after_migration)
  fix r
  let ?G = "childFits (rr_client c) r"
  let ?B = "\<lambda>e. effectOf e = ClaimsLease \<or> worksOnCluster e"
  have "keepsOrder ?G ?B (sameRestore r) (sameRestore r) (ensureRestoreConditionsInitialized c)"
    by (rule keepsOrder_contract [OF conditionsInitialized_contract]) (auto simp: worksOnCluster_def)
  moreover have "keepsOrder ?G ?B (sameRestore r) (sameRestore r) (ensureMetadata c)"
    by (rule keepsOrder_contract [OF metadata_contract]) (auto simp: worksOnCluster_def intro: sameRestore_trans)
  moreover have "keepsOrder ?G ?B (sameRestore r) (\<lambda>_. False) (ensureProviderChildState c)"
    by (rule keepsOrder_contract [OF providerChildState_gate]) (auto simp: worksOnCluster_def intro: acceptable_fits)
  ultimately have "outcome (runRestoreStages r d (tl (restoreStages c restoreOperationCreate)))
      (\<lambda>_ es. preceded ?G ?B es)"
    unfolding restoreStages_def restore_operation.case list.sel
    by (elim keepsOrder_step) (simp_all only: list.pred_inject any_stage simp_thms sameRestore_refl)
  then show "outcome (runRestoreStages r d (tl (restoreStages c restoreOperationCreate)))
      (\<lambda>_ es. guardsRestore k (childFits (rr_client c)) ?B r es)"
    by (rule outcome_mono) (rule guardsRestore_order)
qed (auto simp: worksOnCluster_def)

end

section \<open>The destructive preparation\<close>

text \<open>
  What allows it: the Velero backup of the name the restore at hand asks for, in its namespace, was read
  in a usable phase, or its own provider restore was read.
\<close>

definition cleanupAllowed :: "'s env \<Rightarrow> restore \<Rightarrow> event \<Rightarrow> bool" where
  "cleanupAllowed E r e \<longleftrightarrow>
     (\<exists>v. e = OnVeleroBackup (Get (o_namespace r, re_backupName r) (Inr v)) \<and>
        (vb_phase v = BackupPhaseCompleted \<or> vb_phase v = BackupPhasePartiallyFailed)) \<or>
     (\<exists>ch. e = OnVeleroRestore (Get (keyOf r) (Inr ch)) \<and> controls E r ch)"

lemma preparation_cleanup:
  assumes "list_ex (preparationAllowed c r) es" "sameRestore a r"
  shows "list_ex (cleanupAllowed (rr_client c) a) es"
  using assms sameRestore_simps [OF assms(2)]
  by (auto simp: list_ex_iff preparationAllowed_def cleanupAllowed_def sawUsableBackup_def sawOwnChild_def
      sawChild_def IsOwned_controls controls_def elim!: bexI [rotated])

lemma preparation_done:
  "isPrepared c r \<Longrightarrow> outcome (ensurePreparation c r) (\<lambda>_ es. es = [])"
  unfolding ensurePreparation_def isAlreadyPrepared_def
  by (auto intro!: outcome_bind [of "return _"] outcome_return)

context restore_managers begin

text \<open>What one stage can do, for an event \<open>B\<close> of one stage only.\<close>

lemma pass_contract:
  assumes "restoreContract A N s" "\<And>e. B e \<Longrightarrow> effectOf e \<noteq> Observes \<and> effectOf e \<notin> A"
  shows "keepsOrder G B I (\<lambda>_. True) s"
  by (rule keepsOrder_contract [OF assms]) auto

lemma cleans_up_when_allowed:
  "outcome (runRestoreStages r d (restoreStages c restoreOperationCreate)) (\<lambda>_ es.
     guardsRestore k (cleanupAllowed (rr_client c)) (\<lambda>e. effectOf e = CleansUp) r es)"
proof (rule guards_after_migration)
  fix r
  let ?G = "cleanupAllowed (rr_client c) r"
  let ?B = "\<lambda>e. effectOf e = CleansUp"
  note pass = keepsOrder_contract [where B = ?B and G = ?G and I = "sameRestore r" and J = "sameRestore r"]
  have before: "list_all (keepsOrder ?G ?B (sameRestore r) (sameRestore r)) [ensureRestoreConditionsInitialized c,
      ensureMetadata c, ensureProviderChildState c, ensureActiveRestoreLease c, ensureProviderReady c]"
    unfolding list.pred_inject
    by (auto intro!: pass [OF conditionsInitialized_contract] pass [OF metadata_contract]
        pass [OF providerChildState_contract] pass [OF activeLease_contract] pass [OF providerReady_contract]
        intro: sameRestore_trans)
  have source: "keepsOrder ?G ?B (sameRestore r) (isPrepared c) (ensureSourceBackupUsable c)"
    by (rule keepsOrder_contract [OF sourceBackupUsable_contract]) (auto intro: preparation_cleanup)
  have maintenance: "keepsOrder ?G ?B (isPrepared c) (isPrepared c) (ensureMaintenanceModeActivated c)"
    by (rule keepsOrder_contract [OF maintenanceModeActivated_contract]) auto
  have preparation: "keepsOrder ?G ?B (isPrepared c) (\<lambda>_. True) (ensurePreparation c)"
    by (rule keepsOrder_own [OF preparation_contract]) (auto intro: outcome_mono [OF preparation_done])
  have rest: "outcome (runRestoreStages r d [ensureProviderRestore c, ensureProviderCompletion c,
      ensureScaleUpInitiated c, ensureWorkloadsReady c, ensureScaleUpFinalized c,
      ensureMaintenanceModeDeactivated c, ensureRestoreCompleted c]) (\<lambda>_ es. preceded ?G ?B es)" for r
    by (rule outcome_mono [OF runRestoreStages_within [of "UNIV - {CleansUp}"]])
      (auto simp: restore_contracts [THEN restoreStaged_contract] within_def intro!: preceded_none)
  have stages: "tl (restoreStages c restoreOperationCreate) = [ensureRestoreConditionsInitialized c,
      ensureMetadata c, ensureProviderChildState c, ensureActiveRestoreLease c, ensureProviderReady c] @
      [ensureSourceBackupUsable c, ensureMaintenanceModeActivated c, ensurePreparation c, ensureProviderRestore c,
       ensureProviderCompletion c, ensureScaleUpInitiated c, ensureWorkloadsReady c, ensureScaleUpFinalized c,
       ensureMaintenanceModeDeactivated c, ensureRestoreCompleted c]"
    by (simp add: restoreStages_def)
  have "outcome (runRestoreStages r d (tl (restoreStages c restoreOperationCreate))) (\<lambda>_ es. preceded ?G ?B es)"
    unfolding stages
    by (rule keepsOrder_run [OF before], simp, simp)
      (intro keepsOrder_step [OF source] keepsOrder_step [OF maintenance] keepsOrder_step [OF preparation] rest;
       simp)
  then show "outcome (runRestoreStages r d (tl (restoreStages c restoreOperationCreate)))
      (\<lambda>_ es. guardsRestore k (cleanupAllowed (rr_client c)) ?B r es)"
    by (rule outcome_mono) (rule guardsRestore_order)
qed auto

end

section \<open>Creating the provider restore\<close>

lemma createsChild_effect [simp]: "createsChild v e \<Longrightarrow> effectOf e = CreatesProviderRestore"
  by (cases "(v, e)" rule: createsChild.cases) auto

text \<open>The one place that creates it creates what \<open>BuildRestore\<close> builds, right after it saw none.\<close>

lemma ensureProviderRestore_creates:
  "outcome (ensureProviderRestore c r) (\<lambda>_ es. preceded
     (\<lambda>e. \<exists>a. v = BuildRestore (rr_client c) a \<and> sawNoChild a e) (createsChild v) es)"
  (is "outcome _ (\<lambda>_ es. preceded ?G ?B es)")
proof -
  have status: "preceded ?G ?B es" if "within {UpdatesRestoreStatus} es" for es
    using that by (auto simp: within_def intro!: preceded_none)
  have conflict: "outcome (failOnProviderChildConflict c r x) (\<lambda>_ es. preceded ?G ?B es)" for x
    by (rule outcome_mono [OF failOnProviderChildConflict_outcome]) (auto intro: status)
  have ensure: "outcome (EnsureRestore (rr_client c) r) (\<lambda>_ es. preceded ?G ?B es)"
    unfolding EnsureRestore_def GetRestore_def
    by (auto intro!: outcome_intro split: sum.splits option.splits simp: sawNoChild_def) blast
  show ?thesis
    unfolding ensureProviderRestore_def GetRestore_def
    by (auto intro!: outcome_return outcome_bind [of "apiGet _ _ _"] outcome_apiGet outcome_bind [of "eventf _ _ _ _"]
        outcome_eventf outcome_bind [of "return _"] outcome_bind [of "State_Monad.bind (apiGet _ _ _) _"]
        outcome_call [OF ensure] outcome_mono [OF conflict] simp: preceded_append
        split: sum.splits option.splits restore_error.splits)
qed

text \<open>A restore that is prepared: reported so in the status the API server answered, or its child exists.\<close>

definition sawPrepared :: "'s restoreReconciler \<Rightarrow> event \<Rightarrow> bool" where
  "sawPrepared c e \<longleftrightarrow> (\<exists>r. answered r e \<and> isPrepared c r) \<or> (\<exists>r. sawOwnChild c r e)"

lemma sawPrepared_intros:
  "list_ex (answered r) es \<Longrightarrow> isPrepared c r \<Longrightarrow> list_ex (sawPrepared c) es"
  "list_ex (sawOwnChild c r) es \<Longrightarrow> list_ex (sawPrepared c) es"
  by (auto simp: sawPrepared_def list_ex_iff)

context restore_managers begin

lemma creates_when_absent:
  "outcome (runRestoreStages r d (restoreStages c restoreOperationCreate)) (\<lambda>_ es. preceded
     (\<lambda>e. \<exists>a. v = BuildRestore (rr_client c) a \<and> sawNoChild a e) (createsChild v) es)"
proof -
  let ?G = "\<lambda>e. \<exists>a. v = BuildRestore (rr_client c) a \<and> sawNoChild a e"
  note pass = pass_contract [where B = "createsChild v" and G = ?G and I = "\<lambda>_. True"]
  have "list_all (keepsOrder ?G (createsChild v) (\<lambda>_. True) (\<lambda>_. True)) (restoreStages c restoreOperationCreate)"
    unfolding restoreStages_def restore_operation.case list.pred_inject
    by (auto intro!: pass [OF legacyMigrated_contract] pass [OF conditionsInitialized_contract]
        pass [OF metadata_contract] pass [OF providerChildState_contract] pass [OF activeLease_contract]
        pass [OF providerReady_contract] pass [OF sourceBackupUsable_contract]
        pass [OF maintenanceModeActivated_contract] pass [OF preparation_contract]
        keepsOrder_own [OF providerRestore_contract ensureProviderRestore_creates]
        pass [OF providerCompletion_contract] pass [OF scaleUpInitiated_contract]
        pass [OF workloadsReady_contract] pass [OF scaleUpFinalized_contract]
        pass [OF maintenanceModeDeactivated_contract] pass [OF restoreCompleted_contract])
  then show ?thesis by (rule keepsOrder_all [OF _ any_staged]) simp
qed

lemma creates_when_prepared:
  assumes "\<not> isPrepared c r"
  shows "outcome (runRestoreStages r d (restoreStages c restoreOperationCreate))
     (\<lambda>_ es. preceded (sawPrepared c) (\<lambda>e. effectOf e = CreatesProviderRestore) es)"
proof -
  let ?B = "\<lambda>e. effectOf e = CreatesProviderRestore"
  let ?I = "\<lambda>r. \<not> isPrepared c r"
  note keep = keepsOrder_contract [where B = ?B and G = "sawPrepared c" and I = ?I and J = ?I]
  have before: "list_all (keepsOrder (sawPrepared c) ?B ?I ?I) [ensureLegacyConditionsMigrated c,
      ensureRestoreConditionsInitialized c, ensureMetadata c, ensureProviderChildState c,
      ensureActiveRestoreLease c, ensureProviderReady c, ensureSourceBackupUsable c, ensureMaintenanceModeActivated c]"
    unfolding list.pred_inject
    by (auto intro!: keep [OF legacyMigrated_contract] keep [OF conditionsInitialized_contract]
        keep [OF metadata_contract] keep [OF providerChildState_contract] keep [OF activeLease_contract]
        keep [OF providerReady_contract] keep [OF sourceBackupUsable_contract]
        keep [OF maintenanceModeActivated_contract] sawPrepared_intros(1) simp: sameRestore_simps)
  have gate: "keepsOrder (sawPrepared c) ?B ?I (\<lambda>_. False) (ensurePreparation c)"
    by (rule keepsOrder_contract [OF preparation_contract]) (auto intro: sawPrepared_intros(2))
  have stages: "restoreStages c restoreOperationCreate = [ensureLegacyConditionsMigrated c,
      ensureRestoreConditionsInitialized c, ensureMetadata c, ensureProviderChildState c,
      ensureActiveRestoreLease c, ensureProviderReady c, ensureSourceBackupUsable c,
      ensureMaintenanceModeActivated c] @ ensurePreparation c # [ensureProviderRestore c,
      ensureProviderCompletion c, ensureScaleUpInitiated c, ensureWorkloadsReady c, ensureScaleUpFinalized c,
      ensureMaintenanceModeDeactivated c, ensureRestoreCompleted c]"
    by (simp add: restoreStages_def)
  show ?thesis
    unfolding stages
    by (rule keepsOrder_until [OF before gate _ assms]) simp
qed

end

section \<open>Deletion\<close>

text \<open>
  Only a provider restore read in this run is deleted, with its UID as precondition, and only when the
  restore controls it or stems from before conditions existed.
\<close>

definition deletesChild :: "velero_restore \<Rightarrow> event \<Rightarrow> bool" where
  "deletesChild ch e \<longleftrightarrow> (\<exists>opts u. e = OnVeleroRestore (Delete ch opts u))"

definition deletesByUID :: "velero_restore \<Rightarrow> event \<Rightarrow> bool" where
  "deletesByUID ch e \<longleftrightarrow>
     (\<exists>u. e = OnVeleroRestore (Delete ch (DeleteOptions (Some (o_uid ch)) None) u))"

definition mayDeleteChild :: "'s restoreReconciler \<Rightarrow> restore \<Rightarrow> velero_restore \<Rightarrow> event \<Rightarrow> bool" where
  "mayDeleteChild c r ch e \<longleftrightarrow> sawChild r ch e \<and> isZeroPtr (o_deletion ch) \<and>
     (IsOwnedRestore (rr_client c) r ch \<or> migratedRestore c r)"

lemma deletesChild_effect [simp]: "deletesChild ch e \<Longrightarrow> effectOf e = DeletesProviderRestore"
  by (auto simp: deletesChild_def)

lemma providerRestoreDeleted_own:
  "outcome (ensureProviderRestoreDeleted c r) (\<lambda>_ es.
     preceded (mayDeleteChild c r ch) (deletesChild ch) es \<and>
     preceded (\<lambda>_. False) (\<lambda>e. deletesChild ch e \<and> \<not> deletesByUID ch e) es)"
  unfolding ensureProviderRestoreDeleted_def Let_def migratedRestore_case
proof (rule outcome_call [OF GetRestore_reads], goal_cases)
  case (1 got es)
  then obtain x where es: "es = [OnVeleroRestore (Get (keyOf r) x)]" by blast
  consider e where "got = Inl e" | "got = Inr None" | (child) v where "got = Inr (Some v)"
    by (cases got) (auto simp: split_option_all)
  then show ?case
  proof cases
    case child
    with 1 es have "sawChild r v (OnVeleroRestore (Get (keyOf r) x))" by simp
    then show ?thesis
      unfolding child sum.case option.case
      by (auto intro!: outcome_return outcome_bind [of "eventf _ _ _ _"] outcome_eventf
          outcome_call [OF DeleteRestore_outcome] split: option.splits
          simp: es deletesChild_def deletesByUID_def mayDeleteChild_def)
  qed (use es in \<open>auto intro!: outcome_return simp: deletesChild_def\<close>)
qed

context restore_managers begin

lemma deletion_keeps:
  "outcome (runRestoreStages r d (restoreStages c restoreOperationDelete)) (\<lambda>_ es.
     preceded (mayDeleteChild c r ch) (deletesChild ch) es)"
  "outcome (runRestoreStages r d (restoreStages c restoreOperationDelete)) (\<lambda>_ es.
     preceded (\<lambda>_. False) (\<lambda>e. deletesChild ch e \<and> \<not> deletesByUID ch e) es)"
proof -
  have own: "keepsOrder (mayDeleteChild c r ch) (deletesChild ch) (\<lambda>a. a = r) (\<lambda>_. True) (ensureProviderRestoreDeleted c)"
    "keepsOrder (\<lambda>_. False) (\<lambda>e. deletesChild ch e \<and> \<not> deletesByUID ch e) (\<lambda>_. True) (\<lambda>_. True) (ensureProviderRestoreDeleted c)"
    by (rule keepsOrder_own [OF providerRestoreDeleted_contract]; auto intro: outcome_mono [OF providerRestoreDeleted_own])+
  have rest: "outcome (runRestoreStages r' d [ensureDeletingStatus c, ensureRestoreLeaseReleased c,
      ensureDeletionFinalized c]) (\<lambda>_ es. preceded G B es)" if "\<And>e. B e \<Longrightarrow> deletesChild ch e" for r' G B
    by (rule outcome_mono [OF runRestoreStages_within [of "UNIV - {DeletesProviderRestore}"]])
      (auto simp: restore_contracts [THEN restoreStaged_contract] within_def intro!: preceded_none
        dest!: that [THEN deletesChild_effect])
  show "outcome (runRestoreStages r d (restoreStages c restoreOperationDelete)) (\<lambda>_ es.
     preceded (mayDeleteChild c r ch) (deletesChild ch) es)"
    unfolding restoreStages_def restore_operation.case
    by (rule keepsOrder_step [OF own(1)]) (auto intro!: rest)
  show "outcome (runRestoreStages r d (restoreStages c restoreOperationDelete)) (\<lambda>_ es.
     preceded (\<lambda>_. False) (\<lambda>e. deletesChild ch e \<and> \<not> deletesByUID ch e) es)"
    unfolding restoreStages_def restore_operation.case
    by (rule keepsOrder_step [OF own(2)]) (auto intro!: rest)
qed

text \<open>The finalizer goes last: after the child is handled and after the lease is gone.\<close>

lemma finalizer_goes_last:
  "outcome (runRestoreStages r d (restoreStages c restoreOperationDelete)) (\<lambda>_ es.
     preceded (childHandled c r) (\<lambda>e. effectOf e = UpdatesRestore) es)"
  "outcome (runRestoreStages r d (restoreStages c restoreOperationDelete)) (\<lambda>_ es.
     preceded (sawRestoreLeaseGone c r) (\<lambda>e. effectOf e = UpdatesRestore) es)"
proof -
  let ?B = "\<lambda>e. effectOf e = UpdatesRestore"
  have gates: "keepsOrder (childHandled c r) ?B (\<lambda>a. a = r) (\<lambda>_. False) (ensureProviderRestoreDeleted c)"
    "keepsOrder (sawRestoreLeaseGone c r) ?B (\<lambda>a. a = r) (\<lambda>_. False) (ensureRestoreLeaseReleased c)"
    by (rule keepsOrder_contract [OF providerRestoreDeleted_contract] keepsOrder_contract [OF leaseReleased_contract];
      simp)+
  have before: "list_all (keepsOrder (sawRestoreLeaseGone c r) ?B (\<lambda>a. a = r) (\<lambda>a. a = r))
      [ensureProviderRestoreDeleted c, ensureDeletingStatus c]"
    unfolding list.pred_inject
    by (auto intro: keepsOrder_contract [OF providerRestoreDeleted_contract]
        keepsOrder_contract [OF deletingStatus_contract])
  show "outcome (runRestoreStages r d (restoreStages c restoreOperationDelete)) (\<lambda>_ es.
     preceded (childHandled c r) ?B es)"
    unfolding restoreStages_def restore_operation.case
    by (rule keepsOrder_step [OF gates(1)]) auto
  have stages: "restoreStages c restoreOperationDelete = [ensureProviderRestoreDeleted c, ensureDeletingStatus c] @
      ensureRestoreLeaseReleased c # [ensureDeletionFinalized c]"
    by (simp add: restoreStages_def)
  show "outcome (runRestoreStages r d (restoreStages c restoreOperationDelete)) (\<lambda>_ es.
     preceded (sawRestoreLeaseGone c r) ?B es)"
    unfolding stages
    by (rule keepsOrder_until [OF before gates(2)]) simp_all
qed

end

end
