(* ===== verification/RestoreMilestones.thy ===== *)
theory RestoreMilestones
  imports RestoreOrders
begin

text \<open>
  The milestones of a restore, the conditions \<open>Prepared\<close>, \<open>ProviderSucceeded\<close> and \<open>Succeeded\<close>: every
  stage but the one that reaches a milestone never writes it into a status that has not got it. A status
  can only get it from the API server, when the updater reads the restore again after a conflict.
\<close>

section \<open>Programs that keep an order\<close>

definition ordered :: "(event \<Rightarrow> bool) \<Rightarrow> (event \<Rightarrow> bool) \<Rightarrow> ('s, 'a) prog \<Rightarrow> bool" where
  "ordered G B m \<longleftrightarrow> outcome m (\<lambda>_ es. preceded G B es)"

named_theorems ordered_intro \<open>rules that take a program apart that keeps an order\<close>

lemma ordered_return [ordered_intro]: "ordered G B (return a)"
  by (simp add: ordered_def outcome_return)

lemma ordered_bind [ordered_intro]:
  assumes "ordered G B m" "\<And>a. ordered G B (f a)"
  shows "ordered G B (State_Monad.bind m f)"
  unfolding ordered_def
  by (rule outcome_call [OF assms(1) [unfolded ordered_def]], rule outcome_mono [OF assms(2) [unfolded ordered_def]])
    (simp add: preceded_append)

text \<open>Milestones in a status.\<close>

definition marked :: "cond_type \<Rightarrow> string \<Rightarrow> restore_status \<Rightarrow> bool" where
  "marked t reason st \<longleftrightarrow> (\<exists>d. findCond (rst_conditions st) t = Some d \<and>
     c_status d = ConditionTrue \<and> c_reason d = reason)"

definition marksNone :: "cond_type \<Rightarrow> string \<Rightarrow> condition list \<Rightarrow> bool" where
  "marksNone t reason cs \<longleftrightarrow> distinct (map c_type cs) \<and>
     list_all (\<lambda>d. \<not> (c_type d = t \<and> c_status d = ConditionTrue \<and> c_reason d = reason)) cs"

abbreviation writesMark :: "cond_type \<Rightarrow> string \<Rightarrow> event \<Rightarrow> bool" where
  "writesMark t reason \<equiv> writesStatus (marked t reason)"

abbreviation answeredMark :: "cond_type \<Rightarrow> string \<Rightarrow> event \<Rightarrow> bool" where
  "answeredMark t reason \<equiv> answeredStatus (marked t reason)"

lemma writesStatus_effect: "writesStatus P e \<Longrightarrow> effectOf e = UpdatesRestoreStatus"
  by (auto simp: writesStatus_def)

lemma applied_marked:
  assumes "applied cs c x" "marksNone t reason cs" "marked t reason (re_status x)"
  shows "marked t reason (re_status c)"
proof (cases "t \<in> c_type ` set cs")
  case True
  then obtain d where d: "d \<in> set cs" "c_type d = t" by auto
  with assms(1) have "reports x d" by (simp add: applied_def)
  with assms(3) d(2) have "c_status d = ConditionTrue" "c_reason d = reason"
    by (auto simp: reports_iff marked_def)
  with assms(2) d show ?thesis by (auto simp: marksNone_def list_all_iff)
next
  case False
  with assms(1,3) show ?thesis by (simp add: applied_def marked_def)
qed

lemma ordered_setConditions:
  assumes "meta_laws E" "marksNone t reason cs" "\<not> marked t reason (re_status r)"
  shows "ordered (answeredMark t reason) (writesMark t reason) (setConditions E r cs)"
proof -
  have "distinct (map c_type cs)" using assms(2) by (simp add: marksNone_def)
  from setConditions_outcome [OF applyConditions_law [OF assms(1) this]]
  show ?thesis
    unfolding ordered_def
    by (rule outcome_mono) (use applied_marked [OF _ assms(2)] assms(3) in
      \<open>blast intro: statusWrites_preceded\<close>)
qed

text \<open>Calls that do not write the status of a restore.\<close>

lemma ordered_within:
  assumes "outcome m (\<lambda>_ es. within A es)" "UpdatesRestoreStatus \<notin> A"
  shows "ordered G (writesStatus P) m"
  unfolding ordered_def
  by (rule outcome_mono [OF assms(1)])
    (use assms(2) in \<open>fastforce simp: within_def intro!: preceded_none dest: writesStatus_effect\<close>)

lemma ordered_calls [ordered_intro]:
  "ordered G (writesStatus P) (eventf a b c d)" "ordered G (writesStatus P) (now E)"
  "ordered G (writesStatus P) (switchStatus E)" "ordered G (writesStatus P) (switchActivate E x y)"
  "ordered G (writesStatus P) (switchDeactivate E)" "ordered G (writesStatus P) (GetRestore E r)"
  "ordered G (writesStatus P) (EnsureRestore E r)" "ordered G (writesStatus P) (DeleteRestore E ch)"
  "ordered G (writesStatus P) (CheckReady E n s dep)" "ordered G (writesStatus P) (CheckSourceBackup E n s)"
  "ordered G (writesStatus P) (UpdateInvalidLeaseTotalMetric n s)"
proof -
  show "ordered G (writesStatus P) (CheckReady E n s dep)"
    by (rule ordered_within [OF CheckReady_within [of _ _ _ _ "{}"]]) simp
  show "ordered G (writesStatus P) (EnsureRestore E r)"
    by (rule ordered_within [OF EnsureRestore_within]) simp
  show "ordered G (writesStatus P) (DeleteRestore E ch)"
    by (rule ordered_within [of _ "{DeletesProviderRestore}"], rule outcome_mono [OF DeleteRestore_outcome]) auto
  show "ordered G (writesStatus P) (CheckSourceBackup E n s)"
    by (rule ordered_within [of _ "{}"], rule outcome_mono [OF CheckSourceBackup_outcome]) auto
  show "ordered G (writesStatus P) (GetRestore E r)"
    by (rule ordered_within [of _ "{}"], rule outcome_mono [OF GetRestore_outcome]) auto
qed (auto simp: ordered_def UpdateInvalidLeaseTotalMetric_def writesStatus_def
    intro!: outcome_eventf outcome_now switch_outcomes outcome_metricAdd)

section \<open>What the stages report\<close>

definition milestones :: "(cond_type \<times> string) set" where
  "milestones = {(ConditionPrepared, ReasonPreparationCompleted),
     (ConditionProviderSucceeded, ReasonProviderRestoreCompleted), (ConditionSucceeded, ReasonRestoreCompleted)}"

lemmas restore_reasons = ReasonPreparationCompleted_def ReasonProviderRestoreCompleted_def
  ReasonRestoreCompleted_def ReasonMigratedFromLegacyStatus_def ReasonWorkloadRecoveryCompleted_def

definition keepsMark :: "cond_type \<Rightarrow> string \<Rightarrow> 's restore_stage \<Rightarrow> bool" where
  "keepsMark t reason s \<longleftrightarrow> (\<forall>r. \<not> marked t reason (re_status r) \<longrightarrow>
     ordered (answeredMark t reason) (writesMark t reason) (s r))"

lemma marksNone_simps [simp]:
  "marksNone t reason []"
  "marksNone t reason (d # cs) \<longleftrightarrow> c_type d \<notin> c_type ` set cs \<and>
     \<not> (c_type d = t \<and> c_status d = ConditionTrue \<and> c_reason d = reason) \<and> marksNone t reason cs"
  by (auto simp: marksNone_def)

lemma condition_fields [simp]:
  "c_type (newCondition t s rs m) = t" "c_status (newCondition t s rs m) = s"
  "c_reason (newCondition t s rs m) = rs"
  by (simp_all add: newCondition_def)

lemma ordered_finishWith [ordered_intro]:
  assumes "meta_laws E" "marksNone t reason cs" "\<not> marked t reason (re_status r)"
  shows "ordered (answeredMark t reason) (writesMark t reason) (finishWith E r cs m so)"
  unfolding finishWith_def by (auto intro!: ordered_intro ordered_setConditions assms)

text \<open>Helpers of the stages.\<close>

lemma ordered_helpers [ordered_intro]:
  assumes "meta_laws (rr_client c)" "\<not> marked t reason (re_status r)" "(t, reason) \<in> milestones"
  shows "ordered (answeredMark t reason) (writesMark t reason) (failOnProviderChildConflict c r x)"
    "ordered (answeredMark t reason) (writesMark t reason) (reportUnreadyProvider c r rd)"
    "ordered (answeredMark t reason) (writesMark t reason) (failOnUnusableSourceBackup c r chk)"
    "ordered (answeredMark t reason) (writesMark t reason) (reportFailedPreparation c r err)"
    "ordered (answeredMark t reason) (writesMark t reason) (failOnProviderRestore c r ch rs)"
    "ordered (answeredMark t reason) (writesMark t reason) (failRecovery c r n err m f)"
    "ordered (answeredMark t reason) (writesMark t reason) (continueWithAcquiredLease c r)"
    "ordered (answeredMark t reason) (writesMark t reason) (reportWaitingForLease c h r)"
    "ordered (answeredMark t reason) (writesMark t reason) (reportInvalidRestoreLease c r)"
    "ordered (answeredMark t reason) (writesMark t reason) (handleWorkloadsReady c r)"
    "ordered (answeredMark t reason) (writesMark t reason) (handleWorkloadsNotReady c r)"
    "ordered (answeredMark t reason) (writesMark t reason) (isAlreadyPrepared c r)"
  unfolding failOnProviderChildConflict_def reportUnreadyProvider_def failOnUnusableSourceBackup_def
    reportFailedPreparation_def failOnProviderRestore_def failRecovery_def continueWithAcquiredLease_def
    reportWaitingForLease_def reportInvalidRestoreLease_def handleWorkloadsReady_def
    handleWorkloadsNotReady_def isAlreadyPrepared_def Let_def
  using assms by (auto intro!: ordered_intro ordered_setConditions split: sum.split option.split)

lemma ordered_setConditionsFromLegacyStatus:
  assumes "meta_laws E" "\<not> marked t reason (re_status r)" "(t, reason) \<in> milestones"
  shows "ordered (answeredMark t reason) (writesMark t reason) (setConditionsFromLegacyStatus E r)"
proof (cases "determineLegacySuccessfulCondition E r")
  case None
  then show ?thesis
    unfolding setConditionsFromLegacyStatus_def by (auto intro!: ordered_intro)
next
  case (Some d)
  then have "c_reason d = ReasonMigratedFromLegacyStatus"
    by (auto simp: determineLegacySuccessfulCondition_def)
  with assms(3) have "marksNone t reason [d]"
    by (auto simp: milestones_def restore_reasons)
  with assms Some show ?thesis
    unfolding setConditionsFromLegacyStatus_def by (auto intro!: ordered_intro ordered_setConditions)
qed

lemma marksNone_initial: "marksNone t reason (Missing E cs initialWorkflowConditions)"
proof -
  have "distinct (map c_type initialWorkflowConditions)"
    "list_all (\<lambda>d. c_status d = ConditionUnknown) initialWorkflowConditions"
    by (simp_all add: initialWorkflowConditions_def pendingRestoreMilestone_def)
  then show ?thesis
    unfolding marksNone_def Missing_def by (auto simp: list_all_iff distinct_map_filter)
qed

section \<open>The stages\<close>

lemma keepsMark_intake:
  assumes "meta_laws (rr_client c)" "(t, reason) \<in> milestones"
  shows "keepsMark t reason (ensureLegacyConditionsMigrated c)"
    "keepsMark t reason (ensureRestoreConditionsInitialized c)"
    "keepsMark t reason (ensureMetadata c)" "keepsMark t reason (ensureProviderChildState c)"
    "keepsMark t reason (ensureActiveRestoreLease c)"
proof -
  have acquire: "ordered G (writesStatus P) (Acquire (restoreLeaseManager c) r restoreLeaseHolderKind)" for G P r
    by (rule ordered_within [of _ "{ClaimsLease}"], rule outcome_mono [OF restore_acquire_writes])
      (auto intro: lease_effects)
  show "keepsMark t reason (ensureMetadata c)"
    unfolding keepsMark_def
    by (auto intro!: ordered_within [of _ "{UpdatesRestore}"] outcome_mono [OF restoreContractD [OF metadata_contract]])
  show "keepsMark t reason (ensureActiveRestoreLease c)"
    unfolding keepsMark_def ensureActiveRestoreLease_def
    by (auto intro!: ordered_intro acquire assms split: sum.split lease_state.split)
  show "keepsMark t reason (ensureLegacyConditionsMigrated c)"
    unfolding keepsMark_def ensureLegacyConditionsMigrated_def
    by (auto intro!: ordered_intro ordered_setConditionsFromLegacyStatus assms)
  show "keepsMark t reason (ensureRestoreConditionsInitialized c)"
    unfolding keepsMark_def ensureRestoreConditionsInitialized_def Let_def
    by (auto intro!: ordered_intro marksNone_initial assms)
  show "keepsMark t reason (ensureProviderChildState c)"
    unfolding keepsMark_def ensureProviderChildState_def
    by (auto intro!: ordered_intro assms split: sum.split option.split)
qed

lemma keepsMark_gates:
  assumes "meta_laws (rr_client c)" "(t, reason) \<in> milestones"
  shows "keepsMark t reason (ensureProviderReady c)" "keepsMark t reason (ensureSourceBackupUsable c)"
    "keepsMark t reason (ensureMaintenanceModeActivated c)" "keepsMark t reason (ensureProviderRestore c)"
  unfolding keepsMark_def ensureProviderReady_def ensureSourceBackupUsable_def
    ensureMaintenanceModeActivated_def ensureProviderRestore_def
  using assms by (auto intro!: ordered_intro split: sum.split option.split bool.split restore_error.split)

lemma keepsMark_completion:
  assumes "meta_laws (rr_client c)" "(t, reason) \<in> milestones" "t \<noteq> ConditionProviderSucceeded"
  shows "keepsMark t reason (ensureProviderCompletion c)"
  unfolding keepsMark_def ensureProviderCompletion_def Let_def
  using assms by (auto intro!: ordered_intro split: sum.split option.split prod.split)

lemma keepsMark_maintenance:
  assumes "meta_laws (rr_client c)" "(t, reason) \<in> milestones"
  shows "keepsMark t reason (ensureMaintenanceModeDeactivated c)"
  unfolding keepsMark_def ensureMaintenanceModeDeactivated_def
  using assms by (auto intro!: ordered_intro ordered_setConditions split: sum.split option.split)

lemma keepsMark_completed:
  assumes "meta_laws (rr_client c)" "(t, reason) \<in> milestones" "t \<noteq> ConditionSucceeded"
  shows "keepsMark t reason (ensureRestoreCompleted c)"
proof -
  have "marksNone t reason [reachedMilestone ConditionWorkloadsRecovered r1 m1,
      reachedMilestone ConditionSucceeded r2 m2]" for r1 m1 r2 m2
    using assms(2,3) by (auto simp: reachedMilestone_def milestones_def)
  with assms show ?thesis
    unfolding keepsMark_def ensureRestoreCompleted_def
    by (auto intro!: ordered_intro ordered_setConditions split: sum.split)
qed

context restore_managers begin

lemma ordered_managers:
  "ordered G (writesStatus P) (sm_down (rr_scaleManager c))" "ordered G (writesStatus P) (sm_up (rr_scaleManager c))"
  "ordered G (writesStatus P) (sm_finalize (rr_scaleManager c))"
  "ordered G (writesStatus P) (sm_ready (rr_scaleManager c))" "ordered G (writesStatus P) (rr_cleanup c)"
  by (rule ordered_within [OF scale.down_within] ordered_within [OF scale.up_within]
      ordered_within [OF scale.finalize_within] ordered_within [OF scale.ready_within [of "{}"]]
      ordered_within [OF cleanup_within], simp)+

lemma keepsMark_preparation:
  assumes "meta_laws (rr_client c)" "(t, reason) \<in> milestones" "t \<noteq> ConditionPrepared"
  shows "keepsMark t reason (ensurePreparation c)"
  unfolding keepsMark_def ensurePreparation_def
  using assms by (auto intro!: ordered_intro ordered_setConditions ordered_managers
      split: sum.split option.split bool.split)

lemma keepsMark_recovery:
  assumes "meta_laws (rr_client c)" "(t, reason) \<in> milestones"
  shows "keepsMark t reason (ensureScaleUpInitiated c)" "keepsMark t reason (ensureWorkloadsReady c)"
    "keepsMark t reason (ensureScaleUpFinalized c)"
  unfolding keepsMark_def ensureScaleUpInitiated_def ensureWorkloadsReady_def ensureScaleUpFinalized_def
  using assms by (auto intro!: ordered_intro ordered_managers split: sum.split option.split bool.split)

end

section \<open>Reaching the milestones\<close>

lemma keepsOrder_mark:
  assumes "restoreContract A N s" "keepsMark t reason s"
    and "\<And>e. answeredMark t reason e \<Longrightarrow> G e" "\<And>r. I r \<Longrightarrow> \<not> marked t reason (re_status r)"
    and "\<And>r r' es. I r \<Longrightarrow> N r r' es \<Longrightarrow> list_ex G es \<or> J r'"
  shows "keepsOrder G (writesMark t reason) I J s"
proof (rule keepsOrder_own [OF assms(1) _ assms(5)])
  fix r assume "I r"
  then have "ordered (answeredMark t reason) (writesMark t reason) (s r)"
    using assms(2,4) by (simp add: keepsMark_def)
  then show "outcome (s r) (\<lambda>_ es. preceded G (writesMark t reason) es)"
    unfolding ordered_def by (rule outcome_mono) (auto elim: preceded_mono intro: assms(3))
qed

definition providerDone :: "'s restoreReconciler \<Rightarrow> restore_status \<Rightarrow> bool" where
  "providerDone c st \<longleftrightarrow> isStatusConditionTrue (rr_client c) (rst_conditions st) ConditionProviderSucceeded"

lemma ordered_prefix:
  "ordered G B m \<Longrightarrow> \<not> B e \<Longrightarrow> outcome m (\<lambda>_ es. preceded G B ([e] @ es))"
  unfolding ordered_def by (erule outcome_mono) simp

text \<open>The provider restore has succeeded only when this run has seen it completed.\<close>

definition sawChildCompleted :: "event \<Rightarrow> bool" where
  "sawChildCompleted e \<longleftrightarrow> (\<exists>r ch. sawChild r ch e \<and> vre_phase ch = RestorePhaseCompleted)"

text \<open>
  A milestone in a run starts with a status without it: as long as no \<open>G\<close> event happens, the restores
  handed on satisfy \<open>I\<close>.
\<close>

definition tracks_status :: "(event \<Rightarrow> bool) \<Rightarrow> (restore_status \<Rightarrow> bool) \<Rightarrow> bool" where
  "tracks_status G I \<longleftrightarrow> (\<forall>y e. answered y e \<longrightarrow> \<not> I (re_status y) \<longrightarrow> G e)"

lemma tracks_statusD:
  "tracks_status G I \<Longrightarrow> list_ex (answered y) es \<Longrightarrow> list_ex G es \<or> I (re_status y)"
  by (auto simp: tracks_status_def list_ex_iff)

context restore_managers begin

lemma keeps_until_provider:
  assumes "meta_laws (rr_client c)" "(t, reason) \<in> milestones" "t \<noteq> ConditionPrepared"
    and "\<And>e. answeredMark t reason e \<Longrightarrow> G e" "tracks_status G I" "\<And>st. I st \<Longrightarrow> \<not> marked t reason st"
  shows "list_all (keepsOrder G (writesMark t reason) (\<lambda>r. I (re_status r)) (\<lambda>r. I (re_status r)))
    [ensureLegacyConditionsMigrated c, ensureRestoreConditionsInitialized c, ensureMetadata c,
     ensureProviderChildState c, ensureActiveRestoreLease c, ensureProviderReady c,
     ensureSourceBackupUsable c, ensureMaintenanceModeActivated c, ensurePreparation c, ensureProviderRestore c]"
proof -
  note keep = keepsOrder_mark [where G = G and I = "\<lambda>r. I (re_status r)" and J = "\<lambda>r. I (re_status r)",
      OF _ _ assms(4,6)]
  note marks = keepsMark_intake [OF assms(1,2)] keepsMark_gates [OF assms(1,2)]
    keepsMark_preparation [OF assms(1-3)]
  show ?thesis
    unfolding list.pred_inject
    by (intro conjI TrueI keep [OF legacyMigrated_contract] keep [OF conditionsInitialized_contract]
        keep [OF metadata_contract] keep [OF providerChildState_contract] keep [OF activeLease_contract]
        keep [OF providerReady_contract] keep [OF sourceBackupUsable_contract]
        keep [OF maintenanceModeActivated_contract] keep [OF preparation_contract]
        keep [OF providerRestore_contract] marks)
      (auto simp: sameRestore_simps dest: tracks_statusD [OF assms(5)])
qed

text \<open>Up to the maintenance mode, the stages keep the completion of a restore.\<close>

lemma keeps_until_maintenance:
  assumes "meta_laws (rr_client c)" "\<And>e. answeredMark ConditionSucceeded ReasonRestoreCompleted e \<Longrightarrow> G e"
    and "\<And>st. I st \<Longrightarrow> \<not> marked ConditionSucceeded ReasonRestoreCompleted st"
  shows "list_all (keepsOrder G (writesMark ConditionSucceeded ReasonRestoreCompleted)
      (\<lambda>r. I (re_status r)) (\<lambda>r. I (re_status r)))
    [ensureProviderCompletion c, ensureScaleUpInitiated c, ensureWorkloadsReady c, ensureScaleUpFinalized c]"
proof -
  note keep = keepsOrder_mark [where G = G and I = "\<lambda>r. I (re_status r)" and J = "\<lambda>r. I (re_status r)",
      OF _ _ assms(2,3)]
  have m: "(ConditionSucceeded, ReasonRestoreCompleted) \<in> milestones" by (simp add: milestones_def)
  show ?thesis
    unfolding list.pred_inject
    by (intro conjI TrueI keep [OF providerCompletion_contract] keep [OF scaleUpInitiated_contract]
        keep [OF workloadsReady_contract] keep [OF scaleUpFinalized_contract]
        keepsMark_completion [OF assms(1) m] keepsMark_recovery [OF assms(1) m]) auto
qed

text \<open>A restore succeeds only after this run has seen the workloads ready and the maintenance mode off, ...\<close>

lemma succeeds_after_recovery:
  assumes meta: "meta_laws (rr_client c)" and r: "\<not> marked ConditionSucceeded ReasonRestoreCompleted (re_status r)"
  shows "outcome (runRestoreStages r d (restoreStages c restoreOperationCreate)) (\<lambda>_ es.
      preceded (\<lambda>e. answeredMark ConditionSucceeded ReasonRestoreCompleted e \<or> evidence e)
        (writesMark ConditionSucceeded ReasonRestoreCompleted) es)" (is ?ready)
    "outcome (runRestoreStages r d (restoreStages c restoreOperationCreate)) (\<lambda>_ es.
      preceded (\<lambda>e. answeredMark ConditionSucceeded ReasonRestoreCompleted e \<or> sawMaintenanceOff e)
        (writesMark ConditionSucceeded ReasonRestoreCompleted) es)" (is ?maintenance)
proof -
  let ?B = "writesMark ConditionSucceeded ReasonRestoreCompleted"
  let ?P = "marked ConditionSucceeded ReasonRestoreCompleted"
  have m: "(ConditionSucceeded, ReasonRestoreCompleted) \<in> milestones" by (simp add: milestones_def)
  have tracks: "tracks_status (\<lambda>e. answeredStatus ?P e \<or> X e) (\<lambda>st. \<not> ?P st)" for X
    by (auto simp: tracks_status_def answeredStatus_def)
  note provider = keeps_until_provider [OF meta m, where I = "\<lambda>st. \<not> ?P st"]
  note maintenance = keeps_until_maintenance [OF meta, where I = "\<lambda>st. \<not> ?P st"]
  have ready: "keepsOrder (\<lambda>e. answeredStatus ?P e \<or> evidence e) ?B (\<lambda>r. \<not> ?P (re_status r)) (\<lambda>_. False)
      (ensureWorkloadsReady c)"
    by (rule keepsOrder_mark [OF workloadsReady_contract keepsMark_recovery(2) [OF meta m]])
      (auto simp: list_ex_iff)
  have off: "keepsOrder (\<lambda>e. answeredStatus ?P e \<or> sawMaintenanceOff e) ?B (\<lambda>r. \<not> ?P (re_status r)) (\<lambda>_. False)
      (ensureMaintenanceModeDeactivated c)"
    by (rule keepsOrder_mark [OF maintenanceModeDeactivated_contract keepsMark_maintenance [OF meta m]])
      (auto simp: list_ex_iff)
  show ?ready
    unfolding restoreStages_def restore_operation.case
    by (rule keepsOrder_until [OF _ ready, where ss = "take 12 (restoreStages c restoreOperationCreate)",
        unfolded restoreStages_def restore_operation.case, simplified])
      (use tracks provider [where G = "\<lambda>e. answeredStatus ?P e \<or> evidence e"] maintenance [where G = "\<lambda>e. answeredStatus ?P e \<or> evidence e"] r in auto)
  show ?maintenance
    unfolding restoreStages_def restore_operation.case
    by (rule keepsOrder_until [OF _ off, where ss = "take 14 (restoreStages c restoreOperationCreate)",
        unfolded restoreStages_def restore_operation.case, simplified])
      (use tracks provider [where G = "\<lambda>e. answeredStatus ?P e \<or> sawMaintenanceOff e"] maintenance [where G = "\<lambda>e. answeredStatus ?P e \<or> sawMaintenanceOff e"] r in auto)
qed

text \<open>... and only after the API server answered, in this run, a restore whose provider restore has succeeded.\<close>

lemma succeeds_after_provider:
  assumes meta: "meta_laws (rr_client c)" and r: "\<not> marked ConditionSucceeded ReasonRestoreCompleted (re_status r)"
    and p: "\<not> providerDone c (re_status r)"
  shows "outcome (runRestoreStages r d (restoreStages c restoreOperationCreate)) (\<lambda>_ es.
      preceded (\<lambda>e. answeredMark ConditionSucceeded ReasonRestoreCompleted e \<or> answeredStatus (providerDone c) e)
        (writesMark ConditionSucceeded ReasonRestoreCompleted) es)"
proof -
  let ?P = "marked ConditionSucceeded ReasonRestoreCompleted"
  let ?G = "\<lambda>e. answeredStatus ?P e \<or> answeredStatus (providerDone c) e"
  let ?I = "\<lambda>st. \<not> ?P st \<and> \<not> providerDone c st"
  have m: "(ConditionSucceeded, ReasonRestoreCompleted) \<in> milestones" by (simp add: milestones_def)
  have tracks: "tracks_status ?G ?I"
    by (auto simp: tracks_status_def answeredStatus_def)
  have gate: "keepsOrder ?G (writesMark ConditionSucceeded ReasonRestoreCompleted) (\<lambda>r. ?I (re_status r)) (\<lambda>_. False)
      (ensureProviderCompletion c)"
    by (rule keepsOrder_mark [OF providerCompletion_contract keepsMark_completion [OF meta m]])
      (auto simp: providerDone_def)
  show ?thesis
    unfolding restoreStages_def restore_operation.case
    by (rule keepsOrder_until [OF _ gate, where ss = "take 10 (restoreStages c restoreOperationCreate)",
        unfolded restoreStages_def restore_operation.case, simplified])
      (use keeps_until_provider [OF meta m _ _ tracks] r p in auto)
qed

text \<open>The provider restore has succeeded only when this run has seen it completed.\<close>

lemma completion_observes:
  assumes "meta_laws (rr_client c)" "\<not> marked ConditionProviderSucceeded ReasonProviderRestoreCompleted (re_status r)"
  shows "ordered (\<lambda>e. answeredMark ConditionProviderSucceeded ReasonProviderRestoreCompleted e \<or> sawChildCompleted e)
     (writesMark ConditionProviderSucceeded ReasonProviderRestoreCompleted) (ensureProviderCompletion c r)"
  (is "ordered ?G ?B _")
proof (cases "providerSucceeded c r")
  case True
  then show ?thesis by (simp add: ensureProviderCompletion_def ordered_return)
next
  case False
  have m: "(ConditionProviderSucceeded, ReasonProviderRestoreCompleted) \<in> milestones" by (simp add: milestones_def)
  have weaken: "ordered ?G ?B p" if "ordered (answeredMark ConditionProviderSucceeded ReasonProviderRestoreCompleted) ?B p"
    for p :: "('s, restore \<times> stage_outcome) prog"
    using that unfolding ordered_def by (auto elim!: outcome_mono preceded_mono)
  show ?thesis
    unfolding ordered_def ensureProviderCompletion_def if_not_P [OF False]
  proof (rule outcome_call [OF GetRestore_outcome], goal_cases)
    case (1 got es)
    then obtain x where es: "es = [OnVeleroRestore (Get (keyOf r) x)]"
      and x: "\<And>ch. got = Inr (Some ch) \<longleftrightarrow> x = Inr ch" by blast
    have B: "\<not> ?B (OnVeleroRestore (Get (keyOf r) x))" by (simp add: writesStatus_def)
    have conds: "marksNone ConditionProviderSucceeded ReasonProviderRestoreCompleted
        [newCondition ConditionProviderSucceeded st rs m]"
      if "observeProviderRestoreState (ObserveRestorePhase p) = (st, rs)" "p \<noteq> RestorePhaseCompleted" for st rs m p
      using that Observe_outcomes(1) [of p] by (cases "ObserveRestorePhase p") auto
    consider e where "got = Inl e" | "got = Inr None" | (running) ch where "got = Inr (Some ch)" "vre_phase ch \<noteq> RestorePhaseCompleted"
      | (completed) ch where "got = Inr (Some ch)" "vre_phase ch = RestorePhaseCompleted"
      by (cases got) (auto simp: split_option_all)
    then show ?case
    proof cases
      case running
      show ?thesis
        unfolding running sum.case option.case es Let_def
        by (rule ordered_prefix [OF weaken B])
          (use assms m running(2) in \<open>auto intro!: ordered_intro conds split: prod.split\<close>)
    next
      case completed
      with x es have G: "sawChildCompleted (OnVeleroRestore (Get (keyOf r) x))"
        by (auto simp: sawChildCompleted_def sawChild_def)
      show ?thesis
        unfolding completed sum.case option.case es
        by (auto simp: G B ObserveRestorePhase_def intro!: outcome_bind [of "State_Monad.bind (eventf _ _ _ _) _"]
            outcome_bind [of "eventf _ _ _ _"] outcome_eventf outcome_return outcome_bind [of "now _"] outcome_now
            outcome_finishWith)
    qed (auto intro!: outcome_return simp: es B)
  qed
qed

lemma provider_succeeds_when_completed:
  assumes meta: "meta_laws (rr_client c)"
    and r: "\<not> marked ConditionProviderSucceeded ReasonProviderRestoreCompleted (re_status r)"
  shows "outcome (runRestoreStages r d (restoreStages c restoreOperationCreate)) (\<lambda>_ es.
      preceded (\<lambda>e. answeredMark ConditionProviderSucceeded ReasonProviderRestoreCompleted e \<or> sawChildCompleted e)
        (writesMark ConditionProviderSucceeded ReasonProviderRestoreCompleted) es)"
proof -
  let ?P = "marked ConditionProviderSucceeded ReasonProviderRestoreCompleted"
  let ?G = "\<lambda>e. answeredStatus ?P e \<or> sawChildCompleted e"
  let ?B = "writesMark ConditionProviderSucceeded ReasonProviderRestoreCompleted"
  let ?I = "\<lambda>r. \<not> ?P (re_status r)"
  have m: "(ConditionProviderSucceeded, ReasonProviderRestoreCompleted) \<in> milestones" by (simp add: milestones_def)
  have tracks: "tracks_status ?G (\<lambda>st. \<not> ?P st)"
    by (auto simp: tracks_status_def answeredStatus_def)
  have completion: "keepsOrder ?G ?B ?I ?I (ensureProviderCompletion c)"
    by (rule keepsOrder_own [OF providerCompletion_contract completion_observes [OF meta, unfolded ordered_def]]) auto
  note keep = keepsOrder_mark [where G = ?G and I = ?I and J = ?I and t = ConditionProviderSucceeded
      and reason = ReasonProviderRestoreCompleted]
  have rest: "list_all (keepsOrder ?G ?B ?I ?I) [ensureScaleUpInitiated c, ensureWorkloadsReady c,
      ensureScaleUpFinalized c, ensureMaintenanceModeDeactivated c, ensureRestoreCompleted c]"
    unfolding list.pred_inject
    by (intro conjI TrueI keep [OF scaleUpInitiated_contract] keep [OF workloadsReady_contract]
        keep [OF scaleUpFinalized_contract] keep [OF maintenanceModeDeactivated_contract]
        keep [OF restoreCompleted_contract] keepsMark_recovery [OF meta m] keepsMark_maintenance [OF meta m]
        keepsMark_completed [OF meta m]) auto
  have "list_all (keepsOrder ?G ?B ?I ?I) (restoreStages c restoreOperationCreate)"
    using keeps_until_provider [OF meta m _ _ tracks] completion rest
    by (simp add: restoreStages_def)
  then show ?thesis
    by (rule keepsOrder_all [where I = ?I]) (simp_all add: any_staged r)
qed

text \<open>Neither a deletion nor a terminal restore reaches a milestone.\<close>

lemma other_operations_keep:
  assumes meta: "meta_laws (rr_client c)" and m: "(t, reason) \<in> milestones"
    and G: "\<And>e. answeredMark t reason e \<Longrightarrow> G e" and op: "op \<noteq> restoreOperationCreate"
    and r: "\<not> marked t reason (re_status r)"
  shows "outcome (runRestoreStages r d (restoreStages c op)) (\<lambda>_ es. preceded G (writesMark t reason) es)"
proof -
  let ?I = "\<lambda>r. \<not> marked t reason (re_status r)"
  note mark = keepsOrder_mark [where G = G and I = ?I and J = ?I and t = t and reason = reason]
  note pass = keepsOrder_contract [where G = G and I = ?I and J = ?I and B = "writesMark t reason"]
  have seen: "list_ex (answered r') es \<Longrightarrow> marked t reason (re_status r') \<Longrightarrow> list_ex G es" for r' es
    unfolding list_ex_iff answered_def using G by (metis answered_def answeredStatus_def)
  have "keepsMark t reason (ensureDeletingStatus c)"
    unfolding keepsMark_def ensureDeletingStatus_def using meta by (auto intro!: ordered_intro)
  then have "list_all (keepsOrder G (writesMark t reason) ?I ?I) (restoreStages c op)"
    using op by (cases op) (auto simp: restoreStages_def G intro!: mark [OF legacyMigrated_contract]
      mark [OF deletingStatus_contract] pass [OF leaseReleased_contract] pass [OF providerRestoreDeleted_contract]
      keepsOrder_contract [OF deletionFinalized_contract] keepsMark_intake [OF meta m] dest: writesStatus_effect
      seen)
  then show ?thesis
    by (rule keepsOrder_all [where I = ?I]) (simp_all add: any_staged r)
qed

end

end
