(* ===== verification/RestoreController.thy ===== *)
theory RestoreController
  imports RestoreMilestones
begin

text \<open>
  The operator's restore controller (\<open>cmd/main.go\<close> and \<open>restoreReconciler.go\<close>): the reconciler with its
  own cleanup and scale manager provides the interface the run lemmas are proved against, and what every
  run keeps is kept by the complete \<open>Reconcile\<close>.
\<close>

section \<open>The operator's restore controller\<close>

text \<open>The reconciler as \<open>cmd/main.go\<close> puts it together, from the values of the operator configuration.\<close>

definition configureRestoreReconciler :: "'s env \<Rightarrow> string \<Rightarrow> int \<Rightarrow> string \<Rightarrow> string \<Rightarrow> 's restoreReconciler" where
  "configureRestoreReconciler E n requeueTimeSeconds storageName deploymentName =
     (let cleanupManager = Cleanup E n;
          scaleManager = NewScaleManager E n;
          requeueAfter = mulDuration requeueTimeSeconds second
      in NewRestoreReconciler E n cleanupManager scaleManager requeueAfter storageName deploymentName)"

lemma configureRestoreReconciler_simps [simp]:
  "rr_client (configureRestoreReconciler E n d st dep) = E"
  "rr_namespace (configureRestoreReconciler E n d st dep) = n"
  "rr_cleanup (configureRestoreReconciler E n d st dep) = Cleanup E n"
  "rr_scaleManager (configureRestoreReconciler E n d st dep) = NewScaleManager E n"
  "rr_requeueDelay (configureRestoreReconciler E n d st dep) = mulDuration d second"
  by (simp_all add: configureRestoreReconciler_def NewRestoreReconciler_def Let_def)

interpretation operator: restore_managers "configureRestoreReconciler E n d st dep" "allAtTarget n k"
  for E n d st dep k
  by (rule restore_managers.intro) (simp_all add: default_scale.scale_manager_axioms default_cleanup.cleanup_manager_axioms)

section \<open>Reconcile\<close>

text \<open>Before its stages a reconciliation counts itself, reads the restore and initializes metrics.\<close>

lemma ReconcileRestore_outcome:
  assumes "\<And>r. outcome (runRestoreStages r (rr_requeueDelay c)
      (restoreStages c (requiredRestoreOperation (rr_client c) r))) (\<lambda>res es. R r res es)"
    and "\<And>e. \<not> isNotFound e \<Longrightarrow> Q \<lparr>requeueAfter = 0, rerr = Some (Api e)\<rparr>
      [MetricAdd RestoreReconcileTotal 1, OnRestore (Get (rr_namespace c, snd q) (Inl e))]"
    and "\<And>e. isNotFound e \<Longrightarrow> Q \<lparr>requeueAfter = 0, rerr = None\<rparr>
      [MetricAdd RestoreReconcileTotal 1, OnRestore (Get (rr_namespace c, snd q) (Inl e))]"
    and "\<And>r ms res es. metricsOnly ms \<Longrightarrow> R r res es \<Longrightarrow>
      Q res (MetricAdd RestoreReconcileTotal 1 # OnRestore (Get (rr_namespace c, snd q) (Inr r)) # ms @ es)"
  shows "outcome (ReconcileRestore c q) Q"
proof -
  have stages: "outcome (do {
      _ \<leftarrow> InitRestoreConditionTransitionMetrics (o_namespace r) (o_name r) (re_backupName r);
      _ \<leftarrow> InitRestoreStatusMetrics (o_namespace r) (o_name r) (re_backupName r);
      _ \<leftarrow> InitInvalidLeaseTotalMetric (o_namespace r) (o_name r);
      runRestoreStages r (rr_requeueDelay c) (restoreStages c (requiredRestoreOperation (rr_client c) r))
    }) (\<lambda>res es. \<exists>ms es'. es = ms @ es' \<and> metricsOnly ms \<and> R r res es')" for r
    by (intro outcome_call [OF outcome_initRestoreMetrics(1)] outcome_call [OF outcome_initRestoreMetrics(2)]
        outcome_call [OF outcome_initMetrics(3)] outcome_mono [OF assms(1)])
      (metis append.assoc metricsOnly_simps(3))
  show ?thesis
    unfolding ReconcileRestore_def
    using assms(2-) by (auto simp: UpdateRestoreReconcileTotalMetric_def intro!: outcome_bind [of "metricAdd _ _"] outcome_metricAdd
        outcome_bind [of "apiGet _ _ _"] outcome_apiGet outcome_return outcome_mono [OF stages] split: sum.splits)
qed

text \<open>
  An order that the stages keep is kept by the reconciliation; and when reading the restore already
  counts as \<open>G\<close>, nothing is left to show.
\<close>

lemma ReconcileRestore_preceded:
  assumes "\<And>r. \<not> G (OnRestore (Get (rr_namespace c, snd q) (Inr r))) \<Longrightarrow>
      outcome (runRestoreStages r (rr_requeueDelay c) (restoreStages c (requiredRestoreOperation (rr_client c) r)))
        (\<lambda>_ es. preceded G B es)"
    and "list_all (\<lambda>op. list_all (restoreStaged UNIV) (restoreStages c op))
      [restoreOperationCreate, restoreOperationDelete, restoreOperationIgnore]"
    and "\<And>e. B e \<Longrightarrow> effectOf e \<noteq> Observes"
  shows "outcome (ReconcileRestore c q) (\<lambda>_ es. preceded G B es)"
proof -
  have B: "\<not> B (MetricAdd x n)" "\<not> B (OnRestore (Get k u))" for x n k u
    using assms(3) by fastforce+
  have run: "outcome (runRestoreStages r (rr_requeueDelay c)
      (restoreStages c (requiredRestoreOperation (rr_client c) r)))
      (\<lambda>_ es. G (OnRestore (Get (rr_namespace c, snd q) (Inr r))) \<or> preceded G B es)" for r
  proof (cases "G (OnRestore (Get (rr_namespace c, snd q) (Inr r)))")
    case True
    have "list_all (restoreStaged UNIV) (restoreStages c (requiredRestoreOperation (rr_client c) r))"
      using assms(2) by (cases "requiredRestoreOperation (rr_client c) r") auto
    from runRestoreStages_within [OF this] show ?thesis
      by (rule outcome_mono) (simp add: True)
  qed (use assms(1) in simp)
  show ?thesis
    by (rule ReconcileRestore_outcome [where R = "\<lambda>r _ es. G (OnRestore (Get (rr_namespace c, snd q) (Inr r))) \<or>
        preceded G B es", OF run]) (auto simp: B preceded_append preceded_metrics)
qed

lemma operator_any_staged:
  "list_all (restoreStaged UNIV) (restoreStages (configureRestoreReconciler E n d st dep) op)"
  by (rule operator.any_staged)

lemmas operator_preceded = ReconcileRestore_preceded
  [where c = "configureRestoreReconciler E n d st dep" for E n d st dep,
   simplified operator_any_staged list.pred_inject simp_thms configureRestoreReconciler_simps]

text \<open>An order bound to the restore at hand: the read of the restore shows it, before anything is done.\<close>

lemma ReconcileRestore_guarded:
  assumes "\<And>r. outcome (runRestoreStages r (rr_requeueDelay c)
      (restoreStages c (requiredRestoreOperation (rr_client c) r)))
      (\<lambda>_ es. guardsRestore (rr_namespace c, snd q) G B r es)"
    and "\<And>e. B e \<Longrightarrow> effectOf e \<noteq> Observes"
  shows "outcome (ReconcileRestore c q) (\<lambda>_ es. guarded (theRestore (rr_namespace c, snd q)) G B es)"
proof -
  let ?k = "(rr_namespace c, snd q)"
  have start: "\<not> B (MetricAdd x n)" "\<not> B (OnRestore (Get ?k u))" for x n u
    using assms(2) by fastforce+
  show ?thesis
  proof (rule ReconcileRestore_outcome [where R = "\<lambda>r _ es. guardsRestore ?k G B r es", OF assms(1)], goal_cases)
    case (3 r ms res es)
    let ?pre = "MetricAdd RestoreReconcileTotal 1 # OnRestore (Get ?k (Inr r)) # ms"
    have "\<not> B e" if "e \<in> set ?pre" for e
      using that 3(1) assms(2) [of e] by (auto simp: metricsOnly_def)
    moreover have "theRestore ?k ?pre r" by (rule theRestore.onRead) simp
    ultimately have "guarded (theRestore ?k) G B (?pre @ es)"
      using 3(2) unfolding guardsRestore_def by blast
    then show ?case by simp
  qed (use start in \<open>auto intro!: guarded_none\<close>)
qed

lemmas operator_guarded = ReconcileRestore_guarded
  [where c = "configureRestoreReconciler E n d st dep" for E n d st dep, simplified configureRestoreReconciler_simps]

text \<open>With what the operation that works on the cluster keeps, and nothing to show for the others.\<close>

lemma operator_guards:
  assumes "\<And>r. outcome (runRestoreStages r (mulDuration d second)
      (restoreStages (configureRestoreReconciler E n d st dep) restoreOperationCreate))
      (\<lambda>_ es. guardsRestore (n, snd q) G B r es)"
    and "\<And>e. B e \<Longrightarrow> effectOf e = ClaimsLease \<or> worksOnCluster e"
  shows "outcome (ReconcileRestore (configureRestoreReconciler E n d st dep) q)
    (\<lambda>_ es. guarded (theRestore (n, snd q)) G B es)"
proof (rule operator_guarded)
  fix r
  show "outcome (runRestoreStages r (mulDuration d second) (restoreStages (configureRestoreReconciler E n d st dep)
      (requiredRestoreOperation E r))) (\<lambda>_ es. guardsRestore (n, snd q) G B r es)"
  proof (cases "requiredRestoreOperation E r = restoreOperationCreate")
    case True
    with assms(1) show ?thesis by simp
  next
    case False
    have "effectOf e \<noteq> Observes \<and> effectOf e \<notin> restoreEffects (requiredRestoreOperation E r)" if "B e" for e
      using assms(2) [OF that] False
      by (cases "requiredRestoreOperation E r") (auto simp: worksOnCluster_def)
    then show ?thesis by (rule operator.guards_other_operations)
  qed
qed (use assms(2) in \<open>fastforce simp: worksOnCluster_def\<close>)

end
