(* ===== verification/RestoreDemo.thy ===== *)
theory RestoreDemo
  imports RestoreController Cluster
begin

text \<open>
  A restore whose workloads are recovered and whose maintenance mode is off, holding the restore lease,
  and the reconciliation that completes it, evaluated stage by stage.
\<close>

definition demoRestore :: restore where
  "demoRestore = obj_meta.extend ((newMeta ''ns'' ''r'')\<lparr>o_uid := ''u'',
       o_finalizers := [''k8sv1.RestoreFinalizer''],
       o_labels := [''ecosystem.AppLabelKey'' \<mapsto> ''ecosystem.AppLabelValueCes'',
         ''ecosystem.PartOfLabelKey'' \<mapsto> ''ecosystem.PartOfLabelValueBackup'']\<rparr>)
     \<lparr>re_backupName = ''b'', re_status = \<lparr>rst_conditions = [
        newCondition ConditionSucceeded ConditionUnknown [] [],
        newCondition ConditionPrepared ConditionTrue [] [],
        newCondition ConditionProviderSucceeded ConditionTrue [] [],
        newCondition ConditionWorkloadsRecovered ConditionUnknown ReasonMaintenanceModeDeactivated []],
      rst_legacy = StatusInProgress\<rparr>\<rparr>"

definition demoRestoreCluster :: cluster where
  "demoRestoreCluster = (emptyCluster 100)\<lparr>
     cl_restores := [((''ns'', ''r''), demoRestore)],
     cl_veleroRestores := [((''ns'', ''r''), BuildRestore clusterEnv demoRestore)],
     cl_leases := [((''ns'', DefaultName),
       claimed (emptyLease ''ns'' DefaultName) demoRestore restoreLeaseHolderKind 5)]\<rparr>"

abbreviation demoRestoreController :: "cluster restoreReconciler" where
  "demoRestoreController \<equiv> configureRestoreReconciler clusterEnv ''ns'' 10 ''default'' ''velero''"

lemmas call_defs = apiGet_def apiList_def apiCreate_def apiUpdate_def apiUpdateStatus_def apiDelete_def
  now_def setStatusCondition_def eventf_def metricAdd_def switchStatus_def switchActivate_def switchDeactivate_def

lemmas cluster_defs = clusterEnv_def tableResource_def store_def findCond_def emptyCluster_def
  obj_meta.defs newMeta_def demoRestoreCluster_def demoRestore_def newCondition_def

lemmas lease_defs = Acquire_def inspect_def resolve_def Release_def restoreLeaseManager_def NewManager_def
  restoreLeaseHolderKind_def restoreLeaseName_def IsHolder_def restoreHolderResolver_def
  HolderUID_def lookupStr_def HolderNameAnnotation_def HolderKindAnnotation_def claimed_def emptyLease_def

lemmas stage_defs = ensureLegacyConditionsMigrated_def setConditionsFromLegacyStatus_def findSuccessfulCondition_def
  ensureRestoreConditionsInitialized_def Missing_def initialWorkflowConditions_def pendingRestoreMilestone_def
  ensureMetadata_def ensureRestoreMetadata_def applyLabels_def restoreLabels_def ensureProviderChildState_def
  GetRestore_def CheckRestoreForConflicts_def IsOwnedRestore_def BuildRestore_def ensureActiveRestoreLease_def
  continueWithAcquiredLease_def ensureProviderReady_def isAlreadyPrepared_def ensureSourceBackupUsable_def
  ensureMaintenanceModeActivated_def hasWorkflowDeactivatedMaintenanceMode_def ensurePreparation_def
  ensureProviderRestore_def ensureProviderCompletion_def requiredRestoreOperation_def isTerminal_def
  effectiveSuccessfulCondition_def

lemmas recovery_defs = ensureScaleUpInitiated_def ensureWorkloadsReady_def handleWorkloadsReady_def
  ensureScaleUpFinalized_def ensureMaintenanceModeDeactivated_def ensureRestoreCompleted_def recoveryPending_def
  NewScaleManager_def ScaleUp_def AreWorkloadsReady_def FinalizeScaleUp_def scale_defs ready_defs
  forEachWorkload_def workloadsReady_def allInOrder.simps inOrder.simps

lemmas metric_defs = InitRestoreConditionTransitionMetrics_def InitRestoreStatusMetrics_def
  InitInvalidLeaseTotalMetric_def conditionStatuses_def UpdateRestoreStatusMetrics_def
  UpdateRestoreConditionTransitionMetric_def

lemmas status_defs = setConditions_def persistConditions_def persistAttempt_def tryPersistConditions_def
  applyConditions_def applyCondition_def recordConditionUpdateMetrics_def legacyStatusFor_def
  retryOnConflict.simps reachedMilestone_def

lemmas reason_defs = ReasonMaintenanceModeDeactivated_def ReasonScaleUpInitiated_def ReasonWaitingForWorkloads_def
  ReasonWorkloadsReady_def ReasonScaleUpFinalized_def ReasonWaitingForActiveRestore_def ReasonInvalidRestoreLease_def


lemmas demo_simps = run_simps call_defs cluster_defs lease_defs metric_defs status_defs stage_defs recovery_defs reason_defs

definition passes :: "cluster restore_stage \<Rightarrow> bool" where
  "passes s \<longleftrightarrow> (\<forall>l. \<exists>es. run_state (s demoRestore) \<lparr>outside = demoRestoreCluster, log = l\<rparr> =
     ((demoRestore, nextStage), \<lparr>outside = demoRestoreCluster, log = l @ es\<rparr>))"

text \<open>Every stage but the last only looks and lets the workflow go on.\<close>

lemma demo_stages:
  "passes (ensureLegacyConditionsMigrated demoRestoreController)"
  "passes (ensureRestoreConditionsInitialized demoRestoreController)"
  "passes (ensureMetadata demoRestoreController)"
  "passes (ensureProviderChildState demoRestoreController)"
  "passes (ensureActiveRestoreLease demoRestoreController)"
  "passes (ensureProviderReady demoRestoreController)"
  "passes (ensureSourceBackupUsable demoRestoreController)"
  "passes (ensureMaintenanceModeActivated demoRestoreController)"
  "passes (ensurePreparation demoRestoreController)"
  "passes (ensureProviderRestore demoRestoreController)"
  "passes (ensureProviderCompletion demoRestoreController)"
  "passes (ensureScaleUpInitiated demoRestoreController)"
  "passes (ensureWorkloadsReady demoRestoreController)"
  "passes (ensureScaleUpFinalized demoRestoreController)"
  "passes (ensureMaintenanceModeDeactivated demoRestoreController)"
  by (simp_all add: passes_def demo_simps Let_def cong: bind_cong_weak del: run_state_bind)

lemma demo_last: "\<exists>x u es. run_state (ensureRestoreCompleted demoRestoreController demoRestore) \<lparr>outside = demoRestoreCluster, log = l\<rparr> =
   (u, \<lparr>outside = x, log = l @ es\<rparr>) \<and> (\<exists>e \<in> set es. writesMark ConditionSucceeded ReasonRestoreCompleted e)"
  by (simp add: demo_simps marked_def writesStatus_def Let_def cong: bind_cong_weak del: run_state_bind)

lemma passes_run:
  "list_all passes ss \<Longrightarrow> \<exists>es. run_state (runRestoreStages demoRestore d (ss @ ss'))
     \<lparr>outside = demoRestoreCluster, log = l\<rparr> =
   run_state (runRestoreStages demoRestore d ss') \<lparr>outside = demoRestoreCluster, log = l @ es\<rparr>"
proof (induction ss arbitrary: l)
  case Nil
  then show ?case by (intro exI [of _ "[]"]) simp
next
  case (Cons s ss)
  then obtain es where s: "run_state (s demoRestore) \<lparr>outside = demoRestoreCluster, log = l\<rparr> =
     ((demoRestore, nextStage), \<lparr>outside = demoRestoreCluster, log = l @ es\<rparr>)"
    unfolding passes_def list.pred_inject by blast
  from Cons.IH [of "l @ es"] Cons.prems obtain es' where
    "run_state (runRestoreStages demoRestore d (ss @ ss')) \<lparr>outside = demoRestoreCluster, log = l @ es\<rparr> =
     run_state (runRestoreStages demoRestore d ss') \<lparr>outside = demoRestoreCluster, log = (l @ es) @ es'\<rparr>"
    by auto
  with s show ?case
    by (intro exI [of _ "es @ es'"]) (simp add: runRestoreStages.simps)
qed

lemma demo_start:
  "\<exists>es. run_state (ReconcileRestore demoRestoreController (''ns'', ''r'')) \<lparr>outside = demoRestoreCluster, log = []\<rparr> =
     run_state (runRestoreStages demoRestore (mulDuration 10 second) (restoreStages demoRestoreController restoreOperationCreate))
       \<lparr>outside = demoRestoreCluster, log = es\<rparr>"
  by (intro exI) (simp add: ReconcileRestore_def demo_simps Let_def cong: bind_cong_weak del: run_state_bind)

lemma demo_completes:
  "\<exists>e \<in> set (events (ReconcileRestore demoRestoreController (''ns'', ''r''))
     \<lparr>outside = demoRestoreCluster, log = []\<rparr>). writesMark ConditionSucceeded ReasonRestoreCompleted e"
proof -
  obtain ss where ss: "restoreStages demoRestoreController restoreOperationCreate =
      ss @ [ensureRestoreCompleted demoRestoreController]" "list_all passes ss"
    using demo_stages by (simp add: restoreStages_def)
  from demo_start obtain l where l: "run_state (ReconcileRestore demoRestoreController (''ns'', ''r''))
      \<lparr>outside = demoRestoreCluster, log = []\<rparr> = run_state (runRestoreStages demoRestore (mulDuration 10 second)
        (ss @ [ensureRestoreCompleted demoRestoreController])) \<lparr>outside = demoRestoreCluster, log = l\<rparr>"
    unfolding ss(1) by blast
  from passes_run [OF ss(2)] obtain es where es: "run_state (runRestoreStages demoRestore (mulDuration 10 second)
      (ss @ [ensureRestoreCompleted demoRestoreController])) \<lparr>outside = demoRestoreCluster, log = l\<rparr> =
    run_state (runRestoreStages demoRestore (mulDuration 10 second) [ensureRestoreCompleted demoRestoreController])
      \<lparr>outside = demoRestoreCluster, log = l @ es\<rparr>" by blast
  from demo_last obtain x u es' where last: "run_state (ensureRestoreCompleted demoRestoreController demoRestore)
      \<lparr>outside = demoRestoreCluster, log = l @ es\<rparr> = (u, \<lparr>outside = x, log = (l @ es) @ es'\<rparr>)"
    "\<exists>e \<in> set es'. writesMark ConditionSucceeded ReasonRestoreCompleted e" by blast
  have "log (snd (run_state (runRestoreStages demoRestore (mulDuration 10 second) [ensureRestoreCompleted demoRestoreController])
      \<lparr>outside = demoRestoreCluster, log = l @ es\<rparr>)) = (l @ es) @ es'"
    using last(1) by (simp add: runRestoreStages.simps split: prod.split)
  with l es have "events (ReconcileRestore demoRestoreController (''ns'', ''r''))
      \<lparr>outside = demoRestoreCluster, log = []\<rparr> = (l @ es) @ es'"
    by (simp add: events_def)
  with last(2) show ?thesis by auto
qed

end
