(* ===== verification/RestoreSafety.thy ===== *)
theory RestoreSafety
  imports RestoreDemo
begin

text \<open>
  What one reconciliation of a restore guarantees, whatever the API server, Velero and everybody else
  do between its calls. The statements are about the complete \<open>Reconcile\<close> of the operator's restore
  controller, with its own cleanup and its own scale manager.
\<close>

section \<open>Properties\<close>

definition effectsOfRead :: "'s env \<Rightarrow> key \<Rightarrow> event list \<Rightarrow> bool" where
  "effectsOfRead E k es \<longleftrightarrow>
     (\<exists>e. es = [MetricAdd RestoreReconcileTotal 1, OnRestore (Get k (Inl e))]) \<or>
     (\<exists>r es'. es = MetricAdd RestoreReconcileTotal 1 # OnRestore (Get k (Inr r)) # es' \<and>
        within (restoreEffects (requiredRestoreOperation E r)) es')"

text \<open>
  C29: A reconciliation has only the effects of the operation its restore asks for when it is read: a
  restore to be deleted is only torn down, a terminal one only loses its lease; and it ends in a
  well-formed result: an error, or a delay that is not negative.
\<close>

theorem restore_within_operation:
  "outcome (ReconcileRestore (configureRestoreReconciler E n d st dep) q) (\<lambda>res es.
     effectsOfRead E (n, snd q) es \<and> wellFormedResult (mulDuration d second) res)"
  by (rule ReconcileRestore_outcome [OF operator.operation_effects])
    (auto simp: effectsOfRead_def wellFormedResult_def)

text \<open>
  C10: The cluster is worked on (the maintenance mode switched, workloads scaled, resources removed, a
  provider restore created) only after this reconciliation has read a lease that names the very restore
  it is about as its holder, by UID, name and kind (or was answered that restore as one that needs no work
  any more). The lease is claimed and the cluster worked on only after the provider restore of that
  restore's name was seen to be absent, or to be controlled by it and to restore the backup it asks for.
  The restore it is about is the answer to its read of the requested key, or what the API server answered
  to a later read of it or to a write of its status.
\<close>

theorem restore_works_as_holder:
  "outcome (ReconcileRestore (configureRestoreReconciler E n d st dep) q) (\<lambda>_ es.
     guarded (theRestore (n, snd q)) (mayWorkAs E n) worksOnCluster es \<and>
     guarded (theRestore (n, snd q)) (childFits E) (\<lambda>e. effectOf e = ClaimsLease \<or> worksOnCluster e) es)"
  using operator.works_as_holder [of _ "mulDuration d second" E n d st dep]
    operator.child_checked_first [of _ "mulDuration d second" E n d st dep]
  by (intro outcome_conj operator_guards) simp_all

text \<open>
  C11: Resources are removed from the cluster only after the Velero backup of the very name the restore
  asks for (\<open>spec.backupName\<close>, not its own name) was read, in the namespace of the restore, as completed
  or partially failed; or after the provider restore of the restore's name was read and the restore
  controls it. The restore is the one this reconciliation is about, as in C10.
\<close>

theorem cleanup_needs_usable_backup:
  "outcome (ReconcileRestore (configureRestoreReconciler E n d st dep) q) (\<lambda>_ es.
     guarded (theRestore (n, snd q)) (cleanupAllowed E) (\<lambda>e. effectOf e = CleansUp) es)"
  using operator.cleans_up_when_allowed [of _ "mulDuration d second" E n d st dep]
  by (intro operator_guards) (simp_all add: worksOnCluster_def)

text \<open>
  C12: A provider restore is created only right as it is built for a restore whose provider restore was
  seen to be absent, and only when the preparation is reported as done by a status the API server
  answered in this reconciliation, or the restore's own provider restore was seen before.
\<close>

theorem provider_restore_created_when_prepared:
  "outcome (ReconcileRestore (configureRestoreReconciler E n d st dep) q) (\<lambda>_ es.
     preceded (\<lambda>e. \<exists>a. v = BuildRestore E a \<and> sawNoChild a e) (createsChild v) es \<and>
     preceded (sawPrepared (configureRestoreReconciler E n d st dep)) (\<lambda>e. effectOf e = CreatesProviderRestore) es)"
proof (rule outcome_conj; rule operator_preceded)
  fix r
  show "outcome (runRestoreStages r (mulDuration d second) (restoreStages (configureRestoreReconciler E n d st dep)
      (requiredRestoreOperation E r)))
      (\<lambda>_ es. preceded (\<lambda>e. \<exists>a. v = BuildRestore E a \<and> sawNoChild a e) (createsChild v) es)"
    using operator.creates_when_absent [where E = E and n = n and st = st and dep = dep]
    by (cases "requiredRestoreOperation E r") (auto intro: operator.not_in_operation)
next
  fix r
  assume "\<not> sawPrepared (configureRestoreReconciler E n d st dep) (OnRestore (Get (n, snd q) (Inr r)))"
  then have "\<not> isPrepared (configureRestoreReconciler E n d st dep) r"
    by (auto simp: sawPrepared_def answered_def)
  then show "outcome (runRestoreStages r (mulDuration d second) (restoreStages (configureRestoreReconciler E n d st dep)
      (requiredRestoreOperation E r)))
      (\<lambda>_ es. preceded (sawPrepared (configureRestoreReconciler E n d st dep))
        (\<lambda>e. effectOf e = CreatesProviderRestore) es)"
    using operator.creates_when_prepared [of E n d st dep]
    by (cases "requiredRestoreOperation E r") (auto intro: operator.not_in_operation)
qed auto

text \<open>An order of the milestone writes, shown for the operation that works on the restore.\<close>

lemma operator_milestone:
  assumes "meta_laws E" "(t, reason) \<in> milestones" "\<And>e. answeredMark t reason e \<Longrightarrow> G e"
    and "\<And>r. \<not> G (OnRestore (Get (n, snd q) (Inr r))) \<Longrightarrow> \<not> marked t reason (re_status r) \<Longrightarrow>
      outcome (runRestoreStages r (mulDuration d second) (restoreStages (configureRestoreReconciler E n d st dep)
        restoreOperationCreate)) (\<lambda>_ es. preceded G (writesMark t reason) es)"
  shows "outcome (ReconcileRestore (configureRestoreReconciler E n d st dep) q)
    (\<lambda>_ es. preceded G (writesMark t reason) es)"
proof (rule operator_preceded)
  fix r assume G: "\<not> G (OnRestore (Get (n, snd q) (Inr r)))"
  then have r: "\<not> marked t reason (re_status r)"
    using assms(3) by (auto simp: answeredStatus_def answered_def)
  show "outcome (runRestoreStages r (mulDuration d second) (restoreStages (configureRestoreReconciler E n d st dep)
      (requiredRestoreOperation E r))) (\<lambda>_ es. preceded G (writesMark t reason) es)"
  proof (cases "requiredRestoreOperation E r = restoreOperationCreate")
    case True
    with assms(4) [OF G r] show ?thesis by simp
  qed (use assms(1,2,3) r in \<open>auto intro: operator.other_operations_keep\<close>)
qed (auto dest: writesStatus_effect)

text \<open>
  C13: Under the documented behaviour of the condition helpers, a status reports \<open>Succeeded\<close> as
  \<open>RestoreCompleted\<close> only after this reconciliation has listed the workloads of every kind at their
  targets, has left the maintenance mode, and was answered a restore whose provider restore has
  succeeded; and \<open>ProviderSucceeded\<close> only after the provider restore was read as completed. Otherwise
  the API server has answered a status that reports it already.
\<close>

theorem restore_milestones_have_evidence:
  assumes "meta_laws E"
  shows "outcome (ReconcileRestore (configureRestoreReconciler E n d st dep) q) (\<lambda>_ es.
     preceded (\<lambda>e. answeredMark ConditionSucceeded ReasonRestoreCompleted e \<or> allAtTarget n k e)
       (writesMark ConditionSucceeded ReasonRestoreCompleted) es \<and>
     preceded (\<lambda>e. answeredMark ConditionSucceeded ReasonRestoreCompleted e \<or> sawMaintenanceOff e)
       (writesMark ConditionSucceeded ReasonRestoreCompleted) es \<and>
     preceded (\<lambda>e. answeredMark ConditionSucceeded ReasonRestoreCompleted e \<or>
         answeredStatus (providerDone (configureRestoreReconciler E n d st dep)) e)
       (writesMark ConditionSucceeded ReasonRestoreCompleted) es \<and>
     preceded (\<lambda>e. answeredMark ConditionProviderSucceeded ReasonProviderRestoreCompleted e \<or> sawChildCompleted e)
       (writesMark ConditionProviderSucceeded ReasonProviderRestoreCompleted) es)"
proof (intro outcome_conj; rule operator_milestone [OF assms])
  fix r :: restore assume r: "\<not> marked ConditionSucceeded ReasonRestoreCompleted (re_status r)"
  show "outcome (runRestoreStages r (mulDuration d second) (restoreStages (configureRestoreReconciler E n d st dep)
      restoreOperationCreate)) (\<lambda>_ es. preceded
        (\<lambda>e. answeredMark ConditionSucceeded ReasonRestoreCompleted e \<or> allAtTarget n k e)
        (writesMark ConditionSucceeded ReasonRestoreCompleted) es)"
    "outcome (runRestoreStages r (mulDuration d second) (restoreStages (configureRestoreReconciler E n d st dep)
      restoreOperationCreate)) (\<lambda>_ es. preceded
        (\<lambda>e. answeredMark ConditionSucceeded ReasonRestoreCompleted e \<or> sawMaintenanceOff e)
        (writesMark ConditionSucceeded ReasonRestoreCompleted) es)"
    by (rule operator.succeeds_after_recovery; use assms r in simp)+
  assume "\<not> (answeredMark ConditionSucceeded ReasonRestoreCompleted (OnRestore (Get (n, snd q) (Inr r))) \<or>
      answeredStatus (providerDone (configureRestoreReconciler E n d st dep)) (OnRestore (Get (n, snd q) (Inr r))))"
  then have "\<not> providerDone (configureRestoreReconciler E n d st dep) (re_status r)"
    by (auto simp: answeredStatus_def answered_def)
  then show "outcome (runRestoreStages r (mulDuration d second) (restoreStages (configureRestoreReconciler E n d st dep)
      restoreOperationCreate)) (\<lambda>_ es. preceded
        (\<lambda>e. answeredMark ConditionSucceeded ReasonRestoreCompleted e \<or>
           answeredStatus (providerDone (configureRestoreReconciler E n d st dep)) e)
        (writesMark ConditionSucceeded ReasonRestoreCompleted) es)"
    by (intro operator.succeeds_after_provider) (use assms r in simp_all)
next
  fix r :: restore assume "\<not> marked ConditionProviderSucceeded ReasonProviderRestoreCompleted (re_status r)"
  then show "outcome (runRestoreStages r (mulDuration d second) (restoreStages (configureRestoreReconciler E n d st dep)
      restoreOperationCreate)) (\<lambda>_ es. preceded
        (\<lambda>e. answeredMark ConditionProviderSucceeded ReasonProviderRestoreCompleted e \<or> sawChildCompleted e)
        (writesMark ConditionProviderSucceeded ReasonProviderRestoreCompleted) es)"
    by (intro operator.provider_succeeds_when_completed) (use assms in simp_all)
qed (simp_all add: milestones_def)

theorem restore_milestones_have_evidence_witness:
  "let es = events (ReconcileRestore demoRestoreController (''ns'', ''r'')) \<lparr>outside = demoRestoreCluster, log = []\<rparr>
   in (\<exists>e \<in> set es. writesMark ConditionSucceeded ReasonRestoreCompleted e) \<and>
     preceded (\<lambda>e. answeredMark ConditionSucceeded ReasonRestoreCompleted e \<or> sawMaintenanceOff e)
       (writesMark ConditionSucceeded ReasonRestoreCompleted) es"
  using demo_completes outcomeD [OF restore_milestones_have_evidence [OF clusterEnv_meta]]
  by (simp add: Let_def)

text \<open>
  C14: Deleting a restore deletes only a provider restore read in this run, by its UID, and only one the
  restore controls (or one of a restore from before conditions existed); the finalizer of the restore
  is removed only after its provider restore is gone or left to others, and its lease is gone.
\<close>

theorem restore_deleted_last:
  "outcome (runRestoreStages r w (restoreStages (configureRestoreReconciler E n d st dep) restoreOperationDelete))
     (\<lambda>_ es. preceded (mayDeleteChild (configureRestoreReconciler E n d st dep) r ch) (deletesChild ch) es \<and>
       preceded (\<lambda>_. False) (\<lambda>e. deletesChild ch e \<and> \<not> deletesByUID ch e) es \<and>
       preceded (childHandled (configureRestoreReconciler E n d st dep) r) (\<lambda>e. effectOf e = UpdatesRestore) es \<and>
       preceded (sawRestoreLeaseGone (configureRestoreReconciler E n d st dep) r)
         (\<lambda>e. effectOf e = UpdatesRestore) es)"
  by (intro outcome_conj operator.deletion_keeps operator.finalizer_goes_last)

end
