(* ===== verification/RestoreProgress.thy ===== *)
theory RestoreProgress
  imports RestoreDemo
begin

text \<open>
  Status updates of a restore, and the progress of its recovery: how often the updater writes, what a
  success and a failure of it mean, and that the recovery of the workloads never stalls in silence.
\<close>

section \<open>Status updates\<close>

text \<open>
  A failed update has tried to write and was refused; a successful one answers what the API server made
  of the write, or an object that reports every condition already.
\<close>

definition updateReported :: "condition list \<Rightarrow> restore \<Rightarrow> err + restore \<Rightarrow> event list \<Rightarrow> bool" where
  "updateReported cs r res es = (case res of
     Inl _ \<Rightarrow> \<exists>x a. OnRestore (UpdateStatus x (Inl a)) \<in> set es
   | Inr r' \<Rightarrow> (\<exists>x. OnRestore (UpdateStatus x (Inr r')) \<in> set es \<and> list_all (reports x) cs) \<or>
       givenOrRead r es r' \<and> list_all (reports r') cs)"

lemma setConditions_failure:
  "outcome (setConditions E r cs) (\<lambda>res es. \<forall>e. res = Inl e \<longrightarrow> (\<exists>x a. OnRestore (UpdateStatus x (Inl a)) \<in> set es))"
proof -
  let ?F = "\<lambda>es. \<exists>x a. OnRestore (UpdateStatus x (Inl a)) \<in> set es"
  have att: "outcome (persistAttempt E r cs c) (\<lambda>res es. case res of
      Inl (e, c') \<Rightarrow> True \<and> ?F (pre @ es) | Inr u \<Rightarrow> True)" for pre c
    unfolding persistAttempt_def
    by (rule outcome_call [OF tryPersistConditions_outcome [OF applyConditions_statusOnly]])
      (auto intro!: outcome_intro split: sum.splits simp: persistResult_def, blast+)
  have "outcome (persistConditions E r cs) (\<lambda>res es. case res of Inl e \<Rightarrow> ?F es | Inr x \<Rightarrow> True)"
    unfolding persistConditions_def
    by (rule outcome_mono [OF retryOnConflict_outcome [where I = "\<lambda>_ _. True" and F = "\<lambda>_. ?F" and
        Q = "\<lambda>_ _. True" and pre = "[]" and attempt = "persistAttempt E r cs", OF att]])
      (auto split: sum.splits)
  then show ?thesis
    unfolding setConditions_def
    by (rule outcome_call)
      (auto intro!: outcome_return outcome_call [OF recordConditionUpdateMetrics_outcome] split: sum.split)
qed

lemma setConditions_law:
  assumes "meta_laws E" "distinct (map c_type cs)"
  shows "outcome (setConditions E r cs) (\<lambda>res es. statusWrites (applied cs) r es \<and> updateReported cs r res es)"
proof (rule outcome_mono [OF outcome_conj [OF setConditions_outcome [OF applyConditions_law [OF assms]]
      setConditions_failure]], goal_cases)
  case (1 res es)
  then have w: "statusWrites (applied cs) r es" by simp
  have reported: "list_all (reports x) cs" if "OnRestore (UpdateStatus x u) \<in> set es" for x u
    using statusWrites_member [OF w that] by (auto simp: statusWrite_def applied_def list_all_iff)
  show ?case
  proof (cases res)
    case (Inr r')
    with 1 have "persisted (applied cs) r r' es" by simp
    with reported w Inr show ?thesis
      by (auto simp: updateReported_def persisted_def applied_def reports_def list_all_iff)
  qed (use 1 w in \<open>auto simp: updateReported_def\<close>)
qed

section \<open>The recovery\<close>

text \<open>
  How far the recovery of a restore is, read off its status: the reasons of \<open>WorkloadsRecovered=Unknown\<close>
  in their order, and the end.
\<close>

definition recoveryStep :: "string \<Rightarrow> nat" where
  "recoveryStep reason =
     (if reason = ReasonScaleUpInitiated \<or> reason = ReasonWaitingForWorkloads then 1
      else if reason = ReasonWorkloadsReady then 2
      else if reason = ReasonScaleUpFinalized then 3
      else if reason = ReasonMaintenanceModeDeactivated then 4 else 0)"

definition recoveryRank :: "restore_status \<Rightarrow> nat" where
  "recoveryRank st = (case findCond (rst_conditions st) ConditionWorkloadsRecovered of
     None \<Rightarrow> 0
   | Some d \<Rightarrow>
       if c_status d = ConditionUnknown then recoveryStep (c_reason d)
       else if c_status d = ConditionTrue \<and> marked ConditionSucceeded ReasonRestoreCompleted st then 5 else 0)"

text \<open>A status the API server has stored or answered in this run.\<close>

definition storedStatus :: "(restore_status \<Rightarrow> bool) \<Rightarrow> event list \<Rightarrow> bool" where
  "storedStatus P es \<longleftrightarrow> (\<exists>y. P (re_status y) \<and>
     ((\<exists>z. OnRestore (UpdateStatus y (Inr z)) \<in> set es) \<or> (\<exists>k. OnRestore (Get k (Inr y)) \<in> set es)))"

definition advanced :: "restore \<Rightarrow> event list \<Rightarrow> bool" where
  "advanced r es \<longleftrightarrow> storedStatus (\<lambda>st. recoveryRank (re_status r) < recoveryRank st) es"

definition sawUnready :: "string \<Rightarrow> event \<Rightarrow> bool" where
  "sawUnready n e \<longleftrightarrow> (\<exists>k u. e = OnWorkload k (ListIn n [labelScaledownScope] u) \<and> \<not> allAtTarget n k e)"

lemmas recovery_reasons = ReasonScaleUpInitiated_def ReasonWaitingForWorkloads_def ReasonWorkloadsReady_def
  ReasonScaleUpFinalized_def ReasonMaintenanceModeDeactivated_def

lemma pending_rank:
  assumes "meta_laws E"
  shows "recoveryPending E r [ReasonScaleUpInitiated, ReasonWaitingForWorkloads, ReasonWorkloadsReady,
      ReasonScaleUpFinalized, ReasonMaintenanceModeDeactivated] \<longleftrightarrow> recoveryRank (re_status r) \<in> {1, 2, 3, 4}"
    "recoveryPending E r [ReasonWorkloadsReady, ReasonScaleUpFinalized, ReasonMaintenanceModeDeactivated] \<longleftrightarrow>
      recoveryRank (re_status r) \<in> {2, 3, 4}"
    "recoveryPending E r [ReasonScaleUpFinalized, ReasonMaintenanceModeDeactivated] \<longleftrightarrow>
      recoveryRank (re_status r) \<in> {3, 4}"
    "recoveryPending E r [ReasonMaintenanceModeDeactivated] \<longleftrightarrow> recoveryRank (re_status r) = 4"
  unfolding recoveryPending_def recoveryRank_def recoveryStep_def
  by (auto simp: meta_find [OF assms] recovery_reasons split: option.splits)

text \<open>Reporting a step of the recovery advances a restore that is not so far yet.\<close>

lemma setConditions_advances:
  assumes "meta_laws E" "distinct (map c_type cs)"
    and "\<And>x. list_all (reports x) cs \<Longrightarrow> recoveryRank (re_status x) = k" "recoveryRank (re_status r) < k"
  shows "outcome (setConditions E r cs) (\<lambda>res es. \<forall>r'. res = Inr r' \<longrightarrow> advanced r es)"
proof (rule outcome_mono [OF setConditions_law [OF assms(1,2)]], intro allI impI)
  fix res r' es
  assume "statusWrites (applied cs) r es \<and> updateReported cs r res es" "res = Inr r'"
  then consider x where "OnRestore (UpdateStatus x (Inr r')) \<in> set es" "list_all (reports x) cs"
    | "givenOrRead r es r'" "list_all (reports r') cs"
    by (auto simp: updateReported_def)
  then show "advanced r es"
  proof cases
    case 1
    with assms(3,4) show ?thesis unfolding advanced_def storedStatus_def by metis
  next
    case 2
    from assms(3) [OF 2(2)] assms(4) have "r' \<noteq> r" by auto
    with 2 assms(3,4) show ?thesis unfolding advanced_def storedStatus_def givenOrRead_def by metis
  qed
qed

lemma recovery_report:
  "list_all (reports x) [newCondition ConditionWorkloadsRecovered ConditionUnknown reason m] \<Longrightarrow>
     recoveryRank (re_status x) = recoveryStep reason"
  by (auto simp: reports_iff recoveryRank_def)

lemma completion_report:
  "list_all (reports x) [reachedMilestone ConditionWorkloadsRecovered ReasonWorkloadRecoveryCompleted m,
     reachedMilestone ConditionSucceeded ReasonRestoreCompleted m'] \<Longrightarrow> recoveryRank (re_status x) = 5"
  by (auto simp: reports_iff recoveryRank_def reachedMilestone_def marked_def)

section \<open>Workloads that are not ready\<close>

lemma allInOrder_doubt:
  assumes "list_all (\<lambda>(_, f). outcome f (\<lambda>res es. res = Inr False \<longrightarrow> list_ex D es)) fs"
  shows "outcome (allInOrder fs r) (\<lambda>res es. res = Inr False \<longrightarrow> \<not> r \<or> list_ex D es)"
  using assms
proof (induction fs r rule: allInOrder.induct)
  case (1 r)
  then show ?case by (auto simp: allInOrder.simps intro!: outcome_return)
next
  case (2 what f fs r)
  then have f: "outcome f (\<lambda>res es. res = Inr False \<longrightarrow> list_ex D es)"
    and fs: "list_all (\<lambda>(_, f). outcome f (\<lambda>res es. res = Inr False \<longrightarrow> list_ex D es)) fs" by simp_all
  show ?case
    unfolding allInOrder.simps
  proof (rule outcome_call [OF f], goal_cases)
    case (1 res es)
    then show ?case
      by (cases res) (auto intro!: outcome_return outcome_mono [OF "2.IH" [OF fs]])
  qed
qed

lemma lists_workloads:
  "outcome (otherReady m k ls e f) (\<lambda>_ es. \<exists>u. es = [OnWorkload k (ListIn (dm_namespace m) ls u)])"
  "outcome (deploymentsReady m ls) (\<lambda>_ es. \<exists>u. es = [OnWorkload Deployment (ListIn (dm_namespace m) ls u)])"
  unfolding otherReady_def deploymentsReady_def
  by (rule outcome_call [OF workloadsReady_answer], auto intro!: outcome_return)+

lemma doubts_workloads:
  "k \<noteq> Deployment \<Longrightarrow> outcome (otherReady m k [labelScaledownScope] e f)
     (\<lambda>res es. res = Inr False \<longrightarrow> list_ex (sawUnready (dm_namespace m)) es)"
  "outcome (deploymentsReady m [labelScaledownScope])
     (\<lambda>res es. res = Inr False \<longrightarrow> list_ex (sawUnready (dm_namespace m)) es)"
  by (rule outcome_mono [OF outcome_conj [OF otherReady_answers [unfolded answersFor_def] lists_workloads(1)]]
      outcome_mono [OF outcome_conj [OF deploymentsReady_answers [unfolded answersFor_def] lists_workloads(2)]];
    auto simp: sawUnready_def)+

lemma ready_doubt:
  "outcome (sm_ready (NewScaleManager E n)) (\<lambda>res es. res = Inr False \<longrightarrow> list_ex (sawUnready n) es)"
  unfolding NewScaleManager_def AreWorkloadsReady_def Let_def statefulSetsReady_def replicaSetsReady_def
    replicationControllersReady_def
  by (auto intro!: outcome_mono [OF allInOrder_doubt [where D = "sawUnready n"]]
      doubts_workloads [where m = "\<lparr>dm_client = E, dm_namespace = n\<rparr>", simplified])

section \<open>The recovery never stalls in silence\<close>

definition movesOn :: "(event \<Rightarrow> bool) \<Rightarrow> restore \<Rightarrow> err option \<Rightarrow> event list \<Rightarrow> bool" where
  "movesOn D r e es \<longleftrightarrow> e \<noteq> None \<or> list_ex D es \<or> advanced r es"

definition advances :: "(event \<Rightarrow> bool) \<Rightarrow> nat \<Rightarrow> 's restore_stage \<Rightarrow> bool" where
  "advances D k s \<longleftrightarrow> (\<forall>r. k \<le> recoveryRank (re_status r) \<longrightarrow> recoveryRank (re_status r) < 5 \<longrightarrow>
     outcome (s r) (\<lambda>(r', so) es. if so_action so = actionNext then r' = r \<and> k < recoveryRank (re_status r)
       else movesOn D r (so_err so) es))"

fun climbs :: "(event \<Rightarrow> bool) \<Rightarrow> nat \<Rightarrow> 's restore_stage list \<Rightarrow> bool" where
  "climbs D k [] \<longleftrightarrow> k = 5"
| "climbs D k (s # ss) \<longleftrightarrow> advances D k s \<and> climbs D (Suc k) ss"

lemma movesOn_append: "movesOn D r e ys \<Longrightarrow> movesOn D r e (xs @ ys)"
  unfolding movesOn_def advanced_def storedStatus_def set_append list_ex_append by blast

lemma climbs_run:
  assumes "climbs D k ss" "k \<le> recoveryRank (re_status r)" "recoveryRank (re_status r) < 5"
  shows "outcome (runRestoreStages r d ss) (\<lambda>res es. movesOn D r (rerr res) es)"
  using assms
proof (induction D k ss arbitrary: r rule: climbs.induct)
  case (2 D k s ss)
  then have s: "outcome (s r) (\<lambda>(r', so) es. if so_action so = actionNext then r' = r \<and> k < recoveryRank (re_status r)
       else movesOn D r (so_err so) es)" by (simp add: advances_def)
  show ?case
  proof (rule runRestoreStages_Cons, rule s, goal_cases)
    case (1 r' so es)
    then show ?case by (auto simp: movesOn_def outcomeResult_def split: if_splits)
  next
    case (2 r' so es)
    then show ?case
      using "2.IH" [of r] "2.prems" by (auto elim!: outcome_mono intro: movesOn_append)
  qed
qed simp

lemma outcome_finishWith_advances:
  assumes "meta_laws E" "distinct (map c_type cs)"
    and "\<And>x. list_all (reports x) cs \<Longrightarrow> recoveryRank (re_status x) = k" "recoveryRank (re_status r) < k"
    and "so_action so \<noteq> actionNext"
  shows "outcome (finishWith E r cs m so) (\<lambda>(r', so') es. so_action so' \<noteq> actionNext \<and>
     (so_err so' \<noteq> None \<or> advanced r es))"
  unfolding finishWith_def
  by (rule outcome_call [OF setConditions_advances [OF assms(1-4)]])
    (use assms(5) in \<open>auto intro!: outcome_return simp: retryOnError_def split: sum.split\<close>)

lemma report_step:
  assumes "meta_laws E" "recoveryRank (re_status r) < recoveryStep reason"
  shows "outcome (finishWith E r [newCondition ConditionWorkloadsRecovered ConditionUnknown reason t] m (retryAfter w))
     (\<lambda>(r', so) es. so_action so \<noteq> actionNext \<and> (so_err so \<noteq> None \<or> advanced r es))"
  by (rule outcome_finishWith_advances [OF assms(1) _ recovery_report assms(2)]) simp_all

lemma recoveryStep_simps [simp]:
  "recoveryStep ReasonScaleUpInitiated = 1" "recoveryStep ReasonWorkloadsReady = 2"
  "recoveryStep ReasonScaleUpFinalized = 3" "recoveryStep ReasonMaintenanceModeDeactivated = 4"
  by (simp_all add: recoveryStep_def recovery_reasons)

lemma advanced_prefix: "advanced r ys \<Longrightarrow> advanced r (xs @ ys)"
  unfolding advanced_def storedStatus_def set_append by blast

locale recovering_managers = restore_managers c evidence
  for c :: "'s restoreReconciler" and evidence +
  fixes doubt :: "event \<Rightarrow> bool"
  assumes doubts: "outcome (sm_ready (rr_scaleManager c)) (\<lambda>res es. res = Inr False \<longrightarrow> list_ex doubt es)"
begin

lemma failRecovery_moves:
  "outcome (failRecovery c r note e m f) (\<lambda>(r', so) es. so_action so \<noteq> actionNext \<and> so_err so \<noteq> None)"
  unfolding failRecovery_def
  by (auto intro!: outcome_return outcome_bind [of "eventf _ _ _ _"] outcome_eventf
      outcome_bind [of "setConditions _ _ _"] outcome_setConditions simp: retryOnError_def)

lemma scaleUpInitiated_advances:
  assumes meta: "meta_laws (rr_client c)"
  shows "advances doubt 0 (ensureScaleUpInitiated c)"
  unfolding advances_def
proof (intro allI impI)
  fix r :: restore assume r: "recoveryRank (re_status r) < 5"
  show "outcome (ensureScaleUpInitiated c r) (\<lambda>(r', so) es. if so_action so = actionNext
      then r' = r \<and> 0 < recoveryRank (re_status r) else movesOn doubt r (so_err so) es)"
    unfolding ensureScaleUpInitiated_def pending_rank [OF meta]
    by (rule outcome_call [OF scale.up_within])
      (use r in \<open>auto split: option.split intro!: outcome_return outcome_mono [OF failRecovery_moves]
        outcome_mono [OF report_step [OF meta]] advanced_prefix simp: movesOn_def\<close>)
qed

lemma scaleUpFinalized_advances:
  assumes meta: "meta_laws (rr_client c)"
  shows "advances doubt 2 (ensureScaleUpFinalized c)"
  unfolding advances_def
proof (intro allI impI)
  fix r :: restore assume r: "2 \<le> recoveryRank (re_status r)" "recoveryRank (re_status r) < 5"
  show "outcome (ensureScaleUpFinalized c r) (\<lambda>(r', so) es. if so_action so = actionNext
      then r' = r \<and> 2 < recoveryRank (re_status r) else movesOn doubt r (so_err so) es)"
    unfolding ensureScaleUpFinalized_def pending_rank [OF meta]
    by (rule outcome_call [OF scale.finalize_within])
      (use r in \<open>auto split: option.split intro!: outcome_return outcome_mono [OF failRecovery_moves]
        outcome_mono [OF report_step [OF meta]] advanced_prefix simp: movesOn_def\<close>)
qed

lemma workloadsReady_advances:
  assumes meta: "meta_laws (rr_client c)"
  shows "advances doubt 1 (ensureWorkloadsReady c)"
  unfolding advances_def
proof (intro allI impI)
  fix r :: restore assume r: "1 \<le> recoveryRank (re_status r)" "recoveryRank (re_status r) < 5"
  show "outcome (ensureWorkloadsReady c r) (\<lambda>(r', so) es. if so_action so = actionNext
      then r' = r \<and> 1 < recoveryRank (re_status r) else movesOn doubt r (so_err so) es)"
    unfolding ensureWorkloadsReady_def
  proof (rule outcome_call [OF doubts], goal_cases)
    case (1 ready es)
    consider e where "ready = Inl e" | "ready = Inr True" | (waiting) "ready = Inr False" by (cases ready) auto
    then show ?case
    proof cases
      case waiting
      with 1 have d: "list_ex doubt es" by simp
      have "outcome (handleWorkloadsNotReady c r) (\<lambda>(r', so) es. so_action so \<noteq> actionNext)"
        unfolding handleWorkloadsNotReady_def by (auto intro!: outcome_return outcome_finishWith)
      then show ?thesis
        unfolding waiting sum.case bool.case by (rule outcome_mono) (use d in \<open>auto simp: movesOn_def\<close>)
    qed (use r in \<open>auto simp: handleWorkloadsReady_def pending_rank [OF meta] retryOnError_def movesOn_def
        intro!: outcome_return outcome_mono [OF report_step [OF meta]] advanced_prefix\<close>)
  qed
qed

lemma maintenanceModeDeactivated_advances:
  assumes meta: "meta_laws (rr_client c)"
  shows "advances doubt 3 (ensureMaintenanceModeDeactivated c)"
  unfolding advances_def
proof (intro allI impI)
  fix r :: restore assume r: "3 \<le> recoveryRank (re_status r)" "recoveryRank (re_status r) < 5"
  have set: "outcome (setConditions (rr_client c) r [newCondition ConditionWorkloadsRecovered ConditionUnknown
      ReasonMaintenanceModeDeactivated t]) (\<lambda>res es. \<forall>r'. res = Inr r' \<longrightarrow> advanced r es)"
    if "recoveryRank (re_status r) < 4" for t
    by (rule setConditions_advances [OF meta _ recovery_report]) (simp, simp, use that in simp)
  show "outcome (ensureMaintenanceModeDeactivated c r) (\<lambda>(r', so) es. if so_action so = actionNext
      then r' = r \<and> 3 < recoveryRank (re_status r) else movesOn doubt r (so_err so) es)"
    unfolding ensureMaintenanceModeDeactivated_def pending_rank [OF meta]
    using r by (auto split: option.split sum.split intro!: outcome_return outcome_bind [of "switchDeactivate _"]
        switch_outcomes outcome_bind [of "eventf _ _ _ _"] outcome_eventf outcome_call [OF set]
        advanced_prefix [of r _ "[_]", simplified] simp: movesOn_def retryOnError_def)
qed

lemma restoreCompleted_advances:
  assumes meta: "meta_laws (rr_client c)"
  shows "advances doubt 4 (ensureRestoreCompleted c)"
  unfolding advances_def
proof (intro allI impI)
  fix r :: restore assume r: "4 \<le> recoveryRank (re_status r)" "recoveryRank (re_status r) < 5"
  then have "recoveryRank (re_status r) = 4" by simp
  then obtain d where "findCond (restoreConditions r) ConditionWorkloadsRecovered = Some d" "c_status d = ConditionUnknown"
    by (auto simp: recoveryRank_def split: option.splits if_splits)
  then have "\<not> isStatusConditionTrue (rr_client c) (restoreConditions r) ConditionWorkloadsRecovered"
    by (simp add: meta_true [OF meta])
  moreover have set: "outcome (setConditions (rr_client c) r [reachedMilestone ConditionWorkloadsRecovered
      ReasonWorkloadRecoveryCompleted m, reachedMilestone ConditionSucceeded ReasonRestoreCompleted m'])
      (\<lambda>res es. \<forall>r'. res = Inr r' \<longrightarrow> advanced r es)" for m m'
    by (rule setConditions_advances [OF meta _ completion_report]) (use r in \<open>simp_all add: reachedMilestone_def\<close>)
  ultimately show "outcome (ensureRestoreCompleted c r) (\<lambda>(r', so) es. if so_action so = actionNext
      then r' = r \<and> 4 < recoveryRank (re_status r) else movesOn doubt r (so_err so) es)"
    unfolding ensureRestoreCompleted_def pending_rank [OF meta]
    using \<open>recoveryRank (re_status r) = 4\<close>
    by (auto split: sum.split intro!: outcome_return outcome_call [OF set] outcome_bind [of "eventf _ _ _ _"]
        outcome_eventf simp: movesOn_def retryOnError_def advanced_def storedStatus_def)
qed

lemma recovery_climbs:
  assumes "meta_laws (rr_client c)"
  shows "climbs doubt 0 [ensureScaleUpInitiated c, ensureWorkloadsReady c, ensureScaleUpFinalized c,
     ensureMaintenanceModeDeactivated c, ensureRestoreCompleted c]"
  using scaleUpInitiated_advances [OF assms] workloadsReady_advances [OF assms] scaleUpFinalized_advances [OF assms]
    maintenanceModeDeactivated_advances [OF assms] restoreCompleted_advances [OF assms]
  by (simp add: numeral_nat)

end

text \<open>A restore that has work to do has not completed its recovery.\<close>

lemma create_not_recovered:
  assumes "meta_laws E" "requiredRestoreOperation E r = restoreOperationCreate"
  shows "recoveryRank (re_status r) < 5"
proof -
  have "\<not> isTerminal E r"
    using assms(2) by (auto simp: requiredRestoreOperation_def split: if_splits)
  then have "\<not> marked ConditionSucceeded ReasonRestoreCompleted (re_status r)"
    by (auto simp: isTerminal_def effectiveSuccessfulCondition_def findSuccessfulCondition_def
        meta_find [OF assms(1)] marked_def)
  then show ?thesis
    by (auto simp: recoveryRank_def recoveryStep_def split: option.split)
qed

interpretation operator_recovery: recovering_managers "configureRestoreReconciler E n d st dep"
    "allAtTarget n k" "sawUnready n" for E n d st dep k
  by unfold_locales (simp add: ready_doubt)

section \<open>Properties\<close>

text \<open>
  C31: Setting conditions writes the status at most once more often than the client library retries
  conflicts, and writes only a status that applying the conditions to the given or a freshly read
  restore changes. It fails only when the API server refused a write; otherwise it answers what was
  made of a write that reports every condition, or a restore that reports them already.
\<close>

theorem restore_status_update:
  assumes "meta_laws E" "distinct (map c_type cs)"
  shows "outcome (setConditions E r cs) (\<lambda>res es. statusUpdates es \<le> Suc (conflictRetries E) \<and>
     statusWrites (applied cs) r es \<and> updateReported cs r res es)"
  by (rule outcome_mono [OF outcome_conj [OF setConditions_bound setConditions_law [OF assms]]]) simp

theorem restore_status_update_witness:
  "updateReported [pendingRestoreMilestone ConditionPrepared] demoRestore
     (result (setConditions clusterEnv demoRestore [pendingRestoreMilestone ConditionPrepared])
       \<lparr>outside = demoRestoreCluster, log = []\<rparr>)
     (events (setConditions clusterEnv demoRestore [pendingRestoreMilestone ConditionPrepared])
       \<lparr>outside = demoRestoreCluster, log = []\<rparr>)"
  using outcomeD [OF restore_status_update [OF clusterEnv_meta, of "[pendingRestoreMilestone ConditionPrepared]"]]
  by simp

text \<open>
  C16: Once the provider restore has succeeded, every run of the recovery stages ends with an error (and
  is retried), has seen a list of workloads that are not at their targets, or has advanced: the API
  server has stored or answered a status whose recovery is further than the one of the given restore.
\<close>

theorem recovery_progress:
  assumes "meta_laws E" "requiredRestoreOperation E r = restoreOperationCreate"
  shows "outcome (runRestoreStages r w
      [ensureScaleUpInitiated (configureRestoreReconciler E n d st dep),
       ensureWorkloadsReady (configureRestoreReconciler E n d st dep),
       ensureScaleUpFinalized (configureRestoreReconciler E n d st dep),
       ensureMaintenanceModeDeactivated (configureRestoreReconciler E n d st dep),
       ensureRestoreCompleted (configureRestoreReconciler E n d st dep)])
     (\<lambda>res es. movesOn (sawUnready n) r (rerr res) es)"
  by (rule climbs_run [OF operator_recovery.recovery_climbs]) (simp_all add: assms create_not_recovered [OF assms])

theorem recovery_progress_witness:
  "recoveryRank (re_status demoRestore) = 4 \<and> outcome (runRestoreStages demoRestore 10
      [ensureScaleUpInitiated demoRestoreController, ensureWorkloadsReady demoRestoreController,
       ensureScaleUpFinalized demoRestoreController, ensureMaintenanceModeDeactivated demoRestoreController,
       ensureRestoreCompleted demoRestoreController])
     (\<lambda>res es. movesOn (sawUnready ''ns'') demoRestore (rerr res) es)"
proof
  show "recoveryRank (re_status demoRestore) = 4"
    by (simp add: recoveryRank_def cluster_defs recoveryStep_def recovery_reasons)
  have "requiredRestoreOperation clusterEnv demoRestore = restoreOperationCreate"
    by (simp add: stage_defs cluster_defs)
  from recovery_progress [OF clusterEnv_meta this] show "outcome (runRestoreStages demoRestore 10
      [ensureScaleUpInitiated demoRestoreController, ensureWorkloadsReady demoRestoreController,
       ensureScaleUpFinalized demoRestoreController, ensureMaintenanceModeDeactivated demoRestoreController,
       ensureRestoreCompleted demoRestoreController])
     (\<lambda>res es. movesOn (sawUnready ''ns'') demoRestore (rerr res) es)" .
qed

end
