(* ===== verification/RestoreSettles.thy ===== *)
theory RestoreSettles
  imports RestoreProgress
begin

text \<open>
  A restore never stalls: a reconciliation that neither fails nor asks for another call has found the
  restore gone, has finished its deletion, has cleaned up after its end, or has seen its end stored.
\<close>

section \<open>The end of a restore\<close>

definition ended :: "restore \<Rightarrow> bool" where
  "ended r \<longleftrightarrow> (\<exists>d. findCond (restoreConditions r) ConditionSucceeded = Some d \<and> c_status d \<noteq> ConditionUnknown)"

text \<open>An accepted status that says so, or an object the API server answered that says so already.\<close>

definition endSeen :: "event \<Rightarrow> bool" where
  "endSeen e \<longleftrightarrow> (\<exists>x y. e = OnRestore (UpdateStatus x (Inr y)) \<and> (ended x \<or> ended y)) \<or>
     (\<exists>k y. e = OnRestore (Get k (Inr y)) \<and> ended y)"

definition ending :: "condition list \<Rightarrow> bool" where
  "ending cs \<longleftrightarrow> distinct (map c_type cs) \<and> list_ex (\<lambda>d. c_type d = ConditionSucceeded \<and> c_status d \<noteq> ConditionUnknown) cs"

lemma ended_reports: "ending cs \<Longrightarrow> list_all (reports x) cs \<Longrightarrow> ended x"
  by (auto simp: ending_def ended_def list_ex_iff list_all_iff reports_iff)

lemma endSeen_intros:
  "OnRestore (UpdateStatus x (Inr y)) \<in> set es \<Longrightarrow> ended x \<or> ended y \<Longrightarrow> list_ex endSeen es"
  "OnRestore (Get k (Inr y)) \<in> set es \<Longrightarrow> ended y \<Longrightarrow> list_ex endSeen es"
  unfolding list_ex_iff endSeen_def by blast+

lemma ended_answered: "ended y \<Longrightarrow> list_ex (answered y) es \<Longrightarrow> list_ex endSeen es"
  by (auto simp: answered_def list_ex_iff [of "answered y"] intro: endSeen_intros)

lemma setConditions_ends:
  assumes "meta_laws E" "ending cs"
  shows "outcome (setConditions E r cs) (\<lambda>res es. \<forall>r'. res = Inr r' \<longrightarrow> list_ex endSeen es \<or> ended r)"
proof (rule outcome_mono [OF setConditions_law [OF assms(1)]], goal_cases)
  case (2 res es)
  show ?case
  proof (intro allI impI)
    fix r' assume "res = Inr r'"
    with 2 consider x where "OnRestore (UpdateStatus x (Inr r')) \<in> set es" "list_all (reports x) cs"
      | "givenOrRead r es r'" "list_all (reports r') cs"
      by (auto simp: updateReported_def)
    then show "list_ex endSeen es \<or> ended r"
      using ended_reports [OF assms(2)] by cases (auto simp: givenOrRead_def intro: endSeen_intros)
  qed
qed (use assms(2) in \<open>simp add: ending_def\<close>)

lemma finishWith_ends:
  assumes "meta_laws E" "ending cs"
  shows "outcome (finishWith E r cs m so) (\<lambda>(r', so') es. so_action so' = actionAbort \<longrightarrow> list_ex endSeen es \<or> ended r)"
  unfolding finishWith_def
  by (rule outcome_call [OF setConditions_ends [OF assms]]) (auto intro!: outcome_return split: sum.split)

section \<open>Stages that abort\<close>

text \<open>A stage stops without asking for another call only when the restore has ended.\<close>

definition abortsEnded :: "'s restore_stage \<Rightarrow> bool" where
  "abortsEnded s \<longleftrightarrow> (\<forall>r. outcome (s r) (\<lambda>(r', so) es. so_action so = actionAbort \<longrightarrow> list_ex endSeen es \<or> ended r))"

lemmas prefixed = outcome_bind [of "eventf _ _ _ _"] outcome_eventf outcome_bind [of "switchDeactivate _"] switch_outcomes
  outcome_bind [of "now _"] outcome_now

lemma conflict_ends:
  assumes "meta_laws (rr_client c)"
  shows "outcome (failOnProviderChildConflict c r x) (\<lambda>(r', so) es. so_action so = actionAbort \<longrightarrow> list_ex endSeen es \<or> ended r)"
  unfolding failOnProviderChildConflict_def
  by (auto intro!: prefixed outcome_mono [OF finishWith_ends [OF assms]] simp: ending_def)

lemma unusable_ends:
  assumes "meta_laws (rr_client c)"
  shows "outcome (failOnUnusableSourceBackup c r x) (\<lambda>(r', so) es. so_action so = actionAbort \<longrightarrow> list_ex endSeen es \<or> ended r)"
  unfolding failOnUnusableSourceBackup_def
  by (auto intro!: prefixed outcome_mono [OF finishWith_ends [OF assms]] simp: ending_def)

lemma failed_ends:
  assumes "meta_laws (rr_client c)"
  shows "outcome (failOnProviderRestore c r x reason) (\<lambda>(r', so) es. so_action so = actionAbort \<longrightarrow> list_ex endSeen es \<or> ended r)"
  unfolding failOnProviderRestore_def Let_def
  by (auto intro!: prefixed outcome_mono [OF finishWith_ends [OF assms]] simp: ending_def)

lemma aborts_quiet:
  "abortsEnded (ensureLegacyConditionsMigrated c)" "abortsEnded (ensureRestoreConditionsInitialized c)"
  "abortsEnded (ensureMetadata c)" "abortsEnded (ensureMaintenanceModeActivated c)"
  unfolding abortsEnded_def ensureLegacyConditionsMigrated_def setConditionsFromLegacyStatus_def
    ensureRestoreConditionsInitialized_def ensureMetadata_def ensureRestoreMetadata_def applyLabels_def
    ensureMaintenanceModeActivated_def Let_def
  by (auto intro!: outcome_intro outcome_setConditions outcome_finishWith split: sum.splits option.splits prod.splits)

lemma aborts_childState:
  "meta_laws (rr_client c) \<Longrightarrow> abortsEnded (ensureProviderChildState c)"
  unfolding abortsEnded_def ensureProviderChildState_def
  by (auto intro!: outcome_return outcome_call [OF GetRestore_reads] outcome_mono [OF conflict_ends]
      split: sum.splits option.splits)

lemma aborts_activeLease: "abortsEnded (ensureActiveRestoreLease c)"
proof -
  have "outcome (reportInvalidRestoreLease c r) (\<lambda>(r', so) es. so_action so \<noteq> actionAbort)"
    "outcome (reportWaitingForLease c h r) (\<lambda>(r', so) es. so_action so \<noteq> actionAbort)"
    "outcome (continueWithAcquiredLease c r) (\<lambda>(r', so) es. so_action so \<noteq> actionAbort)" for r h
    unfolding reportInvalidRestoreLease_def reportWaitingForLease_def continueWithAcquiredLease_def Let_def
      UpdateInvalidLeaseTotalMetric_def
    by (auto intro!: outcome_return outcome_bind outcome_metricAdd outcome_setConditions split: option.splits)
  note reports = this [THEN outcome_mono]
  show ?thesis
    unfolding abortsEnded_def ensureActiveRestoreLease_def
    by (auto intro!: outcome_return outcome_call [OF restore_acquire_writes] prefixed reports
        split: sum.splits lease_state.splits)
qed

lemma aborts_providerReady: "abortsEnded (ensureProviderReady c)"
proof -
  have "outcome (reportUnreadyProvider c r rd) (\<lambda>(r', so) es. so_action so \<noteq> actionAbort)" for r rd
    unfolding reportUnreadyProvider_def Let_def
    by (auto intro!: outcome_return outcome_bind outcome_setConditions outcome_eventf split: sum.splits)
  note report = this [THEN outcome_mono]
  show ?thesis
    unfolding abortsEnded_def ensureProviderReady_def
    by (auto intro!: outcome_return outcome_call [OF isAlreadyPrepared_outcome] outcome_call [OF CheckReady_within [where A = UNIV]]
        prefixed report split: sum.splits bool.splits if_splits)
qed

lemma aborts_sourceBackup:
  "meta_laws (rr_client c) \<Longrightarrow> abortsEnded (ensureSourceBackupUsable c)"
  unfolding abortsEnded_def ensureSourceBackupUsable_def
  by (auto intro!: outcome_return outcome_call [OF isAlreadyPrepared_outcome] outcome_call [OF CheckSourceBackup_outcome]
      outcome_mono [OF unusable_ends] split: sum.splits bool.splits)

lemma aborts_providerRestore:
  "meta_laws (rr_client c) \<Longrightarrow> abortsEnded (ensureProviderRestore c)"
  unfolding abortsEnded_def ensureProviderRestore_def
  by (auto intro!: outcome_return outcome_call [OF GetRestore_reads] outcome_call [OF EnsureRestore_within] prefixed
      outcome_mono [OF conflict_ends] split: sum.splits option.splits restore_error.splits)

lemma aborts_providerCompletion:
  "meta_laws (rr_client c) \<Longrightarrow> abortsEnded (ensureProviderCompletion c)"
  unfolding abortsEnded_def ensureProviderCompletion_def Let_def
  by (auto intro!: outcome_return outcome_call [OF GetRestore_reads] prefixed outcome_bind [of "return _"]
      outcome_mono [OF failed_ends] outcome_finishWith split: sum.splits option.splits prod.splits)

section \<open>Stages over the managers\<close>

context restore_managers begin

lemma aborts_preparation: "abortsEnded (ensurePreparation c)"
proof -
  have "outcome (reportFailedPreparation c r e) (\<lambda>(r', so) es. so_action so \<noteq> actionAbort)" for r e
    unfolding reportFailedPreparation_def Let_def
    by (auto intro!: outcome_return outcome_bind outcome_setConditions outcome_eventf split: sum.splits)
  note report = this [THEN outcome_mono]
  show ?thesis
    unfolding abortsEnded_def ensurePreparation_def
    by (auto intro!: outcome_return outcome_call [OF isAlreadyPrepared_outcome] outcome_call [OF scale.down_within]
        outcome_call [OF cleanup_within] outcome_bind [of "setConditions _ _ _"] outcome_setConditions prefixed report
        split: sum.splits bool.splits option.splits)
qed

lemma aborts_recovery:
  "abortsEnded (ensureScaleUpInitiated c)" "abortsEnded (ensureScaleUpFinalized c)"
  "abortsEnded (ensureWorkloadsReady c)" "abortsEnded (ensureMaintenanceModeDeactivated c)"
proof -
  have "outcome (failRecovery c r n e m f) (\<lambda>(r', so) es. so_action so \<noteq> actionAbort)" for r n e m f
    unfolding failRecovery_def
    by (auto intro!: outcome_return outcome_bind outcome_setConditions outcome_eventf)
  note fail = this [THEN outcome_mono]
  show "abortsEnded (ensureScaleUpInitiated c)" "abortsEnded (ensureScaleUpFinalized c)"
    unfolding abortsEnded_def ensureScaleUpInitiated_def ensureScaleUpFinalized_def
    by (auto intro!: outcome_return outcome_call [OF scale.up_within] outcome_call [OF scale.finalize_within]
        fail outcome_finishWith split: option.splits)
  show "abortsEnded (ensureWorkloadsReady c)"
    unfolding abortsEnded_def ensureWorkloadsReady_def handleWorkloadsReady_def handleWorkloadsNotReady_def
    by (auto intro!: outcome_return outcome_call [OF scale.ready_evidence] outcome_finishWith split: sum.splits bool.splits)
  show "abortsEnded (ensureMaintenanceModeDeactivated c)"
    unfolding abortsEnded_def ensureMaintenanceModeDeactivated_def
    by (auto intro!: outcome_return prefixed outcome_bind [of "setConditions _ _ _"] outcome_setConditions
        split: sum.splits option.splits)
qed

end

lemma aborts_completed:
  assumes "meta_laws (rr_client c)"
  shows "abortsEnded (ensureRestoreCompleted c)"
proof -
  have set: "outcome (setConditions (rr_client c) r [reachedMilestone ConditionWorkloadsRecovered
      ReasonWorkloadRecoveryCompleted m, reachedMilestone ConditionSucceeded ReasonRestoreCompleted m'])
      (\<lambda>res es. \<forall>r'. res = Inr r' \<longrightarrow> list_ex endSeen es \<or> ended r)" for r m m'
    by (rule setConditions_ends [OF assms]) (simp add: ending_def reachedMilestone_def)
  show ?thesis
    unfolding abortsEnded_def ensureRestoreCompleted_def meta_true [OF assms]
    by (auto intro!: outcome_return outcome_call [OF set] prefixed split: sum.splits simp: ended_def)
qed

section \<open>Runs that come to rest\<close>

definition atRest :: "reconcile_result \<Rightarrow> bool" where
  "atRest res \<longleftrightarrow> requeueAfter res = 0 \<and> rerr res = None"

text \<open>With a positive delay only an abort comes to rest.\<close>

lemma atRest_aborts: "0 < d \<Longrightarrow> so_action so \<noteq> actionNext \<Longrightarrow> atRest (outcomeResult so d) \<Longrightarrow> so_action so = actionAbort"
  by (cases "so_action so") (auto simp: atRest_def outcomeResult_def Let_def split: if_splits)

definition restsEnded :: "'s restore_stage \<Rightarrow> bool" where
  "restsEnded s \<longleftrightarrow> (\<forall>r. outcome (s r) (\<lambda>(r', so) es.
     so_action so = actionAbort \<or> so_action so = actionNext \<and> ended r' \<longrightarrow> list_ex endSeen es \<or> ended r))"

lemma restsEnded_contract:
  assumes "abortsEnded s" "restoreContract A N s" "\<And>r r' es. N r r' es \<Longrightarrow> ended r' \<Longrightarrow> ended r \<or> list_ex endSeen es"
  shows "restsEnded s"
  unfolding restsEnded_def
proof
  fix r
  have "outcome (s r) (\<lambda>(r', so) es. so_action so = actionAbort \<longrightarrow> list_ex endSeen es \<or> ended r)"
    using assms(1) by (simp add: abortsEnded_def)
  from outcome_conj [OF this restoreContractD [OF assms(2)]]
  show "outcome (s r) (\<lambda>(r', so) es.
     so_action so = actionAbort \<or> so_action so = actionNext \<and> ended r' \<longrightarrow> list_ex endSeen es \<or> ended r)"
    by (rule outcome_mono) (use assms(3) in auto)
qed

lemma rests_run:
  assumes "0 < d" "list_all restsEnded ss" "abortsEnded s" "restoreContract A never s"
  shows "outcome (runRestoreStages r d (ss @ [s])) (\<lambda>res es. atRest res \<longrightarrow> list_ex endSeen es \<or> ended r)"
  using assms(2)
proof (induction ss arbitrary: r)
  case Nil
  have "outcome (s r) (\<lambda>(r', so) es. so_action so = actionAbort \<longrightarrow> list_ex endSeen es \<or> ended r)"
    using assms(3) by (simp add: abortsEnded_def)
  from outcome_conj [OF this restoreContractD [OF assms(4)]] show ?case
    unfolding append_Nil by (rule runRestoreStages_Cons) (auto dest: atRest_aborts [OF assms(1)])
next
  case (Cons t ss)
  then have t: "outcome (t r) (\<lambda>(r', so) es.
      so_action so = actionAbort \<or> so_action so = actionNext \<and> ended r' \<longrightarrow> list_ex endSeen es \<or> ended r)"
    by (simp add: restsEnded_def)
  show ?case
    unfolding append_Cons
  proof (rule runRestoreStages_Cons, rule t, goal_cases)
    case (2 r' so es)
    with Cons show ?case by (intro outcome_mono [OF Cons.IH]) auto
  qed (auto dest: atRest_aborts [OF assms(1)])
qed

context restore_managers begin

lemma restore_create_rests:
  assumes "meta_laws (rr_client c)" "0 < d"
  shows "outcome (runRestoreStages r d (restoreStages c restoreOperationCreate))
    (\<lambda>res es. atRest res \<longrightarrow> list_ex endSeen es \<or> ended r)"
proof -
  note simple = restsEnded_contract [OF _ _ disjI1]
  have same: "sameRestore r r' \<Longrightarrow> ended r' \<Longrightarrow> ended r" for r r'
    by (simp add: ended_def sameRestore_simps)
  have stages: "restoreStages c restoreOperationCreate = [ensureLegacyConditionsMigrated c, ensureRestoreConditionsInitialized c,
      ensureMetadata c, ensureProviderChildState c, ensureActiveRestoreLease c, ensureProviderReady c,
      ensureSourceBackupUsable c, ensureMaintenanceModeActivated c, ensurePreparation c,
      ensureProviderRestore c, ensureProviderCompletion c, ensureScaleUpInitiated c, ensureWorkloadsReady c,
      ensureScaleUpFinalized c, ensureMaintenanceModeDeactivated c] @ [ensureRestoreCompleted c]"
    by (simp add: restoreStages_def)
  have "restsEnded (ensureLegacyConditionsMigrated c)"
    by (rule restsEnded_contract [OF aborts_quiet(1) legacyMigrated_contract]) (auto intro: ended_answered)
  moreover have "restsEnded (ensureMetadata c)"
    by (rule restsEnded_contract [OF aborts_quiet(3) metadata_contract]) (blast intro: same)
  moreover have "restsEnded (ensureRestoreConditionsInitialized c)" "restsEnded (ensureProviderChildState c)"
    "restsEnded (ensureActiveRestoreLease c)" "restsEnded (ensureProviderReady c)"
    "restsEnded (ensureSourceBackupUsable c)" "restsEnded (ensureMaintenanceModeActivated c)"
    "restsEnded (ensurePreparation c)" "restsEnded (ensureProviderRestore c)"
    "restsEnded (ensureProviderCompletion c)" "restsEnded (ensureScaleUpInitiated c)"
    "restsEnded (ensureWorkloadsReady c)" "restsEnded (ensureScaleUpFinalized c)"
    "restsEnded (ensureMaintenanceModeDeactivated c)"
    by (rule simple, rule aborts_quiet aborts_childState [OF assms(1)] aborts_activeLease aborts_providerReady
        aborts_sourceBackup [OF assms(1)] aborts_preparation aborts_providerRestore [OF assms(1)]
        aborts_providerCompletion [OF assms(1)] aborts_recovery, rule restore_contracts, blast)+
  ultimately show ?thesis
    unfolding stages by (intro rests_run [OF assms(2) _ aborts_completed [OF assms(1)] restoreCompleted_contract]) simp
qed

end

section \<open>Deleted and finished restores\<close>

text \<open>Stages that never stop without asking for another call.\<close>

lemma stages_go_on:
  "outcome (ensureProviderRestoreDeleted c r) (\<lambda>(r', so) es. so_action so \<noteq> actionAbort)"
  "outcome (ensureDeletingStatus c r) (\<lambda>(r', so) es. so_action so \<noteq> actionAbort)"
  "outcome (ensureRestoreLeaseReleased c r) (\<lambda>(r', so) es. so_action so \<noteq> actionAbort)"
  "outcome (ensureLegacyConditionsMigrated c r) (\<lambda>(r', so) es. so_action so \<noteq> actionAbort)"
  unfolding ensureProviderRestoreDeleted_def ensureDeletingStatus_def ensureRestoreLeaseReleased_def Release_def
    ensureLegacyConditionsMigrated_def setConditionsFromLegacyStatus_def Let_def
  by (auto intro!: outcome_intro outcome_call [OF GetRestore_reads] outcome_call [OF DeleteRestore_outcome] prefixed
      outcome_setConditions outcome_finishWith split: sum.splits option.splits)

lemmas deletion_goes_on =
  outcome_conj [OF stages_go_on(1) restoreContractD [OF providerRestoreDeleted_contract]]
  outcome_conj [OF stages_go_on(2) restoreContractD [OF deletingStatus_contract]]
  outcome_conj [OF stages_go_on(3) restoreContractD [OF leaseReleased_contract]]
  outcome_conj [OF stages_go_on(4) restoreContractD [OF legacyMigrated_contract]]

text \<open>The finalizer of the restore is off, or its removal was accepted.\<close>

definition released :: "'s env \<Rightarrow> restore \<Rightarrow> event list \<Rightarrow> bool" where
  "released E r es \<longleftrightarrow> RestoreFinalizer E \<notin> set (o_finalizers r) \<or>
     (\<exists>x. OnRestore (Update (r\<lparr>o_finalizers := filter (\<lambda>f. f \<noteq> RestoreFinalizer E) (o_finalizers r)\<rparr>) (Inr x)) \<in> set es)"

lemma deletionFinalized_releases:
  assumes "finalizer_laws (rr_client c)"
  shows "outcome (ensureDeletionFinalized c r) (\<lambda>(r', so) es. so_action so = actionAbort \<longrightarrow> released (rr_client c) r es)"
  using assms
  unfolding ensureDeletionFinalized_def removeRestoreFinalizer_def Let_def finalizer_laws_def
  by (auto intro!: outcome_intro split: sum.splits prod.splits simp: released_def)

lemma restore_delete_rests:
  assumes "finalizer_laws (rr_client c)" "0 < d"
  shows "outcome (runRestoreStages r d (restoreStages c restoreOperationDelete)) (\<lambda>res es. atRest res \<longrightarrow>
    list_ex (childHandled c r) es \<and> list_ex (sawRestoreLeaseGone c r) es \<and> released (rr_client c) r es)"
proof -
  note rest = atRest_aborts [OF assms(2)]
  have last: "outcome (runRestoreStages r d [ensureDeletionFinalized c]) (\<lambda>res es. atRest res \<longrightarrow> released (rr_client c) r es)"
    by (rule runRestoreStages_Cons [OF outcome_conj [OF deletionFinalized_releases [OF assms(1)]
          restoreContractD [OF deletionFinalized_contract]]]) (auto dest: rest)
  have lease: "outcome (runRestoreStages r d [ensureRestoreLeaseReleased c, ensureDeletionFinalized c])
      (\<lambda>res es. atRest res \<longrightarrow> list_ex (sawRestoreLeaseGone c r) es \<and> released (rr_client c) r es)"
    by (rule runRestoreStages_Cons [OF deletion_goes_on(3)])
      (auto dest: rest intro!: outcome_mono [OF last] simp: released_def)
  have status: "outcome (runRestoreStages r d [ensureDeletingStatus c, ensureRestoreLeaseReleased c, ensureDeletionFinalized c])
      (\<lambda>res es. atRest res \<longrightarrow> list_ex (sawRestoreLeaseGone c r) es \<and> released (rr_client c) r es)"
    by (rule runRestoreStages_Cons [OF deletion_goes_on(2)])
      (auto dest: rest intro!: outcome_mono [OF lease] simp: released_def)
  show ?thesis
    unfolding restoreStages_def restore_operation.case
    by (rule runRestoreStages_Cons [OF deletion_goes_on(1)])
      (auto dest: rest intro!: outcome_mono [OF status] simp: released_def)
qed

text \<open>The lease is released for the restore, or for what the API server answered when it was migrated.\<close>

definition leaseHandled :: "'s restoreReconciler \<Rightarrow> restore \<Rightarrow> event list \<Rightarrow> bool" where
  "leaseHandled c r es \<longleftrightarrow> (\<exists>r'. (r' = r \<or> list_ex (answered r') es) \<and> list_ex (sawRestoreLeaseGone c r') es)"

lemma restore_ignore_rests:
  assumes "0 < d"
  shows "outcome (runRestoreStages r d (restoreStages c restoreOperationIgnore)) (\<lambda>res es. atRest res \<longrightarrow> leaseHandled c r es)"
proof -
  note rest = atRest_aborts [OF assms]
  have lease: "outcome (runRestoreStages r' d [ensureRestoreLeaseReleased c])
      (\<lambda>res es. atRest res \<longrightarrow> list_ex (sawRestoreLeaseGone c r') es)" for r'
    by (rule runRestoreStages_Cons [OF deletion_goes_on(3)])
      (auto dest: rest intro!: outcome_return simp: runRestoreStages.simps)
  show ?thesis
    unfolding restoreStages_def restore_operation.case
    by (rule runRestoreStages_Cons [OF deletion_goes_on(4)])
      (auto dest: rest intro!: outcome_mono [OF lease] simp: leaseHandled_def)
qed

section \<open>The property\<close>

fun settledRestore :: "'s restoreReconciler \<Rightarrow> api_error + restore \<Rightarrow> event list \<Rightarrow> bool" where
  "settledRestore c (Inl e) es \<longleftrightarrow> isNotFound e"
| "settledRestore c (Inr r) es \<longleftrightarrow> (case requiredRestoreOperation (rr_client c) r of
     restoreOperationDelete \<Rightarrow> list_ex (childHandled c r) es \<and> list_ex (sawRestoreLeaseGone c r) es \<and>
       released (rr_client c) r es
   | restoreOperationIgnore \<Rightarrow> leaseHandled c r es
   | restoreOperationCreate \<Rightarrow> list_ex endSeen es)"

definition restoreSettledAfter :: "'s restoreReconciler \<Rightarrow> string \<Rightarrow> event list \<Rightarrow> bool" where
  "restoreSettledAfter c name es \<longleftrightarrow> (\<exists>got es'. es = MetricAdd RestoreReconcileTotal 1 #
     OnRestore (Get (rr_namespace c, name) got) # es' \<and> settledRestore c got es')"

lemma settledRestore_prefix: "settledRestore c (Inr r) es \<Longrightarrow> settledRestore c (Inr r) (ms @ es)"
  by (auto simp: leaseHandled_def released_def split: restore_operation.splits)

lemma create_open: "requiredRestoreOperation E r = restoreOperationCreate \<Longrightarrow> meta_laws E \<Longrightarrow> \<not> ended r"
  by (auto simp: requiredRestoreOperation_def isTerminal_def effectiveSuccessfulCondition_def findSuccessfulCondition_def
      ended_def meta_find split: if_splits)

context restore_managers begin

lemma restore_rests:
  assumes "meta_laws (rr_client c)" "finalizer_laws (rr_client c)" "0 < d"
  shows "outcome (runRestoreStages r d (restoreStages c (requiredRestoreOperation (rr_client c) r)))
    (\<lambda>res es. atRest res \<longrightarrow> settledRestore c (Inr r) es)"
proof (cases "requiredRestoreOperation (rr_client c) r")
  case restoreOperationCreate
  with create_open [OF _ assms(1)] have "\<not> ended r" by blast
  with restore_create_rests [OF assms(1,3), of r] show ?thesis by (simp add: restoreOperationCreate)
next
  case restoreOperationDelete
  then show ?thesis using restore_delete_rests [OF assms(2,3)] by simp
next
  case restoreOperationIgnore
  then show ?thesis using restore_ignore_rests [OF assms(3)] by simp
qed

end

text \<open>
  C15: A reconciliation of a restore that neither fails nor asks for another call leaves nothing to do,
  provided the configured delay is positive: the restore is gone; or it was being deleted, its provider
  restore and its lease are handled and its finalizer is off; or it had ended and its lease is released;
  or the API server has accepted or answered a status that says how it ended.
\<close>

theorem restore_never_stalls:
  assumes "meta_laws E" "finalizer_laws E" "0 < mulDuration d second"
  shows "outcome (ReconcileRestore (configureRestoreReconciler E n d st dep) q) (\<lambda>res es.
    atRest res \<longrightarrow> restoreSettledAfter (configureRestoreReconciler E n d st dep) (snd q) es)"
proof (rule ReconcileRestore_outcome [OF operator.restore_rests], goal_cases)
  case (6 r ms res es)
  then show ?case
    unfolding restoreSettledAfter_def using settledRestore_prefix by blast
qed (simp_all add: assms restoreSettledAfter_def atRest_def)

text \<open>A restore that has ended and still holds the lease: one reconciliation, and nothing is left to do.\<close>

definition endedRestore :: restore where
  "endedRestore = demoRestore\<lparr>re_status := \<lparr>rst_conditions = [newCondition ConditionSucceeded ConditionTrue [] []],
     rst_legacy = StatusCompleted\<rparr>\<rparr>"

definition endedCluster :: cluster where
  "endedCluster = demoRestoreCluster\<lparr>cl_restores := [((''ns'', ''r''), endedRestore)]\<rparr>"

theorem restore_never_stalls_witness:
  "let run = ReconcileRestore demoRestoreController (''ns'', ''r''); w = \<lparr>outside = endedCluster, log = []\<rparr>
   in atRest (result run w) \<and> restoreSettledAfter demoRestoreController ''r'' (events run w)"
proof -
  have "0 < mulDuration 10 second" by (simp add: mulDuration_def wrap64_def second_def)
  note never = outcomeD [OF restore_never_stalls [OF clusterEnv_meta clusterEnv_finalizers this, of "''ns''" "''default''" "''velero''"
      "(''ns'', ''r'')"], of "\<lparr>outside = endedCluster, log = []\<rparr>"]
  have "atRest (result (ReconcileRestore demoRestoreController (''ns'', ''r'')) \<lparr>outside = endedCluster, log = []\<rparr>)"
    by (simp add: result_def atRest_def endedCluster_def endedRestore_def ReconcileRestore_def runRestoreStages.simps
        restoreStages_def outcomeResult_def abortStage_def ensureRestoreLeaseReleased_def demo_simps Let_def
        cong: bind_cong_weak del: run_state_bind)
  then show ?thesis using never by (simp add: Let_def)
qed

end
