(* ===== verification/Schedule.thy ===== *)
theory Schedule
  imports Conditions
begin

text \<open>
  \<open>internal/controller/schedule\<close>: a \<open>BackupSchedule\<close> is carried out by a \<open>CronJob\<close> of its own. The
  reconciler keeps the finalizer and the labels of the schedule, validates its cron expression, keeps
  the CronJob in step with it and reports the outcome in the conditions \<open>Accepted\<close> and \<open>Ready\<close>; a
  schedule that is being deleted takes its CronJob with it.

  The CronJob's name and pod template come from the k8s-backup-lib, the cron parser from
  \<open>robfig/cron\<close>; both are functions of the environment. Logging is not modelled.
\<close>

section \<open>Conditions\<close>

definition setScheduleCondition :: "'s env \<Rightarrow> backup_schedule \<Rightarrow> condition \<Rightarrow> ('s, backup_schedule) prog" where
  "setScheduleCondition E schedule c = do {
     cs \<leftarrow> setStatusCondition E (ss_conditions (bs_status schedule)) c;
     return (schedule\<lparr>bs_status := (bs_status schedule)\<lparr>ss_conditions := cs\<rparr>\<rparr>)
   }"

definition markAccepted :: "'s env \<Rightarrow> backup_schedule \<Rightarrow> ('s, backup_schedule) prog" where
  "markAccepted E schedule = setScheduleCondition E schedule
     (newCondition ConditionAccepted ConditionTrue (libConstant E ''ReasonValidSpec'') ''Backup schedule accepted'')"

definition markInvalid :: "'s env \<Rightarrow> backup_schedule \<Rightarrow> err \<Rightarrow> ('s, backup_schedule) prog" where
  "markInvalid E schedule e = setScheduleCondition E schedule
     (newCondition ConditionAccepted ConditionFalse (libConstant E ''ReasonInvalidSpec'') (errText e))"

definition markAcceptanceNotEvaluated :: "'s env \<Rightarrow> backup_schedule \<Rightarrow> err \<Rightarrow> ('s, backup_schedule) prog" where
  "markAcceptanceNotEvaluated E schedule e = setScheduleCondition E schedule
     (newCondition ConditionAccepted ConditionUnknown (libConstant E ''ReasonNotEvaluated'')
       (''Required metadata could not be persisted: '' @ errText e))"

definition markReady :: "'s env \<Rightarrow> backup_schedule \<Rightarrow> ('s, backup_schedule) prog" where
  "markReady E schedule = setScheduleCondition E schedule
     (newCondition ConditionReady ConditionTrue (libConstant E ''ReasonReady'') ''BackupSchedule is ready.'')"

definition markNotReady :: "'s env \<Rightarrow> backup_schedule \<Rightarrow> string \<Rightarrow> string \<Rightarrow> ('s, backup_schedule) prog" where
  "markNotReady E schedule reason message = setScheduleCondition E schedule
     (newCondition ConditionReady ConditionFalse reason message)"

section \<open>Metadata\<close>

text \<open>
  The labels of a schedule are compared with Go's zero value for missing keys, so a label that is
  missing differs from its wanted value. Go pointers: \<open>ensure\<close> and \<open>remove\<close> leave their changes in the
  schedule they were given also when the API refuses them, and take over the answer when it accepts.
\<close>

abbreviation BackupScheduleFinalizer :: "'s env \<Rightarrow> string" where
  "BackupScheduleFinalizer E \<equiv> libConstant E ''BackupScheduleFinalizer''"

definition addLabelsIfNecessary :: "(string \<rightharpoonup> string) \<Rightarrow> bool \<Rightarrow> (string \<rightharpoonup> string) \<times> bool" where
  "addLabelsIfNecessary labels changed =
     (let (labels, changed) = (if labels ''app'' \<noteq> Some ''ces'' then (labels(''app'' \<mapsto> ''ces''), True)
            else (labels, changed))
      in if labels ''k8s.cloudogu.com/part-of'' \<noteq> Some ''backup''
         then (labels(''k8s.cloudogu.com/part-of'' \<mapsto> ''backup''), True) else (labels, changed))"

definition persistMetadata :: "'s env \<Rightarrow> backup_schedule \<Rightarrow> backup_schedule
    \<Rightarrow> ('s, backup_schedule \<times> err option) prog" where
  "persistMetadata E before schedule = do {
     r \<leftarrow> apiPatch (schedules E) OnSchedule before schedule;
     return (case r of Inl e \<Rightarrow> (schedule, Some (Api e)) | Inr s \<Rightarrow> (s, None))
   }"

definition ensureScheduleMetadata :: "'s env \<Rightarrow> backup_schedule \<Rightarrow> ('s, backup_schedule \<times> err option) prog" where
  "ensureScheduleMetadata E schedule = (let
     before = schedule;
     (schedule, changed) = (if \<not> containsFinalizer E (o_finalizers schedule) (BackupScheduleFinalizer E)
       then (schedule\<lparr>o_finalizers := fst (addFinalizer E (o_finalizers schedule) (BackupScheduleFinalizer E))\<rparr>, True)
       else (schedule, False));
     (labels, changed) = addLabelsIfNecessary (o_labels schedule) changed;
     schedule = schedule\<lparr>o_labels := labels\<rparr>
     in if \<not> changed then return (schedule, None) else persistMetadata E before schedule)"

definition removeScheduleMetadata :: "'s env \<Rightarrow> backup_schedule \<Rightarrow> ('s, backup_schedule \<times> err option) prog" where
  "removeScheduleMetadata E schedule =
     (if \<not> containsFinalizer E (o_finalizers schedule) (BackupScheduleFinalizer E) then return (schedule, None)
      else persistMetadata E schedule
        (schedule\<lparr>o_finalizers := fst (removeFinalizer E (o_finalizers schedule) (BackupScheduleFinalizer E))\<rparr>))"

section \<open>Validation\<close>

definition validateSchedule :: "'s env \<Rightarrow> backup_schedule \<Rightarrow> err option" where
  "validateSchedule E schedule =
     (if bs_schedule schedule = [] then Some (Errorf ''schedule must not be empty'')
      else case parseStandard E (bs_schedule schedule) of
        Some e \<Rightarrow> Some (Wrapf (''invalid cron schedule '' @ quote (bs_schedule schedule)) e)
      | None \<Rightarrow> None)"

section \<open>The CronJob of a schedule\<close>

definition cronJobLabels :: "(string \<times> string) list" where
  "cronJobLabels = [(''app'', ''ces''), (''k8s.cloudogu.com/part-of'', ''backup''),
     (''app.kubernetes.io/created-by'', ''k8s-backup-operator''),
     (''app.kubernetes.io/part-of'', ''k8s-backup-operator'')]"

record 's cronJobManager =
  cj_client :: "'s env"
  cj_operatorImage :: string
  cj_pullPolicy :: string
  cj_pullSecrets :: "string list"

definition newCronJob :: "'s env \<Rightarrow> backup_schedule \<Rightarrow> cron_job" where
  "newCronJob E schedule = obj_meta.extend (newMeta (o_namespace schedule) (cronJobName E schedule))
     \<lparr>cj_schedule = [], cj_podTemplate = \<lparr>pt_imagePullSecrets = [], pt_rest = []\<rparr>, cj_rest = []\<rparr>"

text \<open>The function \<open>CreateOrPatch\<close> is called with; loops over the default labels commute, their keys differ.\<close>

definition mutateCronJob :: "'s cronJobManager \<Rightarrow> backup_schedule \<Rightarrow> cron_job \<Rightarrow> err + cron_job" where
  "mutateCronJob c schedule cronJob = (let
     cronJob = cronJob\<lparr>o_labels := o_labels cronJob ++ map_of cronJobLabels\<rparr>
     in case setControllerReference (cj_client c) schedule cronJob of
          Inl e \<Rightarrow> Inl (Wrapf (''failed to set BackupSchedule '' @ o_name schedule @ '' as owner of CronJob '' @
            o_name cronJob) e)
        | Inr owners \<Rightarrow> (let
            podTemplate = cronJobPodTemplate (cj_client c) schedule (cj_operatorImage c) (cj_pullPolicy c);
            podTemplate = (if cj_pullSecrets c \<noteq> []
              then podTemplate\<lparr>pt_imagePullSecrets := cj_pullSecrets c\<rparr> else podTemplate)
            in Inr (cronJob\<lparr>o_owners := owners, cj_schedule := bs_schedule schedule,
                 cj_podTemplate := podTemplate\<rparr>)))"

definition ensureCronJob :: "'s cronJobManager \<Rightarrow> backup_schedule \<Rightarrow> ('s, err option) prog" where
  "ensureCronJob c schedule = do {
     a \<leftarrow> syncCronJob (cj_client c) (newCronJob (cj_client c) schedule) (mutateCronJob c schedule);
     let name = o_name (sy_object a);
     case sy_error a of
       Some e \<Rightarrow> do {
         _ \<leftarrow> eventf EventTypeWarning (libConstant (cj_client c) ''CronJobSynchronizationFailedEventReason'')
           ''SynchronizeCronJob'' (''Failed to synchronize CronJob '' @ quote name @ '': '' @ errText e);
         return (Some (Wrapf (''failed to synchronize CronJob '' @ name @ '' for BackupSchedule '' @
           o_name schedule) e))
       }
     | None \<Rightarrow> do {
         _ \<leftarrow> (case sy_operation a of
             OperationResultCreated \<Rightarrow>
               eventf EventTypeNormal (libConstant (cj_client c) ''CronJobCreatedEventReason'') ''CreateCronJob''
                 (''Created CronJob '' @ quote name @ ''.'')
           | OperationResultUpdated \<Rightarrow>
               eventf EventTypeNormal (libConstant (cj_client c) ''CronJobUpdatedEventReason'') ''UpdateCronJob''
                 (''Updated CronJob '' @ quote name @ ''.'')
           | _ \<Rightarrow> return ());
         return None
       }
   }"

definition deleteCronJob :: "'s cronJobManager \<Rightarrow> backup_schedule \<Rightarrow> ('s, err option) prog" where
  "deleteCronJob c schedule = do {
     let cronJob = newCronJob (cj_client c) schedule;
     r \<leftarrow> apiDelete (cronJobs (cj_client c)) OnCronJob cronJob noOptions;
     case r of
       Inl e \<Rightarrow>
         if isNotFound e then return None
         else do {
           _ \<leftarrow> eventf EventTypeWarning (libConstant (cj_client c) ''CronJobDeletionFailedEventReason'')
             ''DeleteCronJob'' (''Failed to delete CronJob '' @ quote (o_name cronJob) @ '': '' @ text_of e);
           return (Some (Wrapf (''failed to delete CronJob '' @ o_name cronJob @ '' for BackupSchedule '' @
             o_name schedule) (Api e)))
         }
     | Inr _ \<Rightarrow> do {
         _ \<leftarrow> eventf EventTypeNormal (libConstant (cj_client c) ''CronJobDeletionRequestedEventReason'')
           ''DeleteCronJob'' (''Requested deletion of CronJob '' @ quote (o_name cronJob) @ ''.'');
         return None
       }
   }"

section \<open>The reconciler\<close>

text \<open>
  The reconciler sees the managers of metadata and CronJobs and the validator through interfaces, records
  of their operations (\<open>interfaces.go\<close>).
\<close>

record 's metadataManager =
  mt_ensure :: "backup_schedule \<Rightarrow> ('s, backup_schedule \<times> err option) prog"
  mt_remove :: "backup_schedule \<Rightarrow> ('s, backup_schedule \<times> err option) prog"

record 's cronJobOps =
  cron_ensure :: "backup_schedule \<Rightarrow> ('s, err option) prog"
  cron_delete :: "backup_schedule \<Rightarrow> ('s, err option) prog"

record 's scheduleReconciler =
  sr_client :: "'s env"
  sr_metadata :: "'s metadataManager"
  sr_cronJobs :: "'s cronJobOps"
  sr_validate :: "backup_schedule \<Rightarrow> err option"

text \<open>
  \<open>patchStatus\<close> compares with \<open>equality.Semantic.DeepEqual\<close>, which on the fields of the model is
  equality.
\<close>

definition patchScheduleStatus :: "'s env \<Rightarrow> backup_schedule \<Rightarrow> backup_schedule
    \<Rightarrow> ('s, backup_schedule \<times> err option) prog" where
  "patchScheduleStatus E before after =
     (if bs_status before = bs_status after then return (after, None)
      else do {
        r \<leftarrow> apiPatchStatus (schedules E) OnSchedule before after;
        return (case r of Inl e \<Rightarrow> (after, Some (Api e)) | Inr s \<Rightarrow> (s, None))
      })"

definition getBackupSchedule :: "'s env \<Rightarrow> key \<Rightarrow> ('s, api_error + backup_schedule) prog" where
  "getBackupSchedule E k = apiGet (schedules E) OnSchedule k"

definition reconcileDelete :: "'s scheduleReconciler \<Rightarrow> backup_schedule \<Rightarrow> ('s, err option) prog" where
  "reconcileDelete c schedule = do {
     e \<leftarrow> cron_delete (sr_cronJobs c) schedule;
     case e of
       Some e \<Rightarrow> return (Some e)
     | None \<Rightarrow> do {
         (_, e) \<leftarrow> mt_remove (sr_metadata c) schedule;
         case e of
           None \<Rightarrow> return None
         | Some e \<Rightarrow> do {
             _ \<leftarrow> eventf EventTypeWarning (libConstant (sr_client c) ''FinalizerRemovalFailedEventReason'')
               ''DeleteBackupSchedule'' (''Failed to remove finalizer '' @ quote (BackupScheduleFinalizer (sr_client c)) @
                 '' from BackupSchedule: '' @ errText e);
             return (Some e)
           }
       }
   }"

definition reconcileNormal :: "'s scheduleReconciler \<Rightarrow> backup_schedule \<Rightarrow> ('s, backup_schedule \<times> err option) prog" where
  "reconcileNormal c schedule = (let E = sr_client c in do {
     (schedule, e) \<leftarrow> mt_ensure (sr_metadata c) schedule;
     case e of
       Some e \<Rightarrow> do {
         schedule \<leftarrow> markAcceptanceNotEvaluated E schedule e;
         schedule \<leftarrow> markNotReady E schedule (libConstant E ''ReasonNotEvaluated'')
           (''Required metadata could not be persisted: '' @ errText e);
         return (schedule, Some e)
       }
     | None \<Rightarrow> (case sr_validate c schedule of
         Some e \<Rightarrow> do {
           schedule \<leftarrow> markInvalid E schedule e;
           schedule \<leftarrow> markNotReady E schedule (libConstant E ''ReasonInvalidSpec'')
             (''BackupSchedule spec is invalid: '' @ errText e);
           _ \<leftarrow> eventf EventTypeWarning (libConstant E ''InvalidScheduleEventReason'') ''ValidateBackupSchedule''
             (''BackupSchedule has an invalid schedule: '' @ errText e);
           return (schedule, None)
         }
       | None \<Rightarrow> do {
           schedule \<leftarrow> markAccepted E schedule;
           e \<leftarrow> cron_ensure (sr_cronJobs c) schedule;
           case e of
             Some e \<Rightarrow> do {
               schedule \<leftarrow> markNotReady E schedule (libConstant E ''ReasonSyncFailed'')
                 (''CronJob synchronization failed: '' @ errText e);
               return (schedule, Some e)
             }
           | None \<Rightarrow> do {
               schedule \<leftarrow> markReady E schedule;
               return (schedule, None)
             }
         })
   })"

definition finished :: "err option \<Rightarrow> reconcile_result" where
  "finished e = \<lparr>requeueAfter = 0, rerr = e\<rparr>"

definition reconcileSchedule :: "'s scheduleReconciler \<Rightarrow> key \<Rightarrow> ('s, reconcile_result) prog" where
  "reconcileSchedule c k = (let E = sr_client c in do {
     got \<leftarrow> getBackupSchedule E k;
     case got of
       Inl e \<Rightarrow> return (finished (if isNotFound e then None else Some (Api e)))
     | Inr schedule \<Rightarrow> (let original = schedule in
         if \<not> isZeroPtr (o_deletion schedule) then do {
           schedule \<leftarrow> markNotReady E schedule (libConstant E ''ReasonDeleting'') ''BackupSchedule is being deleted.'';
           (schedule, e) \<leftarrow> patchScheduleStatus E original schedule;
           case e of
             Some e \<Rightarrow> return (finished (Some e))
           | None \<Rightarrow> do {
               e \<leftarrow> reconcileDelete c schedule;
               return (finished e)
             }
         }
         else do {
           (schedule, reconcileErr) \<leftarrow> reconcileNormal c schedule;
           (_, e) \<leftarrow> patchScheduleStatus E original schedule;
           return (finished (if e \<noteq> None then e else reconcileErr))
         })
   })"

section \<open>The controller\<close>

text \<open>\<open>NewController\<close> and \<open>newReconciler\<close>; the pull policy is that of the stage (\<open>config.GetStagePullPolicy\<close>).\<close>

definition newScheduleReconciler :: "'s env \<Rightarrow> string \<Rightarrow> string \<Rightarrow> string list \<Rightarrow> 's scheduleReconciler" where
  "newScheduleReconciler E stagePullPolicy operatorImage imagePullSecrets = (let
     manager = \<lparr>cj_client = E, cj_operatorImage = operatorImage, cj_pullPolicy = stagePullPolicy,
       cj_pullSecrets = imagePullSecrets\<rparr>
     in \<lparr>sr_client = E,
        sr_metadata = \<lparr>mt_ensure = ensureScheduleMetadata E, mt_remove = removeScheduleMetadata E\<rparr>,
        sr_cronJobs = \<lparr>cron_ensure = ensureCronJob manager, cron_delete = deleteCronJob manager\<rparr>,
        sr_validate = validateSchedule E\<rparr>)"

section \<open>The operator image\<close>

definition OperatorAdditionalImagesConfigmapName :: string where
  "OperatorAdditionalImagesConfigmapName = ''k8s-backup-operator-additional-images''"

definition verifyImageTag :: "'s env \<Rightarrow> string \<Rightarrow> err option" where
  "verifyImageTag E imageTag = (case imageTagMatches E imageTag of
       Inl e \<Rightarrow> Some (Wrapf (''image tag validation of '' @ imageTag @ '' failed'') e)
     | Inr matched \<Rightarrow> if \<not> matched
         then Some (Errorf (''image tag '' @ sq imageTag @
           '' seems invalid (please compare it with the image tag specs)''))
         else None)"

definition ImageForKey :: "'s env \<Rightarrow> string \<Rightarrow> string \<Rightarrow> ('s, err + string) prog" where
  "ImageForKey E n k = do {
     got \<leftarrow> apiGet (configMaps E) OnConfigMap (n, OperatorAdditionalImagesConfigmapName);
     return (case got of
       Inl e \<Rightarrow> Inl (Wrapf (''error while getting configmap '' @ sq OperatorAdditionalImagesConfigmapName) (Api e))
     | Inr configMap \<Rightarrow> (let imageTag = (case cm_data configMap k of None \<Rightarrow> [] | Some t \<Rightarrow> t) in
         if imageTag = [] then Inl (Errorf (''image '' @ quote k @ '' in configmap '' @
           quote OperatorAdditionalImagesConfigmapName @ '' is empty''))
         else case verifyImageTag E imageTag of
           Some e \<Rightarrow> Inl (Wrapf (''configmap '' @ sq OperatorAdditionalImagesConfigmapName @
             '' contains an invalid image tag'') e)
         | None \<Rightarrow> Inr imageTag))
   }"

end
