(* ===== verification/ScheduleRules.thy ===== *)
theory ScheduleRules
  imports Schedule Effects Cluster
begin

text \<open>
  The contract between the schedule reconciler and its managers, what the reconciler guarantees on top of
  it, and the operator's managers as an interpretation.
\<close>

section \<open>Reading the log\<close>

text \<open>Calls that failed; deleting a CronJob that is already gone is no failure.\<close>

fun failedWrite :: "event \<Rightarrow> bool" where
  "failedWrite (OnSchedule (Patch b x (Inl e))) = True"
| "failedWrite (OnSchedule (PatchStatus b x (Inl e))) = True"
| "failedWrite (OnCronJob (Delete x d (Inl e))) = (\<not> isNotFound e)"
| "failedWrite (SyncCronJob x a) = (sy_error a \<noteq> None)"
| "failedWrite e = False"

fun failedRead :: "event \<Rightarrow> bool" where
  "failedRead (OnSchedule (Get k (Inl e))) = (\<not> isNotFound e)"
| "failedRead e = False"

fun cronJobGone :: "event \<Rightarrow> bool" where
  "cronJobGone (OnCronJob (Delete x d (Inr u))) = True"
| "cronJobGone (OnCronJob (Delete x d (Inl e))) = isNotFound e"
| "cronJobGone e = False"

fun synchronised :: "event \<Rightarrow> bool" where
  "synchronised (SyncCronJob x a) = (sy_error a = None)"
| "synchronised e = False"

fun writesOnly :: "(string \<Rightarrow> bool) \<Rightarrow> event \<Rightarrow> bool" where
  "writesOnly P (SyncCronJob x a) = (case sy_written a of None \<Rightarrow> True | Some y \<Rightarrow> P (cj_schedule y))"
| "writesOnly P e = True"

fun removesFinalizer :: "string \<Rightarrow> event \<Rightarrow> bool" where
  "removesFinalizer f (OnSchedule (Patch b x r)) = (f \<in> set (o_finalizers b) \<and> f \<notin> set (o_finalizers x))"
| "removesFinalizer f e = False"

definition statusOf :: "backup_schedule \<Rightarrow> cond_type \<Rightarrow> cond_status option" where
  "statusOf s t = map_option c_status (findCond (ss_conditions (bs_status s)) t)"

fun reportsReady :: "event \<Rightarrow> bool" where
  "reportsReady (OnSchedule (PatchStatus b x r)) = (statusOf x ConditionReady = Some ConditionTrue)"
| "reportsReady e = False"

text \<open>
  The schedule after its metadata was brought up to date: the answer of the first accepted patch, or the
  schedule as it was when nothing had to be patched.
\<close>

fun metadataAnswer :: "backup_schedule \<Rightarrow> event list \<Rightarrow> backup_schedule" where
  "metadataAnswer s (OnSchedule (Patch b x (Inr y)) # es) = y"
| "metadataAnswer s (e # es) = metadataAnswer s es"
| "metadataAnswer s [] = s"

text \<open>The status patches of a log: what they were computed from, and what they wrote.\<close>

fun scheduleStatusWrites :: "event list \<Rightarrow> (backup_schedule \<times> backup_schedule) list" where
  "scheduleStatusWrites (OnSchedule (PatchStatus b x r) # es) = (b, x) # scheduleStatusWrites es"
| "scheduleStatusWrites (e # es) = scheduleStatusWrites es"
| "scheduleStatusWrites [] = []"

lemma metadataAnswer_quiet [simp]:
  "\<not> list_ex (\<lambda>e. effectOf e = PatchesSchedule) es \<Longrightarrow> metadataAnswer s es = s"
  by (induction s es rule: metadataAnswer.induct) auto

lemma metadataAnswer_append:
  "\<not> list_ex (\<lambda>e. effectOf e = PatchesSchedule) es' \<Longrightarrow> metadataAnswer s (es @ es') = metadataAnswer s es"
  by (induction s es rule: metadataAnswer.induct) auto

lemma scheduleStatusWrites_append:
  "scheduleStatusWrites (es @ es') = scheduleStatusWrites es @ scheduleStatusWrites es'"
  by (induction es rule: scheduleStatusWrites.induct) auto

lemma scheduleStatusWrites_quiet:
  "\<not> list_ex (\<lambda>e. effectOf e = PatchesScheduleStatus) es \<Longrightarrow> scheduleStatusWrites es = []"
  by (induction es rule: scheduleStatusWrites.induct) auto

lemma failedWrite_effect: "failedWrite e \<Longrightarrow> effectOf e \<noteq> Observes"
  by (cases e rule: failedWrite.cases) auto

lemma reading_effects:
  "cronJobGone e \<Longrightarrow> effectOf e = DeletesCronJob"
  "synchronised e \<Longrightarrow> effectOf e = SyncsCronJob"
  "removesFinalizer f e \<Longrightarrow> effectOf e = PatchesSchedule"
  "reportsReady e \<Longrightarrow> effectOf e = PatchesScheduleStatus"
  "\<not> writesOnly P e \<Longrightarrow> effectOf e = SyncsCronJob"
  by (erule cronJobGone.elims synchronised.elims removesFinalizer.elims reportsReady.elims writesOnly.elims;
      simp)+

section \<open>The contract of the managers\<close>

text \<open>A call with the effects \<open>A\<close> that returns an error exactly when one of its writes failed (no read does).\<close>

definition answered :: "effect set \<Rightarrow> err option \<Rightarrow> event list \<Rightarrow> bool" where
  "answered A e es \<longleftrightarrow> within A es \<and> \<not> list_ex failedRead es \<and>
     (e = None \<longleftrightarrow> \<not> list_ex failedWrite es)"

text \<open>
  What reconciliation needs: \<open>ensure\<close> of the metadata only patches, answers the schedule it patched and
  never drops the finalizer, a
  CronJob is only written with the cron expression of the schedule, and deleting returns without error
  only once the CronJob is gone.
\<close>

locale schedule_managers =
  fixes c :: "'s scheduleReconciler"
  assumes metadata_ensure: "outcome (mt_ensure (sr_metadata c) s) (\<lambda>r es. answered {PatchesSchedule} (snd r) es)"
    and metadata_answer: "outcome (mt_ensure (sr_metadata c) s)
      (\<lambda>r es. snd r = None \<longrightarrow> fst r = metadataAnswer s es)"
    and metadata_keeps: "finalizer_laws (sr_client c) \<Longrightarrow> outcome (mt_ensure (sr_metadata c) s)
      (\<lambda>r es. \<not> list_ex (removesFinalizer (BackupScheduleFinalizer (sr_client c))) es)"
    and metadata_remove: "outcome (mt_remove (sr_metadata c) s) (\<lambda>r es. answered {PatchesSchedule} (snd r) es)"
    and cronjob_ensure: "outcome (cron_ensure (sr_cronJobs c) s)
      (\<lambda>e es. answered {SyncsCronJob} e es \<and> list_ex (\<lambda>e. effectOf e = SyncsCronJob) es)"
    and cronjob_written: "cronjob_laws (sr_client c) \<Longrightarrow> outcome (cron_ensure (sr_cronJobs c) s)
      (\<lambda>e es. list_all (writesOnly ((=) (bs_schedule s))) es)"
    and cronjob_delete: "outcome (cron_delete (sr_cronJobs c) s)
      (\<lambda>e es. answered {DeletesCronJob} e es \<and> (e = None \<longrightarrow> list_ex cronJobGone es))"

section \<open>The operator's managers\<close>

lemma newScheduleReconciler_simps [simp]:
  "sr_client (newScheduleReconciler E p i ss) = E"
  "mt_ensure (sr_metadata (newScheduleReconciler E p i ss)) = ensureScheduleMetadata E"
  "mt_remove (sr_metadata (newScheduleReconciler E p i ss)) = removeScheduleMetadata E"
  "cron_ensure (sr_cronJobs (newScheduleReconciler E p i ss)) = ensureCronJob \<lparr>cj_client = E,
     cj_operatorImage = i, cj_pullPolicy = p, cj_pullSecrets = ss\<rparr>"
  "cron_delete (sr_cronJobs (newScheduleReconciler E p i ss)) = deleteCronJob \<lparr>cj_client = E,
     cj_operatorImage = i, cj_pullPolicy = p, cj_pullSecrets = ss\<rparr>"
  "sr_validate (newScheduleReconciler E p i ss) = validateSchedule E"
  by (simp_all add: newScheduleReconciler_def Let_def)

lemma persistMetadata_outcome:
  "(\<And>r. Q (case r of Inl e \<Rightarrow> (x, Some (Api e)) | Inr s \<Rightarrow> (s, None)) [OnSchedule (Patch b x r)])
   \<Longrightarrow> outcome (persistMetadata E b x) Q"
  unfolding persistMetadata_def by (auto intro!: outcome_intro)

lemma ensureScheduleMetadata_outcome:
  "outcome (ensureScheduleMetadata E s) (\<lambda>r es. answered {PatchesSchedule} (snd r) es)"
  unfolding ensureScheduleMetadata_def Let_def answered_def
  by (auto intro!: outcome_return persistMetadata_outcome split: sum.splits prod.splits)

lemma addLabelsIfNecessary_unchanged:
  "addLabelsIfNecessary labels changed = (labels', False) \<Longrightarrow> labels' = labels \<and> \<not> changed"
  by (auto simp: addLabelsIfNecessary_def split: if_splits)

lemma ensureScheduleMetadata_answer:
  "outcome (ensureScheduleMetadata E s) (\<lambda>r es. snd r = None \<longrightarrow> fst r = metadataAnswer s es)"
  unfolding ensureScheduleMetadata_def Let_def
  by (auto intro!: outcome_return persistMetadata_outcome split: sum.splits prod.splits if_splits
      dest!: addLabelsIfNecessary_unchanged)

lemma ensureScheduleMetadata_keeps:
  "finalizer_laws E \<Longrightarrow> outcome (ensureScheduleMetadata E s)
     (\<lambda>r es. \<not> list_ex (removesFinalizer (BackupScheduleFinalizer E)) es)"
  unfolding ensureScheduleMetadata_def Let_def finalizer_laws_def
  by (auto intro!: outcome_return persistMetadata_outcome split: sum.splits prod.splits)

lemma removeScheduleMetadata_outcome:
  "outcome (removeScheduleMetadata E s) (\<lambda>r es. answered {PatchesSchedule} (snd r) es)"
  unfolding removeScheduleMetadata_def Let_def answered_def
  by (auto intro!: outcome_return persistMetadata_outcome split: sum.splits prod.splits)

lemma ensureCronJob_outcome:
  "outcome (ensureCronJob c s)
     (\<lambda>e es. answered {SyncsCronJob} e es \<and> list_ex (\<lambda>e. effectOf e = SyncsCronJob) es)"
  unfolding ensureCronJob_def Let_def answered_def
  by (auto intro!: outcome_intro split: option.splits operation_result.splits)

lemma newCronJob_key [simp]: "o_name (newCronJob E s) = cronJobName E s"
    "o_namespace (newCronJob E s) = o_namespace s"
  by (simp_all add: newCronJob_def newMeta_def obj_meta.defs)

lemma mutateCronJob_schedule: "mutateCronJob c s z = Inr y \<Longrightarrow> cj_schedule y = bs_schedule s"
  by (auto simp: mutateCronJob_def Let_def split: sum.splits)

lemma ensureCronJob_written:
  assumes "cronjob_laws (cj_client c)"
  shows "outcome (ensureCronJob c s) (\<lambda>e es. list_all (writesOnly ((=) (bs_schedule s))) es)"
  unfolding ensureCronJob_def Let_def
  by (rule outcome_bind, rule outcome_syncCronJob_law [OF assms])
    (auto simp: createOrPatch_answer_def dest: mutateCronJob_schedule [THEN sym] intro!: outcome_intro
      split: option.splits operation_result.splits)

lemma deleteCronJob_outcome:
  "outcome (deleteCronJob c s)
     (\<lambda>e es. answered {DeletesCronJob} e es \<and> (e = None \<longrightarrow> list_ex cronJobGone es))"
  unfolding deleteCronJob_def Let_def answered_def
  by (auto intro!: outcome_intro split: sum.splits)

interpretation default_schedule: schedule_managers "newScheduleReconciler E p i ss" for E p i ss
  by unfold_locales
    (simp_all add: ensureScheduleMetadata_outcome ensureScheduleMetadata_answer ensureScheduleMetadata_keeps removeScheduleMetadata_outcome
      ensureCronJob_outcome ensureCronJob_written deleteCronJob_outcome)

end
