(* ===== verification/ScheduleProperties.thy ===== *)
theory ScheduleProperties
  imports ScheduleRules
begin

text \<open>
  What the schedule reconciler guarantees: first from the contract of its managers alone (inside the
  locale), then for the operator's reconciler.
\<close>

section \<open>Conditions\<close>

lemma setScheduleCondition_outcome:
  "(\<And>cs. Q (s\<lparr>bs_status := (bs_status s)\<lparr>ss_conditions := cs\<rparr>\<rparr>) []) \<Longrightarrow> outcome (setScheduleCondition E s x) Q"
  unfolding setScheduleCondition_def by (auto intro!: outcome_intro)

definition statusSet :: "condition \<Rightarrow> backup_schedule \<Rightarrow> backup_schedule \<Rightarrow> bool" where
  "statusSet x s s' \<longleftrightarrow> bs_schedule s' = bs_schedule s \<and>
     statusOf s' = (statusOf s)(c_type x := Some (c_status x))"

lemma setScheduleCondition_law:
  assumes "meta_laws E" "\<And>s'. statusSet x s s' \<Longrightarrow> Q s' []"
  shows "outcome (setScheduleCondition E s x) Q"
  unfolding setScheduleCondition_def
  by (rule outcome_bind, rule outcome_setStatusCondition_law [OF assms(1)])
    (auto intro!: outcome_return assms(2) ext simp: statusSet_def statusOf_def findCond_upsert)

lemmas mark_defs = markAccepted_def markInvalid_def markAcceptanceNotEvaluated_def markReady_def markNotReady_def

text \<open>
  The conditions as a function of what happened and of the specification (\<open>V\<close>: it is valid): whether the
  metadata could be persisted, whether the specification the API server answered to that is valid, and
  whether the synchronisation failed.
\<close>

definition metadataFailed :: "event list \<Rightarrow> bool" where
  "metadataFailed es \<longleftrightarrow> list_ex (\<lambda>e. failedWrite e \<and> effectOf e = PatchesSchedule) es"

definition verdict :: "(backup_schedule \<Rightarrow> bool) \<Rightarrow> backup_schedule \<Rightarrow> event list
    \<Rightarrow> cond_status \<times> cond_status" where
  "verdict V s es =
     (if metadataFailed es then (ConditionUnknown, ConditionFalse)
      else if \<not> V (metadataAnswer s es) then (ConditionFalse, ConditionFalse)
      else if list_ex (\<lambda>e. failedWrite e \<and> effectOf e = SyncsCronJob) es then (ConditionTrue, ConditionFalse)
      else (ConditionTrue, ConditionTrue))"

text \<open>A synchronisation is started exactly for a valid specification whose metadata is persisted.\<close>

definition syncsIfValid :: "(backup_schedule \<Rightarrow> bool) \<Rightarrow> backup_schedule \<Rightarrow> event list \<Rightarrow> bool" where
  "syncsIfValid V s es \<longleftrightarrow>
     (list_ex (\<lambda>e. effectOf e = SyncsCronJob) es \<longleftrightarrow> \<not> metadataFailed es \<and> V (metadataAnswer s es))"

definition reports :: "backup_schedule \<Rightarrow> cond_status \<times> cond_status \<Rightarrow> bool" where
  "reports s v \<longleftrightarrow> statusOf s ConditionAccepted = Some (fst v) \<and> statusOf s ConditionReady = Some (snd v)"

lemma answered_effects:
  assumes "answered A e es" "B \<notin> A" "B \<noteq> Observes"
  shows "\<not> list_ex (\<lambda>e. effectOf e = B) es" "\<not> list_ex (\<lambda>e. failedWrite e \<and> effectOf e = B) es"
  using assms by (auto simp: answered_def within_def list_ex_iff)

lemma answered_failed:
  assumes "answered {B} e es"
  shows "list_ex (\<lambda>e. failedWrite e \<and> effectOf e = B) es \<longleftrightarrow> e \<noteq> None"
  using assms failedWrite_effect by (fastforce simp: answered_def within_def list_ex_iff)

lemma none_within:
  assumes "within A es" "\<And>e. P e \<Longrightarrow> effectOf e \<notin> A \<and> effectOf e \<noteq> Observes"
  shows "\<not> list_ex P es"
  using assms by (auto simp: within_def list_ex_iff)

lemma answered_none:
  "answered A e es \<Longrightarrow> (\<And>e. P e \<Longrightarrow> effectOf e \<notin> A \<and> effectOf e \<noteq> Observes) \<Longrightarrow> \<not> list_ex P es"
  unfolding answered_def using none_within by blast

lemma answered_preceded:
  "answered A e es \<Longrightarrow> (\<And>e. B e \<Longrightarrow> effectOf e \<notin> A \<and> effectOf e \<noteq> Observes) \<Longrightarrow> preceded G B es"
  using answered_none [of A e es B] by (auto simp: list_ex_iff intro: preceded_none)

lemma writesOnly_mono: "writesOnly P e \<Longrightarrow> (\<And>x. P x \<Longrightarrow> Q x) \<Longrightarrow> writesOnly Q e"
  by (cases "(P, e)" rule: writesOnly.cases) (auto split: option.splits)

lemma all_writesOnly_mono:
  "list_all (writesOnly P) es \<Longrightarrow> (\<And>x. P x \<Longrightarrow> Q x) \<Longrightarrow> list_all (writesOnly Q) es"
  by (erule list.pred_mono_strong) (erule writesOnly_mono)

lemma all_within:
  assumes "within A es" "\<And>e. \<not> P e \<Longrightarrow> effectOf e \<notin> A \<and> effectOf e \<noteq> Observes"
  shows "list_all P es"
  using assms by (auto simp: within_def list_all_iff)

lemma effectOf_sync: "effectOf e = SyncsCronJob \<Longrightarrow> \<not> failedWrite e \<Longrightarrow> synchronised e"
  by (cases e rule: effectOf.cases) (auto split: if_splits)

lemma verdict_ready:
  "snd (verdict V s es) = ConditionTrue \<Longrightarrow> syncsIfValid V s es \<Longrightarrow> list_ex synchronised es"
  by (auto simp: verdict_def syncsIfValid_def list_ex_iff dest: effectOf_sync split: if_splits)

text \<open>Patching the status at the end of a reconciliation changes nothing of that.\<close>

lemma verdict_statusPatch [simp]:
  "verdict V s (es @ [OnSchedule (PatchStatus b x r)]) = verdict V s es"
  "syncsIfValid V s (es @ [OnSchedule (PatchStatus b x r)]) \<longleftrightarrow> syncsIfValid V s es"
  by (simp_all add: verdict_def syncsIfValid_def metadataFailed_def metadataAnswer_append)

text \<open>
  What the status of a schedule is at the end: the one written, by a single patch computed from the
  schedule as it was read, or, when there was nothing to patch, the one it had.
\<close>

definition statusReported :: "(backup_schedule \<Rightarrow> bool) \<Rightarrow> backup_schedule \<Rightarrow> event list \<Rightarrow> bool" where
  "statusReported P s es \<longleftrightarrow> (case scheduleStatusWrites es of
     [] \<Rightarrow> P s
   | [(b, x)] \<Rightarrow> b = s \<and> P x
   | _ \<Rightarrow> False)"

fun scheduleReported :: "(backup_schedule \<Rightarrow> bool) \<Rightarrow> key \<Rightarrow> event list \<Rightarrow> bool" where
  "scheduleReported V k (OnSchedule (Get k' (Inr s)) # es) \<longleftrightarrow> k' = k \<and>
     (if isZeroPtr (o_deletion s)
      then syncsIfValid V s es \<and> statusReported (\<lambda>x. reports x (verdict V s es)) s es
      else statusReported (\<lambda>x. statusOf x ConditionReady = Some ConditionFalse) s es)"
| "scheduleReported V k (OnSchedule (Get k' (Inl e)) # es) \<longleftrightarrow> k' = k \<and> es = []"
| "scheduleReported V k es \<longleftrightarrow> False"

lemma metadataFailed_append [simp]: "metadataFailed (es @ es') \<longleftrightarrow> metadataFailed es \<or> metadataFailed es'"
  by (simp add: metadataFailed_def)

lemma answered_statusWrites: "answered A e es \<Longrightarrow> PatchesScheduleStatus \<notin> A \<Longrightarrow> scheduleStatusWrites es = []"
  by (rule scheduleStatusWrites_quiet) (erule answered_effects, simp_all)

section \<open>From the contract\<close>

abbreviation validFor :: "'s scheduleReconciler \<Rightarrow> backup_schedule \<Rightarrow> bool" where
  "validFor c s \<equiv> sr_validate c s = None"

context schedule_managers
begin

lemma normal_answered:
  "outcome (reconcileNormal c s) (\<lambda>r es. answered {PatchesSchedule, SyncsCronJob} (snd r) es)"
  unfolding reconcileNormal_def Let_def mark_defs
  by (intro outcome_call [OF metadata_ensure])
    (auto simp: answered_def list_ex_iff intro!: outcome_intro setScheduleCondition_outcome outcome_call [OF cronjob_ensure]
      elim: within_mono split: option.splits prod.splits)

lemma ensured:
  "outcome (mt_ensure (sr_metadata c) s) (\<lambda>r es. answered {PatchesSchedule} (snd r) es \<and>
     (metadataFailed es \<longleftrightarrow> snd r \<noteq> None) \<and> \<not> list_ex (\<lambda>e. effectOf e = SyncsCronJob) es \<and>
     \<not> list_ex (\<lambda>e. failedWrite e \<and> effectOf e = SyncsCronJob) es \<and>
     (snd r = None \<longrightarrow> metadataAnswer s es = fst r))"
  by (rule outcome_mono [OF outcome_conj [OF metadata_ensure metadata_answer]])
    (auto simp: metadataFailed_def answered_failed dest: answered_effects [where B = SyncsCronJob])

lemma synced:
  "outcome (cron_ensure (sr_cronJobs c) t) (\<lambda>e es. list_ex (\<lambda>e. effectOf e = SyncsCronJob) es \<and>
     \<not> metadataFailed es \<and> \<not> list_ex (\<lambda>e. effectOf e = PatchesSchedule) es \<and>
     (list_ex (\<lambda>e. failedWrite e \<and> effectOf e = SyncsCronJob) es \<longleftrightarrow> e \<noteq> None))"
  by (rule outcome_mono [OF cronjob_ensure])
    (auto simp: metadataFailed_def dest: answered_failed answered_effects [where B = PatchesSchedule])

lemma normal_verdict:
  assumes "meta_laws (sr_client c)"
  shows "outcome (reconcileNormal c s) (\<lambda>r es. reports (fst r) (verdict (validFor c) s es) \<and> syncsIfValid (validFor c) s es)"
  unfolding reconcileNormal_def Let_def mark_defs
proof (rule outcome_call [OF ensured], clarsimp, goal_cases)
  case (1 s' err es)
  then show ?case
    by (cases err; cases "sr_validate c s'")
      (auto simp: reports_def verdict_def syncsIfValid_def statusSet_def metadataAnswer_append metadataFailed_def
        intro!: outcome_intro setScheduleCondition_law [OF assms] outcome_call [OF synced] split: option.splits)
qed

lemma normal_written:
  assumes "cronjob_laws (sr_client c)"
  shows "outcome (reconcileNormal c s)
    (\<lambda>r es. list_all (writesOnly (\<lambda>x. \<exists>t. sr_validate c t = None \<and> bs_schedule t = x)) es)"
  (is "outcome _ (\<lambda>r es. list_all ?W es)")
  unfolding reconcileNormal_def Let_def mark_defs
proof (rule outcome_call [OF metadata_ensure], clarsimp, goal_cases)
  case (1 s' err es)
  then have es: "list_all ?W es"
    unfolding answered_def by (elim conjE all_within) (auto dest: reading_effects(5))
  show ?case
  proof (cases "sr_validate c s'")
    case None
    then have sync: "outcome (cron_ensure (sr_cronJobs c) (s'\<lparr>bs_status := u\<rparr>)) (\<lambda>e es'. list_all ?W es')" for u
      by (intro outcome_mono [OF cronjob_written [OF assms]]) (elim all_writesOnly_mono, auto)
    show ?thesis using es None
      by (auto intro!: outcome_intro setScheduleCondition_outcome outcome_call [OF sync] split: option.splits)
  next
    case (Some e)
    then show ?thesis using es
      by (auto intro!: outcome_intro setScheduleCondition_outcome split: option.splits)
  qed
qed

lemma delete_answered:
  "outcome (reconcileDelete c s) (\<lambda>e es. answered {DeletesCronJob, PatchesSchedule} e es)"
  unfolding reconcileDelete_def
  by (intro outcome_call [OF cronjob_delete])
    (auto simp: answered_def intro!: outcome_intro outcome_call [OF metadata_remove] elim: within_mono
      split: option.splits)

lemma delete_order:
  "outcome (reconcileDelete c s) (\<lambda>e es. preceded cronJobGone (removesFinalizer f) es)"
  unfolding reconcileDelete_def
proof (rule outcome_call [OF cronjob_delete], clarsimp, goal_cases)
  case (1 e es)
  from 1(1) have "preceded cronJobGone (removesFinalizer f) es"
    by (rule answered_preceded) (auto dest: reading_effects(3))
  with 1(2) show ?case
    by (auto simp: preceded_append list_ex_iff intro!: outcome_intro
        outcome_call [OF metadata_remove] split: option.splits)
qed

lemma normal_keeps:
  assumes "finalizer_laws (sr_client c)"
  shows "outcome (reconcileNormal c s)
    (\<lambda>r es. \<not> list_ex (removesFinalizer (BackupScheduleFinalizer (sr_client c))) es)"
  unfolding reconcileNormal_def Let_def mark_defs
proof (rule outcome_call [OF metadata_keeps [OF assms]], clarsimp, goal_cases)
  case (1 s' err es)
  have sync: "outcome (cron_ensure (sr_cronJobs c) t)
      (\<lambda>e es'. \<not> list_ex (removesFinalizer (BackupScheduleFinalizer (sr_client c))) es')" for t
    by (rule outcome_mono [OF cronjob_ensure])
      (erule conjE, erule answered_none, auto dest: reading_effects(3))
  show ?case
    using 1 by (auto intro!: outcome_intro setScheduleCondition_outcome outcome_call [OF sync] split: option.splits)
qed

text \<open>One reconciliation: the read, then deletion or the normal path around one status patch.\<close>

lemma patchScheduleStatus_outcome:
  assumes "bs_status b = bs_status s \<Longrightarrow> Q (s, None) []"
    and "\<And>e. bs_status b \<noteq> bs_status s \<Longrightarrow> Q (s, Some (Api e)) [OnSchedule (PatchStatus b s (Inl e))]"
    and "\<And>t. bs_status b \<noteq> bs_status s \<Longrightarrow> Q (t, None) [OnSchedule (PatchStatus b s (Inr t))]"
  shows "outcome (patchScheduleStatus E b s) Q"
  using assms unfolding patchScheduleStatus_def by (auto intro!: outcome_intro split: sum.splits)

lemma reconcile_answers:
  "outcome (reconcileSchedule c k) (\<lambda>res es. requeueAfter res = 0 \<and>
     (rerr res = None \<longleftrightarrow> \<not> list_ex (\<lambda>e. failedRead e \<or> failedWrite e) es))"
proof -
  have quiet: "list_ex (\<lambda>e. failedRead e \<or> failedWrite e) es \<longleftrightarrow> e \<noteq> None" if "answered A e es" for A e es
    using that by (auto simp: answered_def list_ex_iff)
  have delete: "outcome (reconcileDelete c s)
      (\<lambda>e es. list_ex (\<lambda>e. failedRead e \<or> failedWrite e) es \<longleftrightarrow> e \<noteq> None)" for s
    by (rule outcome_mono [OF delete_answered]) (rule quiet)
  have normal: "outcome (reconcileNormal c s)
      (\<lambda>r es. list_ex (\<lambda>e. failedRead e \<or> failedWrite e) es \<longleftrightarrow> snd r \<noteq> None)" for s
    by (rule outcome_mono [OF normal_answered]) (rule quiet)
  show ?thesis
    unfolding reconcileSchedule_def getBackupSchedule_def Let_def finished_def mark_defs
    by (auto intro!: outcome_intro setScheduleCondition_outcome patchScheduleStatus_outcome
        outcome_call [OF delete] outcome_call [OF normal] split: sum.splits)
qed

text \<open>Orders: \<open>Ready\<close> is reported after a synchronisation, the finalizer goes after the CronJob.\<close>

lemma reconcile_ready:
  assumes "meta_laws (sr_client c)"
  shows "outcome (reconcileSchedule c k) (\<lambda>res es. preceded synchronised reportsReady es)"
proof -
  have delete: "outcome (reconcileDelete c s) (\<lambda>e es. preceded synchronised reportsReady es)" for s
    by (rule outcome_mono [OF delete_answered], erule answered_preceded) (auto dest: reading_effects(4))
  have normal: "outcome (reconcileNormal c s) (\<lambda>r es. preceded synchronised reportsReady es \<and>
      (statusOf (fst r) ConditionReady = Some ConditionTrue \<longrightarrow> list_ex synchronised es))" for s
    by (rule outcome_mono [OF outcome_conj [OF normal_answered normal_verdict [OF assms]]])
      (auto simp: reports_def dest: reading_effects(4) verdict_ready elim!: answered_preceded)
  show ?thesis
    unfolding reconcileSchedule_def getBackupSchedule_def Let_def finished_def mark_defs
    by (auto intro!: outcome_intro setScheduleCondition_law [OF assms] patchScheduleStatus_outcome
        outcome_call [OF delete] outcome_call [OF normal] simp: preceded_append statusSet_def list_ex_iff
        split: sum.splits)
qed

text \<open>What the status says at the end.\<close>

lemma reconcile_reports:
  assumes "meta_laws (sr_client c)"
  shows "outcome (reconcileSchedule c k) (\<lambda>res es. scheduleReported (validFor c) k es)"
proof -
  have delete: "outcome (reconcileDelete c s) (\<lambda>e es. scheduleStatusWrites es = [])" for s
    by (rule outcome_mono [OF delete_answered]) (auto dest: answered_statusWrites)
  have normal: "outcome (reconcileNormal c s) (\<lambda>r es. scheduleStatusWrites es = [] \<and>
      reports (fst r) (verdict (validFor c) s es) \<and> syncsIfValid (validFor c) s es)" for s
    by (rule outcome_mono [OF outcome_conj [OF normal_answered normal_verdict [OF assms]]])
      (auto dest: answered_statusWrites)
  have same: "bs_status a = bs_status b \<Longrightarrow> statusOf a = statusOf b" for a b
    by (auto simp: statusOf_def)
  have upd: "f = f(k := v) \<longleftrightarrow> f k = v" for f :: "cond_type \<rightharpoonup> cond_status" and k v
    by (metis fun_upd_idem_iff)
  show ?thesis
    unfolding reconcileSchedule_def getBackupSchedule_def Let_def finished_def mark_defs
    by (auto intro!: outcome_intro setScheduleCondition_law [OF assms] patchScheduleStatus_outcome
        outcome_call [OF delete] outcome_call [OF normal] dest!: same
        simp: upd statusReported_def scheduleStatusWrites_append statusSet_def reports_def split: sum.splits)
qed

lemma reconcile_order:
  assumes "finalizer_laws (sr_client c)"
  shows "outcome (reconcileSchedule c k)
    (\<lambda>res es. preceded cronJobGone (removesFinalizer (BackupScheduleFinalizer (sr_client c))) es)"
    (is "outcome _ (\<lambda>res es. preceded _ ?B es)")
proof -
  have normal: "outcome (reconcileNormal c s) (\<lambda>r es. preceded cronJobGone ?B es)" for s
    by (rule outcome_mono [OF normal_keeps [OF assms]]) (auto simp: list_ex_iff intro: preceded_none)
  show ?thesis
    unfolding reconcileSchedule_def getBackupSchedule_def Let_def finished_def mark_defs
    by (auto intro!: outcome_intro setScheduleCondition_outcome patchScheduleStatus_outcome
        outcome_call [OF delete_order] outcome_call [OF normal] simp: preceded_append split: sum.splits)
qed

text \<open>A CronJob is only ever written with a cron expression the validator accepts.\<close>

lemma reconcile_written:
  assumes "cronjob_laws (sr_client c)"
  shows "outcome (reconcileSchedule c k)
    (\<lambda>res es. list_all (writesOnly (\<lambda>x. \<exists>t. sr_validate c t = None \<and> bs_schedule t = x)) es)"
    (is "outcome _ (\<lambda>res es. list_all ?W es)")
proof -
  have delete: "outcome (reconcileDelete c s) (\<lambda>e es. list_all ?W es)" for s
    by (rule outcome_mono [OF delete_answered])
      (auto simp: answered_def dest: reading_effects(5) elim!: all_within)
  show ?thesis
    unfolding reconcileSchedule_def getBackupSchedule_def Let_def finished_def mark_defs
    by (auto intro!: outcome_intro setScheduleCondition_outcome patchScheduleStatus_outcome
        outcome_call [OF delete] outcome_call [OF normal_written [OF assms]] split: sum.splits)
qed

end

section \<open>A schedule in a concrete cluster\<close>

definition demoSchedule :: backup_schedule where
  "demoSchedule = obj_meta.extend ((newMeta ''ns'' ''daily'')\<lparr>o_uid := ''u1''\<rparr>)
     \<lparr>bs_schedule = ''0 2 * * *'', bs_provider = ''velero'',
      bs_status = \<lparr>ss_conditions = [], ss_rest = []\<rparr>\<rparr>"

definition deletedSchedule :: backup_schedule where
  "deletedSchedule = demoSchedule\<lparr>o_finalizers := [libConstant clusterEnv ''BackupScheduleFinalizer''],
     o_deletion := Some 1\<rparr>"

definition scheduleWorld :: "backup_schedule \<Rightarrow> (cluster, event) world" where
  "scheduleWorld s = \<lparr>outside = (emptyCluster 1)\<lparr>cl_schedules := [((''ns'', ''daily''), s)]\<rparr>, log = []\<rparr>"

abbreviation demoScheduleReconciler :: "cluster scheduleReconciler" where
  "demoScheduleReconciler \<equiv> newScheduleReconciler clusterEnv ''IfNotPresent'' ''operator:1'' [''secret'']"

definition demoManager :: "cluster cronJobManager" where
  "demoManager = \<lparr>cj_client = clusterEnv, cj_operatorImage = ''operator:1'', cj_pullPolicy = ''IfNotPresent'',
     cj_pullSecrets = []\<rparr>"

lemmas schedule_run = result_def events_def run_simps reconcileSchedule_def reconcileNormal_def reconcileDelete_def
  newScheduleReconciler_def getBackupSchedule_def ensureScheduleMetadata_def removeScheduleMetadata_def persistMetadata_def
  addLabelsIfNecessary_def validateSchedule_def ensureCronJob_def deleteCronJob_def patchScheduleStatus_def mark_defs
  setScheduleCondition_def setStatusCondition_def newCronJob_def mutateCronJob_def syncCronJob_def eventf_def finished_def
  apiGet_def apiPatch_def apiPatchStatus_def apiDelete_def clusterEnv_def clusterSync_def clusterOwner_def
  tableResource_def store_def obj_meta.defs newMeta_def emptyCluster_def scheduleWorld_def

lemma demo_schedule_run:
  "list_ex reportsReady (events (reconcileSchedule demoScheduleReconciler (''ns'', ''daily'')) (scheduleWorld demoSchedule))"
  "list_ex (removesFinalizer (BackupScheduleFinalizer clusterEnv))
     (events (reconcileSchedule demoScheduleReconciler (''ns'', ''daily'')) (scheduleWorld deletedSchedule))"
  by (simp_all add: schedule_run demoSchedule_def deletedSchedule_def statusOf_def findCond_def Let_def
      cong: bind_cong_weak del: run_state_bind)

section \<open>Properties\<close>

text \<open>
  C33: A reconciliation of a backup schedule never asks for a requeue of its own, and it returns an error
  exactly when one of its calls failed; a schedule or CronJob that does not exist is no failure, and
  neither is an invalid specification.
\<close>

theorem schedule_error_exact:
  "outcome (reconcileSchedule (newScheduleReconciler E policy img secrets) k) (\<lambda>res es. requeueAfter res = 0 \<and>
     (rerr res = None \<longleftrightarrow> \<not> list_ex (\<lambda>e. failedRead e \<or> failedWrite e) es))"
  by (rule default_schedule.reconcile_answers)

text \<open>
  C20: A backup schedule is only reported as \<open>Ready\<close> after its CronJob was synchronised without error in
  the same reconciliation, whatever its conditions were before.
\<close>

theorem schedule_ready_after_sync:
  assumes "meta_laws E"
  shows "outcome (reconcileSchedule (newScheduleReconciler E policy img secrets) k)
    (\<lambda>res es. preceded synchronised reportsReady es)"
  using default_schedule.reconcile_ready [where E = E] assms by simp

theorem schedule_ready_after_sync_witness:
  "preceded synchronised reportsReady
     (events (reconcileSchedule demoScheduleReconciler (''ns'', ''daily'')) (scheduleWorld demoSchedule)) \<and>
   list_ex reportsReady (events (reconcileSchedule demoScheduleReconciler (''ns'', ''daily'')) (scheduleWorld demoSchedule))"
  using outcomeD [OF schedule_ready_after_sync [OF clusterEnv_meta]] demo_schedule_run(1) by blast

text \<open>
  C19: The finalizer of a backup schedule is only removed after the deletion of its CronJob was accepted or
  the CronJob was found to be gone.
\<close>

theorem schedule_finalizer_after_cronjob:
  assumes "finalizer_laws E"
  shows "outcome (reconcileSchedule (newScheduleReconciler E policy img secrets) k)
    (\<lambda>res es. preceded cronJobGone (removesFinalizer (BackupScheduleFinalizer E)) es)"
  using default_schedule.reconcile_order [where E = E] assms by simp

theorem schedule_finalizer_after_cronjob_witness:
  "preceded cronJobGone (removesFinalizer (BackupScheduleFinalizer clusterEnv))
     (events (reconcileSchedule demoScheduleReconciler (''ns'', ''daily'')) (scheduleWorld deletedSchedule)) \<and>
   list_ex (removesFinalizer (BackupScheduleFinalizer clusterEnv))
     (events (reconcileSchedule demoScheduleReconciler (''ns'', ''daily'')) (scheduleWorld deletedSchedule))"
  using outcomeD [OF schedule_finalizer_after_cronjob [OF clusterEnv_finalizers]] demo_schedule_run(2) by blast

text \<open>
  C21: No CronJob is ever written with an empty cron expression or with one the cron parser rejects.
\<close>

theorem cronjob_never_invalid:
  assumes "cronjob_laws E"
  shows "outcome (reconcileSchedule (newScheduleReconciler E policy img secrets) k)
    (\<lambda>res es. list_all (writesOnly (\<lambda>cron. cron \<noteq> [] \<and> parseStandard E cron = None)) es)"
  by (rule outcome_mono [OF default_schedule.reconcile_written], simp add: assms, erule all_writesOnly_mono)
    (auto simp: validateSchedule_def split: if_splits option.splits)

theorem cronjob_never_invalid_witness:
  "list_all (writesOnly (\<lambda>cron. cron \<noteq> [] \<and> parseStandard clusterEnv cron = None))
     (events (reconcileSchedule demoScheduleReconciler (''ns'', ''daily'')) (scheduleWorld demoSchedule))"
  using outcomeD [OF cronjob_never_invalid [OF clusterEnv_cronjobs]] by blast

definition validCron :: "'s env \<Rightarrow> backup_schedule \<Rightarrow> bool" where
  "validCron E s \<longleftrightarrow> bs_schedule s \<noteq> [] \<and> parseStandard E (bs_schedule s) = None"

text \<open>
  C32: A reconciliation of a backup schedule leaves the conditions \<open>Accepted\<close> and \<open>Ready\<close> in the cluster as
  what happened and its specification say: unknown and false when the metadata could not be persisted,
  both false when the specification is invalid (an empty cron expression, or one the parser rejects),
  accepted but not ready when the synchronisation failed, and both true otherwise. They are written by
  at most one status patch computed from the schedule as read, and by none only when they were so
  already. A synchronisation is started exactly for a valid specification with its metadata persisted.
  A schedule being deleted is reported as not ready.
\<close>

theorem schedule_verdict:
  assumes "meta_laws E"
  shows "outcome (reconcileSchedule (newScheduleReconciler E policy img secrets) k)
    (\<lambda>res es. scheduleReported (validCron E) k es)"
proof -
  have "(validateSchedule E s = None) = validCron E s" for s
    by (simp add: validateSchedule_def validCron_def split: option.splits)
  then show ?thesis
    using default_schedule.reconcile_reports [where E = E] assms by simp
qed

theorem schedule_verdict_witness:
  "scheduleReported (validCron clusterEnv) (''ns'', ''daily'')
     (events (reconcileSchedule demoScheduleReconciler (''ns'', ''daily'')) (scheduleWorld demoSchedule)) \<and>
   list_ex reportsReady (events (reconcileSchedule demoScheduleReconciler (''ns'', ''daily'')) (scheduleWorld demoSchedule))"
  using outcomeD [OF schedule_verdict [OF clusterEnv_meta]] demo_schedule_run(1) by blast

text \<open>A synchronisation that finds the CronJob \<open>y\<close> leaves it alone.\<close>

definition leavesAlone :: "cron_job \<Rightarrow> err option \<Rightarrow> event list \<Rightarrow> bool" where
  "leavesAlone y err es \<longleftrightarrow> (\<exists>x a ns. es = SyncCronJob x a # ns \<and>
     (sy_found a = Some y \<longrightarrow> sy_written a = None \<and> (err = None \<longrightarrow> ns = [])))"

text \<open>What the mutate function computes, with the pod template \<open>t\<close> in one place.\<close>

definition templateOf :: "'s cronJobManager \<Rightarrow> backup_schedule \<Rightarrow> pod_template" where
  "templateOf m s = (let t = cronJobPodTemplate (cj_client m) s (cj_operatorImage m) (cj_pullPolicy m)
     in if cj_pullSecrets m \<noteq> [] then t\<lparr>pt_imagePullSecrets := cj_pullSecrets m\<rparr> else t)"

lemma mutateCronJob_Inr:
  "mutateCronJob m s z = Inr y \<longleftrightarrow>
     (\<exists>os. setControllerReference (cj_client m) s (z\<lparr>o_labels := o_labels z ++ map_of cronJobLabels\<rparr>) = Inr os \<and>
       y = z\<lparr>o_labels := o_labels z ++ map_of cronJobLabels, o_owners := os, cj_schedule := bs_schedule s,
         cj_podTemplate := templateOf m s\<rparr>)"
  unfolding mutateCronJob_def templateOf_def Let_def by (auto split: sum.splits)

lemma map_add_twice: "m ++ n ++ n = m ++ n"
  by (rule ext) (simp add: map_add_def split: option.splits)

lemma owner_laws_set:
  "owner_laws E \<Longrightarrow> setControllerReference E s c = Inr os \<Longrightarrow>
     list_ex (\<lambda>r. ow_controller r \<and> ow_uid r = o_uid s \<and> ow_name r = o_name s) os"
  unfolding owner_laws_def list_ex_iff by metis

lemma owner_laws_again:
  "owner_laws E \<Longrightarrow> setControllerReference E s c = Inr os \<Longrightarrow> o_owners c' = os \<Longrightarrow> keyOf c' = keyOf c \<Longrightarrow>
     setControllerReference E s c' = Inr os"
  unfolding owner_laws_def by metis

lemma mutateCronJob_idem:
  assumes "owner_laws (cj_client m)" "mutateCronJob m s z = Inr y"
  shows "mutateCronJob m s y = Inr y"
proof -
  from assms(2) obtain os where owners: "setControllerReference (cj_client m) s
      (z\<lparr>o_labels := o_labels z ++ map_of cronJobLabels\<rparr>) = Inr os"
    and y: "y = z\<lparr>o_labels := o_labels z ++ map_of cronJobLabels, o_owners := os, cj_schedule := bs_schedule s,
         cj_podTemplate := templateOf m s\<rparr>"
    unfolding mutateCronJob_Inr by blast
  have "setControllerReference (cj_client m) s y = Inr os"
    by (rule owner_laws_again [OF assms(1) owners]) (simp_all add: y)
  moreover have "y\<lparr>o_labels := o_labels y ++ map_of cronJobLabels\<rparr> = y"
    by (rule cron_job.equality) (simp_all add: y map_add_twice)
  moreover have "y = y\<lparr>o_owners := os, cj_schedule := bs_schedule s, cj_podTemplate := templateOf m s\<rparr>"
    by (rule cron_job.equality) (simp_all add: y)
  ultimately show ?thesis unfolding mutateCronJob_Inr by metis
qed

lemma createOrPatch_settled:
  "createOrPatch_answer x f a \<Longrightarrow> f y = Inr y \<Longrightarrow> sy_found a = Some y \<Longrightarrow>
     sy_written a = None \<and> (sy_error a = None \<longrightarrow> sy_operation a = OperationResultNone)"
  by (cases "sy_written a") (auto simp: createOrPatch_answer_def)

text \<open>
  Synchronising converges after one write: the CronJob the operator writes carries the default labels
  beside foreign ones, the schedule as a controller among its owners and the cron expression of the
  schedule, and keeps everything else it had; a further synchronisation that finds it writes nothing and
  records no event.
\<close>

theorem cronjob_converges:
  assumes "cronjob_laws (cj_client m)" "owner_laws (cj_client m)" "mutateCronJob m s z = Inr y"
  shows "outcome (ensureCronJob m s) (\<lambda>err es. leavesAlone y err es) \<and>
    o_labels y = o_labels z ++ map_of cronJobLabels \<and> cj_schedule y = bs_schedule s \<and>
    list_ex (\<lambda>r. ow_controller r \<and> ow_uid r = o_uid s \<and> ow_name r = o_name s) (o_owners y) \<and>
    (o_annotations y, o_finalizers y, keyOf y, cj_rest y) = (o_annotations z, o_finalizers z, keyOf z, cj_rest z)"
proof -
  have idem: "mutateCronJob m s y = Inr y" by (rule mutateCronJob_idem [OF assms(2,3)])
  have "outcome (ensureCronJob m s) (\<lambda>err es. leavesAlone y err es)"
    unfolding ensureCronJob_def Let_def
  proof (rule outcome_bind, rule outcome_syncCronJob_law [OF assms(1)], goal_cases)
    case (1 a)
    note settled = createOrPatch_settled [OF 1 idem]
    show ?case using settled
      by (cases "sy_error a"; cases "sy_operation a"; simp add: leavesAlone_def)
        (auto intro!: outcome_intro simp: leavesAlone_def)
  qed
  moreover from assms(3) obtain os where owners: "setControllerReference (cj_client m) s
      (z\<lparr>o_labels := o_labels z ++ map_of cronJobLabels\<rparr>) = Inr os"
    and y: "y = z\<lparr>o_labels := o_labels z ++ map_of cronJobLabels, o_owners := os, cj_schedule := bs_schedule s,
         cj_podTemplate := templateOf m s\<rparr>"
    unfolding mutateCronJob_Inr by blast
  moreover note owner_laws_set [OF assms(2) owners]
  ultimately show ?thesis by simp
qed

theorem cronjob_converges_witness:
  "leavesAlone (projr (mutateCronJob demoManager demoSchedule (newCronJob clusterEnv demoSchedule)))
     (result (ensureCronJob demoManager demoSchedule) (scheduleWorld demoSchedule))
     (events (ensureCronJob demoManager demoSchedule) (scheduleWorld demoSchedule)) \<and>
   o_labels (projr (mutateCronJob demoManager demoSchedule (newCronJob clusterEnv demoSchedule))) ''app'' = Some ''ces''"
proof -
  have laws: "cronjob_laws (cj_client demoManager)" "owner_laws (cj_client demoManager)"
    by (simp_all add: demoManager_def clusterEnv_cronjobs clusterEnv_owners)
  have "\<exists>y. mutateCronJob demoManager demoSchedule (newCronJob clusterEnv demoSchedule) = Inr y"
    by (simp add: schedule_run demoSchedule_def demoManager_def Let_def)
  then obtain y where y: "mutateCronJob demoManager demoSchedule (newCronJob clusterEnv demoSchedule) = Inr y" by blast
  have "map_of cronJobLabels ''app'' = Some ''ces''" by (simp add: cronJobLabels_def)
  with cronjob_converges [OF laws y] show ?thesis
    by (auto simp: y dest: outcomeD)
qed

end
