(* ===== verification/ClusterSteps.thy ===== *)
theory ClusterSteps
  imports Cluster
begin

text \<open>
  Running programs in the in-memory cluster: \<open>steps m c a c' es\<close> says that \<open>m\<close>, started in the cluster \<open>c\<close>,
  answers \<open>a\<close>, leaves the cluster \<open>c'\<close> and appends \<open>es\<close>, whatever was logged before, with rules that follow
  the program, as those of a big-step semantics; \<open>wp\<close> computes what a run establishes where the events do
  not matter.
\<close>

section \<open>Steps of a program in a cluster\<close>

definition steps :: "('s, 'e, 'a) io \<Rightarrow> 's \<Rightarrow> 'a \<Rightarrow> 's \<Rightarrow> 'e list \<Rightarrow> bool" where
  "steps m c a c' es \<longleftrightarrow> (\<forall>l. run_state m \<lparr>outside = c, log = l\<rparr> = (a, \<lparr>outside = c', log = l @ es\<rparr>))"

lemma steps_return: "steps (return a) c a c []"
  by (simp add: steps_def)

lemma steps_bind: "steps m c a c' es \<Longrightarrow> steps (f a) c' b c'' es' \<Longrightarrow> steps (State_Monad.bind m f) c b c'' (es @ es')"
  by (simp add: steps_def run_bind del: run_state_bind)

lemma steps_query: "f c = (r, c') \<Longrightarrow> steps (query f ev) c r c' [ev r]"
  by (simp add: steps_def query_def)

lemma steps_ask: "f c = (r, c') \<Longrightarrow> steps (ask f) c r c' []"
  by (simp add: steps_def ask_def)

lemma steps_emit: "steps (emit e) c () c [e]"
  by (simp add: steps_def emit_def)

lemma steps_result:
  assumes "steps m c a c' es"
  shows "result m \<lparr>outside = c, log = l\<rparr> = a" "events m \<lparr>outside = c, log = l\<rparr> = es"
    "outside (snd (run_state m \<lparr>outside = c, log = l\<rparr>)) = c'"
  using assms by (simp_all add: steps_def result_def events_def)

lemma steps_events: "steps m c a c' es \<Longrightarrow> events m \<lparr>outside = c, log = l\<rparr> = es"
  by (rule steps_result)

section \<open>Tables\<close>

lemma map_of_filter_key: "map_of (filter (\<lambda>(k', _). k' \<noteq> k) t) q = (if q = k then None else map_of t q)"
  by (induction t) auto

lemma lookup_stored [simp]: "map_of (store k x t) q = (if q = k then Some x else map_of t q)"
  by (auto simp: store_def map_of_filter_key)

section \<open>Weakest preconditions\<close>

text \<open>What holds after a run, computed backwards through the program; used where the events do not matter.\<close>

definition wp :: "('s, 'e, 'a) io \<Rightarrow> ('a \<Rightarrow> ('s, 'e) world \<Rightarrow> bool) \<Rightarrow> ('s, 'e) world \<Rightarrow> bool" where
  "wp m Q w \<longleftrightarrow> (case run_state m w of (a, w') \<Rightarrow> Q a w')"

named_theorems wp_simps \<open>equations that push a postcondition through a program\<close>

lemma wp_return [wp_simps]: "wp (return a) Q w \<longleftrightarrow> Q a w"
  by (simp add: wp_def)

lemma wp_bind [wp_simps]: "wp (State_Monad.bind m f) Q w \<longleftrightarrow> wp m (\<lambda>a. wp (f a) Q) w"
  by (simp add: wp_def split: prod.splits)

lemma wp_query: "wp (query f ev) Q w \<longleftrightarrow>
    (case f (outside w) of (r, s) \<Rightarrow> Q r (w\<lparr>outside := s, log := log w @ [ev r]\<rparr>))"
  by (simp add: wp_def query_def split: prod.splits)

lemma wp_ask: "wp (ask f) Q w \<longleftrightarrow> (case f (outside w) of (r, s) \<Rightarrow> Q r (w\<lparr>outside := s\<rparr>))"
  by (simp add: wp_def ask_def split: prod.splits)

lemma wp_emit: "wp (emit e) Q w \<longleftrightarrow> Q () (w\<lparr>log := log w @ [e]\<rparr>)"
  by (simp add: wp_def emit_def)

lemma wp_conseq: "wp m Q w \<Longrightarrow> (\<And>a w'. Q a w' \<Longrightarrow> R a w') \<Longrightarrow> wp m R w"
  by (auto simp: wp_def split: prod.splits)

lemma wp_call:
  assumes "wp m Q w" "\<And>a w'. Q a w' \<Longrightarrow> wp (f a) R w'"
  shows "wp (State_Monad.bind m f) R w"
  unfolding wp_bind by (rule wp_conseq [OF assms])

text \<open>A loop over effects that leave the outside alone.\<close>

lemma wp_for_each:
  assumes "\<And>x w Q. wp (f x) Q w \<longleftrightarrow> (\<exists>l. Q () (w\<lparr>log := l\<rparr>) \<and> l = log w @ g x)"
  shows "wp (for_each f xs) (\<lambda>_ w'. outside w' = outside w) w"
proof (induction xs arbitrary: w)
  case Nil
  show ?case by (simp add: wp_return)
next
  case (Cons x xs)
  from Cons.IH [of "w\<lparr>log := log w @ g x\<rparr>"] show ?case
    by (simp add: wp_bind assms)
qed

lemma wp_result: "wp m Q w \<Longrightarrow> Q (result m w) (snd (run_state m w))"
  by (simp add: wp_def result_def split: prod.splits)

end
