(* ===== verification/ScheduleConvergence.thy ===== *)
theory ScheduleConvergence
  imports ScheduleProperties ClusterSteps
begin

text \<open>
  The control loop of a backup schedule comes to rest. Every write to a schedule or its CronJob triggers
  another reconciliation (the controller watches both), so the loop ends only because a reconciliation that
  finds everything as it left it writes nothing. This is shown on the in-memory cluster, for every content
  of it.
\<close>

section \<open>Conditions that are set already\<close>

lemma upsertCond_again:
  "findCond cs (c_type x) = Some (x\<lparr>c_transition := t\<rparr>) \<Longrightarrow> upsertCond u cs x = cs"
  by (induction cs) (auto simp: findCond_def)

definition carries :: "backup_schedule \<Rightarrow> condition \<Rightarrow> bool" where
  "carries s x \<longleftrightarrow> (\<exists>t. findCond (ss_conditions (bs_status s)) (c_type x) = Some (x\<lparr>c_transition := t\<rparr>))"

definition acceptedCondition :: condition where
  "acceptedCondition = newCondition ConditionAccepted ConditionTrue ''ReasonValidSpec'' ''Backup schedule accepted''"

definition readyCondition :: condition where
  "readyCondition = newCondition ConditionReady ConditionTrue ''ReasonReady'' ''BackupSchedule is ready.''"

definition withCondition :: "instant \<Rightarrow> condition \<Rightarrow> backup_schedule \<Rightarrow> backup_schedule" where
  "withCondition u x s = s\<lparr>bs_status := (bs_status s)\<lparr>ss_conditions := upsertCond u (ss_conditions (bs_status s)) x\<rparr>\<rparr>"

lemma withCondition_again: "carries s x \<Longrightarrow> withCondition u x s = s"
  by (auto simp: carries_def withCondition_def upsertCond_again)

lemma carries_set: "carries (withCondition u x s) x"
  by (auto simp: carries_def withCondition_def findCond_upsert)

lemma carries_other: "c_type y \<noteq> c_type x \<Longrightarrow> carries (withCondition u x s) y \<longleftrightarrow> carries s y"
  by (simp add: carries_def withCondition_def)

lemma withCondition_simps [simp]:
  "o_name (withCondition u x s) = o_name s" "o_namespace (withCondition u x s) = o_namespace s"
  "o_uid (withCondition u x s) = o_uid s" "o_finalizers (withCondition u x s) = o_finalizers s"
  "o_labels (withCondition u x s) = o_labels s" "o_deletion (withCondition u x s) = o_deletion s"
  "bs_schedule (withCondition u x s) = bs_schedule s"
  by (simp_all add: withCondition_def)

section \<open>The steps of the in-memory cluster\<close>

lemma clusterEnv_simps [simp]:
  "libConstant clusterEnv n = n"
  "schedules clusterEnv = tableResource cl_schedules (\<lambda>t s. s\<lparr>cl_schedules := t\<rparr>)"
  "setStatusConditionAt clusterEnv cs x c = (upsertCond (cl_now c) cs x, c)"
  "containsFinalizer clusterEnv fs f \<longleftrightarrow> f \<in> set fs"
  "addFinalizer clusterEnv fs f = (if f \<in> set fs then (fs, False) else (fs @ [f], True))"
  "createOrPatch clusterEnv = clusterSync" "setControllerReference clusterEnv = clusterOwner"
  "cronJobName clusterEnv s = ''backup-schedule-'' @ o_name s"
  by (simp_all add: clusterEnv_def)

lemma steps_setCondition:
  "steps (setScheduleCondition clusterEnv s x) c (withCondition (cl_now c) x s) c []"
proof -
  have "steps (setStatusCondition clusterEnv (ss_conditions (bs_status s)) x) c
      (upsertCond (cl_now c) (ss_conditions (bs_status s)) x) c []"
    unfolding setStatusCondition_def by (rule steps_ask) simp
  from steps_bind [OF this steps_return] show ?thesis
    unfolding setScheduleCondition_def withCondition_def by simp
qed

lemma steps_persistMetadata:
  "map_of (cl_schedules c) (keyOf x) \<noteq> None \<Longrightarrow>
     steps (persistMetadata clusterEnv b x) c (x, None)
       (c\<lparr>cl_schedules := store (keyOf x) x (cl_schedules c)\<rparr>) [OnSchedule (Patch b x (Inr x))]"
  by (auto simp: steps_def persistMetadata_def apiPatch_def run_simps tableResource_def Let_def
      simp del: run_state_bind split: option.splits)

definition prepared :: "backup_schedule \<Rightarrow> bool" where
  "prepared s \<longleftrightarrow> ''BackupScheduleFinalizer'' \<in> set (o_finalizers s) \<and> o_labels s ''app'' = Some ''ces'' \<and>
     o_labels s ''k8s.cloudogu.com/part-of'' = Some ''backup''"

lemma steps_metadata_again:
  "prepared s \<Longrightarrow> steps (ensureScheduleMetadata clusterEnv s) c (s, None) c []"
  by (simp add: prepared_def ensureScheduleMetadata_def addLabelsIfNecessary_def steps_return)

text \<open>The schedule with its metadata in place.\<close>

definition withMetadata :: "backup_schedule \<Rightarrow> backup_schedule" where
  "withMetadata s = s\<lparr>o_finalizers := fst (addFinalizer clusterEnv (o_finalizers s) ''BackupScheduleFinalizer''),
     o_labels := (o_labels s)(''app'' \<mapsto> ''ces'', ''k8s.cloudogu.com/part-of'' \<mapsto> ''backup'')\<rparr>"

lemma withMetadata_simps [simp]:
  "o_name (withMetadata s) = o_name s" "o_namespace (withMetadata s) = o_namespace s"
  "o_uid (withMetadata s) = o_uid s" "o_deletion (withMetadata s) = o_deletion s"
  "bs_schedule (withMetadata s) = bs_schedule s" "bs_status (withMetadata s) = bs_status s"
  "prepared (withMetadata s)"
  by (simp_all add: withMetadata_def prepared_def)

lemma prepared_withCondition [simp]: "prepared (withCondition u x s) \<longleftrightarrow> prepared s"
  by (simp add: prepared_def)

lemma condition_types [simp]: "c_type acceptedCondition = ConditionAccepted" "c_type readyCondition = ConditionReady"
  by (simp_all add: acceptedCondition_def readyCondition_def)

lemma withMetadata_prepared: "prepared s \<Longrightarrow> withMetadata s = s"
  by (auto simp: prepared_def withMetadata_def map_add_upd_eq fun_upd_idem_iff)

lemma steps_metadata:
  assumes "map_of (cl_schedules c) (keyOf s) = Some s"
  obtains t es where "steps (ensureScheduleMetadata clusterEnv s) c (withMetadata s, None) (c\<lparr>cl_schedules := t\<rparr>) es"
    "map_of t (keyOf s) = Some (withMetadata s)"
proof (cases "prepared s")
  case True
  with assms show ?thesis
    using steps_metadata_again [OF True, of c] by (intro that [of "cl_schedules c"]) (simp_all add: withMetadata_prepared)
next
  case False
  then have "ensureScheduleMetadata clusterEnv s = persistMetadata clusterEnv s (withMetadata s)"
    by (auto simp: ensureScheduleMetadata_def addLabelsIfNecessary_def prepared_def withMetadata_def Let_def
        map_add_upd_eq fun_upd_idem_iff fun_upd_twist)
  with steps_persistMetadata [of c "withMetadata s" s] assms show ?thesis
    by (intro that) auto
qed

section \<open>The CronJob\<close>

abbreviation managerIn :: "string \<Rightarrow> string \<Rightarrow> string list \<Rightarrow> cluster cronJobManager" where
  "managerIn p i ss \<equiv> \<lparr>cj_client = clusterEnv, cj_operatorImage = i, cj_pullPolicy = p, cj_pullSecrets = ss\<rparr>"

abbreviation cronJobKey :: "backup_schedule \<Rightarrow> key" where
  "cronJobKey s \<equiv> keyOf (newCronJob clusterEnv s)"

definition foundCronJob :: "cluster \<Rightarrow> backup_schedule \<Rightarrow> cron_job" where
  "foundCronJob c s = (case map_of (cl_cronJobs c) (cronJobKey s) of None \<Rightarrow> newCronJob clusterEnv s | Some z \<Rightarrow> z)"

text \<open>Objects are stored under their own key.\<close>

definition ownKey :: "cluster \<Rightarrow> backup_schedule \<Rightarrow> bool" where
  "ownKey c s \<longleftrightarrow> keyOf (foundCronJob c s) = cronJobKey s"

lemma mutate_same:
  assumes "o_name s' = o_name s" "o_uid s' = o_uid s" "bs_schedule s' = bs_schedule s"
  shows "mutateCronJob (managerIn p i ss) s' = mutateCronJob (managerIn p i ss) s"
proof -
  have "clusterOwner s' = clusterOwner s"
    by (rule ext) (simp add: clusterOwner_def assms cong: list.case_cong)
  moreover have "cronJobPodTemplate clusterEnv s' = cronJobPodTemplate clusterEnv s"
    by (simp add: clusterEnv_def assms)
  ultimately show ?thesis
    by (intro ext) (simp add: mutateCronJob_def assms cong: sum.case_cong)
qed

lemma steps_cronJob_error:
  assumes "mutateCronJob (managerIn p i ss) s (foundCronJob c s) = Inl e"
  shows "\<exists>es x. steps (ensureCronJob (managerIn p i ss) s) c (Some x) c es"
  using assms by (intro exI) (auto simp: steps_def ensureCronJob_def syncCronJob_def eventf_def run_simps clusterSync_def
      foundCronJob_def Let_def simp del: run_state_bind)

lemma steps_cronJob:
  assumes "mutateCronJob (managerIn p i ss) s (foundCronJob c s) = Inr y" "ownKey c s"
  obtains t es where "steps (ensureCronJob (managerIn p i ss) s) c None (c\<lparr>cl_cronJobs := t\<rparr>) es"
    "map_of t (cronJobKey s) = Some y"
proof (cases "map_of (cl_cronJobs c) (cronJobKey s) = Some y")
  case True
  with assms have "steps (ensureCronJob (managerIn p i ss) s) c None (c\<lparr>cl_cronJobs := cl_cronJobs c\<rparr>)
      [SyncCronJob (newCronJob clusterEnv s) \<lparr>sy_operation = OperationResultNone, sy_error = None, sy_object = y,
         sy_found = Some y, sy_written = None\<rparr>]"
    by (simp add: steps_def ensureCronJob_def syncCronJob_def run_simps clusterSync_def foundCronJob_def
        ownKey_def Let_def del: run_state_bind)
  with True show ?thesis by (intro that) auto
next
  case False
  let ?z = "foundCronJob c s"
  let ?f = "map_of (cl_cronJobs c) (cronJobKey s)"
  have "\<exists>es. steps (ensureCronJob (managerIn p i ss) s) c None
      (c\<lparr>cl_cronJobs := store (cronJobKey s) y (cl_cronJobs c)\<rparr>) es"
    using assms False
    by (cases ?f) (intro exI, auto simp: steps_def ensureCronJob_def syncCronJob_def eventf_def run_simps
        clusterSync_def foundCronJob_def ownKey_def Let_def simp del: run_state_bind)
  with that show ?thesis by auto
qed

lemma steps_cronJob_again:
  assumes "map_of (cl_cronJobs c) (cronJobKey s) = Some y" "keyOf y = cronJobKey s"
    and "mutateCronJob (managerIn p i ss) s y = Inr y"
  obtains a where "steps (ensureCronJob (managerIn p i ss) s) c None c [SyncCronJob (newCronJob clusterEnv s) a]"
    "sy_written a = None" "sy_error a = None"
proof (rule that [of "\<lparr>sy_operation = OperationResultNone, sy_error = None, sy_object = y,
    sy_found = Some y, sy_written = None\<rparr>"])
  show "steps (ensureCronJob (managerIn p i ss) s) c None c [SyncCronJob (newCronJob clusterEnv s)
      \<lparr>sy_operation = OperationResultNone, sy_error = None, sy_object = y, sy_found = Some y, sy_written = None\<rparr>]"
    using assms by (simp add: steps_def ensureCronJob_def syncCronJob_def run_simps clusterSync_def
        Let_def del: run_state_bind)
qed simp_all

section \<open>One reconciliation\<close>

lemma steps_patchStatus:
  assumes "map_of (cl_schedules c) (keyOf s) = Some s'" "keyOf b = keyOf s" "bs_status b = bs_status s \<Longrightarrow> s' = s"
  obtains t es where "steps (patchScheduleStatus clusterEnv b s) c (s, None) (c\<lparr>cl_schedules := t\<rparr>) es"
    "map_of t (keyOf s) = Some s"
proof (cases "bs_status b = bs_status s")
  case True
  with assms have "steps (patchScheduleStatus clusterEnv b s) c (s, None) (c\<lparr>cl_schedules := cl_schedules c\<rparr>) []"
    by (simp add: patchScheduleStatus_def steps_return)
  with True assms show ?thesis by (intro that) auto
next
  case False
  with assms have "steps (patchScheduleStatus clusterEnv b s) c (s, None)
      (c\<lparr>cl_schedules := store (keyOf s) s (cl_schedules c)\<rparr>) [OnSchedule (PatchStatus b s (Inr s))]"
    by (simp add: steps_def patchScheduleStatus_def apiPatchStatus_def run_simps tableResource_def Let_def
        del: run_state_bind)
  then show ?thesis by (intro that) auto
qed

lemma steps_get:
  "map_of (cl_schedules c) k = Some s \<Longrightarrow>
     steps (getBackupSchedule clusterEnv k) c (Inr s) c [OnSchedule (Get k (Inr s))]"
  by (simp add: steps_def getBackupSchedule_def apiGet_def run_simps tableResource_def Let_def del: run_state_bind)

abbreviation reconcilerIn :: "string \<Rightarrow> string \<Rightarrow> string list \<Rightarrow> cluster scheduleReconciler" where
  "reconcilerIn p i ss \<equiv> newScheduleReconciler clusterEnv p i ss"

lemma mark_conditions:
  "markAccepted clusterEnv s = setScheduleCondition clusterEnv s acceptedCondition"
  "markReady clusterEnv s = setScheduleCondition clusterEnv s readyCondition"
  by (simp_all add: markAccepted_def markReady_def acceptedCondition_def readyCondition_def)

lemma steps_normal:
  assumes "steps (ensureScheduleMetadata clusterEnv s) c (s1, None) c1 es1" "validateSchedule clusterEnv s1 = None"
    and "steps (ensureCronJob (managerIn p i ss) (withCondition (cl_now c1) acceptedCondition s1)) c1 None c2 es2"
  shows "steps (reconcileNormal (reconcilerIn p i ss) s) c
    (withCondition (cl_now c2) readyCondition (withCondition (cl_now c1) acceptedCondition s1), None) c2 (es1 @ es2)"
proof -
  let ?s2 = "withCondition (cl_now c1) acceptedCondition s1"
  have ready: "steps (do { schedule \<leftarrow> setScheduleCondition clusterEnv ?s2 readyCondition; return (schedule, None) }) c2
      (withCondition (cl_now c2) readyCondition ?s2, None) c2 ([] @ [])"
    by (rule steps_bind [OF steps_setCondition steps_return])
  have sync: "steps (do {
      e \<leftarrow> ensureCronJob (managerIn p i ss) ?s2;
      case e of
        Some e \<Rightarrow> do { schedule \<leftarrow> markNotReady clusterEnv ?s2 ''ReasonSyncFailed''
          (''CronJob synchronization failed: '' @ errText e); return (schedule, Some e) }
      | None \<Rightarrow> do { schedule \<leftarrow> setScheduleCondition clusterEnv ?s2 readyCondition; return (schedule, None) }
    }) c1 (withCondition (cl_now c2) readyCondition ?s2, None) c2 (es2 @ [] @ [])"
    using ready by (intro steps_bind [OF assms(3)]) simp
  have "steps (reconcileNormal (reconcilerIn p i ss) s) c
      (withCondition (cl_now c2) readyCondition ?s2, None) c2 (es1 @ [] @ es2 @ [] @ [])"
    unfolding reconcileNormal_def Let_def newScheduleReconciler_simps
    by (rule steps_bind [OF assms(1)], simp only: prod.case option.case assms(2) mark_conditions clusterEnv_simps(1),
        rule steps_bind [OF steps_setCondition], rule sync)
  then show ?thesis by simp
qed

lemma steps_reconcile:
  assumes "map_of (cl_schedules c) k = Some s" "o_deletion s = None"
    and "steps (reconcileNormal (reconcilerIn p i ss) s) c (s1, None) c1 es1"
    and "steps (patchScheduleStatus clusterEnv s s1) c1 (s1, None) c2 es2"
  shows "steps (reconcileSchedule (reconcilerIn p i ss) k) c (finished None) c2
    (OnSchedule (Get k (Inr s)) # es1 @ es2)"
proof -
  have patch: "steps (do { (_, e) \<leftarrow> patchScheduleStatus clusterEnv s s1; return (finished (if e \<noteq> None then e else None)) })
      c1 (finished None) c2 (es2 @ [])"
    by (rule steps_bind [OF assms(4)]) (simp add: steps_return)
  have "steps (do { (schedule, reconcileErr) \<leftarrow> reconcileNormal (reconcilerIn p i ss) s;
      (_, e) \<leftarrow> patchScheduleStatus clusterEnv s schedule;
      return (finished (if e \<noteq> None then e else reconcileErr)) }) c (finished None) c2 (es1 @ es2 @ [])"
    using patch by (intro steps_bind [OF assms(3)]) simp
  then have "steps (reconcileSchedule (reconcilerIn p i ss) k) c (finished None) c2
      ([OnSchedule (Get k (Inr s))] @ es1 @ es2 @ [])"
    unfolding reconcileSchedule_def Let_def newScheduleReconciler_simps
    by (intro steps_bind [OF steps_get [OF assms(1)]]) (simp add: assms(2))
  then show ?thesis by simp
qed

section \<open>Rest\<close>

definition restsAt :: "cluster \<Rightarrow> key \<Rightarrow> string \<Rightarrow> string \<Rightarrow> string list \<Rightarrow> bool" where
  "restsAt c k p i ss \<longleftrightarrow> (\<exists>s y. map_of (cl_schedules c) k = Some s \<and> k = keyOf s \<and> o_deletion s = None \<and> prepared s \<and>
     carries s acceptedCondition \<and> carries s readyCondition \<and> validateSchedule clusterEnv s = None \<and>
     map_of (cl_cronJobs c) (cronJobKey s) = Some y \<and> keyOf y = cronJobKey s \<and>
     mutateCronJob (managerIn p i ss) s y = Inr y)"

text \<open>A reconciliation at rest reads the schedule, looks at the CronJob, and changes nothing.\<close>

fun changesNothing :: "event \<Rightarrow> bool" where
  "changesNothing (SyncCronJob x a) = (sy_written a = None)"
| "changesNothing e = (effectOf e = Observes)"

lemma rest_run:
  assumes "restsAt c k p i ss"
  obtains es where "steps (reconcileSchedule (reconcilerIn p i ss) k) c (finished None) c es"
    "list_all changesNothing es"
proof -
  from assms obtain s y where s: "map_of (cl_schedules c) k = Some s" "k = keyOf s" "o_deletion s = None" "prepared s"
      "carries s acceptedCondition" "carries s readyCondition" "validateSchedule clusterEnv s = None"
    and y: "map_of (cl_cronJobs c) (cronJobKey s) = Some y" "keyOf y = cronJobKey s"
      "mutateCronJob (managerIn p i ss) s y = Inr y"
    unfolding restsAt_def by blast
  from steps_cronJob_again [OF y] obtain a where
    sync: "steps (ensureCronJob (managerIn p i ss) s) c None c [SyncCronJob (newCronJob clusterEnv s) a]"
    and a: "sy_written a = None" by blast
  have "steps (reconcileNormal (reconcilerIn p i ss) s) c (s, None) c
      ([] @ [SyncCronJob (newCronJob clusterEnv s) a])"
    using steps_normal [OF steps_metadata_again [OF s(4)] s(7), where p = p and i = i and ss = ss and ?c2.0 = c] sync
    by (simp add: withCondition_again s)
  moreover have "steps (patchScheduleStatus clusterEnv s s) c (s, None) c []"
    by (simp add: patchScheduleStatus_def steps_return)
  ultimately have "steps (reconcileSchedule (reconcilerIn p i ss) k) c (finished None) c
      (OnSchedule (Get k (Inr s)) # ([] @ [SyncCronJob (newCronJob clusterEnv s) a]) @ [])"
    by (intro steps_reconcile s) 
  moreover from a have "list_all changesNothing (OnSchedule (Get k (Inr s)) #
      ([] @ [SyncCronJob (newCronJob clusterEnv s) a]) @ [])" by simp
  ultimately show ?thesis by (rule that)
qed

lemma newCronJob_same [simp]:
  "newCronJob clusterEnv (withCondition u x s) = newCronJob clusterEnv s"
  "newCronJob clusterEnv (withMetadata s) = newCronJob clusterEnv s"
  "validateSchedule E (withCondition u x s) = validateSchedule E s"
  "validateSchedule E (withMetadata s) = validateSchedule E s"
  by (simp_all add: newCronJob_def validateSchedule_def cong: if_cong option.case_cong)

text \<open>The first successful reconciliation puts the loop to rest.\<close>

definition reconcilable :: "cluster \<Rightarrow> key \<Rightarrow> string \<Rightarrow> string \<Rightarrow> string list \<Rightarrow> bool" where
  "reconcilable c k p i ss \<longleftrightarrow> (\<exists>s y. map_of (cl_schedules c) k = Some s \<and> k = keyOf s \<and> o_deletion s = None \<and>
     validateSchedule clusterEnv s = None \<and> ownKey c s \<and>
     mutateCronJob (managerIn p i ss) s (foundCronJob c s) = Inr y)"

lemma first_run:
  assumes "reconcilable c k p i ss"
  obtains c' es where "steps (reconcileSchedule (reconcilerIn p i ss) k) c (finished None) c' es" "restsAt c' k p i ss"
proof -
  from assms obtain s y where s: "map_of (cl_schedules c) k = Some s" "k = keyOf s" "o_deletion s = None"
      "validateSchedule clusterEnv s = None" and key: "ownKey c s"
    and y: "mutateCronJob (managerIn p i ss) s (foundCronJob c s) = Inr y"
    unfolding reconcilable_def by blast
  let ?s2 = "withCondition (cl_now c) acceptedCondition (withMetadata s)"
  let ?s3 = "withCondition (cl_now c) readyCondition ?s2"
  from s(1,2) obtain t es1 where meta: "steps (ensureScheduleMetadata clusterEnv s) c (withMetadata s, None)
      (c\<lparr>cl_schedules := t\<rparr>) es1" and t: "map_of t (keyOf s) = Some (withMetadata s)"
    using steps_metadata [of c s] by metis
  let ?c1 = "c\<lparr>cl_schedules := t\<rparr>"
  have same: "mutateCronJob (managerIn p i ss) ?s2 = mutateCronJob (managerIn p i ss) s"
      "mutateCronJob (managerIn p i ss) ?s3 = mutateCronJob (managerIn p i ss) s"
    by (rule mutate_same; simp)+
  have "foundCronJob ?c1 ?s2 = foundCronJob c s" "ownKey ?c1 ?s2"
    using key by (simp_all add: foundCronJob_def ownKey_def cong: option.case_cong)
  with y same(1) have "mutateCronJob (managerIn p i ss) ?s2 (foundCronJob ?c1 ?s2) = Inr y" "ownKey ?c1 ?s2"
    by simp_all
  from steps_cronJob [OF this] obtain u es2 where
    sync: "steps (ensureCronJob (managerIn p i ss) ?s2) ?c1 None (?c1\<lparr>cl_cronJobs := u\<rparr>) es2"
    and u: "map_of u (cronJobKey ?s2) = Some y" by blast
  have normal: "steps (reconcileNormal (reconcilerIn p i ss) s) c (?s3, None) (?c1\<lparr>cl_cronJobs := u\<rparr>) (es1 @ es2)"
    using steps_normal [OF meta, where p = p and i = i and ss = ss, of "?c1\<lparr>cl_cronJobs := u\<rparr>" es2] sync s(4)
    by simp
  have patched: "withMetadata s = ?s3" if "bs_status s = bs_status ?s3"
    using that by (intro backup_schedule.equality) (simp_all add: withCondition_def)
  obtain v es3 where patch: "steps (patchScheduleStatus clusterEnv s ?s3) (?c1\<lparr>cl_cronJobs := u\<rparr>) (?s3, None)
      (?c1\<lparr>cl_cronJobs := u, cl_schedules := v\<rparr>) es3" and v: "map_of v (keyOf ?s3) = Some ?s3"
  proof (rule steps_patchStatus [of "?c1\<lparr>cl_cronJobs := u\<rparr>" ?s3 "withMetadata s" s])
    show "map_of (cl_schedules (?c1\<lparr>cl_cronJobs := u\<rparr>)) (keyOf ?s3) = Some (withMetadata s)" using t by simp
  qed (simp, rule patched)
  have "keyOf y = cronJobKey s" "mutateCronJob (managerIn p i ss) s y = Inr y"
    using y key mutateCronJob_idem [OF _ y] clusterEnv_owners
    by (auto simp: mutateCronJob_Inr ownKey_def)
  then have "restsAt (?c1\<lparr>cl_cronJobs := u, cl_schedules := v\<rparr>) k p i ss"
    unfolding restsAt_def using s u v same(2)
    by (intro exI [of _ ?s3] exI [of _ y]) (auto simp: carries_set carries_other)
  with steps_reconcile [OF s(1,3) normal patch] that show ?thesis by blast
qed

section \<open>The property\<close>

text \<open>
  C22: On the in-memory cluster, whatever it holds, the control loop of a schedule ends after one successful
  reconciliation: if the schedule is not being deleted, has a valid cron expression and a CronJob that no one
  else owns, the first reconciliation succeeds and leaves a cluster in which every further one succeeds and
  changes nothing, neither the schedule nor its status nor the CronJob, so that it triggers no other.
\<close>

theorem schedule_loop_ends:
  assumes "reconcilable c k p i ss"
  shows "\<exists>c' es. steps (reconcileSchedule (reconcilerIn p i ss) k) c (finished None) c' es \<and>
    (\<exists>es'. steps (reconcileSchedule (reconcilerIn p i ss) k) c' (finished None) c' es' \<and> list_all changesNothing es')"
  using first_run [OF assms] rest_run by metis

theorem schedule_loop_ends_witness:
  "\<exists>c' es. steps (reconcileSchedule (reconcilerIn ''Always'' ''operator:1'' []) (''ns'', ''daily''))
      (outside (scheduleWorld demoSchedule)) (finished None) c' es \<and>
    (\<exists>es'. steps (reconcileSchedule (reconcilerIn ''Always'' ''operator:1'' []) (''ns'', ''daily'')) c' (finished None) c' es' \<and>
      list_all changesNothing es')"
proof (rule schedule_loop_ends)
  show "reconcilable (outside (scheduleWorld demoSchedule)) (''ns'', ''daily'') ''Always'' ''operator:1'' []"
    unfolding reconcilable_def
    by (intro exI [of _ demoSchedule] exI) (simp add: schedule_run demoSchedule_def ownKey_def foundCronJob_def Let_def)
qed

end
