(* ===== verification/Config.thy ===== *)
theory Config
  imports Kube
begin

text \<open>
  \<open>internal/config\<close>: the operator's configuration from environment variables, the deployment stage, the
  retry limit from its ConfigMap, and the options of the logger. The environment is a map from names to
  values (\<open>os.LookupEnv\<close>); the stage, a global variable in Go, is a value that is passed on. Parsing
  versions (\<open>semver\<close>) and log levels (\<open>zap\<close>) are parameters.
\<close>

section \<open>Splitting strings\<close>

text \<open>\<open>strings.Split\<close> with a separator of one character: an empty text has one (empty) part.\<close>

fun splitAt :: "char \<Rightarrow> string \<Rightarrow> string list" where
  "splitAt c [] = [[]]"
| "splitAt c (x # xs) = (if x = c then [] # splitAt c xs
     else case splitAt c xs of [] \<Rightarrow> [[x]] | w # ws \<Rightarrow> (x # w) # ws)"

fun joinWith :: "char \<Rightarrow> string list \<Rightarrow> string" where
  "joinWith c [] = []"
| "joinWith c [w] = w"
| "joinWith c (w # ws) = w @ c # joinWith c ws"

section \<open>The stage\<close>

type_synonym environ = "string \<rightharpoonup> string"

definition StageDevelopment :: string where "StageDevelopment = ''development''"
definition StageProduction :: string where "StageProduction = ''production''"

definition getEnvVar :: "environ \<Rightarrow> string \<Rightarrow> err + string" where
  "getEnvVar env name = (case env name of
       None \<Rightarrow> Inl (Errorf (''environment variable '' @ name @ '' must be set''))
     | Some v \<Rightarrow> Inr v)"

definition IsStageDevelopment :: "string \<Rightarrow> bool" where
  "IsStageDevelopment stage \<longleftrightarrow> stage = StageDevelopment"

definition GetStagePullPolicy :: "string \<Rightarrow> string" where
  "GetStagePullPolicy stage = (if IsStageDevelopment stage then ''Always'' else ''IfNotPresent'')"

text \<open>The stage after \<open>configureStage\<close>; a missing variable leaves the empty text \<open>getEnvVar\<close> answered.\<close>

definition configureStage :: "environ \<Rightarrow> string" where
  "configureStage env = (case getEnvVar env ''STAGE'' of Inl _ \<Rightarrow> [] | Inr stage \<Rightarrow> stage)"

section \<open>The operator's configuration\<close>

record operator_config =
  oc_version :: string \<comment> \<open>the parsed version\<close>
  oc_namespace :: string
  oc_imagePullSecrets :: "string list"
  oc_requeueTimeSeconds :: int
  oc_backupStorageName :: string
  oc_providerDeploymentName :: string

definition GetLogLevel :: "environ \<Rightarrow> err + string" where
  "GetLogLevel env = (case getEnvVar env ''LOG_LEVEL'' of
       Inl e \<Rightarrow> Inl (Wrapf ''failed to get env var [LOG_LEVEL]'' e) | Inr v \<Rightarrow> Inr v)"

definition GetNamespace :: "environ \<Rightarrow> err + string" where
  "GetNamespace env = (case getEnvVar env ''NAMESPACE'' of
       Inl e \<Rightarrow> Inl (Wrapf ''failed to get env var [NAMESPACE]'' e) | Inr v \<Rightarrow> Inr v)"

definition GetImagePullSecrets :: "environ \<Rightarrow> err + string list" where
  "GetImagePullSecrets env = (case env ''IMAGE_PULL_SECRETS'' of
       None \<Rightarrow> Inr []
     | Some v \<Rightarrow> Inr (splitAt (CHR '','') v))"

definition defaultBackupRequeueTimeSeconds :: int where
  "defaultBackupRequeueTimeSeconds = 5"

definition getBackupRequeueTimeSeconds :: "environ \<Rightarrow> err + int" where
  "getBackupRequeueTimeSeconds env = (case env ''BACKUP_REQUEUE_TIME'' of
       None \<Rightarrow> Inr defaultBackupRequeueTimeSeconds
     | Some v \<Rightarrow>
         if v = [] then Inr defaultBackupRequeueTimeSeconds
         else case atoi v of
           Inl e \<Rightarrow> Inl (Wrapf ''parse environment variable BACKUP_REQUEUE_TIME'' (Errorf (numErrorOf ''Atoi'' v e)))
         | Inr seconds \<Rightarrow>
             if seconds \<le> 0
             then Inl (Errorf ''environment variable BACKUP_REQUEUE_TIME must be greater than zero'')
             else Inr seconds)"

definition getProviderDeploymentName :: "environ \<Rightarrow> string" where
  "getProviderDeploymentName env = (case env ''PROVIDER_DEPLOYMENT_NAME'' of
       None \<Rightarrow> ''velero'' | Some v \<Rightarrow> if v = [] then ''velero'' else v)"

definition getBackupStorageName :: "environ \<Rightarrow> string" where
  "getBackupStorageName env = (case env ''BACKUP_STORAGE_NAME'' of
       None \<Rightarrow> ''default'' | Some v \<Rightarrow> if v = [] then ''default'' else v)"

text \<open>
  \<open>NewOperatorConfig\<close> answers the configuration or the first error, and leaves the stage of the environment;
  \<open>newVersion\<close> is \<open>semver.NewVersion\<close>.
\<close>

definition NewOperatorConfig ::
    "(string \<Rightarrow> err + string) \<Rightarrow> environ \<Rightarrow> string \<Rightarrow> (err + operator_config) \<times> string" where
  "NewOperatorConfig newVersion env version = (let stage = configureStage env in
     (case newVersion version of
        Inl e \<Rightarrow> Inl (Wrapf ''failed to parse version'' e)
      | Inr parsedVersion \<Rightarrow> (case GetNamespace env of
          Inl e \<Rightarrow> Inl (Wrapf ''failed to read namespace'' e)
        | Inr n \<Rightarrow> (case GetImagePullSecrets env of
            Inl e \<Rightarrow> Inl (Wrapf ''failed to read image pull secrets'' e)
          | Inr secrets \<Rightarrow> (case getBackupRequeueTimeSeconds env of
              Inl e \<Rightarrow> Inl (Wrapf ''failed to read backup requeue time'' e)
            | Inr seconds \<Rightarrow> Inr \<lparr>oc_version = parsedVersion, oc_namespace = n,
                oc_imagePullSecrets = secrets, oc_requeueTimeSeconds = seconds,
                oc_backupStorageName = getBackupStorageName env,
                oc_providerDeploymentName = getProviderDeploymentName env\<rparr>))),
      stage))"

section \<open>The logger\<close>

text \<open>\<open>zap.Options\<close>; a level is what \<open>ParseAtomicLevel\<close> answers, with \<open>InfoLevel\<close> as the fallback.\<close>

record 'l zap_options =
  zo_development :: bool
  zo_level :: 'l

definition getZapOptions :: "(string \<Rightarrow> err + 'l) \<Rightarrow> 'l \<Rightarrow> environ \<Rightarrow> string \<Rightarrow> 'l zap_options" where
  "getZapOptions parseAtomicLevel infoLevel env stage =
     (let logLevel = (case GetLogLevel env of
          Inl e \<Rightarrow> infoLevel
        | Inr envLogLevel \<Rightarrow> (case parseAtomicLevel envLogLevel of Inl e \<Rightarrow> infoLevel | Inr l \<Rightarrow> l))
      in \<lparr>zo_development = IsStageDevelopment stage, zo_level = logLevel\<rparr>)"

section \<open>The retry limit\<close>

text \<open>\<open>getter.go\<close>; the client is bound to the namespace \<open>n\<close>.\<close>

definition GetRetryLimit :: "'s env \<Rightarrow> string \<Rightarrow> ('s, err + int) prog" where
  "GetRetryLimit E n = do {
     got \<leftarrow> apiGet (configMaps E) OnConfigMap (n, ''k8s-backup-operator-backup-config'');
     return (case got of
       Inl e \<Rightarrow> Inl (Wrapf ''failed to get config map [k8s-backup-operator-backup-config]'' (Api e))
     | Inr cm \<Rightarrow> (let str = (case cm_data cm ''retryTimeLimit'' of None \<Rightarrow> [] | Some v \<Rightarrow> v) in
         case atoi str of
           Inl e \<Rightarrow> Inl (Wrapf (''failed to convert ['' @ str @ '']'') (Errorf (numErrorOf ''Atoi'' str e)))
         | Inr retryLimit \<Rightarrow> Inr retryLimit))
   }"

section \<open>Reading the configuration\<close>

lemma splitAt_nonempty [simp]: "splitAt c s \<noteq> []"
  by (induction s) (auto split: list.splits)

lemma joinWith_Cons: "ws \<noteq> [] \<Longrightarrow> joinWith c (w # ws) = w @ c # joinWith c ws"
  by (cases ws) auto

lemma joinWith_splitAt: "joinWith c (splitAt c s) = s"
proof (induction s)
  case (Cons x s)
  obtain w ws where w: "splitAt c s = w # ws" by (cases "splitAt c s") auto
  with Cons show ?case
    by (cases ws) (auto simp: joinWith_Cons)
qed simp

lemma splitAt_single: "c \<notin> set w \<Longrightarrow> splitAt c w = [w]"
  by (induction w) auto

lemma splitAt_append: "c \<notin> set w \<Longrightarrow> splitAt c (w @ c # s) = w # splitAt c s"
  by (induction w) auto

lemma splitAt_joinWith:
  "ws \<noteq> [] \<Longrightarrow> list_all (\<lambda>w. c \<notin> set w) ws \<Longrightarrow> splitAt c (joinWith c ws) = ws"
  by (induction c ws rule: joinWith.induct) (auto simp: splitAt_single splitAt_append)

lemma splitAt_parts: "w \<in> set (splitAt c s) \<Longrightarrow> c \<notin> set w"
  by (induction s arbitrary: w) (auto split: if_splits list.splits)

lemma splitAt_length: "length (splitAt c s) = Suc (length (filter ((=) c) s))"
  by (induction s) (auto split: list.splits)

lemma requeue_seconds_range:
  "getBackupRequeueTimeSeconds env = Inr n \<Longrightarrow> 0 < n \<and> n \<le> maxInt64"
  by (auto simp: getBackupRequeueTimeSeconds_def defaultBackupRequeueTimeSeconds_def maxInt64_def
      split: option.splits if_splits sum.splits dest!: parseInt_range)

lemma requeue_seconds_given:
  "0 < n \<Longrightarrow> n \<le> maxInt64 \<Longrightarrow> getBackupRequeueTimeSeconds (env(''BACKUP_REQUEUE_TIME'' \<mapsto> showInt n)) = Inr n"
  using parseInt_showInt [of 64 n]
  by (simp add: getBackupRequeueTimeSeconds_def maxInt64_def showInt_def)

section \<open>Properties\<close>

text \<open>
  The requeue time the operator starts with is always a positive 64-bit number of seconds: 5 when
  the variable is unset or empty, the number it holds when it holds a positive one, and starting is
  refused for everything else; every positive number can be configured.
\<close>

theorem requeue_time_positive:
  "(case getBackupRequeueTimeSeconds env of
      Inr n \<Rightarrow> 0 < n \<and> n \<le> maxInt64 \<and> (case env ''BACKUP_REQUEUE_TIME'' of
        None \<Rightarrow> n = 5 | Some v \<Rightarrow> if v = [] then n = 5 else atoi v = Inr n)
    | Inl e \<Rightarrow> (case env ''BACKUP_REQUEUE_TIME'' of None \<Rightarrow> False | Some v \<Rightarrow> v \<noteq> [] \<and>
        (case atoi v of Inl _ \<Rightarrow> True | Inr n \<Rightarrow> n \<le> 0))) \<and>
   (n \<in> {1..maxInt64} \<longleftrightarrow> getBackupRequeueTimeSeconds (env(''BACKUP_REQUEUE_TIME'' \<mapsto> showInt n)) = Inr n)"
proof (rule conjI, goal_cases)
  case 1
  show ?case
    using requeue_seconds_range [of env]
    by (auto simp: getBackupRequeueTimeSeconds_def defaultBackupRequeueTimeSeconds_def
        split: option.splits sum.splits)
next
  case 2
  show ?case
    using requeue_seconds_given [of n env]
      requeue_seconds_range [of "env(''BACKUP_REQUEUE_TIME'' \<mapsto> showInt n)" n] by auto
qed

text \<open>
  The image pull secrets are exactly the parts of the variable between commas: there is one more than
  there are commas, none contains a comma, joining them gives the variable back, and every list of
  names without commas can be configured. An unset variable configures none; an empty one configures a
  single secret with the empty name.
\<close>

theorem pull_secrets_roundtrip:
  assumes "ws \<noteq> []" "list_all (\<lambda>w. CHR '','' \<notin> set w) ws"
  shows "GetImagePullSecrets (env(''IMAGE_PULL_SECRETS'' \<mapsto> joinWith (CHR '','') ws)) = Inr ws \<and>
    GetImagePullSecrets (env(''IMAGE_PULL_SECRETS'' := None)) = Inr [] \<and>
    GetImagePullSecrets (env(''IMAGE_PULL_SECRETS'' \<mapsto> [])) = Inr [[]] \<and>
    (case GetImagePullSecrets (env(''IMAGE_PULL_SECRETS'' \<mapsto> v)) of Inl _ \<Rightarrow> False | Inr parts \<Rightarrow>
      joinWith (CHR '','') parts = v \<and> list_all (\<lambda>w. CHR '','' \<notin> set w) parts \<and>
      length parts = Suc (length (filter ((=) (CHR '','')) v)))"
  using assms by (simp add: GetImagePullSecrets_def splitAt_joinWith joinWith_splitAt splitAt_length
      list_all_iff splitAt_parts)

theorem pull_secrets_roundtrip_witness:
  "GetImagePullSecrets (Map.empty(''IMAGE_PULL_SECRETS'' \<mapsto> ''a,b'')) = Inr [''a'', ''b'']"
  using pull_secrets_roundtrip [of "[''a'', ''b'']" Map.empty] by simp

end
