(* ===== verification/GoFlags.thy ===== *)
theory GoFlags
  imports GoStd
begin

text \<open>
  Go's \<open>flag\<close> package as far as the operator's subcommands use it: a flag set with string and boolean
  flags and the policy \<open>ExitOnError\<close>. Parsing goes on to the first argument that is no flag.
\<close>

section \<open>Parsing\<close>

datatype flag_kind = StringFlag | BoolFlag

type_synonym flag_set = "(string \<times> flag_kind) list"

text \<open>\<open>strconv.ParseBool\<close>.\<close>

definition parseBool :: "string \<Rightarrow> bool option" where
  "parseBool s =
     (if s \<in> set [''1'', ''t'', ''T'', ''TRUE'', ''true'', ''True''] then Some True
      else if s \<in> set [''0'', ''f'', ''F'', ''FALSE'', ''false'', ''False''] then Some False
      else None)"

text \<open>
  One step of \<open>FlagSet.Parse\<close>: it ends before the first argument that is no flag (or after \<open>--\<close>), fails, asks
  for help, or assigns a value.
\<close>

datatype parse_step = NoFlag "string list" | BadFlag | HelpFlag | Assign string string "string list"

definition flagName :: "string \<Rightarrow> string" where
  "flagName s = takeWhile (\<lambda>c. c \<noteq> CHR ''='') s"

definition flagValue :: "string \<Rightarrow> string option" where
  "flagValue s = (case dropWhile (\<lambda>c. c \<noteq> CHR ''='') s of [] \<Rightarrow> None | _ # v \<Rightarrow> Some v)"

fun assignFlag :: "flag_set \<Rightarrow> string \<Rightarrow> string option \<Rightarrow> string list \<Rightarrow> parse_step" where
  "assignFlag fs name value rest = (case map_of fs name of
       None \<Rightarrow> if name \<in> {''help'', ''h''} then HelpFlag else BadFlag
     | Some BoolFlag \<Rightarrow> (case value of
         None \<Rightarrow> Assign name ''true'' rest
       | Some v \<Rightarrow> if parseBool v = None then BadFlag else Assign name v rest)
     | Some StringFlag \<Rightarrow> (case value of
         Some v \<Rightarrow> Assign name v rest
       | None \<Rightarrow> (case rest of [] \<Rightarrow> BadFlag | v # rest' \<Rightarrow> Assign name v rest')))"

fun parseOne :: "flag_set \<Rightarrow> string list \<Rightarrow> parse_step" where
  "parseOne fs [] = NoFlag []"
| "parseOne fs (s # rest) =
     (if length s < 2 \<or> hd s \<noteq> CHR ''-'' then NoFlag (s # rest)
      else if s = ''--'' then NoFlag rest
      else let body = (if s ! 1 = CHR ''-'' then drop 2 s else drop 1 s)
        in if body = [] \<or> hd body = CHR ''-'' \<or> hd body = CHR ''='' then BadFlag
           else assignFlag fs (flagName body) (flagValue body) rest)"

lemma parseOne_shorter: "parseOne fs args = Assign n v rest \<Longrightarrow> length rest < length args"
  by (cases args) (auto simp: Let_def split: if_splits option.splits flag_kind.splits list.splits)

datatype parse_result = Help | Bad | Parsed "(string \<times> string) list" "string list"

function parseFlags :: "flag_set \<Rightarrow> string list \<Rightarrow> parse_result" where
  "parseFlags fs args = (case parseOne fs args of
       NoFlag rest \<Rightarrow> Parsed [] rest
     | BadFlag \<Rightarrow> Bad
     | HelpFlag \<Rightarrow> Help
     | Assign n v rest \<Rightarrow> (case parseFlags fs rest of
         Parsed as rest' \<Rightarrow> Parsed ((n, v) # as) rest'
       | failed \<Rightarrow> failed))"
  by auto

termination
  by (relation "measure (length \<circ> snd)") (auto dest: parseOne_shorter)

declare parseFlags.simps [simp del]

text \<open>The value of a flag: the last one assigned, or its default.\<close>

definition flagOr :: "(string \<times> string) list \<Rightarrow> string \<Rightarrow> string \<Rightarrow> string" where
  "flagOr as name dflt = (case map_of (rev as) name of None \<Rightarrow> dflt | Some v \<Rightarrow> v)"

text \<open>With \<open>ExitOnError\<close> the process exits with 0 after a help text and with 2 after an error.\<close>

definition parseOrExit :: "flag_set \<Rightarrow> string list \<Rightarrow> nat + (string \<times> string) list" where
  "parseOrExit fs args = (case parseFlags fs args of Help \<Rightarrow> Inl 0 | Bad \<Rightarrow> Inl 2 | Parsed as _ \<Rightarrow> Inr as)"

section \<open>Rendering and parsing\<close>

text \<open>A flag name without the characters that end it, and not starting like another dash.\<close>

definition plainName :: "string \<Rightarrow> bool" where
  "plainName n \<longleftrightarrow> n \<noteq> [] \<and> hd n \<noteq> CHR ''-'' \<and> CHR ''='' \<notin> set n"

definition renderFlag :: "string \<times> string \<Rightarrow> string" where
  "renderFlag nv = ''--'' @ fst nv @ ''='' @ snd nv"

lemma cut_at: "c \<notin> set n \<Longrightarrow> takeWhile (\<lambda>x. x \<noteq> c) (n @ c # v) = n"
    "c \<notin> set n \<Longrightarrow> dropWhile (\<lambda>x. x \<noteq> c) (n @ c # v) = c # v"
  by (induction n) auto

lemma flag_cut: "plainName n \<Longrightarrow> flagName (n @ CHR ''='' # v) = n \<and> flagValue (n @ CHR ''='' # v) = Some v"
  by (simp add: plainName_def flagName_def flagValue_def cut_at)

lemma parseOne_render:
  assumes "plainName n" "map_of fs n = Some StringFlag"
  shows "parseOne fs (renderFlag (n, v) # rest) = Assign n v rest"
proof -
  have "hd (n @ CHR ''='' # v) \<noteq> CHR ''-''" "hd (n @ CHR ''='' # v) \<noteq> CHR ''=''"
    using assms(1) by (cases n; auto simp: plainName_def)+
  with flag_cut [OF assms(1)] assms(2) show ?thesis by (simp add: renderFlag_def)
qed

lemma parseFlags_render:
  assumes "list_all (\<lambda>(n, v). plainName n \<and> map_of fs n = Some StringFlag) as"
  shows "parseFlags fs (List.map renderFlag as) = Parsed as []"
  using assms
proof (induction as)
  case Nil
  show ?case by (subst parseFlags.simps) simp
next
  case (Cons nv as)
  obtain n v where nv: "nv = (n, v)" by fastforce
  with Cons show ?case by (subst parseFlags.simps) (simp add: parseOne_render del: parseOne.simps)
qed

end
