(* ===== verification/EntryPoint.thy ===== *)
theory EntryPoint
  imports Config GoFlags ScheduledBackup GarbageCollection VeleroSync BackupController RestoreController Schedule
begin

text \<open>
  \<open>cmd/main.go\<close>: the subcommands, the operator's start (configuration, manager, controllers, checks), and
  how the controllers are put together from the configuration.

  The process is seen through a record \<open>runtime\<close>: its environment variables, what constructing a client
  answers (by the name of the constructor), whether a Kubernetes configuration can be found, and the
  parsers of the version and of log levels. A program that ends the process itself answers an exit code.
\<close>

section \<open>The process\<close>

record manager_options =
  mo_defaultNamespace :: string
  mo_webhookPort :: int
  mo_leaderElectionID :: string
  mo_leaseDuration :: duration
  mo_renewDeadline :: duration
  mo_metricsBindAddress :: string
  mo_healthProbeBindAddress :: string
  mo_leaderElection :: bool
  mo_readLive :: "string list" \<comment> \<open>the kinds the client does not read from its cache\<close>

record 's runtime =
  ru_env :: "'s env"
  ru_environ :: environ
  ru_kubeconfig :: bool
  ru_construct :: "string \<Rightarrow> err option"
  ru_newManager :: "manager_options \<Rightarrow> err option"
  ru_newVersion :: "string \<Rightarrow> err + string"
  ru_parseLevel :: "string \<Rightarrow> err + string"
  ru_version :: string

text \<open>\<open>ctrl.GetConfigOrDie\<close> exits with 1 when there is no configuration.\<close>

type_synonym 'a exiting = "nat + 'a"

section \<open>Jobs\<close>

definition scheduledBackupFlags :: flag_set where
  "scheduledBackupFlags = [(''name'', StringFlag), (''provider'', StringFlag)]"

definition parseScheduledBackupOptions :: "string list \<Rightarrow> options exiting" where
  "parseScheduledBackupOptions args = (case parseOrExit scheduledBackupFlags args of
       Inl code \<Rightarrow> Inl code
     | Inr as \<Rightarrow> Inr \<lparr>opt_name = flagOr as ''name'' [], opt_namespace = [], opt_provider = flagOr as ''provider'' []\<rparr>)"

definition strategyFlags :: flag_set where
  "strategyFlags = [(''strategy'', StringFlag)]"

definition parseStrategyName :: "string list \<Rightarrow> string exiting" where
  "parseStrategyName args = (case parseOrExit strategyFlags args of
       Inl code \<Rightarrow> Inl code | Inr as \<Rightarrow> Inr (flagOr as ''strategy'' ''keepAll''))"

text \<open>What both jobs do first: the namespace and the clients; \<open>start\<close> is the rest of the job.\<close>

definition startJob :: "'s runtime \<Rightarrow> (string \<Rightarrow> ('s, (err option) exiting) prog) \<Rightarrow> ('s, (err option) exiting) prog" where
  "startJob ru start =
     (if \<not> ru_kubeconfig ru then return (Inl 1)
      else case GetNamespace (ru_environ ru) of
        Inl e \<Rightarrow> return (Inr (Some (Wrapf ''unable to get current namespace'' e)))
      | Inr n \<Rightarrow> (case ru_construct ru ''kubernetes'' of
          Some e \<Rightarrow> return (Inr (Some (Wrapf ''unable to create k8s clientset'' e)))
        | None \<Rightarrow> (case ru_construct ru ''ecosystem'' of
            Some e \<Rightarrow> return (Inr (Some (Wrapf ''unable to create ecosystem clientset'' e)))
          | None \<Rightarrow> start n)))"

definition startScheduledBackup :: "'s runtime \<Rightarrow> string list \<Rightarrow> ('s, (err option) exiting) prog" where
  "startScheduledBackup ru args = startJob ru (\<lambda>n. case parseScheduledBackupOptions args of
       Inl code \<Rightarrow> return (Inl code)
     | Inr opts \<Rightarrow> do {
         e \<leftarrow> ScheduleBackup \<lparr>sm_clientSet = ru_env ru, sm_options = opts\<lparr>opt_namespace := n\<rparr>\<rparr>;
         return (Inr e)
       })"

definition startGarbageCollector :: "'s runtime \<Rightarrow> string list \<Rightarrow> ('s, (err option) exiting) prog" where
  "startGarbageCollector ru args = startJob ru (\<lambda>n. case parseStrategyName args of
       Inl code \<Rightarrow> return (Inl code)
     | Inr strategy \<Rightarrow> do {
         e \<leftarrow> CollectGarbage (newGcManager (ru_env ru) n strategy);
         return (Inr e)
       })"

section \<open>The options of the manager\<close>

definition managerFlags :: flag_set where
  "managerFlags = [(''metrics-bind-address'', StringFlag), (''health-probe-bind-address'', StringFlag),
     (''leader-elect'', BoolFlag)]"

definition parseManagerFlags :: "string list \<Rightarrow> manager_options \<Rightarrow> manager_options exiting" where
  "parseManagerFlags args opts = (case parseOrExit managerFlags args of
       Inl code \<Rightarrow> Inl code
     | Inr as \<Rightarrow> Inr (opts\<lparr>mo_metricsBindAddress := flagOr as ''metrics-bind-address'' '':8080'',
         mo_healthProbeBindAddress := flagOr as ''health-probe-bind-address'' '':8081'',
         mo_leaderElection := (parseBool (flagOr as ''leader-elect'' ''false'') = Some True)\<rparr>))"

definition getK8sManagerOptions :: "string list \<Rightarrow> operator_config \<Rightarrow> manager_options exiting" where
  "getK8sManagerOptions args cfg = parseManagerFlags args \<lparr>mo_defaultNamespace = oc_namespace cfg,
     mo_webhookPort = 9443, mo_leaderElectionID = ''e3f6c1a7.cloudogu.com'',
     mo_leaseDuration = 60 * second, mo_renewDeadline = 40 * second, mo_metricsBindAddress = '':8080'',
     mo_healthProbeBindAddress = [], mo_leaderElection = False,
     mo_readLive = [''BackupStorageLocation'', ''Deployment'']\<rparr>"

section \<open>The controllers\<close>

text \<open>The controllers the operator registers with the manager.\<close>

record 's operator =
  op_restores :: "'s restoreReconciler"
  op_backups :: "'s controller"
  op_veleroBackups :: "'s veleroBackupReconciler"
  op_schedules :: "'s scheduleReconciler"

text \<open>\<open>time.Duration(RequeueTimeSeconds) * time.Second\<close>, in 64 bits.\<close>

definition requeueAfterOf :: "operator_config \<Rightarrow> duration" where
  "requeueAfterOf cfg = mulDuration (oc_requeueTimeSeconds cfg) second"

definition orElse :: "string \<Rightarrow> err option \<Rightarrow> ('s, err + 'a) prog \<Rightarrow> ('s, err + 'a) prog" where
  "orElse text e m = (case e of Some e \<Rightarrow> return (Inl (Wrapf text e)) | None \<Rightarrow> m)"

definition configureRestores :: "'s runtime \<Rightarrow> operator_config \<Rightarrow> ('s, err + 's restoreReconciler) prog" where
  "configureRestores ru cfg =
     orElse ''unable to create dogu client'' (ru_construct ru ''dogu'')
     (orElse ''unable to create dynamic client'' (ru_construct ru ''dynamic'') (do {
       let rc = configureRestoreReconciler (ru_env ru) (oc_namespace cfg) (oc_requeueTimeSeconds cfg)
         (oc_backupStorageName cfg) (oc_providerDeploymentName cfg);
       e \<leftarrow> callManager (ru_env ru) (SetupController ''restore'');
       orElse ''unable to create restore controller'' e (return (Inr rc))
     }))"

definition configureBackupReconcilers ::
    "'s runtime \<Rightarrow> operator_config \<Rightarrow> ('s, err + 's controller \<times> 's veleroBackupReconciler) prog" where
  "configureBackupReconcilers ru cfg = do {
     let backupReconciler = NewReconciler (ru_env ru) (oc_backupStorageName cfg) (oc_providerDeploymentName cfg);
     let controller = backupController backupReconciler (requeueAfterOf cfg);
     e \<leftarrow> callManager (ru_env ru) (SetupController ''backup'');
     orElse ''error setting up backup controller with manager'' e (do {
       let vc = veleroBackupReconcilerOf (ru_env ru);
       e \<leftarrow> callManager (ru_env ru) (SetupController ''velero-backup'');
       orElse ''error setting up velero backup controller with manager'' e
         (return (Inr (controller, vc)))
     })
   }"

definition configureBackupScheduleReconciler ::
    "'s runtime \<Rightarrow> operator_config \<Rightarrow> string \<Rightarrow> ('s, err + 's scheduleReconciler) prog" where
  "configureBackupScheduleReconciler ru cfg stage =
     orElse ''unable to create k8s clientset'' (ru_construct ru ''kubernetes'') (do {
       image \<leftarrow> ImageForKey (ru_env ru) (oc_namespace cfg) ''operatorImage'';
       case image of
         Inl e \<Rightarrow> return (Inl (Wrapf ''failed to get operator image'' e))
       | Inr operatorImage \<Rightarrow> do {
           let sc = newScheduleReconciler (ru_env ru) (GetStagePullPolicy stage) operatorImage
             (oc_imagePullSecrets cfg);
           e \<leftarrow> callManager (ru_env ru) (SetupController ''backup-schedule'');
           orElse ''unable to create backupSchedule controller'' e (return (Inr sc))
         }
     })"

definition configureReconcilers :: "'s runtime \<Rightarrow> operator_config \<Rightarrow> string \<Rightarrow> ('s, err + 's operator) prog" where
  "configureReconcilers ru cfg stage =
     orElse ''unable to create k8s client'' (ru_construct ru ''client'') (do {
       r \<leftarrow> configureRestores ru cfg;
       case r of
         Inl e \<Rightarrow> return (Inl (Wrapf ''error setting up restore controller with manager'' e))
       | Inr rc \<Rightarrow> do {
           b \<leftarrow> configureBackupReconcilers ru cfg;
           case b of
             Inl e \<Rightarrow> return (Inl (Wrapf ''error setting up backup controller with manager'' e))
           | Inr (bc, vc) \<Rightarrow> do {
               s \<leftarrow> configureBackupScheduleReconciler ru cfg stage;
               return (case s of
                 Inl e \<Rightarrow> Inl (Wrapf ''error setting up backup schedule controller with manager'' e)
               | Inr sc \<Rightarrow> Inr \<lparr>op_restores = rc, op_backups = bc,
                   op_veleroBackups = vc, op_schedules = sc\<rparr>)
             }
         }
     })"

definition addChecks :: "'s runtime \<Rightarrow> ('s, err option) prog" where
  "addChecks ru = do {
     e \<leftarrow> callManager (ru_env ru) (AddHealthzCheck ''healthz'');
     case e of
       Some e \<Rightarrow> return (Some (Wrapf ''unable to set up health check'' e))
     | None \<Rightarrow> do {
         e \<leftarrow> callManager (ru_env ru) (AddReadyzCheck ''readyz'');
         return (case e of None \<Rightarrow> None | Some e \<Rightarrow> Some (Wrapf ''unable to set up ready check'' e))
       }
   }"

definition configureManager :: "'s runtime \<Rightarrow> operator_config \<Rightarrow> string \<Rightarrow> ('s, err + 's operator) prog" where
  "configureManager ru cfg stage = do {
     configured \<leftarrow> configureReconcilers ru cfg stage;
     case configured of
       Inl e \<Rightarrow> return (Inl (Wrapf ''unable to configure reconciler'' e))
     | Inr operator \<Rightarrow> do {
         e \<leftarrow> addChecks ru;
         orElse ''unable to add checks to the manager'' e (return (Inr operator))
       }
   }"

definition startK8sManager :: "'s runtime \<Rightarrow> ('s, err option) prog" where
  "startK8sManager ru = do {
     e \<leftarrow> callManager (ru_env ru) StartManager;
     return (case e of None \<Rightarrow> None | Some e \<Rightarrow> Some (Wrapf ''problem running manager'' e))
   }"

text \<open>\<open>startOperator\<close>; \<open>Start\<close> runs the controllers until the process is told to stop.\<close>

definition startOperator :: "'s runtime \<Rightarrow> string list \<Rightarrow> ('s, (err option) exiting) prog" where
  "startOperator ru args = (case NewOperatorConfig (ru_newVersion ru) (ru_environ ru) (ru_version ru) of
       (Inl e, _) \<Rightarrow> return (Inr (Some (Wrapf ''unable to create operator config'' e)))
     | (Inr cfg, stage) \<Rightarrow> (case getK8sManagerOptions args cfg of
         Inl code \<Rightarrow> return (Inl code)
       | Inr opts \<Rightarrow>
           if \<not> ru_kubeconfig ru then return (Inl 1)
           else case ru_newManager ru opts of
             Some e \<Rightarrow> return (Inr (Some (Wrapf ''unable to start manager'' e)))
           | None \<Rightarrow> do {
               configured \<leftarrow> configureManager ru cfg stage;
               case configured of
                 Inl e \<Rightarrow> return (Inr (Some (Wrapf ''unable to configure manager'' e)))
               | Inr operator \<Rightarrow> do {
                   e \<leftarrow> startK8sManager ru;
                   return (Inr e)
                 }
             }))"

section \<open>The process\<close>

text \<open>The exit code of a subcommand: 1 after an error, unless the process exited by itself.\<close>

definition exitCode :: "(err option) exiting \<Rightarrow> nat" where
  "exitCode r = (case r of Inl code \<Rightarrow> code | Inr None \<Rightarrow> 0 | Inr (Some e) \<Rightarrow> 1)"

text \<open>
  \<open>main\<close> on \<open>os.Args\<close>; it configures the logger before anything reads the stage, which is still the
  initial value of the variable then. The \<^verbatim>\<open>switch\<close> has no default case.
\<close>

definition loggerOptions :: "'s runtime \<Rightarrow> string zap_options" where
  "loggerOptions ru = getZapOptions (ru_parseLevel ru) ''info'' (ru_environ ru) StageProduction"

definition mainProgram :: "'s runtime \<Rightarrow> string list \<Rightarrow> ('s, nat) prog" where
  "mainProgram ru args =
     (if length args < 2 then return 1
      else if args ! 1 = ''operator'' then do {
        r \<leftarrow> startOperator ru (drop 2 args);
        return (exitCode r)
      }
      else if args ! 1 = ''scheduled-backup'' then do {
        r \<leftarrow> startScheduledBackup ru (drop 2 args);
        return (exitCode r)
      }
      else if args ! 1 = ''gc'' then do {
        r \<leftarrow> startGarbageCollector ru (drop 2 args);
        return (exitCode r)
      }
      else return 0)"

end
