(* ===== verification/EntryProperties.thy ===== *)
theory EntryProperties
  imports EntryPoint ScheduleProperties
begin

text \<open>
  What holds of the process as a whole: the order of the operator's start, the values of the configuration
  in the controllers, the jobs end to end, and the exit codes.
\<close>

section \<open>Starting the operator\<close>

fun succeeded :: "manager_call \<Rightarrow> event \<Rightarrow> bool" where
  "succeeded c (OnManager d None) = (d = c)"
| "succeeded c e = False"

lemma succeeded_iff: "succeeded c (OnManager d r) \<longleftrightarrow> d = c \<and> r = None"
  by (cases r) auto

fun startsManager :: "event \<Rightarrow> bool" where
  "startsManager (OnManager StartManager r) = True"
| "startsManager e = False"

definition setupCalls :: "manager_call list" where
  "setupCalls = [SetupController ''restore'', SetupController ''backup'', SetupController ''velero-backup'',
     SetupController ''backup-schedule'', AddHealthzCheck ''healthz'', AddReadyzCheck ''readyz'']"

text \<open>A step of the setup: it does not start the manager, and unless it fails all calls of \<open>C\<close> succeeded.\<close>

definition setsUp :: "manager_call list \<Rightarrow> bool \<Rightarrow> event list \<Rightarrow> bool" where
  "setsUp C ok es \<longleftrightarrow> list_all (\<lambda>e. \<not> startsManager e) es \<and> (ok \<longrightarrow> list_all (\<lambda>c. list_ex (succeeded c) es) C)"

lemma setsUp_append:
  "setsUp C True es \<Longrightarrow> setsUp D ok es' \<Longrightarrow> setsUp (C @ D) ok (es @ es')"
  by (auto simp: setsUp_def list_all_iff list_ex_iff)

lemma setsUp_failed: "setsUp C ok es \<Longrightarrow> setsUp D False es"
  by (simp add: setsUp_def)

definition succeeds :: "err + 'a \<Rightarrow> bool" where
  "succeeds r \<longleftrightarrow> (\<exists>x. r = Inr x)"

lemma succeeds_simps [simp]: "succeeds (Inr x)" "\<not> succeeds (Inl e)"
  by (simp_all add: succeeds_def)

lemma orElse_outcome:
  "(\<And>x. e = Some x \<Longrightarrow> Q (Inl (Wrapf t x)) []) \<Longrightarrow> (e = None \<Longrightarrow> outcome m Q) \<Longrightarrow> outcome (orElse t e m) Q"
  unfolding orElse_def by (cases e) (auto intro: outcome_return)

lemma callManager_setsUp:
  "(\<And>r. setsUp [c] (r = None) [OnManager c r] \<Longrightarrow> Q r [OnManager c r]) \<Longrightarrow> c \<noteq> StartManager \<Longrightarrow>
     outcome (callManager E c) Q"
proof (rule outcome_callManager, goal_cases)
  case (1 r)
  moreover have "setsUp [c] (r = None) [OnManager c r]"
    using 1(2) by (cases c; cases r) (auto simp: setsUp_def)
  ultimately show ?case by blast
qed

lemma ImageForKey_outcome:
  assumes "\<And>r x. (\<And>image. x = Inr image \<Longrightarrow> image \<noteq> [] \<and> imageTagMatches E image = Inr True \<and>
      (\<exists>cm. r = Inr cm \<and> cm_data cm k = Some image)) \<Longrightarrow>
    Q x [OnConfigMap (Get (n, OperatorAdditionalImagesConfigmapName) r)]"
  shows "outcome (ImageForKey E n k) Q"
  unfolding ImageForKey_def
  by (auto intro!: outcome_intro assms simp: verifyImageTag_def Let_def
      split: sum.splits option.splits if_splits)

text \<open>The controllers are wired to the values of the configuration, the image to its ConfigMap.\<close>

definition wiredTo :: "'s runtime \<Rightarrow> operator_config \<Rightarrow> string \<Rightarrow> string \<Rightarrow> 's operator \<Rightarrow> bool" where
  "wiredTo ru cfg stage operatorImage op \<longleftrightarrow>
     op = \<lparr>op_restores = configureRestoreReconciler (ru_env ru) (oc_namespace cfg) (oc_requeueTimeSeconds cfg)
         (oc_backupStorageName cfg) (oc_providerDeploymentName cfg),
       op_backups = backupController (NewReconciler (ru_env ru) (oc_backupStorageName cfg)
         (oc_providerDeploymentName cfg)) (requeueAfterOf cfg),
       op_veleroBackups = veleroBackupReconcilerOf (ru_env ru),
       op_schedules = newScheduleReconciler (ru_env ru) (GetStagePullPolicy stage) operatorImage
         (oc_imagePullSecrets cfg)\<rparr>"

definition imageFrom :: "'s runtime \<Rightarrow> operator_config \<Rightarrow> string \<Rightarrow> event list \<Rightarrow> bool" where
  "imageFrom ru cfg operatorImage es \<longleftrightarrow> operatorImage \<noteq> [] \<and> imageTagMatches (ru_env ru) operatorImage = Inr True \<and>
     (\<exists>cm. cm_data cm ''operatorImage'' = Some operatorImage \<and>
       OnConfigMap (Get (oc_namespace cfg, OperatorAdditionalImagesConfigmapName) (Inr cm)) \<in> set es)"

lemma configureRestores_setsUp:
  "outcome (configureRestores ru cfg) (\<lambda>r es. setsUp [SetupController ''restore''] (succeeds r) es \<and>
     (\<forall>rc. r = Inr rc \<longrightarrow> rc = configureRestoreReconciler (ru_env ru) (oc_namespace cfg)
       (oc_requeueTimeSeconds cfg) (oc_backupStorageName cfg) (oc_providerDeploymentName cfg)))"
  unfolding configureRestores_def Let_def
  by (auto intro!: orElse_outcome outcome_bind callManager_setsUp outcome_return elim: setsUp_failed simp: setsUp_def)

lemma configureBackups_setsUp:
  "outcome (configureBackupReconcilers ru cfg)
     (\<lambda>r es. setsUp [SetupController ''backup'', SetupController ''velero-backup''] (succeeds r) es \<and>
       (\<forall>bc vc. r = Inr (bc, vc) \<longrightarrow> vc = veleroBackupReconcilerOf (ru_env ru) \<and>
         bc = backupController (NewReconciler (ru_env ru) (oc_backupStorageName cfg)
           (oc_providerDeploymentName cfg)) (requeueAfterOf cfg)))"
  unfolding configureBackupReconcilers_def Let_def
  by (auto intro!: orElse_outcome outcome_bind callManager_setsUp outcome_return simp: setsUp_def)

lemma configureSchedules_setsUp:
  "outcome (configureBackupScheduleReconciler ru cfg stage)
     (\<lambda>r es. setsUp [SetupController ''backup-schedule''] (succeeds r) es \<and>
       (\<forall>sc. r = Inr sc \<longrightarrow> (\<exists>image. imageFrom ru cfg image es \<and>
         sc = newScheduleReconciler (ru_env ru) (GetStagePullPolicy stage) image (oc_imagePullSecrets cfg))))"
  unfolding configureBackupScheduleReconciler_def Let_def imageFrom_def
  by (auto intro!: orElse_outcome outcome_bind callManager_setsUp ImageForKey_outcome outcome_return
      simp: setsUp_def split: sum.splits)

lemma imageFrom_append: "imageFrom ru cfg i es \<Longrightarrow> imageFrom ru cfg i (es' @ es)"
  unfolding imageFrom_def by auto

definition configured :: "'s runtime \<Rightarrow> operator_config \<Rightarrow> string \<Rightarrow> err + 's operator \<Rightarrow> event list \<Rightarrow> bool" where
  "configured ru cfg stage r es \<longleftrightarrow>
     (case r of Inl _ \<Rightarrow> True | Inr op \<Rightarrow> \<exists>image. imageFrom ru cfg image es \<and> wiredTo ru cfg stage image op)"

lemma configureReconcilers_setsUp:
  "outcome (configureReconcilers ru cfg stage) (\<lambda>r es. configured ru cfg stage r es \<and>
     setsUp [SetupController ''restore'', SetupController ''backup'', SetupController ''velero-backup'',
       SetupController ''backup-schedule''] (succeeds r) es)"
  unfolding configureReconcilers_def
proof (rule orElse_outcome, goal_cases)
  case (1 x)
  then show ?case by (simp add: setsUp_def configured_def)
next
  case 2
  show ?case
  proof (rule outcome_call [OF configureRestores_setsUp], goal_cases)
    case (1 r es)
    show ?case
    proof (cases r)
      case (Inl e)
      with 1 show ?thesis by (auto simp: configured_def setsUp_def intro!: outcome_return)
    next
      case (Inr rc)
      show ?thesis unfolding Inr sum.case
      proof (rule outcome_call [OF configureBackups_setsUp], goal_cases)
        case (1 b es')
        show ?case
        proof (cases b)
          case (Inl e)
          with 1 \<open>setsUp _ (succeeds r) es \<and> _\<close> show ?thesis
            by (auto simp: configured_def setsUp_def intro!: outcome_return)
        next
          case b: (Inr cs)
          obtain bc vc where cs: "cs = (bc, vc)" by fastforce
          show ?thesis unfolding b cs sum.case prod.case
            using 1 \<open>setsUp _ (succeeds r) es \<and> _\<close> Inr b cs
            by (intro outcome_call [OF configureSchedules_setsUp])
              (auto simp: configured_def setsUp_def wiredTo_def intro!: outcome_return
                split: sum.splits, blast intro: imageFrom_append)
        qed
      qed
    qed
  qed
qed

lemma addChecks_setsUp:
  "outcome (addChecks ru) (\<lambda>e es. setsUp [AddHealthzCheck ''healthz'', AddReadyzCheck ''readyz''] (e = None) es)"
  unfolding addChecks_def
  by (auto intro!: outcome_bind callManager_setsUp outcome_return simp: setsUp_def split: option.splits)

lemma configureManager_setsUp:
  "outcome (configureManager ru cfg stage) (\<lambda>r es. configured ru cfg stage r es \<and> setsUp setupCalls (succeeds r) es)"
  unfolding configureManager_def
proof (rule outcome_call [OF configureReconcilers_setsUp], goal_cases)
  case (1 r es)
  show ?case
  proof (cases r)
    case (Inl e)
    with 1 show ?thesis by (auto simp: configured_def setsUp_def intro!: outcome_return)
  next
    case (Inr op)
    have mono: "configured ru cfg stage (Inr op) (es @ es')" for es'
      using 1 Inr by (auto simp: configured_def imageFrom_def)
    show ?thesis unfolding Inr sum.case
      using 1 Inr mono by (intro outcome_call [OF addChecks_setsUp])
        (auto simp: configured_def setsUp_def setupCalls_def intro!: orElse_outcome outcome_return)
  qed
qed

section \<open>Properties\<close>

text \<open>
  C23: The manager is only started after the four controllers and both probes were set up without error;
  starting the operator returns no error exactly when the manager was started and ended without one.
\<close>

theorem operator_starts_complete:
  "outcome (startOperator ru args) (\<lambda>r es.
     list_all (\<lambda>c. preceded (succeeded c) startsManager es) setupCalls \<and>
     (r = Inr None \<longleftrightarrow> list_ex (succeeded StartManager) es))"
  (is "outcome _ ?R")
proof -
  have none: "preceded G startsManager es" if "list_all (\<lambda>e. \<not> startsManager e) es" for G es
    using that by (auto simp: list_all_iff intro: preceded_none)
  have start: "startsManager e" if "succeeded StartManager e" for e
    using that by (cases "(StartManager, e)" rule: succeeded.cases) auto
  have run: "outcome (do {
      r \<leftarrow> configureManager ru cfg stage;
      case r of
        Inl e \<Rightarrow> return (Inr (Some (Wrapf ''unable to configure manager'' e)))
      | Inr operator \<Rightarrow> do { e \<leftarrow> startK8sManager ru; return (Inr e) }
    }) ?R" for cfg stage
    unfolding startK8sManager_def
    by (rule outcome_call [OF configureManager_setsUp])
      (auto simp: setsUp_def none preceded_append list_all_iff list_ex_iff succeeded_iff dest: start
        intro!: outcome_return outcome_bind outcome_callManager split: sum.splits option.splits)
  show ?thesis
    unfolding startOperator_def
    by (auto intro!: outcome_return run simp: list.pred_True split: prod.splits sum.splits option.splits)
qed

text \<open>
  The controllers of the operator are wired to one configuration: the restore and the backup
  controller share the namespace's environment, the storage name, the provider deployment and the requeue
  time, and the schedule controller uses the pull policy of the stage, the pull secrets, and an operator
  image that was read from the images ConfigMap and matches the syntax of image references.
\<close>

theorem operator_wired:
  "outcome (configureReconcilers ru cfg stage) (\<lambda>r es. configured ru cfg stage r es)"
  by (rule outcome_mono [OF configureReconcilers_setsUp]) simp

text \<open>
  C39: With a requeue time taken from the environment, the delay of the controllers is that number of
  seconds exactly when the number is at most 9223372036; beyond, the 64-bit multiplication wraps around.
\<close>

theorem requeue_after_exact:
  assumes "getBackupRequeueTimeSeconds (ru_environ ru) = Inr (oc_requeueTimeSeconds cfg)"
  shows "0 < oc_requeueTimeSeconds cfg \<and>
    (requeueAfterOf cfg = oc_requeueTimeSeconds cfg * second \<longleftrightarrow> oc_requeueTimeSeconds cfg \<le> 9223372036)"
proof -
  note range = requeue_seconds_range [OF assms]
  have "requeueAfterOf cfg = oc_requeueTimeSeconds cfg * second"
    if "oc_requeueTimeSeconds cfg \<le> 9223372036"
    using that range unfolding requeueAfterOf_def mulDuration_def
    by (intro wrap64_id) (auto simp: minInt64_def maxInt64_def second_def)
  moreover have "requeueAfterOf cfg \<noteq> oc_requeueTimeSeconds cfg * second"
    if "\<not> oc_requeueTimeSeconds cfg \<le> 9223372036"
    using that wrap64_range [of "oc_requeueTimeSeconds cfg * second"]
    by (auto simp: requeueAfterOf_def mulDuration_def maxInt64_def second_def)
  ultimately show ?thesis using range by blast
qed

text \<open>A process whose environment asks for 30 seconds; every constructor succeeds.\<close>

definition demoRuntime :: "cluster runtime" where
  "demoRuntime = \<lparr>ru_env = clusterEnv, ru_environ = [''NAMESPACE'' \<mapsto> ''ns'', ''BACKUP_REQUEUE_TIME'' \<mapsto> ''30''],
     ru_kubeconfig = True, ru_construct = (\<lambda>_. None), ru_newManager = (\<lambda>_. None), ru_newVersion = Inr,
     ru_parseLevel = Inr, ru_version = ''1.0.0''\<rparr>"

definition demoConfig :: "int \<Rightarrow> operator_config" where
  "demoConfig n = \<lparr>oc_version = ''1.0.0'', oc_namespace = ''ns'', oc_imagePullSecrets = [], oc_requeueTimeSeconds = n,
     oc_backupStorageName = ''default'', oc_providerDeploymentName = ''velero''\<rparr>"

text \<open>With 9223372037 seconds the delay is negative.\<close>

theorem requeue_after_exact_witness:
  "requeueAfterOf (demoConfig 30) = 30 * second \<and>
   requeueAfterOf (demoConfig 9223372037) \<noteq> 9223372037 * second \<and> requeueAfterOf (demoConfig 9223372037) < 0"
proof -
  have "getBackupRequeueTimeSeconds (ru_environ (demoRuntime\<lparr>ru_environ :=
      Map.empty(''BACKUP_REQUEUE_TIME'' \<mapsto> showInt n)\<rparr>)) = Inr (oc_requeueTimeSeconds (demoConfig n))"
    if "0 < n" "n \<le> maxInt64" for n
    using requeue_seconds_given [OF that, of Map.empty] by (simp add: demoConfig_def)
  from requeue_after_exact [OF this, of 30] requeue_after_exact [OF this, of 9223372037] show ?thesis
    by (simp add: demoConfig_def maxInt64_def requeueAfterOf_def mulDuration_def second_def wrap64_def)
qed

text \<open>
  A scheduled backup, end to end: called with the flags \<open>--name\<close> and \<open>--provider\<close>, the process
  creates the backup of that schedule in the namespace of its environment, and exits with 0 exactly when the
  creation was accepted.
\<close>

theorem scheduled_job_end_to_end:
  assumes "ru_kubeconfig ru" "GetNamespace (ru_environ ru) = Inr n" "ru_construct ru = (\<lambda>_. None)"
  shows "outcome (mainProgram ru [prog, ''scheduled-backup'', renderFlag (''name'', nm), renderFlag (''provider'', p)])
    (\<lambda>code es. \<exists>now r. es = [OnBackup (Create
       (createdByJob \<lparr>opt_name = nm, opt_namespace = n, opt_provider = p\<rparr> now) r)] \<and>
       (code = 0 \<longleftrightarrow> (\<exists>b. r = Inr b)))"
proof -
  have "parseFlags scheduledBackupFlags (List.map renderFlag [(''name'', nm), (''provider'', p)]) =
      Parsed [(''name'', nm), (''provider'', p)] []"
    by (rule parseFlags_render) (simp add: plainName_def scheduledBackupFlags_def)
  then have "parseScheduledBackupOptions [renderFlag (''name'', nm), renderFlag (''provider'', p)] =
      Inr \<lparr>opt_name = nm, opt_namespace = [], opt_provider = p\<rparr>"
    by (simp add: parseScheduledBackupOptions_def parseOrExit_def flagOr_def)
  with assms show ?thesis
    unfolding mainProgram_def startScheduledBackup_def startJob_def ScheduleBackup_def Let_def
    by (auto simp: exitCode_def createdByJob_def scheduledBackup_def intro!: outcome_intro split: sum.splits)
qed

theorem scheduled_job_end_to_end_witness:
  "\<exists>now r. events (mainProgram demoRuntime [''backup'', ''scheduled-backup'', renderFlag (''name'', ''nightly''),
       renderFlag (''provider'', ''velero'')]) \<lparr>outside = emptyCluster 0, log = []\<rparr> =
     [OnBackup (Create (createdByJob \<lparr>opt_name = ''nightly'', opt_namespace = ''ns'', opt_provider = ''velero''\<rparr> now) r)]"
proof -
  have "ru_kubeconfig demoRuntime" "GetNamespace (ru_environ demoRuntime) = Inr ''ns''"
    "ru_construct demoRuntime = (\<lambda>_. None)"
    by (simp_all add: demoRuntime_def GetNamespace_def getEnvVar_def)
  from outcomeD [OF scheduled_job_end_to_end [OF this]] show ?thesis by blast
qed

text \<open>
  The strategy of the garbage collector and the name and provider of a scheduled backup survive the way
  through the command line, whatever characters they hold; without flags the strategy is \<open>keepAll\<close>.
\<close>

theorem flags_roundtrip:
  "parseScheduledBackupOptions (List.map renderFlag [(''name'', nm), (''provider'', p)]) =
     Inr \<lparr>opt_name = nm, opt_namespace = [], opt_provider = p\<rparr> \<and>
   parseStrategyName (List.map renderFlag [(''strategy'', s)]) = Inr s \<and> parseStrategyName [] = Inr ''keepAll''"
proof -
  have "parseFlags scheduledBackupFlags (List.map renderFlag [(''name'', nm), (''provider'', p)]) =
      Parsed [(''name'', nm), (''provider'', p)] []"
    "parseFlags strategyFlags (List.map renderFlag [(''strategy'', s)]) = Parsed [(''strategy'', s)] []"
    "parseFlags strategyFlags (List.map renderFlag []) = Parsed [] []"
    by (rule parseFlags_render; simp add: plainName_def scheduledBackupFlags_def strategyFlags_def)+
  then show ?thesis
    by (simp add: parseScheduledBackupOptions_def parseStrategyName_def parseOrExit_def flagOr_def)
qed

text \<open>
  An unknown subcommand does nothing and exits with 0, as if it had succeeded; a missing one exits with 1.
\<close>

theorem unknown_subcommand:
  assumes "c \<notin> set [''operator'', ''scheduled-backup'', ''gc'']"
  shows "outcome (mainProgram ru (prog # c # args)) (\<lambda>code es. code = 0 \<and> es = []) \<and>
    outcome (mainProgram ru [prog]) (\<lambda>code es. code = 1 \<and> es = [])"
  using assms by (auto simp: mainProgram_def intro!: outcome_return)

theorem unknown_subcommand_witness:
  "result (mainProgram demoRuntime [''backup'', ''restore'']) \<lparr>outside = emptyCluster 0, log = []\<rparr> = 0"
  using outcomeD [OF conjunct1 [OF unknown_subcommand [of "''restore''" demoRuntime "''backup''" "[]"]]] by simp

text \<open>The logger is configured while the stage still has its initial value: never in development mode.\<close>

lemma logger_never_in_development: "\<not> zo_development (loggerOptions ru)"
  by (simp add: loggerOptions_def getZapOptions_def Let_def IsStageDevelopment_def StageProduction_def StageDevelopment_def)

end
