(* ===== verification/Watches.thy ===== *)
theory Watches
  imports Kube
begin

text \<open>
  How the controllers are registered with the manager (their \<open>SetupWithManager\<close>): the kind a controller
  reconciles, the kinds it owns, its name, and which events of the watched objects wake it up. The builder
  and the predicates it offers are controller-runtime's; \<open>generationChanged\<close> stands for
  \<open>predicate.GenerationChangedPredicate\<close>, whose documented behaviour is \<open>generation_law\<close>.
\<close>

section \<open>Registrations\<close>

datatype kind = BackupKind | VeleroBackupKind | RestoreKind | VeleroRestoreKind | BackupScheduleKind | CronJobKind

datatype watch_event =
  CreateEvent obj_meta | UpdateEvent obj_meta obj_meta | DeleteEvent obj_meta | GenericEvent obj_meta

record registration =
  rg_name :: string
  rg_for :: kind
  rg_owns :: "kind list"
  rg_filter :: "watch_event \<Rightarrow> bool"

text \<open>A controller that is not named gets the name of its kind in lower case.\<close>

fun defaultName :: "kind \<Rightarrow> string" where
  "defaultName BackupKind = ''backup''"
| "defaultName VeleroBackupKind = ''backup''"
| "defaultName RestoreKind = ''restore''"
| "defaultName VeleroRestoreKind = ''restore''"
| "defaultName BackupScheduleKind = ''backupschedule''"
| "defaultName CronJobKind = ''cronjob''"

text \<open>\<open>predicate.Funcs\<close> with an update function only, and \<open>predicate.Or\<close>.\<close>

definition updateFunc :: "(obj_meta \<Rightarrow> obj_meta \<Rightarrow> bool) \<Rightarrow> watch_event \<Rightarrow> bool" where
  "updateFunc f ev = (case ev of UpdateEvent old new \<Rightarrow> f old new | _ \<Rightarrow> True)"

definition eitherOf :: "(watch_event \<Rightarrow> bool) \<Rightarrow> (watch_event \<Rightarrow> bool) \<Rightarrow> watch_event \<Rightarrow> bool" where
  "eitherOf p q ev \<longleftrightarrow> p ev \<or> q ev"

definition deletionRequested :: "obj_meta \<Rightarrow> obj_meta \<Rightarrow> bool" where
  "deletionRequested old new \<longleftrightarrow> o_deletion old = None \<and> o_deletion new \<noteq> None"

definition setupBackups :: "(watch_event \<Rightarrow> bool) \<Rightarrow> registration" where
  "setupBackups generationChanged = \<lparr>rg_name = defaultName BackupKind, rg_for = BackupKind, rg_owns = [],
     rg_filter = eitherOf generationChanged (updateFunc deletionRequested)\<rparr>"

definition setupVeleroBackups :: registration where
  "setupVeleroBackups = \<lparr>rg_name = ''velero-backup-sync'', rg_for = VeleroBackupKind, rg_owns = [],
     rg_filter = (\<lambda>_. True)\<rparr>"

definition setupRestores :: registration where
  "setupRestores = \<lparr>rg_name = defaultName RestoreKind, rg_for = RestoreKind, rg_owns = [VeleroRestoreKind],
     rg_filter = (\<lambda>_. True)\<rparr>"

definition setupSchedules :: registration where
  "setupSchedules = \<lparr>rg_name = defaultName BackupScheduleKind, rg_for = BackupScheduleKind,
     rg_owns = [CronJobKind], rg_filter = (\<lambda>_. True)\<rparr>"

section \<open>What wakes a controller\<close>

text \<open>The generation of an object counts the changes of its specification.\<close>

definition generation_law :: "(watch_event \<Rightarrow> bool) \<Rightarrow> bool" where
  "generation_law p \<longleftrightarrow> (\<forall>ev. p ev \<longleftrightarrow> (case ev of
     UpdateEvent old new \<Rightarrow> o_generation new \<noteq> o_generation old | _ \<Rightarrow> True))"

text \<open>An update that leaves specification and deletion alone: of the status, labels or finalizers.\<close>

definition specUntouched :: "obj_meta \<Rightarrow> obj_meta \<Rightarrow> bool" where
  "specUntouched old new \<longleftrightarrow> o_generation new = o_generation old \<and> o_deletion new = o_deletion old"

text \<open>
  The backup controller does not wake up by its own writes of status, labels and finalizers, only by a
  changed specification or a deletion request; the other controllers do, which is why theirs must come to
  rest by themselves.
\<close>

lemma backup_writes_do_not_wake:
  assumes "generation_law p" "specUntouched old new"
  shows "\<not> rg_filter (setupBackups p) (UpdateEvent old new)"
    and "rg_filter setupRestores (UpdateEvent old new)" "rg_filter setupSchedules (UpdateEvent old new)"
  using assms by (auto simp: generation_law_def specUntouched_def setupBackups_def setupRestores_def setupSchedules_def
      eitherOf_def updateFunc_def deletionRequested_def)

lemma backup_deletion_wakes:
  "deletionRequested old new \<Longrightarrow> rg_filter (setupBackups p) (UpdateEvent old new)"
  by (simp add: setupBackups_def eitherOf_def updateFunc_def)

text \<open>The manager refuses two controllers of the same name; Velero's backups would share that of backups.\<close>

lemma controller_names_distinct:
  "distinct (List.map rg_name [setupBackups p, setupVeleroBackups, setupRestores, setupSchedules]) \<and>
   defaultName VeleroBackupKind = rg_name (setupBackups p)"
  by (simp add: setupBackups_def setupVeleroBackups_def setupRestores_def setupSchedules_def)

end
