(* ===== verification/LeaseProtocol.thy ===== *)
theory LeaseProtocol
  imports BackupLease RestoreStages
begin

text \<open>
  Backups and restores compete for one lease (\<open>docs/development/parallel_access_en.md\<close>). Here any number
  of calls of \<open>Acquire\<close>, \<open>Holds\<close> and \<open>Release\<close>, for any backups and restores, run interleaved, call by call,
  against one API server. A call of the code is one of the runs of its definition: the log it has
  written so far is the beginning of the log of a run (\<open>performs\<close>). The server answers a call from its state,
  it may answer reads of the lease with an outdated version, it may fail at any time, and the answer of a
  call that took effect may get lost (\<open>serves\<close>). Between the calls backups and restores end, vanish
  and are created anew (\<open>evolves\<close>).
\<close>

section \<open>What a call to \<open>Acquire\<close> writes\<close>

text \<open>
  The logs of \<open>Acquire\<close>, with the answer whether the lease was granted; \<open>S l e\<close>: the event \<open>e\<close> shows the
  holder of the lease \<open>l\<close> to be stale.
\<close>

inductive acquisition ::
    "(lease \<Rightarrow> event \<Rightarrow> bool) \<Rightarrow> key \<Rightarrow> 'x obj_meta_scheme \<Rightarrow> string \<Rightarrow> bool \<Rightarrow> event list \<Rightarrow> bool" for S k h kind where
  failed: "acquisition S k h kind False [OnLease (Get k (Inl e))]"
| created: "IsHolder l h kind \<Longrightarrow> keyOf l = k \<Longrightarrow> (g \<longrightarrow> (\<exists>x. u = Inr x)) \<Longrightarrow>
    acquisition S k h kind g [OnLease (Get k (Inl e)), OnLease (Create l u)]"
| decided: "(g \<longrightarrow> IsHolder l h kind) \<Longrightarrow> acquisition S k h kind g [OnLease (Get k (Inr l))]"
| waits: "observing e \<Longrightarrow> (\<And>c. e \<noteq> OnLease c) \<Longrightarrow> acquisition S k h kind False [OnLease (Get k (Inr l)), e]"
| takesOver: "S l e \<Longrightarrow> observing e \<Longrightarrow> (\<And>c. e \<noteq> OnLease c) \<Longrightarrow> (g \<longrightarrow> (\<exists>x. u = Inr x)) \<Longrightarrow>
    acquisition S k h kind g [OnLease (Get k (Inr l)), e, OnLease (Update (claimed l h kind t) u)]"

definition grants :: "err + lease_result \<Rightarrow> bool" where
  "grants res \<longleftrightarrow> (case res of Inl _ \<Rightarrow> False | Inr a \<Rightarrow> lr_state a \<in> {StateHeld, StateAcquired})"

lemma grants_simps [simp]:
  "\<not> grants (Inl e)" "grants (Inr \<lparr>lr_state = s, lr_holder = n\<rparr>) \<longleftrightarrow> s = StateHeld \<or> s = StateAcquired"
  by (auto simp: grants_def)

lemma claimed_parts [simp]:
  "o_namespace (claimed l h kind t) = o_namespace l" "o_name (claimed l h kind t) = o_name l"
  "HolderUID (claimed l h kind t) = o_uid h" "holderName (claimed l h kind t) = o_name h"
  "holderKind (claimed l h kind t) = kind"
  by (simp_all add: claimed_def HolderUID_def lookupStr_def)

lemma createLease_log:
  "outcome (createLease m h kind) (\<lambda>res es. \<exists>l u. es = [OnLease (Create l u)] \<and> IsHolder l h kind \<and>
     keyOf l = leaseKey m \<and> (grants res \<longrightarrow> (\<exists>x. u = Inr x)))"
  unfolding createLease_def NewLease_def emptyLease_def newMeta_def
  by (auto intro!: outcome_intro simp: obj_meta.defs split: sum.splits if_splits)

lemma takeOver_log:
  "outcome (takeOver m l h kind) (\<lambda>res es. \<exists>t u. es = [OnLease (Update (claimed l h kind t) u)] \<and>
     (grants res \<longrightarrow> (\<exists>x. u = Inr x)))"
  unfolding takeOver_def
  by (auto intro!: outcome_intro split: sum.splits if_splits)

context holder_resolver
begin

definition sawStale :: "lease \<Rightarrow> event \<Rightarrow> bool" where
  "sawStale l e \<longleftrightarrow> (\<exists>a. e = obs (o_namespace l) (holderName l) a \<and> stale l a) \<and> holderKind l = rv_kind r"

lemma inspect_log:
  assumes "m_resolvers m = [rv_kind r \<mapsto> r]"
  shows "outcome (inspect m l) (\<lambda>ins es. es = [] \<and> ins = Inr None \<or>
     (\<exists>a. es = [obs (o_namespace l) (holderName l) a] \<and> ins \<noteq> Inr None \<and>
       (ins = Inr (Some None) \<longrightarrow> sawStale l (obs (o_namespace l) (holderName l) a))))"
  unfolding inspect_def Let_def assms
  by (auto intro!: outcome_return outcome_call [OF resolve_outcome] simp: sawStale_def
      split: sum.splits if_splits option.splits)

lemma Acquire_log:
  assumes "m_resolvers m = [rv_kind r \<mapsto> r]" "\<And>n nm a c. obs n nm a \<noteq> OnLease c"
  shows "outcome (Acquire m h kind) (\<lambda>res es. acquisition sawStale (leaseKey m) h kind (grants res) es)"
  unfolding Acquire_def
proof (rule outcome_bind, rule outcome_apiGet, goal_cases)
  case (1 got)
  show ?case
  proof (cases got)
    case (Inl e)
    then show ?thesis
      by (auto intro!: outcome_return outcome_mono [OF createLease_log] intro: acquisition.intros)
  next
    case (Inr l)
    show ?thesis
    proof (cases "IsHolder l h kind")
      case True
      with Inr show ?thesis by (auto intro!: outcome_return acquisition.intros)
    next
      case held: False
      show ?thesis
      proof (cases "holderKind l \<noteq> [] \<and> m_resolvers m (holderKind l) = None")
        case True
        with Inr held show ?thesis by (auto intro!: outcome_return acquisition.intros)
      next
        case False
        note intros = acquisition.intros
        show ?thesis
          unfolding Inr sum.case if_not_P [OF held] if_not_P [OF False]
        proof (rule outcome_call [OF inspect_log [OF assms(1)]], goal_cases)
          case (1 ins es)
          then show ?case
            by (auto intro!: outcome_return outcome_mono [OF takeOver_log] intros
                simp: obs_observes assms(2) split: sum.splits option.splits)
        qed
      qed
    qed
  qed
qed

end

lemma Release_log:
  "outcome (Release m h kind) (\<lambda>res es. \<exists>got. es = [OnLease (Get (leaseKey m) got)] \<or>
     (\<exists>l u. got = Inr l \<and> IsHolder l h kind \<and> es = [OnLease (Get (leaseKey m) got),
        OnLease (Delete l (DeleteOptions (Some (o_uid l)) (Some (o_resourceVersion l))) u)]))"
  unfolding Release_def
  by (auto intro!: outcome_intro split: sum.splits)

section \<open>The actors\<close>

text \<open>A backup or restore as the lease names it: namespace of the lease, kind, name and UID.\<close>

record actor =
  ac_namespace :: string
  ac_kind :: string
  ac_name :: string
  ac_uid :: string

definition actorOf :: "string \<Rightarrow> 'x obj_meta_scheme \<Rightarrow> actor" where
  "actorOf kind h = \<lparr>ac_namespace = o_namespace h, ac_kind = kind, ac_name = o_name h, ac_uid = o_uid h\<rparr>"

definition leaseActor :: "lease \<Rightarrow> actor" where
  "leaseActor l = \<lparr>ac_namespace = o_namespace l, ac_kind = holderKind l, ac_name = holderName l,
     ac_uid = HolderUID l\<rparr>"

lemma leaseActor_eq: "leaseActor l = actorOf kind h \<longleftrightarrow> IsHolder l h kind \<and> o_namespace l = o_namespace h"
  by (auto simp: leaseActor_def actorOf_def IsHolder_def)

lemma leaseActor_claimed [simp]:
  "o_namespace l = o_namespace h \<Longrightarrow> leaseActor (claimed l h kind t) = actorOf kind h"
  by (simp add: leaseActor_def actorOf_def)

datatype attempt = BackupAcquires backup | BackupChecks backup | BackupReleases backup
  | RestoreAcquires restore | RestoreReleases restore

fun claimant :: "attempt \<Rightarrow> actor" where
  "claimant (BackupAcquires b) = actorOf backupLeaseHolderKind b"
| "claimant (BackupChecks b) = actorOf backupLeaseHolderKind b"
| "claimant (BackupReleases b) = actorOf backupLeaseHolderKind b"
| "claimant (RestoreAcquires r) = actorOf restoreLeaseHolderKind r"
| "claimant (RestoreReleases r) = actorOf restoreLeaseHolderKind r"

fun releasing :: "attempt \<Rightarrow> bool" where
  "releasing (BackupReleases b) = True"
| "releasing (RestoreReleases r) = True"
| "releasing a = False"

text \<open>The code of an attempt, in the reconcilers of the operator; its value: was the lease found or made its own?\<close>

fun attemptRun :: "'s defaultReconciler \<Rightarrow> 's restoreReconciler \<Rightarrow> attempt \<Rightarrow> ('s, bool) prog" where
  "attemptRun bc rc (BackupAcquires b) = do {
     res \<leftarrow> Acquire (backupLeaseManager bc b) b backupLeaseHolderKind;
     return (grants res)
   }"
| "attemptRun bc rc (BackupChecks b) = do {
     res \<leftarrow> holdsBackupLease bc b;
     return (res = Inr True)
   }"
| "attemptRun bc rc (BackupReleases b) = do {
     _ \<leftarrow> Release (backupLeaseManager bc b) b backupLeaseHolderKind;
     return False
   }"
| "attemptRun bc rc (RestoreAcquires r) = do {
     res \<leftarrow> Acquire (restoreLeaseManager rc) r restoreLeaseHolderKind;
     return (grants res)
   }"
| "attemptRun bc rc (RestoreReleases r) = do {
     _ \<leftarrow> Release (restoreLeaseManager rc) r restoreLeaseHolderKind;
     return False
   }"

text \<open>The namespace of the restore reconciler is the one it reads its restores from.\<close>

fun inNamespace :: "'s restoreReconciler \<Rightarrow> attempt \<Rightarrow> bool" where
  "inNamespace rc (RestoreAcquires r) = (o_namespace r = rr_namespace rc)"
| "inNamespace rc (RestoreReleases r) = (o_namespace r = rr_namespace rc)"
| "inNamespace rc a = True"

definition performs :: "'s defaultReconciler \<Rightarrow> 's restoreReconciler \<Rightarrow> attempt \<Rightarrow> event list \<Rightarrow> bool" where
  "performs bc rc a es \<longleftrightarrow> inNamespace rc a \<and> (\<exists>w rest. events (attemptRun bc rc a) w = es @ rest)"

definition granted :: "'s defaultReconciler \<Rightarrow> 's restoreReconciler \<Rightarrow> attempt \<Rightarrow> event list \<Rightarrow> bool" where
  "granted bc rc a es \<longleftrightarrow> inNamespace rc a \<and>
     (\<exists>w. events (attemptRun bc rc a) w = es \<and> result (attemptRun bc rc a) w)"

text \<open>What the event \<open>e\<close> shows of the holder of the lease \<open>l\<close>.\<close>

fun staleSeen :: "'s defaultReconciler \<Rightarrow> 's restoreReconciler \<Rightarrow> lease \<Rightarrow> event \<Rightarrow> bool" where
  "staleSeen bc rc l (OnBackup (Get k (Inl e))) \<longleftrightarrow>
     k = (o_namespace l, holderName l) \<and> holderKind l = backupLeaseHolderKind \<and> isNotFound e"
| "staleSeen bc rc l (OnBackup (Get k (Inr b))) \<longleftrightarrow>
     k = (o_namespace l, holderName l) \<and> holderKind l = backupLeaseHolderKind \<and>
     (backupIsTerminal (client bc) b \<or> o_uid b \<noteq> HolderUID l)"
| "staleSeen bc rc l (OnRestore (Get k (Inl e))) \<longleftrightarrow>
     k = (o_namespace l, holderName l) \<and> holderKind l = restoreLeaseHolderKind \<and> isNotFound e"
| "staleSeen bc rc l (OnRestore (Get k (Inr r))) \<longleftrightarrow>
     k = (o_namespace l, holderName l) \<and> holderKind l = restoreLeaseHolderKind \<and>
     (isTerminal (rr_client rc) r \<or> o_uid r \<noteq> HolderUID l)"
| "staleSeen bc rc l e = False"

lemma backup_sawStale:
  assumes "holder_resolver.sawStale (backupHolderResolver (client bc)) backupObserved l e"
  shows "staleSeen bc rc l e"
proof -
  from assms obtain x where e: "e = backupObserved (o_namespace l) (holderName l) x"
      "holder_resolver.stale (backupHolderResolver (client bc)) l x" "holderKind l = backupLeaseHolderKind"
    by (auto simp: backup_holder.sawStale_def)
  then show ?thesis
    by (cases x; cases "projr x") (auto simp: backup_holder.stale_def backupObserved_def)
qed

lemma restore_sawStale:
  assumes "holder_resolver.sawStale (restoreHolderResolver (rr_client rc)) restoreObserved l e"
  shows "staleSeen bc rc l e"
proof -
  from assms obtain x where e: "e = restoreObserved (o_namespace l) (holderName l) x"
      "holder_resolver.stale (restoreHolderResolver (rr_client rc)) l x" "holderKind l = restoreLeaseHolderKind"
    by (auto simp: restore_holder.sawStale_def)
  then show ?thesis
    by (cases x; cases "projr x") (auto simp: restore_holder.stale_def restoreObserved_def)
qed

lemma acquisition_mono: "acquisition S k h kind g es \<Longrightarrow> (\<And>l e. S l e \<Longrightarrow> S' l e) \<Longrightarrow> acquisition S' k h kind g es"
  by (induction rule: acquisition.induct) (auto intro: acquisition.intros)

section \<open>The code keeps to a contract\<close>

text \<open>
  The next call of an attempt, after the events \<open>es\<close>: reads; the creation of a lease in its own name; the
  update of the lease it has read, to its own name, after it saw the holder stale; the deletion of a
  lease of its own it has read, that very version.
\<close>

definition leaseKeyFor :: "actor \<Rightarrow> key" where
  "leaseKeyFor a = (ac_namespace a, DefaultName)"

lemma leaseKeyFor_actorOf [simp]: "leaseKeyFor (actorOf kind h) = (o_namespace h, DefaultName)"
  by (simp add: leaseKeyFor_def actorOf_def)

fun allowed :: "(lease \<Rightarrow> event \<Rightarrow> bool) \<Rightarrow> attempt \<Rightarrow> event list \<Rightarrow> event \<Rightarrow> bool" where
  "allowed S a es (OnLease (Create l u)) \<longleftrightarrow> \<not> releasing a \<and> leaseActor l = claimant a \<and> o_name l = DefaultName"
| "allowed S a es (OnLease (Update l' u)) \<longleftrightarrow> \<not> releasing a \<and> (\<exists>l e. es = [OnLease (Get (leaseKeyFor (claimant a)) (Inr l)), e] \<and>
     S l e \<and> keyOf l' = keyOf l \<and> o_resourceVersion l' = o_resourceVersion l \<and>
     (keyOf l = leaseKeyFor (claimant a) \<longrightarrow> leaseActor l' = claimant a))"
| "allowed S a es (OnLease (Delete l opts u)) \<longleftrightarrow> releasing a \<and> es = [OnLease (Get (leaseKeyFor (claimant a)) (Inr l))] \<and>
     opts = DeleteOptions (Some (o_uid l)) (Some (o_resourceVersion l)) \<and>
     (keyOf l = leaseKeyFor (claimant a) \<longrightarrow> leaseActor l = claimant a)"
| "allowed S a es e \<longleftrightarrow> observing e"

lemma observing_allowed: "observing e \<Longrightarrow> allowed S a es e"
  by (cases "(S, a, es, e)" rule: allowed.cases) auto

lemma acquisition_allowed:
  assumes "acquisition S (o_namespace h, DefaultName) h kind g (es @ e # rest)"
    "claimant a = actorOf kind h" "\<not> releasing a"
  shows "allowed S a es e"
  using assms(1)
  by (cases rule: acquisition.cases)
    (use assms(2-3) in \<open>auto simp: leaseActor_eq Cons_eq_append_conv append_eq_Cons_conv
      intro: observing_allowed\<close>)

text \<open>The log of a whole attempt: every call is allowed, and success has a reason.\<close>

fun showsHeld :: "attempt \<Rightarrow> event \<Rightarrow> bool" where
  "showsHeld a (OnLease (Get k (Inr l))) \<longleftrightarrow> keyOf l = k \<longrightarrow> leaseActor l = claimant a \<and> o_name l = DefaultName"
| "showsHeld a (OnLease (Create l (Inr x))) = True"
| "showsHeld a (OnLease (Update l (Inr x))) = True"
| "showsHeld a e = False"

definition attemptLog :: "(lease \<Rightarrow> event \<Rightarrow> bool) \<Rightarrow> attempt \<Rightarrow> bool \<Rightarrow> event list \<Rightarrow> bool" where
  "attemptLog S a g es \<longleftrightarrow> (\<forall>xs e ys. es = xs @ e # ys \<longrightarrow> allowed S a xs e) \<and>
     (g \<longrightarrow> \<not> releasing a \<and> list_ex (showsHeld a) es)"

lemma acquisition_shows:
  assumes "acquisition S (o_namespace h, DefaultName) h kind g es" "claimant a = actorOf kind h" "g"
  shows "list_ex (showsHeld a) es"
  using assms(1)
  by (cases rule: acquisition.cases) (use assms(2-3) in \<open>auto simp: leaseActor_eq\<close>)

lemma acquisition_log:
  "acquisition S (o_namespace h, DefaultName) h kind g es \<Longrightarrow> claimant a = actorOf kind h \<Longrightarrow> \<not> releasing a \<Longrightarrow>
     attemptLog S a g es"
  unfolding attemptLog_def by (blast intro: acquisition_allowed acquisition_shows)

lemma release_log:
  assumes "claimant a = actorOf kind h" "releasing a"
    "es = [OnLease (Get (o_namespace h, DefaultName) got)] \<or>
     (\<exists>l u. got = Inr l \<and> IsHolder l h kind \<and> es = [OnLease (Get (o_namespace h, DefaultName) got),
        OnLease (Delete l (DeleteOptions (Some (o_uid l)) (Some (o_resourceVersion l))) u)])"
  shows "attemptLog S a False es"
  using assms by (auto simp: attemptLog_def leaseActor_eq Cons_eq_append_conv append_eq_Cons_conv)

lemma attempt_outcome:
  assumes "inNamespace rc a"
  shows "outcome (attemptRun bc rc a) (attemptLog (staleSeen bc rc) a)"
proof (cases a)
  case (BackupAcquires b)
  have "outcome (Acquire (backupLeaseManager bc b) b backupLeaseHolderKind)
      (\<lambda>res es. attemptLog (staleSeen bc rc) a (grants res) es)"
  proof (rule outcome_mono [OF backup_holder.Acquire_log [of _ "client bc"]], goal_cases)
    case (3 res es)
    then show ?case
      by (intro acquisition_log) (auto simp: BackupAcquires elim!: acquisition_mono intro: backup_sawStale)
  qed (simp_all add: backupObserved_def)
  then show ?thesis
    unfolding BackupAcquires attemptRun.simps by (rule outcome_call) (simp add: outcome_return)
next
  case (BackupChecks b)
  show ?thesis
    unfolding BackupChecks attemptRun.simps
    by (rule outcome_call [OF holdsBackupLease_outcome], rule outcome_return)
      (auto simp: attemptLog_def leaseActor_eq Cons_eq_append_conv)
next
  case (BackupReleases b)
  show ?thesis
    unfolding BackupReleases attemptRun.simps
    by (rule outcome_call [OF Release_log], rule outcome_return)
      (auto intro!: release_log [where kind = backupLeaseHolderKind and h = b])
next
  case (RestoreAcquires r)
  have "outcome (Acquire (restoreLeaseManager rc) r restoreLeaseHolderKind)
      (\<lambda>res es. attemptLog (staleSeen bc rc) a (grants res) es)"
  proof (rule outcome_mono [OF restore_holder.Acquire_log [of _ "rr_client rc"]], goal_cases)
    case (3 res es)
    then show ?case using assms
      by (intro acquisition_log) (auto simp: RestoreAcquires elim!: acquisition_mono intro: restore_sawStale)
  qed (simp_all add: restoreObserved_def)
  then show ?thesis
    unfolding RestoreAcquires attemptRun.simps by (rule outcome_call) (simp add: outcome_return)
next
  case (RestoreReleases r)
  with assms show ?thesis
    unfolding RestoreReleases attemptRun.simps
    by - (rule outcome_call [OF Release_log], rule outcome_return,
      auto intro!: release_log [where kind = restoreLeaseHolderKind and h = r])
qed

lemma performs_allowed: "performs bc rc a (es @ [e]) \<Longrightarrow> allowed (staleSeen bc rc) a es e"
proof -
  assume "performs bc rc a (es @ [e])"
  then obtain w rest where "inNamespace rc a" "events (attemptRun bc rc a) w = es @ e # rest"
    unfolding performs_def by auto
  with outcomeD [OF attempt_outcome, of rc a bc w] show ?thesis
    unfolding attemptLog_def by blast
qed

lemma granted_shows: "granted bc rc a es \<Longrightarrow> \<not> releasing a \<and> list_ex (showsHeld a) es"
  unfolding granted_def attemptLog_def using outcomeD [OF attempt_outcome, of rc a bc]
  by (auto simp: attemptLog_def)

end
