(* ===== verification/LeaseSafety.thy ===== *)
theory LeaseSafety
  imports LeaseProtocol RestoreController Cluster
begin

text \<open>
  The API server, and any number of attempts of backups and restores at the one lease, interleaved with
  each other and with the life of the backups and restores: nobody takes the lease of an active holder,
  and two active holders never both have it.
\<close>

section \<open>The server\<close>

text \<open>\<open>sv_past\<close> holds every version of a lease there has ever been, \<open>sv_uids\<close> every UID given so far.\<close>

record server =
  sv_leases :: "key \<rightharpoonup> lease"
  sv_past :: "lease set"
  sv_backups :: "key \<rightharpoonup> backup"
  sv_restores :: "key \<rightharpoonup> restore"
  sv_uids :: "string set"

text \<open>The object \<open>x\<close> the server stores for a lease \<open>l\<close> it was sent: with a resource version never used before.\<close>

definition stored :: "server \<Rightarrow> lease \<Rightarrow> lease \<Rightarrow> bool" where
  "stored v l x \<longleftrightarrow> keyOf x = keyOf l \<and> leaseActor x = leaseActor l \<and> o_resourceVersion x \<noteq> [] \<and>
     (\<forall>y \<in> sv_past v. o_resourceVersion y \<noteq> o_resourceVersion x)"

definition putLease :: "server \<Rightarrow> lease \<Rightarrow> server" where
  "putLease v x = v\<lparr>sv_leases := (sv_leases v)(keyOf x \<mapsto> x), sv_past := insert x (sv_past v)\<rparr>"

definition dropLease :: "server \<Rightarrow> key \<Rightarrow> server" where
  "dropLease v k = v\<lparr>sv_leases := (sv_leases v)(k := None)\<rparr>"

lemma server_simps [simp]:
  "sv_leases (putLease v x) = (sv_leases v)(keyOf x \<mapsto> x)" "sv_past (putLease v x) = insert x (sv_past v)"
  "sv_backups (putLease v x) = sv_backups v" "sv_restores (putLease v x) = sv_restores v"
  "sv_uids (putLease v x) = sv_uids v"
  "sv_leases (dropLease v k) = (sv_leases v)(k := None)" "sv_past (dropLease v k) = sv_past v"
  "sv_backups (dropLease v k) = sv_backups v" "sv_restores (dropLease v k) = sv_restores v"
  "sv_uids (dropLease v k) = sv_uids v"
  by (simp_all add: putLease_def dropLease_def)

text \<open>
  \<open>serves v e v'\<close>: the server may give the answer recorded in \<open>e\<close> and be \<open>v'\<close> afterwards. The answer of a
  write that took effect is the stored object or any error. An update without a resource version is
  unconditional.
\<close>

inductive serves :: "server \<Rightarrow> event \<Rightarrow> server \<Rightarrow> bool" where
  leaseRead: "l \<in> sv_past v \<Longrightarrow> keyOf l = k \<Longrightarrow> serves v (OnLease (Get k (Inr l))) v"
| leaseUnread: "serves v (OnLease (Get k (Inl e))) v"
| leaseCreated: "sv_leases v (keyOf l) = None \<Longrightarrow> stored v l x \<Longrightarrow> u = Inr x \<or> u = Inl e \<Longrightarrow>
    serves v (OnLease (Create l u)) (putLease v x)"
| leaseNotCreated: "serves v (OnLease (Create l (Inl e))) v"
| leaseUpdated: "sv_leases v (keyOf l) = Some y \<Longrightarrow> o_resourceVersion l \<in> {[], o_resourceVersion y} \<Longrightarrow>
    stored v l x \<Longrightarrow> u = Inr x \<or> u = Inl e \<Longrightarrow> serves v (OnLease (Update l u)) (putLease v x)"
| leaseNotUpdated: "serves v (OnLease (Update l (Inl e))) v"
| leaseDeleted: "sv_leases v (keyOf l) = Some y \<Longrightarrow> uid \<in> {None, Some (o_uid y)} \<Longrightarrow>
    rv \<in> {None, Some (o_resourceVersion y)} \<Longrightarrow>
    serves v (OnLease (Delete l (DeleteOptions uid rv) u)) (dropLease v (keyOf l))"
| leaseNotDeleted: "serves v (OnLease (Delete l opts (Inl e))) v"
| backupRead: "sv_backups v k = Some b \<Longrightarrow> serves v (OnBackup (Get k (Inr b))) v"
| backupUnread: "sv_backups v k = None \<or> \<not> isNotFound e \<Longrightarrow> serves v (OnBackup (Get k (Inl e))) v"
| restoreRead: "sv_restores v k = Some r \<Longrightarrow> serves v (OnRestore (Get k (Inr r))) v"
| restoreUnread: "sv_restores v k = None \<or> \<not> isNotFound e \<Longrightarrow> serves v (OnRestore (Get k (Inl e))) v"

inductive_cases serves_leaseE [elim!]:
  "serves v (OnLease (Get k r)) v'" "serves v (OnLease (Create l u)) v'"
  "serves v (OnLease (Update l u)) v'" "serves v (OnLease (Delete l opts u)) v'"

inductive_cases serves_objectE [elim!]: "serves v (OnBackup c) v'" "serves v (OnRestore c) v'"

text \<open>
  Between the calls of the operator: an object with a UID of before has kept its state or has become
  terminal; all others are new. Nobody else touches the lease.
\<close>

definition evolvesTo :: "('o obj_meta_scheme \<Rightarrow> bool) \<Rightarrow> string set \<Rightarrow> (key \<rightharpoonup> 'o obj_meta_scheme) \<Rightarrow>
    (key \<rightharpoonup> 'o obj_meta_scheme) \<Rightarrow> bool" where
  "evolvesTo terminal uids m m' \<longleftrightarrow> (\<forall>k x'. m' k = Some x' \<longrightarrow> o_uid x' \<notin> uids \<or>
     (\<exists>x. m k = Some x \<and> o_uid x = o_uid x' \<and> (terminal x \<longrightarrow> terminal x')))"

definition evolves :: "'s defaultReconciler \<Rightarrow> 's restoreReconciler \<Rightarrow> server \<Rightarrow> server \<Rightarrow> bool" where
  "evolves bc rc v v' \<longleftrightarrow> sv_leases v' = sv_leases v \<and> sv_past v' = sv_past v \<and> sv_uids v \<subseteq> sv_uids v' \<and>
     evolvesTo (backupIsTerminal (client bc)) (sv_uids v) (sv_backups v) (sv_backups v') \<and>
     evolvesTo (isTerminal (rr_client rc)) (sv_uids v) (sv_restores v) (sv_restores v')"

text \<open>A holder is active while the object the lease names exists, is that very object, and is not terminal.\<close>

definition present :: "('o obj_meta_scheme \<Rightarrow> bool) \<Rightarrow> (key \<rightharpoonup> 'o obj_meta_scheme) \<Rightarrow> actor \<Rightarrow> bool" where
  "present terminal m a \<longleftrightarrow> (case m (ac_namespace a, ac_name a) of
     None \<Rightarrow> False | Some x \<Rightarrow> o_uid x = ac_uid a \<and> \<not> terminal x)"

definition active :: "'s defaultReconciler \<Rightarrow> 's restoreReconciler \<Rightarrow> server \<Rightarrow> actor \<Rightarrow> bool" where
  "active bc rc v a \<longleftrightarrow>
     (if ac_kind a = backupLeaseHolderKind then present (backupIsTerminal (client bc)) (sv_backups v) a
      else ac_kind a = restoreLeaseHolderKind \<and> present (isTerminal (rr_client rc)) (sv_restores v) a)"

lemma kinds_distinct [simp]: "backupLeaseHolderKind \<noteq> restoreLeaseHolderKind" "restoreLeaseHolderKind \<noteq> backupLeaseHolderKind"
  by (simp_all add: backupLeaseHolderKind_def restoreLeaseHolderKind_def)

lemma active_server [simp]:
  "active bc rc (putLease v x) = active bc rc v" "active bc rc (dropLease v k) = active bc rc v"
  by (simp_all add: active_def fun_eq_iff)

lemma present_evolves:
  assumes "evolvesTo terminal uids m m'" "ac_uid a \<in> uids" "present terminal m' a"
  shows "present terminal m a"
proof -
  from assms(3) obtain x' where x': "m' (ac_namespace a, ac_name a) = Some x'" "o_uid x' = ac_uid a" "\<not> terminal x'"
    by (auto simp: present_def split: option.splits)
  from assms(1) [unfolded evolvesTo_def, rule_format, OF x'(1)] x' assms(2) show ?thesis
    by (auto simp: present_def)
qed

text \<open>Who is not active any more never becomes active again.\<close>

lemma active_evolves:
  "evolves bc rc v v' \<Longrightarrow> ac_uid a \<in> sv_uids v \<Longrightarrow> active bc rc v' a \<Longrightarrow> active bc rc v a"
  by (auto simp: evolves_def active_def intro: present_evolves split: if_splits)

lemma staleSeen_inactive:
  "serves v e v' \<Longrightarrow> staleSeen bc rc l e \<Longrightarrow> \<not> active bc rc v (leaseActor l)"
  by (cases "(bc, rc, l, e)" rule: staleSeen.cases)
    (auto simp: active_def present_def leaseActor_def split: option.splits)

section \<open>The system\<close>

record system =
  sy_server :: server
  sy_logs :: "nat \<Rightarrow> event list"

text \<open>
  One step: some attempt \<open>i\<close> makes its next call, or the objects evolve. An attempt is made for an object
  that has been read, so its UID has been given.
\<close>

inductive moves :: "'s defaultReconciler \<Rightarrow> 's restoreReconciler \<Rightarrow> (nat \<Rightarrow> attempt) \<Rightarrow> system \<Rightarrow> system \<Rightarrow> bool"
    for bc rc att where
  call: "performs bc rc (att i) (sy_logs s i @ [e]) \<Longrightarrow> ac_uid (claimant (att i)) \<in> sv_uids (sy_server s) \<Longrightarrow>
    serves (sy_server s) e v \<Longrightarrow> moves bc rc att s (s\<lparr>sy_server := v, sy_logs := (sy_logs s)(i := sy_logs s i @ [e])\<rparr>)"
| evolve: "evolves bc rc (sy_server s) v \<Longrightarrow> moves bc rc att s (s\<lparr>sy_server := v\<rparr>)"

definition initial :: "system \<Rightarrow> bool" where
  "initial s \<longleftrightarrow> sv_leases (sy_server s) = Map.empty \<and> sv_past (sy_server s) = {} \<and> sy_logs s = (\<lambda>i. [])"

inductive reachable :: "'s defaultReconciler \<Rightarrow> 's restoreReconciler \<Rightarrow> (nat \<Rightarrow> attempt) \<Rightarrow> system \<Rightarrow> bool"
    for bc rc att where
  start: "initial s \<Longrightarrow> reachable bc rc att s"
| step: "reachable bc rc att s \<Longrightarrow> moves bc rc att s t \<Longrightarrow> reachable bc rc att t"

text \<open>An actor has given the lease up when it has called for its deletion.\<close>

fun deletesAny :: "event \<Rightarrow> bool" where
  "deletesAny (OnLease (Delete l opts u)) = True"
| "deletesAny e = False"

definition givenUp :: "(nat \<Rightarrow> attempt) \<Rightarrow> system \<Rightarrow> actor \<Rightarrow> bool" where
  "givenUp att s a \<longleftrightarrow> (\<exists>i. claimant (att i) = a \<and> list_ex deletesAny (sy_logs s i))"

section \<open>The invariant\<close>

text \<open>Of the leases alone: they are stored under their keys, and their versions are told apart by their numbers.\<close>

definition leasesSound :: "server \<Rightarrow> bool" where
  "leasesSound v \<longleftrightarrow>
     (\<forall>k l. sv_leases v k = Some l \<longrightarrow> l \<in> sv_past v \<and> keyOf l = k) \<and>
     (\<forall>l \<in> sv_past v. \<forall>x \<in> sv_past v. o_resourceVersion l = o_resourceVersion x \<longrightarrow> l = x) \<and>
     (\<forall>l \<in> sv_past v. o_resourceVersion l \<noteq> [] \<and> ac_uid (leaseActor l) \<in> sv_uids v)"

text \<open>Of the logs: a lease that was read was a version of it, and what was written was stored.\<close>

fun witnessed :: "server \<Rightarrow> event \<Rightarrow> bool" where
  "witnessed v (OnLease (Get k (Inr l))) \<longleftrightarrow> l \<in> sv_past v \<and> keyOf l = k"
| "witnessed v (OnLease (Create l (Inr x))) \<longleftrightarrow> x \<in> sv_past v \<and> leaseActor x = leaseActor l \<and> keyOf x = keyOf l"
| "witnessed v (OnLease (Update l (Inr x))) \<longleftrightarrow> x \<in> sv_past v \<and> leaseActor x = leaseActor l \<and> keyOf x = keyOf l"
| "witnessed v e = True"

text \<open>Of an attempt about to take a lease over: the holder it saw is not active any more.\<close>

definition seenInactive :: "'s defaultReconciler \<Rightarrow> 's restoreReconciler \<Rightarrow> server \<Rightarrow> event list \<Rightarrow> bool" where
  "seenInactive bc rc v es \<longleftrightarrow> (\<forall>k l e. es = [OnLease (Get k (Inr l)), e] \<and> staleSeen bc rc l e \<longrightarrow>
     \<not> active bc rc v (leaseActor l))"

text \<open>The heart: whoever has ever held the lease, is still active and has not given it up, holds it now.\<close>

definition keptByHolder :: "'s defaultReconciler \<Rightarrow> 's restoreReconciler \<Rightarrow> (nat \<Rightarrow> attempt) \<Rightarrow> system \<Rightarrow> bool" where
  "keptByHolder bc rc att s \<longleftrightarrow> (\<forall>l \<in> sv_past (sy_server s).
     active bc rc (sy_server s) (leaseActor l) \<and> \<not> givenUp att s (leaseActor l) \<longrightarrow>
     (\<exists>x. sv_leases (sy_server s) (keyOf l) = Some x \<and> leaseActor x = leaseActor l))"

definition leaseInvariant :: "'s defaultReconciler \<Rightarrow> 's restoreReconciler \<Rightarrow> (nat \<Rightarrow> attempt) \<Rightarrow> system \<Rightarrow> bool" where
  "leaseInvariant bc rc att s \<longleftrightarrow> leasesSound (sy_server s) \<and>
     (\<forall>i. list_all (witnessed (sy_server s)) (sy_logs s i) \<and> seenInactive bc rc (sy_server s) (sy_logs s i)) \<and>
     keptByHolder bc rc att s"

lemma initial_invariant: "initial s \<Longrightarrow> leaseInvariant bc rc att s"
  by (auto simp: initial_def leaseInvariant_def leasesSound_def seenInactive_def keptByHolder_def)

lemma witnessed_mono: "witnessed v e \<Longrightarrow> sv_past v \<subseteq> sv_past v' \<Longrightarrow> witnessed v' e"
  by (cases "(v, e)" rule: witnessed.cases) auto

text \<open>A server step grows the past, keeps everything else but the leases, and leaves a witness.\<close>

lemma serves_past: "serves v e v' \<Longrightarrow> sv_past v \<subseteq> sv_past v' \<and> sv_uids v' = sv_uids v \<and> active bc rc v' = active bc rc v"
  by (induction rule: serves.induct) auto

lemma serves_witnessed: "serves v e v' \<Longrightarrow> witnessed v' e"
  by (induction rule: serves.induct) (auto simp: stored_def)

lemma serves_observing: "serves v e v' \<Longrightarrow> observing e \<Longrightarrow> v' = v"
  by (induction rule: serves.induct) auto

lemma sound_put:
  assumes "leasesSound v" "stored v l x" "ac_uid (leaseActor l) \<in> sv_uids v"
  shows "leasesSound (putLease v x)"
  using assms by (auto simp: leasesSound_def stored_def)

lemma sound_drop: "leasesSound v \<Longrightarrow> leasesSound (dropLease v k)"
  by (auto simp: leasesSound_def)

section \<open>Every step keeps the invariant\<close>

lemma givenUp_mono: "givenUp att s a \<Longrightarrow> (\<And>i. set (sy_logs s i) \<subseteq> set (sy_logs t i)) \<Longrightarrow> givenUp att t a"
  by (fastforce simp: givenUp_def list_ex_iff)

lemma kept_put:
  assumes "keptByHolder bc rc att s" "sy_server t = putLease (sy_server s) x"
    "\<And>a. givenUp att s a \<Longrightarrow> givenUp att t a"
    "\<And>y. sv_leases (sy_server s) (keyOf x) = Some y \<Longrightarrow> \<not> active bc rc (sy_server s) (leaseActor y)"
  shows "keptByHolder bc rc att t"
  unfolding keptByHolder_def
proof (intro ballI impI, elim conjE)
  fix l assume l: "l \<in> sv_past (sy_server t)" "active bc rc (sy_server t) (leaseActor l)" "\<not> givenUp att t (leaseActor l)"
  show "\<exists>y. sv_leases (sy_server t) (keyOf l) = Some y \<and> leaseActor y = leaseActor l"
  proof (cases "l = x")
    case True
    then show ?thesis using assms(2) by simp
  next
    case False
    with l assms obtain y where "sv_leases (sy_server s) (keyOf l) = Some y" "leaseActor y = leaseActor l"
      unfolding keptByHolder_def by auto
    moreover with l assms have "keyOf l \<noteq> keyOf x" by auto
    ultimately show ?thesis using assms(2) by auto
  qed
qed

lemma kept_drop:
  assumes "keptByHolder bc rc att s" "sy_server t = dropLease (sy_server s) k"
    "\<And>a. givenUp att s a \<Longrightarrow> givenUp att t a"
    "\<And>y. sv_leases (sy_server s) k = Some y \<Longrightarrow> givenUp att t (leaseActor y)"
  shows "keptByHolder bc rc att t"
  using assms unfolding keptByHolder_def by (fastforce split: if_splits)

text \<open>The version a conditional write was meant for is the current one.\<close>

lemma current_version:
  assumes "leasesSound v" "l \<in> sv_past v" "sv_leases v k = Some y" "o_resourceVersion l = o_resourceVersion y"
  shows "y = l"
  using assms unfolding leasesSound_def by metis

lemma kept_call:
  assumes "leaseInvariant bc rc att s" "allowed (staleSeen bc rc) (att i) (sy_logs s i) e"
    "serves (sy_server s) e v" "ac_uid (claimant (att i)) \<in> sv_uids (sy_server s)"
    and t: "t = s\<lparr>sy_server := v, sy_logs := (sy_logs s)(i := sy_logs s i @ [e])\<rparr>"
  shows "keptByHolder bc rc att t \<and> leasesSound v"
proof -
  note inv = assms(1) [unfolded leaseInvariant_def]
  have more: "givenUp att s a \<Longrightarrow> givenUp att t a" for a
    by (rule givenUp_mono) (auto simp: t)
  have same: "v = sy_server s \<Longrightarrow> ?thesis"
    using inv more by (auto simp: keptByHolder_def t)
  from assms(3) show ?thesis
  proof (cases rule: serves.cases)
    case (leaseCreated l x u e')
    with assms(2) have "leaseActor l = claimant (att i)" by simp
    then have "leasesSound v"
      using leaseCreated inv assms(4) by (auto intro: sound_put)
    moreover have "keptByHolder bc rc att t"
      using leaseCreated inv by (intro kept_put [OF _ _ more]) (auto simp: t stored_def)
    ultimately show ?thesis by blast
  next
    case (leaseUpdated l y x u e')
    let ?k = "leaseKeyFor (claimant (att i))"
    from leaseUpdated assms(2) obtain m o1 where m: "sy_logs s i = [OnLease (Get ?k (Inr m)), o1]"
        "staleSeen bc rc m o1" "keyOf l = keyOf m" "o_resourceVersion l = o_resourceVersion m"
        "keyOf m = ?k \<longrightarrow> leaseActor l = claimant (att i)"
      by auto
    from inv have "list_all (witnessed (sy_server s)) (sy_logs s i)" "seenInactive bc rc (sy_server s) (sy_logs s i)"
      by auto
    with m have read: "m \<in> sv_past (sy_server s)" "keyOf m = ?k" "\<not> active bc rc (sy_server s) (leaseActor m)"
      by (auto simp: seenInactive_def)
    with inv have "o_resourceVersion m \<noteq> []" by (simp add: leasesSound_def)
    with leaseUpdated m read inv have "y = m"
      by (intro current_version) auto
    have "leasesSound v"
      using leaseUpdated m read inv assms(4) by (auto intro: sound_put)
    moreover have "keptByHolder bc rc att t"
      using leaseUpdated inv read \<open>y = m\<close> by (intro kept_put [OF _ _ more]) (auto simp: t stored_def)
    ultimately show ?thesis by blast
  next
    case (leaseDeleted l y uid rv u)
    let ?k = "leaseKeyFor (claimant (att i))"
    from leaseDeleted assms(2) have del: "sy_logs s i = [OnLease (Get ?k (Inr l))]" "rv = Some (o_resourceVersion l)"
        "keyOf l = ?k \<longrightarrow> leaseActor l = claimant (att i)"
      by auto
    from inv have "list_all (witnessed (sy_server s)) (sy_logs s i)" by auto
    then have read: "l \<in> sv_past (sy_server s)" "keyOf l = ?k" unfolding del(1) by auto
    with leaseDeleted del inv have "y = l" by (intro current_version) auto
    have "givenUp att t (leaseActor l)"
      using del read leaseDeleted by (auto simp: givenUp_def t intro!: exI [of _ i])
    then have "keptByHolder bc rc att t"
      using leaseDeleted inv \<open>y = l\<close> by (intro kept_drop [OF _ _ more]) (auto simp: t)
    then show ?thesis using leaseDeleted inv by (simp add: sound_drop)
  qed (use same in auto)
qed

lemma seenInactive_call:
  assumes "serves v e v'" shows "seenInactive bc rc v' (es @ [e])"
  using staleSeen_inactive [OF assms, of bc rc] serves_past [OF assms, of bc rc]
  by (auto simp: seenInactive_def)

lemma moves_invariant:
  assumes "leaseInvariant bc rc att s" "moves bc rc att s t"
  shows "leaseInvariant bc rc att t"
  using assms(2)
proof (cases rule: moves.cases)
  case (call i e v)
  note served = serves_past [OF call(4), of bc rc] serves_witnessed [OF call(4)]
  have kept: "keptByHolder bc rc att t \<and> leasesSound v"
    using kept_call [OF assms(1) performs_allowed [OF call(2)] call(4) call(3) call(1)] .
  have "list_all (witnessed v) (sy_logs t j) \<and> seenInactive bc rc v (sy_logs t j)" for j
  proof -
    from assms(1) have "list_all (witnessed v) (sy_logs s j)" "seenInactive bc rc v (sy_logs s j)"
      using served by (auto simp: leaseInvariant_def list_all_iff seenInactive_def intro: witnessed_mono)
    then show ?thesis
      using seenInactive_call [OF call(4)] served by (auto simp: call(1))
  qed
  with kept show ?thesis by (simp add: leaseInvariant_def call(1))
next
  case (evolve v)
  have same: "sv_leases v = sv_leases (sy_server s)" "sv_past v = sv_past (sy_server s)"
      "sv_uids (sy_server s) \<subseteq> sv_uids v"
    using evolve(2) by (auto simp: evolves_def)
  have still: "active bc rc (sy_server s) (leaseActor l)" if "l \<in> sv_past v" "active bc rc v (leaseActor l)" for l
    using that assms(1) same active_evolves [OF evolve(2), of "leaseActor l"]
    by (auto simp: leaseInvariant_def leasesSound_def)
  have "leasesSound v"
    using assms(1) same by (auto simp: leaseInvariant_def leasesSound_def)
  moreover have "keptByHolder bc rc att t"
    using assms(1) same still by (auto simp: leaseInvariant_def keptByHolder_def evolve(1) givenUp_def)
  moreover have "list_all (witnessed v) (sy_logs s j) \<and> seenInactive bc rc v (sy_logs s j)" for j
  proof -
    from assms(1) have w: "list_all (witnessed v) (sy_logs s j)"
      using same witnessed_mono [of "sy_server s" _ v] by (auto simp: leaseInvariant_def list_all_iff)
    from assms(1) have "seenInactive bc rc (sy_server s) (sy_logs s j)" by (simp add: leaseInvariant_def)
    with w still have "seenInactive bc rc v (sy_logs s j)"
      unfolding seenInactive_def by fastforce
    with w show ?thesis ..
  qed
  ultimately show ?thesis by (simp add: leaseInvariant_def evolve(1))
qed

lemma reachable_invariant: "reachable bc rc att s \<Longrightarrow> leaseInvariant bc rc att s"
  by (induction rule: reachable.induct) (auto intro: initial_invariant moves_invariant)

section \<open>What a granted lease means\<close>

lemma granted_log: "granted bc rc a es \<Longrightarrow> attemptLog (staleSeen bc rc) a True es"
  unfolding granted_def using outcomeD [OF attempt_outcome, of rc a bc] by metis

lemma leaseActor_key: "leaseActor l = c \<Longrightarrow> o_name l = DefaultName \<Longrightarrow> leaseKeyFor c = keyOf l"
  by (auto simp: leaseKeyFor_def leaseActor_def)

lemma granted_held:
  assumes "granted bc rc a es" "list_all (witnessed v) es"
  shows "\<exists>l \<in> sv_past v. leaseActor l = claimant a \<and> keyOf l = leaseKeyFor (claimant a)"
proof -
  from granted_log [OF assms(1)] obtain e where e: "e \<in> set es" "showsHeld a e"
    by (auto simp: attemptLog_def list_ex_iff)
  then obtain xs ys where es: "es = xs @ e # ys" by (auto simp: in_set_conv_decomp)
  with granted_log [OF assms(1)] have "allowed (staleSeen bc rc) a xs e"
    by (auto simp: attemptLog_def)
  moreover have "list_all (witnessed v) xs" "witnessed v e" using assms(2) es by auto
  ultimately show ?thesis
    using e(2) by (cases "(a, e)" rule: showsHeld.cases) (fastforce simp: leaseActor_key)+
qed

lemma granted_keeps:
  assumes "reachable bc rc att s" "granted bc rc (att i) (sy_logs s i)"
    "active bc rc (sy_server s) (claimant (att i))" "\<not> givenUp att s (claimant (att i))"
  shows "\<exists>l. sv_leases (sy_server s) (leaseKeyFor (claimant (att i))) = Some l \<and> leaseActor l = claimant (att i)"
proof -
  note inv = reachable_invariant [OF assms(1), unfolded leaseInvariant_def]
  from inv granted_held [OF assms(2), of "sy_server s"] obtain l where l: "l \<in> sv_past (sy_server s)"
      "leaseActor l = claimant (att i)" "keyOf l = leaseKeyFor (claimant (att i))" by auto
  with inv assms(3,4) show ?thesis
    unfolding keptByHolder_def by metis
qed

section \<open>Mutual exclusion\<close>

text \<open>
  C1: The lease excludes backups and restores from each other, however their calls interleave, fail, lose
  their answers or read outdated versions of the lease: whoever was ever granted the lease, is still active
  and has not asked for its deletion, is named by it now; of two such actors in a namespace, be they backups
  or restores, each is the other.
\<close>

theorem lease_mutual_exclusion:
  assumes "reachable bc rc att s" "granted bc rc (att i) (sy_logs s i)"
    "active bc rc (sy_server s) (claimant (att i))" "\<not> givenUp att s (claimant (att i))"
  shows "(\<exists>l. sv_leases (sy_server s) (leaseKeyFor (claimant (att i))) = Some l \<and> leaseActor l = claimant (att i)) \<and>
    (granted bc rc (att j) (sy_logs s j) \<longrightarrow> active bc rc (sy_server s) (claimant (att j)) \<longrightarrow>
     \<not> givenUp att s (claimant (att j)) \<longrightarrow> leaseKeyFor (claimant (att j)) = leaseKeyFor (claimant (att i)) \<longrightarrow>
     claimant (att j) = claimant (att i))"
proof (intro conjI impI, goal_cases)
  case 1
  show ?case by (rule granted_keeps [OF assms])
next
  case 2
  then obtain x where "sv_leases (sy_server s) (leaseKeyFor (claimant (att i))) = Some x" "leaseActor x = claimant (att j)"
    using granted_keeps [OF assms(1), of j] by metis
  then show ?case using granted_keeps [OF assms] by (metis option.inject)
qed

text \<open>A server that numbers the versions, and a backup that is granted the lease by it.\<close>

definition leaseEnv :: "cluster env" where
  "leaseEnv = clusterEnv\<lparr>leases := (leases clusterEnv)\<lparr>r_create := (\<lambda>l s. (Inr (l\<lparr>o_resourceVersion := ''1''\<rparr>), s))\<rparr>\<rparr>"

definition raceBackup :: backup where
  "raceBackup = obj_meta.extend ((newMeta ''ns'' ''b'')\<lparr>o_uid := ''u''\<rparr>)
     \<lparr>b_provider = ''velero'', b_synced = False, b_status = emptyBackupStatus\<rparr>"

abbreviation raceBackups :: "cluster defaultReconciler" where
  "raceBackups \<equiv> NewReconciler leaseEnv ''default'' ''velero''"

abbreviation raceRestores :: "cluster restoreReconciler" where
  "raceRestores \<equiv> configureRestoreReconciler leaseEnv ''ns'' 5 ''default'' ''velero''"

definition raceLease :: lease where
  "raceLease = claimed (emptyLease ''ns'' DefaultName) raceBackup backupLeaseHolderKind 0"

definition raceServer :: server where
  "raceServer = \<lparr>sv_leases = Map.empty, sv_past = {}, sv_backups = [(''ns'', ''b'') \<mapsto> raceBackup],
     sv_restores = Map.empty, sv_uids = {''u''}\<rparr>"

definition raceLog :: "event list" where
  "raceLog = [OnLease (Get (''ns'', DefaultName) (Inl (ApiError NotFound []))),
     OnLease (Create raceLease (Inr (raceLease\<lparr>o_resourceVersion := ''1''\<rparr>)))]"

definition raceEnd :: system where
  "raceEnd = \<lparr>sy_server = putLease raceServer (raceLease\<lparr>o_resourceVersion := ''1''\<rparr>),
     sy_logs = (\<lambda>i. [])(0 := raceLog)\<rparr>"

lemma raceEnv_simps [simp]:
  "client raceBackups = leaseEnv" "findStatusCondition leaseEnv = findCond" "clock_now leaseEnv s = (cl_now s, s)" "cl_now (emptyCluster 0) = 0"
  "r_create (leases leaseEnv) l s = (Inr (l\<lparr>o_resourceVersion := ''1''\<rparr>), s)"
  "r_get (leases leaseEnv) k (emptyCluster 0) = (Inl (ApiError NotFound []), emptyCluster 0)"
  by (simp_all add: NewReconciler_def leaseEnv_def clusterEnv_def tableResource_def emptyCluster_def Let_def)

lemma raceBackup_simps [simp]:
  "o_namespace raceBackup = ''ns''" "o_name raceBackup = ''b''" "o_uid raceBackup = ''u''"
  "b_status raceBackup = emptyBackupStatus"
  by (simp_all add: raceBackup_def obj_meta.defs newMeta_def)

lemma race_run:
  "run_state (attemptRun raceBackups rc (BackupAcquires raceBackup)) \<lparr>outside = emptyCluster 0, log = []\<rparr> =
     (True, \<lparr>outside = emptyCluster 0, log = raceLog\<rparr>)"
  unfolding attemptRun.simps Acquire_def createLease_def NewLease_def Claim_def claimed_def [symmetric]
  by (simp add: run_simps apiGet_def apiCreate_def now_def raceLog_def raceLease_def backupLeaseManager_def
      claimed_def cong: bind_cong_weak del: run_state_bind)

lemma race_performs:
  "performs raceBackups rc (BackupAcquires raceBackup) (take n raceLog)"
  "granted raceBackups rc (BackupAcquires raceBackup) raceLog"
proof -
  have "events (attemptRun raceBackups rc (BackupAcquires raceBackup)) \<lparr>outside = emptyCluster 0, log = []\<rparr> = raceLog"
    "result (attemptRun raceBackups rc (BackupAcquires raceBackup)) \<lparr>outside = emptyCluster 0, log = []\<rparr>"
    by (simp_all add: events_def result_def race_run del: attemptRun.simps)
  then show "performs raceBackups rc (BackupAcquires raceBackup) (take n raceLog)"
    "granted raceBackups rc (BackupAcquires raceBackup) raceLog"
    unfolding performs_def granted_def
    by (auto simp del: attemptRun.simps intro: exI [of _ "drop n raceLog"]) (metis append_take_drop_id)
qed

definition raceStart :: system where
  "raceStart = \<lparr>sy_server = raceServer, sy_logs = (\<lambda>i. [])\<rparr>"

lemma race_stored: "stored raceServer raceLease (raceLease\<lparr>o_resourceVersion := ''1''\<rparr>)"
  by (simp add: stored_def raceServer_def leaseActor_def HolderUID_def)

lemma race_reachable: "reachable raceBackups raceRestores (\<lambda>i. if i = 0 then BackupAcquires raceBackup else a) raceEnd"
proof -
  let ?att = "\<lambda>i::nat. if i = 0 then BackupAcquires raceBackup else a"
  let ?mid = "raceStart\<lparr>sy_logs := (sy_logs raceStart)(0 := take 1 raceLog)\<rparr>"
  have uid: "ac_uid (claimant (?att 0)) \<in> sv_uids raceServer"
    by (simp add: actorOf_def raceServer_def)
  have "reachable raceBackups raceRestores ?att raceStart"
    by (rule reachable.start) (simp add: initial_def raceStart_def raceServer_def)
  moreover have "moves raceBackups raceRestores ?att raceStart ?mid"
    using moves.call [of raceBackups raceRestores ?att 0 raceStart "raceLog ! 0" raceServer]
      race_performs(1) [of raceRestores 1] uid
    by (simp add: raceStart_def raceLog_def serves.intros)
  moreover have "moves raceBackups raceRestores ?att ?mid raceEnd"
  proof -
    have "serves raceServer (raceLog ! 1) (sy_server raceEnd)"
      using serves.leaseCreated [OF _ race_stored] by (simp add: raceLog_def raceEnd_def raceServer_def)
    then show ?thesis
      using moves.call [of raceBackups raceRestores ?att 0 ?mid "raceLog ! 1" "sy_server raceEnd"]
        race_performs(1) [of raceRestores 2] uid
      by (simp add: raceStart_def raceLog_def raceEnd_def)
  qed
  ultimately show ?thesis by (metis reachable.step)
qed

theorem lease_mutual_exclusion_witness:
  "\<exists>l. sv_leases (sy_server raceEnd) (''ns'', DefaultName) = Some l \<and>
    leaseActor l = actorOf backupLeaseHolderKind raceBackup"
proof -
  let ?att = "\<lambda>i::nat. if i = 0 then BackupAcquires raceBackup else BackupChecks raceBackup"
  have "active raceBackups raceRestores (sy_server raceEnd) (claimant (?att 0))"
    by (simp add: active_def present_def raceEnd_def raceServer_def actorOf_def backupIsTerminal_def
        hasBackupSucceededOrFailed_def emptyBackupStatus_def findCond_def)
  moreover have "\<not> givenUp ?att raceEnd (claimant (?att 0))"
    by (simp add: givenUp_def raceEnd_def raceLog_def)
  moreover have "granted raceBackups raceRestores (?att 0) (sy_logs raceEnd 0)"
    using race_performs(2) by (simp add: raceEnd_def)
  ultimately show ?thesis
    using lease_mutual_exclusion [OF race_reachable [of "BackupChecks raceBackup"], of 0 0] by simp
qed

end
