(* ===== verification/BackupProgress.thy ===== *)
theory BackupProgress
  imports BackupSafety
begin

text \<open>
  A backup never stalls. The backup controller is not woken by its own writes (see \<open>Watches\<close>), so a
  reconciliation that neither fails nor asks to be called again is the last one: it may end that way
  only when there is nothing left to do.
\<close>

section \<open>Stages that stop without a reason to rest\<close>

text \<open>A stage stops the workflow with an error, asks for another call, or leaves an event of \<open>P\<close>.\<close>

definition stopsOnlyAfter :: "(event \<Rightarrow> bool) \<Rightarrow> 's stage \<Rightarrow> bool" where
  "stopsOnlyAfter P s \<longleftrightarrow> (\<forall>b. outcome (s b) (\<lambda>(act, err, b') es. act = Abort \<and> err = None \<longrightarrow> list_ex P es))"

text \<open>An accepted status patch that says how the backup ended, and an accepted removal of the finalizer.\<close>

fun reportsEnd :: "event \<Rightarrow> bool" where
  "reportsEnd (OnBackup (PatchStatus a x (Inr y))) = closed (b_status x)"
| "reportsEnd e = False"

definition closing :: "condition \<Rightarrow> bool" where
  "closing d \<longleftrightarrow> c_type d = ConditionSucceeded \<and> c_status d \<in> {ConditionTrue, ConditionFalse}"

lemma silent_closing:
  "meta_laws E \<Longrightarrow> closing d \<Longrightarrow> silentUpdate (setCondition E d) (\<lambda>_ st'. closed st')"
  unfolding silentUpdate_def
  by (intro allI outcome_mono [OF setCondition_outcome_law])
    (auto simp: closed_def closing_def findCond_upsert hasBackupSucceededOrFailed_def)

lemma silent_sync:
  assumes "meta_laws E" "closing d"
  shows "silentUpdate (syncStatus E v d) (\<lambda>_ st'. closed st')"
proof -
  have last: "outcome (setCondition E d st) (\<lambda>st' es. es = [] \<and> closed st')" for st
    using silent_closing [OF assms] by (simp add: silentUpdate_def)
  show ?thesis
    unfolding silentUpdate_def syncStatus_def Let_def
    by (rule allI, rule outcome_call [OF setCondition_outcome], rule outcome_call [OF setCondition_outcome],
        rule outcome_call [OF last], rule outcome_return) (auto split: option.splits)
qed

lemma closing_result: "closing (runResult E b)"
  by (auto simp: closing_def runResult_def hasBackupSucceededOrFailed_def Let_def split: option.splits)

named_theorems stops_intro \<open>stages that never stop without an error\<close>

lemma stops_conditionsInitialized [stops_intro]: "stopsOnlyAfter P (ensureConditionsInitialized c)"
  unfolding stopsOnlyAfter_def ensureConditionsInitialized_def Let_def
  by (auto intro!: outcome_intro outcome_anyPatch split: stage_splits)

lemma stops_backupSetup [stops_intro]: "stopsOnlyAfter P (ensureBackupSetup c)"
  unfolding stopsOnlyAfter_def ensureBackupSetup_def persistSetup_def Let_def
  by (auto intro!: outcome_intro outcome_anyPatch split: stage_splits prod.splits list.splits)

lemma stops_canceledAfterTimeWindow [stops_intro]:
  "stopsOnlyAfter P (ensureBackupIsCanceledAfterTimeWindowExpired c)"
  unfolding stopsOnlyAfter_def ensureBackupIsCanceledAfterTimeWindowExpired_def hasTimeWindowExpired_def
    markCanceled_def handleTimeWindowExpiredBackupNotStarted_def handleTimeWindowExpiredBackupStarted_def
    handleMissingProviderBackupAfterTimeWindowExpired_def
    handleInProgressProviderBackupAfterTimeWindowExpired_def
    handleTerminatedProviderBackupAfterTimeWindowExpired_def
  by (auto intro!: outcome_intro outcome_anyPatch split: stage_splits bool.splits)

lemma stops_reportReadiness:
  "outcome (reportReadiness c b rd) (\<lambda>(act, err, b') es. act = Abort \<longrightarrow> err \<noteq> None)"
  unfolding reportReadiness_def Let_def
  by (auto intro!: outcome_intro outcome_anyPatch split: stage_splits)

lemma stops_prepared [stops_intro]: "stopsOnlyAfter P (ensureBackupIsPrepared c)"
  unfolding stopsOnlyAfter_def ensureBackupIsPrepared_def
  by (auto intro!: outcome_return outcome_getProviderBackup outcome_bind [of "getProviderBackup _ _"]
      outcome_call [OF CheckReady_outcome] outcome_call [OF guardOtherRun_outcome]
      outcome_mono [OF stops_reportReadiness] split: stage_splits)

lemma stops_activeLease [stops_intro]: "stopsOnlyAfter P (ensureActiveBackupLease c)"
  unfolding stopsOnlyAfter_def by (auto intro: outcome_mono [OF ensureActiveBackupLease_outcome])

lemma stops_maintenance [stops_intro]:
  "stopsOnlyAfter P (ensureMaintenanceActivated c)" "stopsOnlyAfter P (ensureMaintenanceDeactivated c)"
  unfolding stopsOnlyAfter_def ensureMaintenanceActivated_def ensureMaintenanceDeactivated_def
    holdsBackupLease_def Holds_def
  by (auto intro!: outcome_intro outcome_anyPatch split: stage_splits bool.splits)

lemma stops_leaseReleased [stops_intro]: "stopsOnlyAfter P (ensureBackupLeaseReleased c)"
  unfolding stopsOnlyAfter_def by (auto intro: outcome_mono [OF ensureBackupLeaseReleased_outcome])

lemma stops_providerBackup [stops_intro]:
  "stopsOnlyAfter P (ensureProviderBackupCreated c)" "stopsOnlyAfter P (ensureProviderBackupCompleted c)"
  unfolding stopsOnlyAfter_def ensureProviderBackupCreated_def ensureProviderBackupCompleted_def
    handleProviderBackupInProgress_def handleProviderBackupFailed_def handleProviderBackupSucceeded_def
    patchProviderBackupCompletedStatus_def
  by (auto intro!: outcome_intro outcome_anyPatch split: stage_splits simp: Let_def)

text \<open>The two stages that may end a run quietly report how the backup ended.\<close>

lemma stops_veleroStatusSynced:
  assumes "meta_laws (client c)"
  shows "stopsOnlyAfter reportsEnd (ensureVeleroStatusSynced c)"
  unfolding stopsOnlyAfter_def
proof
  fix b
  have patch: "outcome (patchStatus c b (syncStatus (client c) v d)) (\<lambda>(perr, b1) es.
      perr = None \<longrightarrow> closing d \<longrightarrow> list_ex reportsEnd es)" for v d
  proof (cases "closing d")
    case True
    show ?thesis by (rule outcome_patchStatus [OF silent_sync [OF assms True]]) auto
  qed (auto intro!: outcome_anyPatch)
  show "outcome (ensureVeleroStatusSynced c b) (\<lambda>(act, err, b') es. act = Abort \<and> err = None \<longrightarrow> list_ex reportsEnd es)"
    unfolding ensureVeleroStatusSynced_def
    by (auto intro!: outcome_intro outcome_call [OF patch] simp: veleroStatusSyncOutcome_def closing_def Let_def
        split: stage_splits)
qed

lemma stops_runCompleted:
  assumes "meta_laws (client c)"
  shows "stopsOnlyAfter reportsEnd (ensureBackupRunCompleted c)"
  unfolding stopsOnlyAfter_def ensureBackupRunCompleted_def Let_def
  by (auto intro!: outcome_intro outcome_patchStatus [OF silent_closing [OF assms closing_result]] split: stage_splits)

section \<open>Sequences of stages\<close>

text \<open>A sequence comes to rest only after a \<open>P\<close> event; its last stage never lets the workflow go on.\<close>

definition restsOnlyAfter :: "(event \<Rightarrow> bool) \<Rightarrow> reconcile_result \<Rightarrow> event list \<Rightarrow> bool" where
  "restsOnlyAfter P res es \<longleftrightarrow> (requeueAfter res = 0 \<and> rerr res = None \<longrightarrow> list_ex P es)"

lemma rests_Cons:
  assumes "d \<noteq> 0" "stopsOnlyAfter P s" "\<And>b'. outcome (runStages d ss b') (restsOnlyAfter P)"
  shows "outcome (runStages d (s # ss) b) (restsOnlyAfter P)"
proof (rule runStages_Cons)
  show "outcome (s b) (\<lambda>(act, err, b') es. act = Abort \<and> err = None \<longrightarrow> list_ex P es)"
    using assms(2) by (simp add: stopsOnlyAfter_def)
next
  fix err b' es
  show "outcome (runStages d ss b') (\<lambda>res es'. restsOnlyAfter P res (es @ es'))"
    by (rule outcome_mono [OF assms(3)]) (simp add: restsOnlyAfter_def)
qed (use assms(1) in \<open>auto simp: restsOnlyAfter_def\<close>)

lemma rests_last:
  assumes "d \<noteq> 0" "outcome (s b) (\<lambda>(act, err, b') es. act \<noteq> Next \<and> (act = Abort \<and> err = None \<longrightarrow> Q es))"
  shows "outcome (runStages d [s] b) (\<lambda>res es. requeueAfter res = 0 \<and> rerr res = None \<longrightarrow> Q es)"
proof (rule runStages_Cons)
  show "outcome (s b) (\<lambda>(act, err, b') es. act \<noteq> Next \<and> (act = Abort \<and> err = None \<longrightarrow> Q es))"
    by (rule assms(2))
qed (use assms(1) in auto)

lemma stops_last:
  assumes "stopsOnlyAfter P s" "contract A (\<lambda>_ _ _. False) s"
  shows "outcome (s b) (\<lambda>(act, err, b') es. act \<noteq> Next \<and> (act = Abort \<and> err = None \<longrightarrow> list_ex P es))"
proof -
  have "outcome (s b) (\<lambda>(act, err, b') es. act = Abort \<and> err = None \<longrightarrow> list_ex P es)"
    using assms(1) by (simp add: stopsOnlyAfter_def)
  from outcome_conj [OF contractD [OF assms(2)] this] show ?thesis
    by (rule outcome_mono) auto
qed

text \<open>A stage that hands on the backup as it got it and never stops without an error.\<close>

lemma quiet_stage:
  assumes "stopsOnlyAfter (\<lambda>_. False) s" "contract A (\<lambda>b b' es. b' = b \<and> G b es) s"
  shows "outcome (s b) (\<lambda>(act, err, b') es. (act = Abort \<longrightarrow> err \<noteq> None) \<and> (act = Next \<longrightarrow> b' = b))"
proof -
  have "outcome (s b) (\<lambda>(act, err, b') es. act = Abort \<and> err = None \<longrightarrow> list_ex (\<lambda>_. False) es)"
    using assms(1) by (simp add: stopsOnlyAfter_def)
  from outcome_conj [OF contractD [OF assms(2)] this] show ?thesis
    by (rule outcome_mono) (auto simp: list_ex_iff)
qed

lemma finalize_rests:
  assumes "meta_laws (client c)" "d \<noteq> 0"
  shows "outcome (runStages d (finalizeStages (reconcilerOf c)) b) (restsOnlyAfter reportsEnd)"
proof -
  have "outcome (runStages d [ensureBackupRunCompleted c] b') (restsOnlyAfter reportsEnd)" for b'
    unfolding restsOnlyAfter_def
    by (rule rests_last [OF assms(2) stops_last [OF stops_runCompleted [OF assms(1)] contract_runCompleted]])
  then show ?thesis
    unfolding finalizeStages_def cleanupStages_def append.simps reconcilerOf_def reconciler.select_convs
    by (intro rests_Cons [OF assms(2) stops_maintenance(2)] rests_Cons [OF assms(2) stops_leaseReleased])
qed

lemma create_rests:
  assumes "meta_laws (client c)" "d \<noteq> 0"
  shows "outcome (runStages d (getStagesForOperation (reconcilerOf c) operationCreate) b) (restsOnlyAfter reportsEnd)"
  unfolding getStagesForOperation.simps append.simps
  by (intro rests_Cons [OF assms(2)] finalize_rests [OF assms])
    (simp_all add: reconcilerOf_def stops_intro stops_veleroStatusSynced [OF assms(1)])

section \<open>Deleted and finished backups\<close>

definition removesFinalizerOf :: "'s env \<Rightarrow> backup \<Rightarrow> event \<Rightarrow> bool" where
  "removesFinalizerOf E b e \<longleftrightarrow> (\<exists>x. e = OnBackup (Update
     (b\<lparr>o_finalizers := fst (removeFinalizer E (o_finalizers b) (BackupFinalizer E))\<rparr>) (Inr x)))"

definition sawProviderBackup :: "backup \<Rightarrow> event \<Rightarrow> bool" where
  "sawProviderBackup b e \<longleftrightarrow> (\<exists>v. e = OnVeleroBackup (Get (keyOf b) (Inr v)))"

lemma stops_deletion:
  "outcome (deleteProviderBackup c b pb sc) (\<lambda>(act, err, b') es. act = Abort \<longrightarrow> err \<noteq> None)"
proof -
  have "outcome (waitForProviderBackupBeforeDeletion c b pb sc) (\<lambda>(act, err, b') es. act = Abort \<longrightarrow> err \<noteq> None)"
    unfolding waitForProviderBackupBeforeDeletion_def Let_def
    by (rule outcome_call [OF deleteRequest_effects(2)])
      (auto intro!: outcome_intro outcome_anyPatch split: stage_splits simp del: getDeletingCondition.simps)
  moreover have retry: "outcome (retryProviderBackupDeletionRequest c b req sc')
      (\<lambda>(act, err, b') es. act = Abort \<longrightarrow> err \<noteq> None)" for req sc'
    unfolding retryProviderBackupDeletionRequest_def Let_def
    by (rule outcome_call [OF deleteRequest_effects(2)])
      (auto intro!: outcome_intro outcome_anyPatch split: stage_splits simp del: getDeletingCondition.simps)
  moreover have "outcome (ensureProviderBackupDeletionRequested c b sc) (\<lambda>(act, err, b') es. act = Abort \<longrightarrow> err \<noteq> None)"
    unfolding ensureProviderBackupDeletionRequested_def Let_def
    by (rule outcome_call [OF deleteRequest_effects(1)])
      (auto intro!: outcome_intro outcome_anyPatch outcome_mono [OF retry] split: sum.splits option.splits
        simp del: getDeletingCondition.simps)
  ultimately show ?thesis
    unfolding deleteProviderBackup_def by (cases "isProviderBackupInProgress pb") (simp_all only: if_True if_False)
qed

lemma providerBackupDeleted_rests:
  assumes "\<not> isZeroPtr (o_deletion b)"
  shows "outcome (ensureProviderBackupDeleted c b) (\<lambda>(act, err, b') es. act \<noteq> Next \<and> (act = Abort \<and> err = None \<longrightarrow>
    list_ex (removesFinalizerOf (client c) b) es \<and> list_ex (sawProviderBackupGone b) es))"
proof -
  have del: "outcome (deleteProviderBackup c b pb sc) (\<lambda>(act, err, b') es. act \<noteq> Next \<and> (act = Abort \<longrightarrow> err \<noteq> None))" for pb sc
    by (rule outcome_mono [OF outcome_conj [OF stops_deletion deleteProviderBackup_unfinished]]) auto
  show ?thesis
    unfolding ensureProviderBackupDeleted_def if_P [OF assms] ensureDeletingProviderBackup_def
      finalizeProviderBackupDeletion_def Let_def
    by (auto intro!: outcome_intro outcome_mono [OF del] split: stage_splits
        simp: removesFinalizerOf_def sawProviderBackupGone_def)
qed

lemma delete_rests:
  assumes "d \<noteq> 0" "\<not> isZeroPtr (o_deletion b)"
  shows "outcome (runStages d (getStagesForOperation (reconcilerOf c) operationDelete) b) (\<lambda>res es.
     requeueAfter res = 0 \<and> rerr res = None \<longrightarrow>
     list_ex (removesFinalizerOf (client c) b) es \<and> list_ex (sawProviderBackupGone b) es)"
    (is "outcome _ ?R")
proof -
  have last: "outcome (runStages d [ensureProviderBackupDeleted c] b) ?R"
    by (rule rests_last, rule assms(1), rule providerBackupDeleted_rests, rule assms(2))
  have released: "outcome (runStages d [ensureBackupLeaseReleased c, ensureProviderBackupDeleted c] b) ?R"
    by (rule runStages_Cons [OF quiet_stage [OF stops_leaseReleased contract_leaseReleased]])
      (use assms(1) in \<open>auto intro!: outcome_mono [OF last]\<close>)
  show ?thesis
    unfolding getStagesForOperation.simps cleanupStages_def append.simps reconcilerOf_def reconciler.select_convs
    by (rule runStages_Cons [OF quiet_stage [OF stops_maintenance(2) contract_maintenanceDeactivated]])
      (use assms(1) in \<open>auto intro!: outcome_mono [OF released]\<close>)
qed

definition restsTerminal :: "'s env \<Rightarrow> backup \<Rightarrow> event list \<Rightarrow> bool" where
  "restsTerminal E b es \<longleftrightarrow> isZero (startTimestamp (b_status b)) \<or>
     list_ex (if isStatusConditionTrue E (backupConditions b) ConditionCanceled then sawProviderBackupGone b
       else sawProviderBackup b) es"

lemma orphaned_rests:
  "outcome (ensureOrphanedBackupDeleted c b) (\<lambda>(act, err, b') es. b' = b \<and> (act = Abort \<longrightarrow> err \<noteq> None) \<and>
     (act = Next \<longrightarrow> isZero (startTimestamp (b_status b)) \<or>
       isStatusConditionTrue (client c) (backupConditions b) ConditionCanceled \<or> list_ex (sawProviderBackup b) es))"
  unfolding ensureOrphanedBackupDeleted_def
  by (auto intro!: outcome_intro split: stage_splits simp: sawProviderBackup_def)

lemma canceled_rests:
  "outcome (ensureCanceledProviderBackupDeleted c b) (\<lambda>(act, err, b') es. (act = Abort \<longrightarrow> err \<noteq> None) \<and>
     (act = Next \<longrightarrow> isZero (startTimestamp (b_status b)) \<or>
       \<not> isStatusConditionTrue (client c) (backupConditions b) ConditionCanceled \<or> list_ex (sawProviderBackupGone b) es))"
proof -
  have del: "outcome (deleteProviderBackup c b pb sc) (\<lambda>(act, err, b') es. act \<noteq> Next \<and> (act = Abort \<longrightarrow> err \<noteq> None))" for pb sc
    by (rule outcome_mono [OF outcome_conj [OF stops_deletion deleteProviderBackup_unfinished]]) auto
  show ?thesis
    unfolding ensureCanceledProviderBackupDeleted_def completeCanceledProviderBackupDeletion_def Let_def
    by (auto intro!: outcome_intro outcome_anyPatch outcome_mono [OF del] split: stage_splits
        simp: sawProviderBackupGone_def simp del: getDeletingCondition.simps)
qed

lemma ignore_rests:
  assumes "d \<noteq> 0"
  shows "outcome (runStages d (getStagesForOperation (reconcilerOf c) operationIgnore) b) (\<lambda>res es.
     requeueAfter res = 0 \<and> rerr res = None \<longrightarrow> restsTerminal (client c) b es)"
proof -
  have canceled: "outcome (runStages d [ensureCanceledProviderBackupDeleted c] b) (\<lambda>res es.
      requeueAfter res = 0 \<and> rerr res = None \<longrightarrow> isZero (startTimestamp (b_status b)) \<or>
       \<not> isStatusConditionTrue (client c) (backupConditions b) ConditionCanceled \<or> list_ex (sawProviderBackupGone b) es)"
    by (rule runStages_Cons [OF canceled_rests]) (use assms in \<open>auto intro!: runStages_Nil\<close>)
  show ?thesis
    unfolding getStagesForOperation.simps reconcilerOf_def reconciler.select_convs
    by (rule runStages_Cons [OF orphaned_rests])
      (use assms in \<open>auto intro!: outcome_mono [OF canceled] simp: restsTerminal_def\<close>)
qed

section \<open>The property\<close>

text \<open>
  What settles a backup, by what was read of it and what happened then: it does not exist; it is being
  deleted, its provider backup was seen gone and its finalizer was taken off; it had already ended and
  what its end leaves to do is done; or the status accepted by the API server says that it ended.
\<close>

fun settled :: "'s env \<Rightarrow> api_error + backup \<Rightarrow> event list \<Rightarrow> bool" where
  "settled E (Inl e) es \<longleftrightarrow> isNotFound e"
| "settled E (Inr b) es \<longleftrightarrow> (case requiredOperation E b of
     operationDelete \<Rightarrow> list_ex (removesFinalizerOf E b) es \<and> list_ex (sawProviderBackupGone b) es
   | operationIgnore \<Rightarrow> restsTerminal E b es
   | _ \<Rightarrow> list_ex reportsEnd es)"

definition settledAfter :: "'s env \<Rightarrow> key \<Rightarrow> event list \<Rightarrow> bool" where
  "settledAfter E k es \<longleftrightarrow> (\<exists>got es'. es = MetricAdd BackupReconcileTotal 1 # OnBackup (Get k got) # es' \<and> settled E got es')"

lemma settled_prefix: "settled E (Inr b) es \<Longrightarrow> settled E (Inr b) (ms @ es)"
  by (auto simp: restsTerminal_def split: operation.splits)

lemma operation_rests:
  assumes "meta_laws (client c)" "d \<noteq> 0"
  shows "outcome (runStages d (getStagesForOperation (reconcilerOf c) (requiredOperation (client c) b)) b)
    (\<lambda>res es. requeueAfter res = 0 \<and> rerr res = None \<longrightarrow> settled (client c) (Inr b) es)"
proof (cases "requiredOperation (client c) b")
  case operationDelete
  then have "\<not> isZeroPtr (o_deletion b)" by (auto simp: requiredOperation_def split: if_splits)
  from delete_rests [OF assms(2) this] show ?thesis
    unfolding operationDelete by (rule outcome_mono) (simp add: operationDelete)
next
  case operationIgnore
  from ignore_rests [OF assms(2)] show ?thesis
    unfolding operationIgnore by (rule outcome_mono) (simp add: operationIgnore)
next
  case operationFinalize
  show ?thesis
    unfolding operationFinalize getStagesForOperation.simps
    by (rule outcome_mono [OF finalize_rests [OF assms]]) (simp add: restsOnlyAfter_def operationFinalize)
next
  case operationCreate
  show ?thesis
    unfolding operationCreate
    by (rule outcome_mono [OF create_rests [OF assms]]) (simp add: restsOnlyAfter_def operationCreate)
qed

text \<open>
  C3: A reconciliation of a backup that neither fails nor asks for another call leaves nothing to do:
  the backup is gone, or it was being deleted and is released, or it had ended and its end is cleaned up,
  or this reconciliation reported its end.
\<close>

theorem backup_never_stalls:
  assumes "meta_laws (client c)" "d \<noteq> 0"
  shows "outcome (Reconcile (backupController c d) k) (\<lambda>res es.
    requeueAfter res = 0 \<and> rerr res = None \<longrightarrow> settledAfter (client c) k es)"
proof (rule Reconcile_outcome [OF operation_rests [OF assms]], goal_cases)
  case (3 b ms res es)
  then show ?case
    unfolding settledAfter_def using settled_prefix by blast
qed (simp_all add: settledAfter_def)

text \<open>The run that finalizes the backup of the demo cluster is its last one: it reports the end.\<close>

theorem backup_never_stalls_witness:
  "let run = Reconcile (backupController demoReconciler 10) (''ns'', ''b''); w = \<lparr>outside = demoCluster, log = []\<rparr>
   in result run w = \<lparr>requeueAfter = 0, rerr = None\<rparr> \<and> settledAfter (client demoReconciler) (''ns'', ''b'') (events run w)"
proof -
  have "meta_laws (client demoReconciler)" by (simp add: clusterEnv_meta)
  note never = outcomeD [OF backup_never_stalls [OF this, of 10 "(''ns'', ''b'')"], of "\<lparr>outside = demoCluster, log = []\<rparr>"]
  have "result (Reconcile (backupController demoReconciler 10) (''ns'', ''b'')) \<lparr>outside = demoCluster, log = []\<rparr>
      = \<lparr>requeueAfter = 0, rerr = None\<rparr>"
    by (simp add: result_def run_simps call_defs cluster_defs lease_defs metric_defs status_defs
        finalize_defs Let_def cong: bind_cong_weak del: run_state_bind)
  then show ?thesis using never by (simp add: Let_def)
qed

end
