(* ===== verification/BackupCluster.thy ===== *)
theory BackupCluster
  imports BackupSafety ClusterSteps
begin

text \<open>
  The backup controller on the in-memory cluster: what the calls of its stages answer and write there, as
  weakest preconditions, up to the update of the status of a backup.
\<close>

section \<open>Calls in the cluster\<close>

lemmas api_defs = apiGet_def apiList_def apiCreate_def apiUpdate_def apiPatchStatus_def apiDelete_def
  now_def setStatusCondition_def eventf_def metricAdd_def

text \<open>What the in-memory cluster makes of the calls of the backup controller.\<close>

definition found :: "'o option \<Rightarrow> api_error + 'o" where
  "found x = (case x of None \<Rightarrow> Inl (ApiError NotFound []) | Some y \<Rightarrow> Inr y)"

lemma found_simps [simp]: "found None = Inl (ApiError NotFound [])" "found (Some y) = Inr y"
  by (simp_all add: found_def)

abbreviation noting :: "('s, event) world \<Rightarrow> event \<Rightarrow> ('s, event) world" where
  "noting w e \<equiv> w\<lparr>log := log w @ [e]\<rparr>"

lemma wp_get [wp_simps]:
  "wp (apiGet (backups clusterEnv) ev k) Q w \<longleftrightarrow>
     Q (found (map_of (cl_backups (outside w)) k)) (noting w (ev (Get k (found (map_of (cl_backups (outside w)) k)))))"
  "wp (apiGet (veleroBackups clusterEnv) ev1 k) Q1 w \<longleftrightarrow>
     Q1 (found (map_of (cl_veleroBackups (outside w)) k)) (noting w (ev1 (Get k (found (map_of (cl_veleroBackups (outside w)) k)))))"
  "wp (apiGet (leases clusterEnv) ev2 k) Q2 w \<longleftrightarrow>
     Q2 (found (map_of (cl_leases (outside w)) k)) (noting w (ev2 (Get k (found (map_of (cl_leases (outside w)) k)))))"
  "wp (apiGet (configMaps clusterEnv) ev3 k) Q3 w \<longleftrightarrow>
     Q3 (found (map_of (cl_configMaps (outside w)) k)) (noting w (ev3 (Get k (found (map_of (cl_configMaps (outside w)) k)))))"
  "wp (apiGet (storageLocations clusterEnv) ev4 k) Q4 w \<longleftrightarrow>
     Q4 (found (map_of (cl_storageLocations (outside w)) k)) (noting w (ev4 (Get k (found (map_of (cl_storageLocations (outside w)) k)))))"
  "wp (apiGet (workloads clusterEnv Deployment) ev5 k) Q5 w \<longleftrightarrow>
     Q5 (found (map_of (cl_workloads (outside w) Deployment) k)) (noting w (ev5 (Get k (found (map_of (cl_workloads (outside w) Deployment) k)))))"
  by (simp_all add: api_defs wp_query clusterEnv_def tableResource_def Let_def found_def)

lemma wp_ambient [wp_simps]:
  "wp (now clusterEnv) Q w \<longleftrightarrow> Q (cl_now (outside w)) w"
  "wp (setStatusCondition clusterEnv cs d) Q1 w \<longleftrightarrow> Q1 (upsertCond (cl_now (outside w)) cs d) w"
  "wp (eventf t r a n) Q2 w \<longleftrightarrow> Q2 () (noting w (Recorded t r a n))"
  "wp (metricAdd x n') Q2 w \<longleftrightarrow> Q2 () (noting w (MetricAdd x n'))"
  by (simp_all add: api_defs wp_ask wp_emit clusterEnv_def)

lemma clusterEnv_meta_simps [simp]:
  "findStatusCondition clusterEnv = findCond" "libConstant clusterEnv n = n"
  "isStatusConditionTrue clusterEnv cs t \<longleftrightarrow> (\<exists>d. findCond cs t = Some d \<and> c_status d = ConditionTrue)"
  "addFinalizer clusterEnv fs f = (if f \<in> set fs then (fs, False) else (fs @ [f], True))"
  "marshalDogus clusterEnv = Inr"
  by (simp_all add: clusterEnv_def split: option.splits)

lemma wp_setCondition [wp_simps]:
  "wp (setCondition clusterEnv d st) Q w \<longleftrightarrow> Q (st\<lparr>conditions := upsertCond (cl_now (outside w)) (conditions st) d\<rparr>) w"
  by (simp add: setCondition_def wp_simps)

lemma wp_setConditions [wp_simps]:
  "wp (fold_io (setCondition clusterEnv) ds st) Q w \<longleftrightarrow>
     Q (st\<lparr>conditions := foldl (upsertCond (cl_now (outside w))) (conditions st) ds\<rparr>) w"
  by (induction ds arbitrary: st) (simp_all add: wp_simps)

lemma wp_list [wp_simps]:
  "wp (apiList (veleroBackups clusterEnv) ev n ls) Q w \<longleftrightarrow> (let r = Inr (map snd (filter (\<lambda>(q, x). fst q = n \<and>
       list_all (\<lambda>l. o_labels x l \<noteq> None) ls) (cl_veleroBackups (outside w)))) in Q r (noting w (ev (ListIn n ls r))))"
  "wp (apiList (blueprints clusterEnv) ev1 n ls) Q1 w \<longleftrightarrow> (let r = Inr (map snd (filter (\<lambda>(q, x). fst q = n \<and>
       list_all (\<lambda>l. o_labels x l \<noteq> None) ls) (cl_blueprints (outside w)))) in Q1 r (noting w (ev1 (ListIn n ls r))))"
  by (simp_all add: api_defs wp_query clusterEnv_def tableResource_def Let_def)

lemma wp_maintenance [wp_simps]:
  "client c = clusterEnv \<Longrightarrow> wp (isMaintenanceModeActive c) Q w \<longleftrightarrow>
     Q (Inr (cl_maintenance (outside w))) (noting w (MaintenanceStatus (Inr (cl_maintenance (outside w)))))"
  "client c = clusterEnv \<Longrightarrow> wp (activateMaintenanceMode c t x) Q1 w \<longleftrightarrow>
     Q1 None (w\<lparr>outside := (outside w)\<lparr>cl_maintenance := True\<rparr>, log := log w @ [MaintenanceActivate t x False None]\<rparr>)"
  "client c = clusterEnv \<Longrightarrow> wp (deactivateMaintenanceMode c) Q1 w \<longleftrightarrow>
     Q1 None (w\<lparr>outside := (outside w)\<lparr>cl_maintenance := False\<rparr>, log := log w @ [MaintenanceDeactivate False None]\<rparr>)"
  by (simp_all add: isMaintenanceModeActive_def activateMaintenanceMode_def deactivateMaintenanceMode_def
      wp_query clusterEnv_def)

lemma wp_metrics [wp_simps]:
  fixes w :: "(cluster, event) world"
  shows
  "wp UpdateBackupReconcileTotalMetric Q w \<longleftrightarrow> Q () (noting w (MetricAdd BackupReconcileTotal 1))"
  "wp (InitInvalidLeaseTotalMetric n nm) Q1 w \<longleftrightarrow> Q1 () (noting w (MetricAdd (InvalidLeaseTotal n nm) 0))"
  by (simp_all add: UpdateBackupReconcileTotalMetric_def InitInvalidLeaseTotalMetric_def wp_ambient)

lemma wp_initMetrics:
  fixes w :: "(cluster, event) world"
  shows
  "wp (InitBackupConditionTransitionMetrics n nm) (\<lambda>_ w'. outside w' = outside w) w"
  "wp (InitBackupStatusMetrics n nm) (\<lambda>_ w'. outside w' = outside w) w"
proof -
  show "wp (InitBackupConditionTransitionMetrics n nm) (\<lambda>_ w'. outside w' = outside w) w"
    unfolding InitBackupConditionTransitionMetrics_def
    by (rule wp_for_each [where g = "\<lambda>(t, from, to). [MetricAdd (BackupConditionTransitionsTotal n nm t from to) 0]"])
      (auto simp: wp_simps)
  show "wp (InitBackupStatusMetrics n nm) (\<lambda>_ w'. outside w' = outside w) w"
    unfolding InitBackupStatusMetrics_def
    by (rule wp_call, rule wp_for_each [where g = "\<lambda>st. [MetricAdd (BackupStatusTransitionsTotal n nm st) 0]"])
      (auto simp: wp_simps UpdateBackupStatusMetrics_def)
qed

section \<open>Writes\<close>

text \<open>The two tables a run creates objects in.\<close>

lemma wp_create [wp_simps]:
  "wp (apiCreate (veleroBackups clusterEnv) ev x) Q w \<longleftrightarrow> (case map_of (cl_veleroBackups (outside w)) (keyOf x) of
     Some _ \<Rightarrow> Q (Inl (ApiError AlreadyExists [])) (noting w (ev (Create x (Inl (ApiError AlreadyExists [])))))
   | None \<Rightarrow> Q (Inr x) (w\<lparr>outside := (outside w)\<lparr>cl_veleroBackups := store (keyOf x) x (cl_veleroBackups (outside w))\<rparr>,
       log := log w @ [ev (Create x (Inr x))]\<rparr>))"
  "wp (apiCreate (leases clusterEnv) ev1 l) Q1 w \<longleftrightarrow> (case map_of (cl_leases (outside w)) (keyOf l) of
     Some _ \<Rightarrow> Q1 (Inl (ApiError AlreadyExists [])) (noting w (ev1 (Create l (Inl (ApiError AlreadyExists [])))))
   | None \<Rightarrow> Q1 (Inr l) (w\<lparr>outside := (outside w)\<lparr>cl_leases := store (keyOf l) l (cl_leases (outside w))\<rparr>,
       log := log w @ [ev1 (Create l (Inr l))]\<rparr>))"
  by (simp_all add: api_defs wp_query clusterEnv_def tableResource_def Let_def split: option.split)

lemma wp_deleteLease [wp_simps]:
  "wp (apiDelete (leases clusterEnv) ev l opts) Q w \<longleftrightarrow> (case map_of (cl_leases (outside w)) (keyOf l) of
     None \<Rightarrow> Q (Inl (ApiError NotFound [])) (noting w (ev (Delete l opts (Inl (ApiError NotFound [])))))
   | Some _ \<Rightarrow> Q (Inr ()) (w\<lparr>outside := (outside w)\<lparr>cl_leases := filter (\<lambda>(q, _). q \<noteq> keyOf l) (cl_leases (outside w))\<rparr>,
       log := log w @ [ev (Delete l opts (Inr ()))]\<rparr>))"
  by (simp add: api_defs wp_query clusterEnv_def tableResource_def Let_def split: option.split)

definition putBackup :: "backup \<Rightarrow> cluster \<Rightarrow> cluster" where
  "putBackup b S = S\<lparr>cl_backups := store (keyOf b) b (cl_backups S)\<rparr>"

lemma putBackup_simps [simp]:
  "map_of (cl_backups (putBackup b S)) q = (if q = keyOf b then Some b else map_of (cl_backups S) q)"
  "cl_veleroBackups (putBackup b S) = cl_veleroBackups S" "cl_leases (putBackup b S) = cl_leases S"
  "cl_configMaps (putBackup b S) = cl_configMaps S" "cl_storageLocations (putBackup b S) = cl_storageLocations S"
  "cl_workloads (putBackup b S) = cl_workloads S" "cl_maintenance (putBackup b S) = cl_maintenance S"
  "cl_blueprints (putBackup b S) = cl_blueprints S" "cl_now (putBackup b S) = cl_now S"
  by (simp_all add: putBackup_def)

lemma wp_write [wp_simps]:
  "wp (apiPatchStatus (backups clusterEnv) ev a x) Q w \<longleftrightarrow> (case map_of (cl_backups (outside w)) (keyOf x) of
     None \<Rightarrow> Q (Inl (ApiError NotFound [])) (noting w (ev (PatchStatus a x (Inl (ApiError NotFound [])))))
   | Some _ \<Rightarrow> Q (Inr x) (w\<lparr>outside := putBackup x (outside w), log := log w @ [ev (PatchStatus a x (Inr x))]\<rparr>))"
  "wp (apiUpdate (backups clusterEnv) ev1 x) Q w \<longleftrightarrow> (case map_of (cl_backups (outside w)) (keyOf x) of
     None \<Rightarrow> Q (Inl (ApiError NotFound [])) (noting w (ev1 (Update x (Inl (ApiError NotFound [])))))
   | Some _ \<Rightarrow> Q (Inr x) (w\<lparr>outside := putBackup x (outside w), log := log w @ [ev1 (Update x (Inr x))]\<rparr>))"
  by (simp_all add: api_defs wp_query clusterEnv_def tableResource_def Let_def putBackup_def split: option.split)

section \<open>Writing the status\<close>

definition withStatus :: "backup \<Rightarrow> backup_status \<Rightarrow> backup" where
  "withStatus b st = patched clusterEnv b st"

text \<open>A status update that computes \<open>g\<close> from the time and the status, touching nothing outside.\<close>

definition computes :: "cluster statusUpdate \<Rightarrow> (instant \<Rightarrow> backup_status \<Rightarrow> backup_status) \<Rightarrow> bool" where
  "computes f g \<longleftrightarrow> (\<forall>st w Q. wp (f st) Q w \<longleftrightarrow> Q (g (cl_now (outside w)) st) w)"

lemma wp_updateStatus:
  assumes "computes f g" "map_of (cl_backups (outside w)) (keyOf b) \<noteq> None"
    and "\<And>w'. outside w' = putBackup (withStatus b (g (cl_now (outside w)) (b_status b))) (outside w) \<Longrightarrow>
      Q (None, withStatus b (g (cl_now (outside w)) (b_status b))) w'"
  shows "wp (updateStatus clusterEnv b f) Q w"
proof -
  have metrics: "wp (for_each (UpdateBackupConditionTransitionMetric x) ts) (\<lambda>_ w'. outside w' = outside w) w" for x ts and w :: "(cluster, event) world"
    by (rule wp_for_each [where g = "\<lambda>t. [MetricAdd (BackupConditionTransitionsTotal (o_namespace x) (o_name x) (ct_type t) (ct_from t) (ct_to t)) 1]"])
      (simp add: UpdateBackupConditionTransitionMetric_def wp_simps)
  have f: "wp (f st) R w \<longleftrightarrow> R (g (cl_now (outside w)) st) w" for st R and w :: "(cluster, event) world"
    using assms(1) by (simp add: computes_def)
  have key: "keyOf (b\<lparr>b_status := st\<rparr>) = keyOf b" for st by simp
  let ?b = "withStatus b (g (cl_now (outside w)) (b_status b))"
  have b: "b\<lparr>b_status := (g (cl_now (outside w)) (b_status b))\<lparr>legacyStatus := legacyBackupStatusFor clusterEnv
      (b\<lparr>b_status := g (cl_now (outside w)) (b_status b)\<rparr>)\<rparr>\<rparr> = ?b"
    by (simp add: withStatus_def patched_def)
  have keyb: "keyOf ?b = keyOf b" by (simp add: withStatus_def patched_def)
  show ?thesis
    unfolding updateStatus_def Let_def wp_bind f backup.select_convs
    using assms(2) assms(3)
    by (auto simp: wp_simps UpdateBackupStatusMetrics_def b keyb intro!: wp_conseq [OF metrics] split: option.split)
qed

lemma store_again [simp]: "store k x (store k y t) = store k x t"
  by (simp add: store_def)

lemma withStatus_simps [simp]:
  "o_namespace (withStatus b st) = o_namespace b" "o_name (withStatus b st) = o_name b" "o_uid (withStatus b st) = o_uid b"
  "o_deletion (withStatus b st) = o_deletion b" "o_creation (withStatus b st) = o_creation b"
  "b_synced (withStatus b st) = b_synced b" "backupConditions (withStatus b st) = conditions st"
  "startTimestamp (b_status (withStatus b st)) = startTimestamp st"
  "completionTimestamp (b_status (withStatus b st)) = completionTimestamp st"
  by (simp_all add: withStatus_def patched_def)

end
