(* ===== verification/BackupLife.thy ===== *)
theory BackupLife
  imports BackupCluster
begin

text \<open>
  The life of a backup: the control loop of the backup controller on the in-memory cluster, with Velero and
  the clock moving between the reconciliations, from the new backup to the closed run.
\<close>

section \<open>A backup in the cluster\<close>

text \<open>The cluster \<open>S\<close> with the backup \<open>b\<close> in it.\<close>

definition at :: "backup \<Rightarrow> cluster \<Rightarrow> (cluster, event) world \<Rightarrow> bool" where
  "at b S w \<longleftrightarrow> outside w = putBackup b S"

lemma at_simps [simp]: "at b S (w\<lparr>log := l\<rparr>) \<longleftrightarrow> at b S w" "at b S \<lparr>outside = putBackup b S, log = l\<rparr>"
  by (simp_all add: at_def)

lemma at_lookup: "at b S w \<Longrightarrow> map_of (cl_backups (outside w)) (keyOf b) = Some b"
  by (simp add: at_def)

lemma at_put:
  "at b S w \<Longrightarrow> keyOf b' = keyOf b \<Longrightarrow> outside w' = putBackup b' (outside w) \<Longrightarrow> at b' S w'"
  by (simp add: at_def putBackup_def)

lemma at_meta: "at b S w \<Longrightarrow> outside w' = outside w \<Longrightarrow> at b S w'"
  by (simp add: at_def)

lemma wp_patch:
  assumes "at b S w" "computes f g"
    and "\<And>w'. at (withStatus b (g (cl_now S) (b_status b))) S w' \<Longrightarrow> Q (None, withStatus b (g (cl_now S) (b_status b))) w'"
  shows "wp (patchStatus (NewReconciler clusterEnv st dep) b f) Q w"
proof -
  have S: "outside w = putBackup b S" using assms(1) by (simp add: at_def)
  show ?thesis
    unfolding patchStatus_def NewReconciler_def defaultReconciler.select_convs
  proof (rule wp_updateStatus [OF assms(2)])
    fix w' :: "(cluster, event) world"
    assume "outside w' = putBackup (withStatus b (g (cl_now (outside w)) (b_status b))) (outside w)"
    then have "at (withStatus b (g (cl_now S) (b_status b))) S w'"
      by (intro at_put [OF assms(1)]) (simp_all add: S)
    from assms(3) [OF this] show "Q (None, withStatus b (g (cl_now (outside w)) (b_status b))) w'"
      by (simp add: S)
  qed (simp add: S)
qed

lemma reconciler_simps [simp]:
  "client (NewReconciler E st dep) = E" "backupStorageName (NewReconciler E st dep) = st"
  "providerDeploymentName (NewReconciler E st dep) = dep"
  by (simp_all add: NewReconciler_def)

section \<open>Runs under way\<close>

definition statusIn :: "condition list \<Rightarrow> cond_type \<Rightarrow> cond_status option" where
  "statusIn cs t = map_option c_status (findCond cs t)"

abbreviation statusOf :: "backup \<Rightarrow> cond_type \<Rightarrow> cond_status option" where
  "statusOf b \<equiv> statusIn (backupConditions b)"

lemma found_status: "(\<exists>d. findCond cs t = Some d \<and> c_status d = s) \<longleftrightarrow> statusIn cs t = Some s"
  by (auto simp: statusIn_def)

lemma statusIn_upsert [simp]: "statusIn (upsertCond u cs d) t = (if t = c_type d then Some (c_status d) else statusIn cs t)"
  by (simp add: statusIn_def findCond_upsert)

lemma statusIn_upserts:
  "statusIn (foldl (upsertCond u) cs ds) t = statusIn cs t \<or> (\<exists>d \<in> set ds. c_type d = t \<and> statusIn (foldl (upsertCond u) cs ds) t = Some (c_status d))"
proof (induction ds arbitrary: cs)
  case (Cons d ds)
  from this [of "upsertCond u cs d"] show ?case
    by (auto split: if_splits)
qed simp

text \<open>A local backup whose run is under way: neither it nor its provider backup has ended, nor is it canceled or deleted.\<close>

definition underway :: "backup \<Rightarrow> bool" where
  "underway b \<longleftrightarrow> isZeroPtr (o_deletion b) \<and> \<not> b_synced b \<and>
     statusOf b ConditionSucceeded \<notin> {Some ConditionTrue, Some ConditionFalse} \<and>
     statusOf b ConditionProviderSucceeded \<notin> {Some ConditionTrue, Some ConditionFalse} \<and>
     statusOf b ConditionCanceled \<noteq> Some ConditionTrue"

text \<open>The same backup, started and completed at the same times.\<close>

definition kin :: "backup \<Rightarrow> backup \<Rightarrow> bool" where
  "kin b b' \<longleftrightarrow> keyOf b' = keyOf b \<and> o_uid b' = o_uid b \<and> o_creation b' = o_creation b \<and>
     startTimestamp (b_status b') = startTimestamp (b_status b) \<and>
     completionTimestamp (b_status b') = completionTimestamp (b_status b)"

lemma kin_refl [simp]: "kin b b"
  by (simp add: kin_def)

lemma kin_trans: "kin a b \<Longrightarrow> kin b c \<Longrightarrow> kin a c"
  by (simp add: kin_def)

lemma underway_operation:
  "underway b \<Longrightarrow> requiredOperation clusterEnv b = operationCreate"
  by (auto simp: underway_def statusIn_def requiredOperation_def isPostProcessing_def hasBackupSucceededOrFailed_def
      split: option.splits)

section \<open>Stages that let the run go on\<close>

text \<open>The stage lets the workflow go on with the same backup in the same cluster.\<close>

definition goesOn :: "cluster stage \<Rightarrow> cluster \<Rightarrow> backup \<Rightarrow> bool" where
  "goesOn s S b \<longleftrightarrow> (\<forall>w. at b S w \<longrightarrow> wp (s b) (\<lambda>(act, err, b') w'. act = Next \<and> err = None \<and> at b' S w' \<and> kin b b' \<and> underway b') w)"

lemma wp_runStages:
  assumes "goesOn s S b" "at b S w"
    and "\<And>b' w'. at b' S w' \<Longrightarrow> kin b b' \<Longrightarrow> underway b' \<Longrightarrow> wp (runStages d ss b') Q w'"
  shows "wp (runStages d (s # ss) b) Q w"
proof -
  from assms(1,2) have "wp (s b) (\<lambda>(act, err, b') w'. act = Next \<and> err = None \<and> at b' S w' \<and> kin b b' \<and> underway b') w"
    by (simp add: goesOn_def)
  then show ?thesis
    unfolding runStages.simps by (rule wp_call) (auto intro: assms(3))
qed

lemma computes_simps [simp]:
  "computes (setCondition clusterEnv d) (\<lambda>t st. st\<lparr>conditions := upsertCond t (conditions st) d\<rparr>)"
  "computes (fold_io (setCondition clusterEnv) ds) (\<lambda>t st. st\<lparr>conditions := foldl (upsertCond t) (conditions st) ds\<rparr>)"
  by (simp_all add: computes_def wp_simps)

lemma goes_on_synced: "underway b \<Longrightarrow> goesOn (ensureVeleroStatusSynced (NewReconciler clusterEnv st dep)) S b"
  by (auto simp: goesOn_def ensureVeleroStatusSynced_def underway_def wp_simps)

lemma underway_initialized:
  assumes "underway b" "set ds \<subseteq> set initialBackupConditions"
  shows "underway (withStatus b ((b_status b)\<lparr>conditions := foldl (upsertCond u) (backupConditions b) ds\<rparr>))"
proof -
  let ?cs = "foldl (upsertCond u) (backupConditions b) ds"
  have "statusIn ?cs t = statusOf b t \<or> (\<exists>d \<in> set initialBackupConditions. c_type d = t \<and> statusIn ?cs t = Some (c_status d))" for t
    using statusIn_upserts [of u "backupConditions b" ds t] assms(2) by blast
  from this [of ConditionSucceeded] this [of ConditionProviderSucceeded] this [of ConditionCanceled] assms(1)
  show ?thesis
    by (auto simp: underway_def initialBackupConditions_def pendingMilestone_def)
qed

lemma goes_on_initialized:
  assumes "underway b"
  shows "goesOn (ensureConditionsInitialized (NewReconciler clusterEnv st dep)) S b"
proof -
  have "set (Missing clusterEnv (backupConditions b) initialBackupConditions) \<subseteq> set initialBackupConditions"
    by (auto simp: Missing_def)
  note underway = underway_initialized [OF assms this]
  show ?thesis
    unfolding goesOn_def ensureConditionsInitialized_def Let_def reconciler_simps
    using assms
    by (auto simp: wp_return wp_bind intro!: wp_patch [OF _ computes_simps(2)] underway simp: kin_def)
qed

text \<open>Merging labels or annotations that reports no change leaves the map as it is.\<close>

lemma merge_unchanged: "mergeMissingOrChangedValues m kvs = (m', False) \<Longrightarrow> m' = m"
  by (induction kvs arbitrary: m m' rule: list.induct) (auto split: if_splits)

lemma goes_on_persist:
  assumes "at b S w" "underway b" "keyOf b' = keyOf b" "kin b b'" "underway b'" "\<not> changed \<Longrightarrow> b' = b"
  shows "wp (persistSetup (NewReconciler clusterEnv st dep) b' changed)
    (\<lambda>(act, err, b') w'. act = Next \<and> err = None \<and> at b' S w' \<and> kin b b' \<and> underway b') w"
proof -
  have "kin b (b'\<lparr>o_finalizers := fs\<rparr>)" "underway (b'\<lparr>o_finalizers := fs\<rparr>)" for fs
    using assms(4,5) by (simp_all add: kin_def underway_def)
  with assms(1,2,3,5,6) show ?thesis
    by (auto simp: persistSetup_def Let_def wp_simps at_lookup kin_def intro!: at_put [OF assms(1)])
qed

lemma goes_on_setup:
  assumes "underway b"
  shows "goesOn (ensureBackupSetup (NewReconciler clusterEnv st dep)) S b"
proof -
  have meta: "kin b (b\<lparr>o_labels := l\<rparr>)" "underway (b\<lparr>o_labels := l\<rparr>)"
      "kin b (b\<lparr>o_labels := l, o_annotations := a\<rparr>)" "underway (b\<lparr>o_labels := l, o_annotations := a\<rparr>)" for l a
    using assms by (simp_all add: kin_def underway_def)
  show ?thesis
    unfolding goesOn_def ensureBackupSetup_def Let_def reconciler_simps
    by (auto simp: wp_simps Let_def meta assms split: prod.splits list.splits
        intro!: goes_on_persist dest!: merge_unchanged)
qed

text \<open>The time limit the configuration sets, and the time window of a backup.\<close>

definition retryLimit :: "cluster \<Rightarrow> string \<Rightarrow> duration option" where
  "retryLimit S n = (case map_of (cl_configMaps S) (n, backupConfigMapName) of
     None \<Rightarrow> None
   | Some cm \<Rightarrow> (case cm_data cm backupRetryTimeLimitKey of
       None \<Rightarrow> None
     | Some s \<Rightarrow> (case atoi s of Inl _ \<Rightarrow> None | Inr limit \<Rightarrow> Some (mulDuration limit minute))))"

definition inWindow :: "cluster \<Rightarrow> backup \<Rightarrow> instant \<Rightarrow> bool" where
  "inWindow S b t \<longleftrightarrow> (case retryLimit S (o_namespace b) of None \<Rightarrow> False | Some limit \<Rightarrow> timeSub t (o_creation b) \<le> limit)"

lemma goes_on_window:
  assumes "underway b" "inWindow S b (cl_now S)"
  shows "goesOn (ensureBackupIsCanceledAfterTimeWindowExpired (NewReconciler clusterEnv st dep)) S b"
proof -
  have "underway (withStatus b ((b_status b)\<lparr>conditions := upsertCond u (backupConditions b)
      (newCondition ConditionCanceled ConditionFalse r m)\<rparr>))" for u r m
    using assms(1) by (simp add: underway_def)
  with assms show ?thesis
    unfolding goesOn_def ensureBackupIsCanceledAfterTimeWindowExpired_def hasTimeWindowExpired_def markCanceled_def
      reconciler_simps
    by (auto simp: wp_simps at_def inWindow_def retryLimit_def split: option.splits sum.splits
        intro!: wp_patch [OF _ computes_simps(1)] simp: kin_def)
qed

text \<open>The provider serves the backup: storage and deployment are ready and no other run is going on.\<close>

definition serves :: "cluster \<Rightarrow> string \<Rightarrow> string \<Rightarrow> backup \<Rightarrow> bool" where
  "serves S st dep b \<longleftrightarrow>
     (case map_of (cl_storageLocations S) (o_namespace b, st) of
        None \<Rightarrow> False | Some l \<Rightarrow> sl_phase l = BackupStorageLocationPhaseAvailable) \<and>
     (case map_of (cl_workloads S Deployment) (o_namespace b, dep) of None \<Rightarrow> False | Some d \<Rightarrow> 1 \<le> w_ready d) \<and>
     list_all (\<lambda>(q, v). q = keyOf v \<and> (fst q = o_namespace b \<longrightarrow> o_name v = o_name b \<or> \<not> isProviderBackupInProgress v))
       (cl_veleroBackups S)"

lemma underway_prepared: "underway b \<Longrightarrow>
    underway (withStatus b ((b_status b)\<lparr>conditions := upsertCond u (backupConditions b) (newCondition ConditionPrepared s r m)\<rparr>))"
  by (simp add: underway_def)

lemma no_other_run:
  "serves S st dep b \<Longrightarrow> List.find (\<lambda>v. o_name v \<noteq> o_name b \<and> isProviderBackupInProgress v)
     (map snd (filter (\<lambda>(q, x). fst q = o_namespace b) (cl_veleroBackups S))) = None"
  by (auto simp: serves_def find_None_iff list_all_iff)

lemma goes_on_prepared:
  assumes "underway b" "serves S st dep b"
  shows "goesOn (ensureBackupIsPrepared (NewReconciler clusterEnv st dep)) S b"
  unfolding goesOn_def
proof (intro allI impI)
  fix w :: "(cluster, event) world"
  assume w: "at b S w"
  obtain l d where serving: "map_of (cl_storageLocations S) (o_namespace b, st) = Some l" "sl_phase l = BackupStorageLocationPhaseAvailable"
      "map_of (cl_workloads S Deployment) (o_namespace b, dep) = Some d" "\<not> w_ready d < 1"
    using assms(2) by (auto simp: serves_def split: option.splits)
  have S: "outside w = putBackup b S" using w by (simp add: at_def)
  show "wp (ensureBackupIsPrepared (NewReconciler clusterEnv st dep) b)
      (\<lambda>(act, err, b') w'. act = Next \<and> err = None \<and> at b' S w' \<and> kin b b' \<and> underway b') w"
  proof (cases "map_of (cl_veleroBackups S) (keyOf b)")
    case (Some v)
    with assms(1) w show ?thesis
      by (simp add: ensureBackupIsPrepared_def getProviderBackup_def wp_simps S)
  next
    case None
    with assms w serving show ?thesis
      unfolding ensureBackupIsPrepared_def getProviderBackup_def CheckReady_def checkDeploymentReady_def
        guardOtherRun_def findRunningProviderBackupOfAnotherRun_def reportReadiness_def
      by (auto simp: wp_simps S Let_def no_other_run [OF assms(2)] kin_def
          intro!: wp_patch [OF _ computes_simps(1)] underway_prepared)
  qed
qed

section \<open>One reconciliation\<close>

lemma kin_key: "kin b b' \<Longrightarrow> o_namespace b' = o_namespace b \<and> o_name b' = o_name b \<and> o_uid b' = o_uid b \<and>
    o_creation b' = o_creation b"
  by (simp add: kin_def)

lemma kin_serves: "kin b b' \<Longrightarrow> inWindow S b' t = inWindow S b t \<and> serves S st dep b' = serves S st dep b"
  using kin_key [of b b'] by (simp add: inWindow_def serves_def cong: option.case_cong)

text \<open>The stages of a run from the provider backup on, and from the lease on.\<close>

definition closingStages :: "cluster defaultReconciler \<Rightarrow> cluster stage list" where
  "closingStages c = [ensureProviderBackupCompleted c, ensureMaintenanceDeactivated c, ensureBackupLeaseReleased c,
     ensureBackupRunCompleted c]"

definition runStagesFromLease :: "cluster defaultReconciler \<Rightarrow> cluster stage list" where
  "runStagesFromLease c = ensureActiveBackupLease c # ensureMaintenanceActivated c # ensureProviderBackupCreated c #
     closingStages c"

lemma wp_opening:
  assumes "at b S w" "underway b" "inWindow S b (cl_now S)" "serves S st dep b"
    and "\<And>b' w'. at b' S w' \<Longrightarrow> kin b b' \<Longrightarrow> underway b' \<Longrightarrow>
      wp (runStages d (runStagesFromLease (NewReconciler clusterEnv st dep)) b') Q w'"
  shows "wp (runStages d (getStagesForOperation (reconcilerOf (NewReconciler clusterEnv st dep)) operationCreate) b) Q w"
proof -
  let ?c = "NewReconciler clusterEnv st dep"
  have prepared: "wp (runStages d (ensureBackupIsPrepared ?c # runStagesFromLease ?c) b') Q w'"
    if "at b' S w'" "kin b b'" "underway b'" for b' w'
    using that assms(4) kin_serves [OF that(2)]
    by (intro wp_runStages [OF goes_on_prepared]) (auto intro: assms(5) kin_trans)
  have window: "wp (runStages d (ensureBackupIsCanceledAfterTimeWindowExpired ?c # ensureBackupIsPrepared ?c #
      runStagesFromLease ?c) b') Q w'" if "at b' S w'" "kin b b'" "underway b'" for b' w'
    using that assms(3) kin_serves [OF that(2)]
    by (intro wp_runStages [OF goes_on_window]) (auto intro: prepared kin_trans)
  show ?thesis
    using assms(1,2)
    by (auto simp: finalizeStages_def cleanupStages_def reconcilerOf_def runStagesFromLease_def [symmetric] closingStages_def [symmetric]
        intro!: wp_runStages [OF goes_on_synced] wp_runStages [OF goes_on_initialized] wp_runStages [OF goes_on_setup]
        intro: window kin_trans simp del: runStages.simps)
qed

lemma wp_Reconcile:
  assumes "at b S w" "underway b" "inWindow S b (cl_now S)" "serves S st dep b"
    and "\<And>b' w'. at b' S w' \<Longrightarrow> kin b b' \<Longrightarrow> underway b' \<Longrightarrow>
      wp (runStages d (runStagesFromLease (NewReconciler clusterEnv st dep)) b') Q w'"
  shows "wp (Reconcile (backupController (NewReconciler clusterEnv st dep) d) (keyOf b)) Q w"
proof -
  have get: "map_of (cl_backups (outside w)) (keyOf b) = Some b" using assms(1) by (rule at_lookup)
  have call: "wp (Reconcile (backupController (NewReconciler clusterEnv st dep) d) (keyOf b)) Q w"
    if "\<And>w'. outside w' = outside w \<Longrightarrow> wp (runStages d
      (getStagesForOperation (reconcilerOf (NewReconciler clusterEnv st dep)) operationCreate) b) Q w'"
    unfolding Reconcile_def backupController_def controller.select_convs reconciler_simps
    using that get
    by (auto simp: wp_simps underway_operation [OF assms(2)] simp del: getStagesForOperation.simps
        intro!: wp_conseq [OF wp_initMetrics(1)] wp_conseq [OF wp_initMetrics(2)])
  show ?thesis
    by (rule call, rule wp_opening [OF _ assms(2-5)]) (rule at_meta [OF assms(1)])
qed

text \<open>The reconciliation asks for the next one and leaves the backup in the cluster \<open>S'\<close>.\<close>

definition carriesOn :: "duration \<Rightarrow> backup \<Rightarrow> cluster \<Rightarrow> reconcile_result \<Rightarrow> (cluster, event) world \<Rightarrow> bool" where
  "carriesOn d b S' r w \<longleftrightarrow> r = \<lparr>requeueAfter = d, rerr = None\<rparr> \<and> (\<exists>b'. at b' S' w \<and> kin b b' \<and> underway b')"

lemma carriesOn_log [simp]: "carriesOn d b S' r (w\<lparr>log := l\<rparr>) \<longleftrightarrow> carriesOn d b S' r w"
  by (simp add: carriesOn_def)

lemma carriesOn_intro:
  "at b' S' w \<Longrightarrow> kin b b' \<Longrightarrow> underway b' \<Longrightarrow> carriesOn d b S' \<lparr>requeueAfter = d, rerr = None\<rparr> w"
  by (auto simp: carriesOn_def)

text \<open>The lease of a backup, as it claims it at a time.\<close>

definition ownLease :: "backup \<Rightarrow> instant \<Rightarrow> lease" where
  "ownLease b t = claimed (emptyLease (o_namespace b) DefaultName) b backupLeaseHolderKind t"

lemma ownLease_simps [simp]:
  "o_namespace (ownLease b t) = o_namespace b" "o_name (ownLease b t) = DefaultName"
  "IsHolder (ownLease b t) b backupLeaseHolderKind"
  by (simp_all add: ownLease_def emptyLease_def claimed_def IsHolder_def HolderUID_def lookupStr_def
      obj_meta.defs newMeta_def)

lemma emptyLease_keys: "o_namespace (emptyLease n nm) = n" "o_name (emptyLease n nm) = nm"
  by (simp_all add: emptyLease_def obj_meta.defs newMeta_def)

lemma manager_simps [simp]:
  "m_client (backupLeaseManager c b) = client c" "m_namespace (backupLeaseManager c b) = o_namespace b"
  "m_name (backupLeaseManager c b) = DefaultName"
  by (simp_all add: backupLeaseManager_def NewManager_def)

lemma takes_lease:
  assumes "at b S w" "underway b" "map_of (cl_leases S) (leaseKeyOf b) = None"
  shows "wp (runStages d (runStagesFromLease (NewReconciler clusterEnv st dep)) b)
    (carriesOn d b (S\<lparr>cl_leases := store (leaseKeyOf b) (ownLease b (cl_now S)) (cl_leases S)\<rparr>)) w"
proof -
  have S: "outside w = putBackup b S" using assms(1) by (simp add: at_def)
  have lease: "claimed (emptyLease (o_namespace b) DefaultName) b backupLeaseHolderKind t = ownLease b t" for t
    by (simp add: ownLease_def)
  have claim: "wp (Claim clusterEnv l b k) Q w' \<longleftrightarrow> Q (claimed l b k (cl_now (outside w'))) w'" for l k Q and w' :: "(cluster, event) world"
    by (simp add: Claim_def claimed_def wp_simps)
  show ?thesis
    using assms
    by (auto simp: runStagesFromLease_def runStages.simps ensureActiveBackupLease_def Acquire_def createLease_def NewLease_def
        backupLeaseAction_def wp_simps S claim lease emptyLease_keys intro!: carriesOn_intro simp: at_def putBackup_def)
qed

text \<open>Who holds the lease passes on to the maintenance mode.\<close>

definition holdsLease :: "cluster \<Rightarrow> backup \<Rightarrow> bool" where
  "holdsLease S b \<longleftrightarrow> (case map_of (cl_leases S) (leaseKeyOf b) of None \<Rightarrow> False | Some l \<Rightarrow> keyOf l = leaseKeyOf b \<and> IsHolder l b backupLeaseHolderKind)"

lemma goes_on_lease:
  "underway b \<Longrightarrow> holdsLease S b \<Longrightarrow> goesOn (ensureActiveBackupLease (NewReconciler clusterEnv st dep)) S b"
  by (auto simp: goesOn_def ensureActiveBackupLease_def Acquire_def backupLeaseAction_def wp_simps at_def holdsLease_def
      split: option.splits)

lemma goes_on_maintenance:
  "underway b \<Longrightarrow> cl_maintenance S \<Longrightarrow> goesOn (ensureMaintenanceActivated (NewReconciler clusterEnv st dep)) S b"
  by (auto simp: goesOn_def ensureMaintenanceActivated_def wp_simps at_def)

lemma goes_on_created:
  "underway b \<Longrightarrow> map_of (cl_veleroBackups S) (keyOf b) \<noteq> None \<Longrightarrow>
     goesOn (ensureProviderBackupCreated (NewReconciler clusterEnv st dep)) S b"
  by (auto simp: goesOn_def ensureProviderBackupCreated_def getProviderBackup_def wp_simps at_def)

lemma activates_maintenance:
  assumes "at b S w" "underway b" "holdsLease S b" "\<not> cl_maintenance S"
  shows "wp (runStages d (runStagesFromLease (NewReconciler clusterEnv st dep)) b)
    (carriesOn d b (S\<lparr>cl_maintenance := True\<rparr>)) w"
proof -
  have marked: "underway (withStatus x ((b_status x)\<lparr>conditions := upsertCond u (backupConditions x)
      (newCondition ConditionSucceeded ConditionUnknown r m)\<rparr>))" if "underway x" for x u r m
    using that by (simp add: underway_def)
  let ?c = "NewReconciler clusterEnv st dep" and ?S = "S\<lparr>cl_maintenance := True\<rparr>"
  have activate: "wp (runStages d (ensureMaintenanceActivated ?c # ss) b') (carriesOn d b ?S) w'"
    if "at b' S w'" "kin b b'" "underway b'" for b' w' ss
  proof -
    have at': "at b' ?S w2" if "outside w2 = (putBackup b' S)\<lparr>cl_maintenance := True\<rparr>" for w2
      using that by (simp add: at_def putBackup_def)
    have patch: "wp (patchStatus ?c b' (setCondition clusterEnv (newCondition ConditionSucceeded ConditionUnknown r m)))
        (\<lambda>(perr, b1) w3. perr = None \<and> at b1 ?S w3 \<and> kin b b1 \<and> underway b1) w2" if "at b' ?S w2" for w2 r m
      using \<open>kin b b'\<close> \<open>underway b'\<close>
      by (intro wp_patch [OF that computes_simps(1)]) (simp add: kin_def marked)
    show ?thesis
      using that(1) assms(4)
      by (simp add: ensureMaintenanceActivated_def runStages.simps wp_simps at_def)
        (rule wp_conseq [OF patch [OF at']], auto simp: wp_simps intro: carriesOn_intro)
  qed
  show ?thesis
    unfolding runStagesFromLease_def
    by (rule wp_runStages [OF goes_on_lease [OF assms(2,3)] assms(1)]) (rule activate)
qed

text \<open>The backup, started or ended at a time unless it was before.\<close>

definition startedAt :: "instant \<Rightarrow> backup \<Rightarrow> backup" where
  "startedAt t b = b\<lparr>b_status := (b_status b)\<lparr>startTimestamp := (if isZero (startTimestamp (b_status b)) then t
     else startTimestamp (b_status b))\<rparr>\<rparr>"

lemma computes_markStarted:
  "client c = clusterEnv \<Longrightarrow> computes (markStarted c) (\<lambda>t st. st\<lparr>conditions := upsertCond t (conditions st)
     (newCondition ConditionSucceeded ConditionUnknown reasonProviderBackupResourceDoesNotExist ''Provider backup resource does not exist.''),
     startTimestamp := (if isZero (startTimestamp st) then t else startTimestamp st)\<rparr>)"
  by (simp add: computes_def markStarted_def wp_simps)

lemma creates_providerBackup:
  assumes "at b S w" "underway b" "holdsLease S b" "cl_maintenance S" "map_of (cl_veleroBackups S) (keyOf b) = None"
  shows "wp (runStages d (runStagesFromLease (NewReconciler clusterEnv st dep)) b)
    (\<lambda>r w'. \<exists>v. keyOf v = keyOf b \<and> vb_status v = emptyVeleroBackupStatus \<and>
       carriesOn d (startedAt (cl_now S) b) (S\<lparr>cl_veleroBackups := store (keyOf b) v (cl_veleroBackups S)\<rparr>) r w') w"
    (is "wp _ ?Q w")
proof -
  let ?c = "NewReconciler clusterEnv st dep"
  define Q where "Q = ?Q"
  have Qlog: "Q r (w'\<lparr>log := l\<rparr>) \<longleftrightarrow> Q r w'" for r w' l by (simp add: Q_def)
  have create: "wp (runStages d (ensureProviderBackupCreated ?c # ss) b') Q w'"
    if "at b' S w'" "kin b b'" "underway b'" for b' w' ss
  proof -
    define v where "v = CreateVeleroBackupResource b' st (map_of defaultLabels)"
    define S' where "S' = S\<lparr>cl_veleroBackups := store (keyOf b) v (cl_veleroBackups S)\<rparr>"
    have key: "keyOf b' = keyOf b" using that(2) by (simp add: kin_def)
    have v: "keyOf v = keyOf b" "vb_status v = emptyVeleroBackupStatus"
      using key by (simp_all add: v_def CreateVeleroBackupResource_def obj_meta.defs newMeta_def)
    have got: "map_of (cl_veleroBackups (outside w')) (keyOf b') = None" "outside w' = putBackup b' S"
      using that(1) assms(5) key by (simp_all add: at_def)
    have at': "at b' S' w''" if "outside w'' = (putBackup b' S)\<lparr>cl_veleroBackups := store (keyOf b) v (cl_veleroBackups S)\<rparr>" for w''
      using that by (simp add: at_def S'_def putBackup_def)
    have carries: "Q \<lparr>requeueAfter = d, rerr = None\<rparr> w''" if "at b'' S' w''" "kin (startedAt (cl_now S) b) b''" "underway b''" for b'' w''
      using carriesOn_intro [OF that] v unfolding S'_def Q_def by blast
    have start: "kin (startedAt (cl_now S) b) (withStatus b' ((b_status b')\<lparr>conditions := cs,
        startTimestamp := (if isZero (startTimestamp (b_status b')) then cl_now S else startTimestamp (b_status b'))\<rparr>))" for cs
      using that(2) by (simp add: kin_def startedAt_def)
    have still: "underway (withStatus b' ((b_status b')\<lparr>conditions := upsertCond u (backupConditions b')
        (newCondition ConditionSucceeded ConditionUnknown r m), startTimestamp := t\<rparr>))" for u r m t
      using that(3) by (simp add: underway_def)
    have now: "cl_now S' = cl_now S" by (simp add: S'_def)
    have patch: "wp (patchStatus ?c b' (markStarted ?c))
        (\<lambda>(perr, b1) w3. perr = None \<and> at b1 S' w3 \<and> kin (startedAt (cl_now S) b) b1 \<and> underway b1) w2" if "at b' S' w2" for w2
      by (rule wp_patch [OF that computes_markStarted]) (simp_all add: now start still cong: if_cong split del: if_split)
    show ?thesis
      unfolding runStages.simps ensureProviderBackupCreated_def getProviderBackup_def reconciler_simps v_def [symmetric]
      using got key v
      by (simp add: wp_simps) (rule wp_conseq [OF patch [OF at']], auto simp: wp_simps Qlog intro: carries)
  qed
  show ?thesis
    unfolding runStagesFromLease_def Q_def [symmetric]
    by (rule wp_runStages [OF goes_on_lease [OF assms(2,3)] assms(1)],
        rule wp_runStages [OF goes_on_maintenance]) (use assms(4) in \<open>auto intro: create kin_trans\<close>)
qed

section \<open>Waiting for the provider\<close>

text \<open>A reconciliation after which the controller rests: no requeue and no error to try again for.\<close>

definition atRest :: "reconcile_result \<Rightarrow> bool" where
  "atRest r \<longleftrightarrow> requeueAfter r = 0 \<and> rerr r = None"

definition goesAgain :: "backup \<Rightarrow> cluster \<Rightarrow> reconcile_result \<Rightarrow> (cluster, event) world \<Rightarrow> bool" where
  "goesAgain b S' r w \<longleftrightarrow> \<not> atRest r \<and> (\<exists>b'. at b' S' w \<and> kin b b' \<and> underway b')"

lemma goesAgain_intro: "at b' S' w \<Longrightarrow> kin b b' \<Longrightarrow> underway b' \<Longrightarrow> \<not> atRest r \<Longrightarrow> goesAgain b S' r w"
  by (auto simp: goesAgain_def)

lemma carriesOn_goesAgain: "carriesOn d b S' r w \<Longrightarrow> d \<noteq> 0 \<Longrightarrow> goesAgain b S' r w"
  by (auto simp: carriesOn_def goesAgain_def atRest_def)

text \<open>The stages before the one that looks at the provider backup, once it exists.\<close>

lemma wp_untilCreated:
  assumes "at b S w" "underway b" "holdsLease S b" "cl_maintenance S" "map_of (cl_veleroBackups S) (keyOf b) \<noteq> None"
    and "\<And>b' w'. at b' S w' \<Longrightarrow> kin b b' \<Longrightarrow> underway b' \<Longrightarrow>
      wp (runStages d (closingStages (NewReconciler clusterEnv st dep)) b') Q w'"
  shows "wp (runStages d (runStagesFromLease (NewReconciler clusterEnv st dep)) b) Q w"
proof -
  let ?c = "NewReconciler clusterEnv st dep"
  have created: "wp (runStages d (ensureProviderBackupCreated ?c # closingStages ?c) b') Q w'"
    if "at b' S w'" "kin b b'" "underway b'" for b' w'
    using that assms(5) kin_key [OF that(2)]
    by (intro wp_runStages [OF goes_on_created]) (auto intro: assms(6) kin_trans)
  show ?thesis
    unfolding runStagesFromLease_def
    by (rule wp_runStages [OF goes_on_lease [OF assms(2,3)] assms(1)], rule wp_runStages [OF goes_on_maintenance])
      (use assms(4) created in \<open>auto simp: runStagesFromLease_def intro: kin_trans\<close>)
qed

definition hasEnded :: "velero_backup_phase \<Rightarrow> bool" where
  "hasEnded p \<longleftrightarrow> p = BackupPhaseCompleted \<or> p \<in> set veleroBackupFailedPhases"

lemma waits_for_provider:
  assumes "at b S w" "underway b" "holdsLease S b" "cl_maintenance S"
    and "map_of (cl_veleroBackups S) (keyOf b) = Some v" "\<not> hasEnded (vb_phase v)" "d \<noteq> 0"
  shows "wp (runStages d (runStagesFromLease (NewReconciler clusterEnv st dep)) b) (goesAgain b S) w"
proof (rule wp_untilCreated [OF assms(1-4)])
  fix b' :: backup and w' :: "(cluster, event) world"
  let ?c = "NewReconciler clusterEnv st dep"
  assume b': "at b' S w'" "kin b b'" "underway b'"
  have patch: "wp (patchStatus ?c b' (setCondition clusterEnv (newCondition ConditionProviderSucceeded ConditionUnknown r m)))
      (\<lambda>(perr, b1) w3. perr = None \<and> at b1 S w3 \<and> kin b b1 \<and> underway b1) w2" if "at b' S w2" for w2 r m
    using b' by (intro wp_patch [OF that computes_simps(1)]) (simp add: kin_def underway_def)
  have lookup: "map_of (cl_veleroBackups (outside w')) (keyOf b') = Some v" "cl_now (outside w') = cl_now S"
    using b'(1) assms(5) kin_key [OF b'(2)] by (simp_all add: at_def)
  have phases: "\<not> hasProviderBackupFailed v" "\<not> hasProviderBackupSucceeded v"
    using assms(6) by (simp_all add: hasEnded_def hasProviderBackupFailed_def hasProviderBackupSucceeded_def)
  show "wp (runStages d (closingStages ?c) b') (goesAgain b S) w'"
  proof (cases "isProviderBackupInProgress v")
    case True
    with lookup b'(1) assms(7) show ?thesis
      by (simp add: closingStages_def runStages.simps ensureProviderBackupCompleted_def getProviderBackup_def
          handleProviderBackupInProgress_def wp_simps Let_def)
        (rule wp_conseq [OF patch], auto simp: wp_simps atRest_def goesAgain_def)
  next
    case False
    with lookup b' phases show ?thesis
      by (auto simp: closingStages_def runStages.simps ensureProviderBackupCompleted_def getProviderBackup_def
          wp_simps atRest_def intro!: goesAgain_intro)
  qed
qed (simp add: assms(5))

section \<open>Closing the run\<close>

definition endedAt :: "instant \<Rightarrow> backup \<Rightarrow> backup" where
  "endedAt t b = b\<lparr>b_status := (b_status b)\<lparr>completionTimestamp := (if isZero (completionTimestamp (b_status b)) then t
     else completionTimestamp (b_status b))\<rparr>\<rparr>"

text \<open>The result of the provider backup is in, and the run was not canceled.\<close>

definition decided :: "cond_status \<Rightarrow> backup \<Rightarrow> bool" where
  "decided s b \<longleftrightarrow> s \<in> {ConditionTrue, ConditionFalse} \<and> statusOf b ConditionProviderSucceeded = Some s \<and>
     statusOf b ConditionCanceled \<noteq> Some ConditionTrue"

lemma decided_postProcessing: "decided s b \<Longrightarrow> isPostProcessing clusterEnv b"
  by (auto simp: decided_def statusIn_def isPostProcessing_def hasBackupSucceededOrFailed_def)

lemma computes_markCompleted:
  "client c = clusterEnv \<Longrightarrow> computes (markCompleted c s r m) (\<lambda>t st. st\<lparr>conditions := upsertCond t (conditions st)
     (newCondition ConditionProviderSucceeded s r m),
     completionTimestamp := (if isZero (completionTimestamp st) then t else completionTimestamp st)\<rparr>)"
  by (simp add: computes_def markCompleted_def wp_simps)

definition resultOf :: "velero_backup_phase \<Rightarrow> cond_status" where
  "resultOf p = (if p = BackupPhaseCompleted then ConditionTrue else ConditionFalse)"

lemma decides:
  assumes "at b S w" "underway b" "map_of (cl_veleroBackups S) (keyOf b) = Some v" "hasEnded (vb_phase v)"
    and "\<And>b' w'. at b' S w' \<Longrightarrow> kin (endedAt (cl_now S) b) b' \<Longrightarrow> decided (resultOf (vb_phase v)) b' \<Longrightarrow>
      wp (runStages d ss b') Q w'"
  shows "wp (runStages d (ensureProviderBackupCompleted (NewReconciler clusterEnv st dep) # ss) b) Q w"
proof -
  let ?c = "NewReconciler clusterEnv st dep" and ?s = "resultOf (vb_phase v)"
  have patch: "wp (patchStatus ?c b (markCompleted ?c ?s r m))
      (\<lambda>(perr, b1) w3. perr = None \<and> at b1 S w3 \<and> kin (endedAt (cl_now S) b) b1 \<and> decided ?s b1) w2"
    if "at b S w2" for w2 r m
    using assms(2)
    by (intro wp_patch [OF that computes_markCompleted])
      (simp_all add: kin_def endedAt_def decided_def resultOf_def underway_def split del: if_split, simp)
  have at': "at b S (w\<lparr>log := l\<rparr>)" for l using assms(1) by simp
  have lookup: "map_of (cl_veleroBackups (outside w)) (keyOf b) = Some v"
    using assms(1,3) by (simp add: at_def)
  consider "vb_phase v = BackupPhaseCompleted" | "vb_phase v \<noteq> BackupPhaseCompleted" "hasProviderBackupFailed v"
    using assms(4) by (auto simp: hasEnded_def hasProviderBackupFailed_def)
  then show ?thesis
  proof cases
    case 1
    then have phase: "\<not> isProviderBackupInProgress v" "\<not> hasProviderBackupFailed v" "hasProviderBackupSucceeded v"
        "?s = ConditionTrue"
      by (simp_all add: isProviderBackupInProgress_def hasProviderBackupFailed_def hasProviderBackupSucceeded_def
          veleroBackupIsRunningPhases_def veleroBackupFailedPhases_def resultOf_def)
    from patch [OF at'] lookup show ?thesis
      by (simp add: runStages.simps ensureProviderBackupCompleted_def getProviderBackup_def phase
          handleProviderBackupSucceeded_def patchProviderBackupCompletedStatus_def wp_simps)
        (rule wp_conseq [OF patch [OF at', unfolded phase(4)]], auto simp: wp_simps phase(4) intro!: assms(5))
  next
    case 2
    then have phase: "\<not> isProviderBackupInProgress v" "?s = ConditionFalse"
      using phase_predicates_disjoint by (auto simp: resultOf_def)
    from 2 lookup show ?thesis
      by (simp add: runStages.simps ensureProviderBackupCompleted_def getProviderBackup_def phase
          handleProviderBackupFailed_def patchProviderBackupCompletedStatus_def wp_simps)
        (rule wp_conseq [OF patch [OF at', unfolded phase(2)]], auto simp: wp_simps phase(2) intro!: assms(5))
  qed
qed

text \<open>The cluster without the lease of the backup, and with the maintenance mode off.\<close>

definition unlocked :: "backup \<Rightarrow> cluster \<Rightarrow> cluster" where
  "unlocked b S = S\<lparr>cl_maintenance := False, cl_leases := filter (\<lambda>(q, _). q \<noteq> leaseKeyOf b) (cl_leases S)\<rparr>"

lemma closes_maintenance:
  assumes "at b S w" "decided s b" "holdsLease S b" "cl_maintenance S"
    and "\<And>w'. at b (S\<lparr>cl_maintenance := False\<rparr>) w' \<Longrightarrow> wp (runStages d ss b) Q w'"
  shows "wp (runStages d (ensureMaintenanceDeactivated (NewReconciler clusterEnv st dep) # ss) b) Q w"
  using assms(1,3,4)
  by (auto simp: runStages.simps ensureMaintenanceDeactivated_def decided_postProcessing [OF assms(2)] holdsBackupLease_def
      Holds_def wp_simps at_def holdsLease_def putBackup_def split: option.splits intro!: assms(5))

lemma closes_lease:
  assumes "at b S w" "decided s b" "holdsLease S b"
    and "\<And>w'. at b (S\<lparr>cl_leases := filter (\<lambda>(q, _). q \<noteq> leaseKeyOf b) (cl_leases S)\<rparr>) w' \<Longrightarrow>
      wp (runStages d ss b) Q w'"
  shows "wp (runStages d (ensureBackupLeaseReleased (NewReconciler clusterEnv st dep) # ss) b) Q w"
  using assms(1,3)
  by (auto simp: runStages.simps ensureBackupLeaseReleased_def decided_postProcessing [OF assms(2)]
      Release_def wp_simps at_def holdsLease_def putBackup_def split: option.splits intro!: assms(4))

lemma completes_run:
  assumes "at b S w" "decided s b"
  shows "wp (runStages d [ensureBackupRunCompleted (NewReconciler clusterEnv st dep)] b)
    (\<lambda>r w'. atRest r \<and> (\<exists>b'. at b' S w' \<and> kin b b' \<and> statusOf b' ConditionSucceeded = Some s)) w"
proof -
  let ?c = "NewReconciler clusterEnv st dep"
  have result: "c_type (runResult clusterEnv b) = ConditionSucceeded" "c_status (runResult clusterEnv b) = s"
    using assms(2) by (auto simp: decided_def statusIn_def runResult_def hasBackupSucceededOrFailed_def Let_def)
  have patch: "wp (patchStatus ?c b (setCondition clusterEnv (runResult clusterEnv b)))
      (\<lambda>(perr, b1) w3. perr = None \<and> at b1 S w3 \<and> kin b b1 \<and> statusOf b1 ConditionSucceeded = Some s \<and>
        statusOf b1 ConditionCanceled \<noteq> Some ConditionTrue) w"
    using assms(2) result
    by (intro wp_patch [OF assms(1) computes_simps(1)]) (auto simp: kin_def decided_def)
  show ?thesis
    by (simp add: runStages.simps ensureBackupRunCompleted_def decided_postProcessing [OF assms(2)] wp_simps Let_def)
      (intro conjI impI; rule wp_conseq [OF patch]; auto simp: wp_simps atRest_def found_status)
qed

lemma ends_run:
  assumes "at b S w" "underway b" "holdsLease S b" "cl_maintenance S"
    and "map_of (cl_veleroBackups S) (keyOf b) = Some v" "hasEnded (vb_phase v)"
  shows "wp (runStages d (runStagesFromLease (NewReconciler clusterEnv st dep)) b)
    (\<lambda>r w'. atRest r \<and> (\<exists>b'. at b' (unlocked b S) w' \<and> kin (endedAt (cl_now S) b) b' \<and>
       statusOf b' ConditionSucceeded = Some (resultOf (vb_phase v)))) w"
proof (rule wp_untilCreated [OF assms(1-4)], simp add: assms(5))
  fix b' :: backup and w' :: "(cluster, event) world"
  let ?c = "NewReconciler clusterEnv st dep"
  assume b': "at b' S w'" "kin b b'" "underway b'"
  have lookup: "map_of (cl_veleroBackups S) (keyOf b') = Some v" using assms(5) kin_key [OF b'(2)] by simp
  have ended: "kin (endedAt t b) b'' \<longleftrightarrow> kin (endedAt t b') b''" for t b''
    using b'(2) by (simp add: kin_def endedAt_def)
  have held: "holdsLease S b1 \<longleftrightarrow> holdsLease S b" "unlocked b1 S = unlocked b S" if "kin (endedAt t b') b1" for b1 t
    using that kin_key [OF b'(2)]
    by (simp_all add: kin_def endedAt_def holdsLease_def IsHolder_def unlocked_def cong: option.case_cong)
  show "wp (runStages d (closingStages ?c) b') (\<lambda>r w'. atRest r \<and>
      (\<exists>b'. at b' (unlocked b S) w' \<and> kin (endedAt (cl_now S) b) b' \<and>
       statusOf b' ConditionSucceeded = Some (resultOf (vb_phase v)))) w'"
    unfolding closingStages_def ended
  proof (rule decides [OF b'(1,3) lookup assms(6)])
    fix b1 :: backup and w1 :: "(cluster, event) world"
    assume b1: "at b1 S w1" "kin (endedAt (cl_now S) b') b1" "decided (resultOf (vb_phase v)) b1"
    note same = held [OF b1(2)]
    have held': "holdsLease (S\<lparr>cl_maintenance := False\<rparr>) b1" "holdsLease S b1"
      using assms(3) same(1) by (simp_all add: holdsLease_def)
    have S': "S\<lparr>cl_maintenance := False,
        cl_leases := filter (\<lambda>(q, _). q \<noteq> leaseKeyOf b1) (cl_leases (S\<lparr>cl_maintenance := False\<rparr>))\<rparr> = unlocked b S"
      using same(2) by (simp add: unlocked_def)
    show "wp (runStages d [ensureMaintenanceDeactivated ?c, ensureBackupLeaseReleased ?c, ensureBackupRunCompleted ?c] b1)
        (\<lambda>r w'. atRest r \<and> (\<exists>b''. at b'' (unlocked b S) w' \<and> kin (endedAt (cl_now S) b') b'' \<and>
           statusOf b'' ConditionSucceeded = Some (resultOf (vb_phase v)))) w1"
    proof (rule closes_maintenance [OF b1(1,3) held'(2) assms(4)], rule closes_lease [OF _ b1(3) held'(1)], assumption)
      fix w2 :: "(cluster, event) world"
      assume "at b1 (S\<lparr>cl_maintenance := False,
        cl_leases := filter (\<lambda>(q, _). q \<noteq> leaseKeyOf b1) (cl_leases (S\<lparr>cl_maintenance := False\<rparr>))\<rparr>) w2"
      then have "at b1 (unlocked b S) w2" by (simp only: S')
      from completes_run [OF this b1(3)] show "wp (runStages d [ensureBackupRunCompleted ?c] b1)
        (\<lambda>r w'. atRest r \<and> (\<exists>b''. at b'' (unlocked b S) w' \<and> kin (endedAt (cl_now S) b') b'' \<and>
           statusOf b'' ConditionSucceeded = Some (resultOf (vb_phase v)))) w2"
        by (rule wp_conseq) (use b1(2) in \<open>auto intro: kin_trans\<close>)
    qed
  qed
qed

section \<open>The control loop\<close>

text \<open>
  One reconciliation of a cluster, and the loop around it: while the controller does not rest, the clock moves
  to a new time and Velero to a new phase of the backup, and the controller reconciles again.
\<close>

definition reconcileOn :: "cluster controller \<Rightarrow> key \<Rightarrow> cluster \<Rightarrow> reconcile_result \<times> cluster" where
  "reconcileOn ct k C = (case run_state (Reconcile ct k) \<lparr>outside = C, log = []\<rparr> of (r, w) \<Rightarrow> (r, outside w))"

type_synonym tick = "instant \<times> velero_backup_phase"

fun moveOn :: "key \<Rightarrow> tick \<Rightarrow> cluster \<Rightarrow> cluster" where
  "moveOn k (t, p) C = C\<lparr>cl_now := t, cl_veleroBackups := map (\<lambda>(q, v).
     (q, if q = k then v\<lparr>vb_status := (vb_status v)\<lparr>vs_phase := p\<rparr>\<rparr> else v)) (cl_veleroBackups C)\<rparr>"

fun controlLoop :: "cluster controller \<Rightarrow> key \<Rightarrow> tick list \<Rightarrow> cluster \<Rightarrow> reconcile_result \<times> cluster" where
  "controlLoop ct k [] C = reconcileOn ct k C"
| "controlLoop ct k (f # fs) C = (case reconcileOn ct k C of (r, C') \<Rightarrow>
     if atRest r then (r, C') else controlLoop ct k fs (moveOn k f C'))"

text \<open>The cluster is \<open>S\<close> with the backup in it as the run left it.\<close>

definition situated :: "backup \<Rightarrow> cluster \<Rightarrow> cluster \<Rightarrow> bool" where
  "situated b S C \<longleftrightarrow> (\<exists>b'. C = putBackup b' S \<and> kin b b' \<and> underway b')"

lemma moveOn_put: "moveOn k f (putBackup b S) = putBackup b (moveOn k f S)"
  by (cases f) (simp add: putBackup_def)

lemma moveOn_situated: "situated b S C \<Longrightarrow> situated b (moveOn k f S) (moveOn k f C)"
  by (auto simp: situated_def moveOn_put)

lemma map_of_moved: "map_of (map (\<lambda>(q, v). (q, if q = k then g v else v)) t) q =
    (if q = k then map_option g (map_of t q) else map_of t q)"
  by (induction t) auto

lemma moveOn_simps [simp]:
  "cl_now (moveOn k (t, p) S) = t" "cl_leases (moveOn k f S) = cl_leases S" "cl_maintenance (moveOn k f S) = cl_maintenance S"
  "map_of (cl_veleroBackups (moveOn k (t, p) S)) k =
     map_option (\<lambda>v. v\<lparr>vb_status := (vb_status v)\<lparr>vs_phase := p\<rparr>\<rparr>) (map_of (cl_veleroBackups S) k)"
  "holdsLease (moveOn k f S) b = holdsLease S b" "inWindow (moveOn k f S) b u = inWindow S b u"
  by (cases f; simp add: map_of_moved holdsLease_def inWindow_def retryLimit_def)+

lemma moveOn_serves: "serves S st dep b \<Longrightarrow> serves (moveOn (keyOf b) f S) st dep b"
proof -
  assume serves: "serves S st dep b"
  obtain t p where f: "f = (t, p)" by (cases f)
  let ?g = "\<lambda>(q, v). (q, if q = keyOf b then v\<lparr>vb_status := (vb_status v)\<lparr>vs_phase := p\<rparr>\<rparr> else v)"
  let ?P = "\<lambda>(q, v). q = keyOf v \<and> (fst q = o_namespace b \<longrightarrow> o_name v = o_name b \<or> \<not> isProviderBackupInProgress v)"
  have "?P (?g x)" if "?P x" for x using that by (cases x) auto
  then have "list_all ?P xs \<Longrightarrow> list_all ?P (map ?g xs)" for xs
    by (induction xs) auto
  with serves show ?thesis
    by (simp add: serves_def f)
qed

declare moveOn.simps [simp del]

text \<open>A reconciliation that does not end the run.\<close>

lemma round_goes_on:
  assumes "situated b S C" "inWindow S b (cl_now S)" "serves S st dep b"
    and "\<And>b' w'. at b' S w' \<Longrightarrow> kin b b' \<Longrightarrow> underway b' \<Longrightarrow>
      wp (runStages d (runStagesFromLease (NewReconciler clusterEnv st dep)) b')
        (\<lambda>r w'. \<not> atRest r \<and> (\<exists>S'. G S' \<and> situated b0 S' (outside w'))) w'"
  shows "\<exists>r S' C'. reconcileOn (backupController (NewReconciler clusterEnv st dep) d) (keyOf b) C = (r, C') \<and>
    \<not> atRest r \<and> G S' \<and> situated b0 S' C'"
proof -
  obtain b' where b': "C = putBackup b' S" "kin b b'" "underway b'" using assms(1) by (auto simp: situated_def)
  have "wp (Reconcile (backupController (NewReconciler clusterEnv st dep) d) (keyOf b'))
      (\<lambda>r w'. \<not> atRest r \<and> (\<exists>S'. G S' \<and> situated b0 S' (outside w'))) \<lparr>outside = C, log = []\<rparr>"
    using b' assms(2,3) kin_serves [OF b'(2)]
    by (intro wp_Reconcile [where S = S]) (auto simp: at_def intro!: assms(4) intro: kin_trans)
  moreover have "keyOf b' = keyOf b" using b'(2) by (simp add: kin_def)
  ultimately show ?thesis
    by (auto simp: wp_def reconcileOn_def split: prod.splits)
qed

lemma goesAgain_situated: "goesAgain b' S' r w \<Longrightarrow> kin b b' \<Longrightarrow> \<not> atRest r \<and> situated b S' (outside w)"
  by (auto simp: goesAgain_def situated_def at_def intro: kin_trans)

lemma carriesOn_situated: "carriesOn d b' S' r w \<Longrightarrow> kin b b' \<Longrightarrow> d \<noteq> 0 \<Longrightarrow> \<not> atRest r \<and> situated b S' (outside w)"
  by (blast dest: carriesOn_goesAgain goesAgain_situated)

lemma kin_holds: "kin b b' \<Longrightarrow> holdsLease S b' = holdsLease S b"
  using kin_key [of b b'] by (simp add: holdsLease_def IsHolder_def cong: option.case_cong)

abbreviation theController :: "string \<Rightarrow> string \<Rightarrow> duration \<Rightarrow> cluster controller" where
  "theController st dep d \<equiv> backupController (NewReconciler clusterEnv st dep) d"

text \<open>The three reconciliations that prepare a run: the lease, the maintenance mode, the provider backup.\<close>

lemma lease_round:
  assumes "situated b S C" "inWindow S b (cl_now S)" "serves S st dep b" "d \<noteq> 0"
    and "map_of (cl_leases S) (leaseKeyOf b) = None"
  shows "\<exists>r S' C'. reconcileOn (theController st dep d) (keyOf b) C = (r, C') \<and> \<not> atRest r \<and>
    (holdsLease S' b \<and> (\<exists>ls. S' = S\<lparr>cl_leases := ls\<rparr>)) \<and> situated b S' C'"
proof (rule round_goes_on [OF assms(1-3)])
  fix b' w'
  let ?S = "S\<lparr>cl_leases := store (leaseKeyOf b) (ownLease b' (cl_now S)) (cl_leases S)\<rparr>"
  assume b': "at b' S w'" "kin b b'" "underway b'"
  have free: "map_of (cl_leases S) (leaseKeyOf b') = None" and key: "leaseKeyOf b' = leaseKeyOf b"
    using assms(5) kin_key [OF b'(2)] by simp_all
  have "holdsLease ?S b'" by (simp add: holdsLease_def key)
  then have held: "holdsLease ?S b" by (simp add: kin_holds [OF b'(2)])
  from takes_lease [OF b'(1,3) free, of d st dep, unfolded key]
  show "wp (runStages d (runStagesFromLease (NewReconciler clusterEnv st dep)) b') (\<lambda>r w'. \<not> atRest r \<and>
      (\<exists>S'. (holdsLease S' b \<and> (\<exists>ls. S' = S\<lparr>cl_leases := ls\<rparr>)) \<and> situated b S' (outside w'))) w'"
    by (rule wp_conseq) (use carriesOn_situated [OF _ b'(2) assms(4)] held in blast)
qed

lemma maintenance_round:
  assumes "situated b S C" "inWindow S b (cl_now S)" "serves S st dep b" "d \<noteq> 0" "holdsLease S b" "\<not> cl_maintenance S"
  shows "\<exists>r S' C'. reconcileOn (theController st dep d) (keyOf b) C = (r, C') \<and> \<not> atRest r \<and>
    S' = S\<lparr>cl_maintenance := True\<rparr> \<and> situated b S' C'"
proof (rule round_goes_on [OF assms(1-3)])
  fix b' w'
  assume b': "at b' S w'" "kin b b'" "underway b'"
  have held: "holdsLease S b'" using assms(5) by (simp add: kin_holds [OF b'(2)])
  from activates_maintenance [OF b'(1,3) held assms(6)]
  show "wp (runStages d (runStagesFromLease (NewReconciler clusterEnv st dep)) b') (\<lambda>r w'. \<not> atRest r \<and>
      (\<exists>S'. S' = S\<lparr>cl_maintenance := True\<rparr> \<and> situated b S' (outside w'))) w'"
    by (rule wp_conseq) (use carriesOn_situated [OF _ b'(2) assms(4)] in blast)
qed

lemma creation_round:
  assumes "situated b S C" "inWindow S b (cl_now S)" "serves S st dep b" "d \<noteq> 0" "holdsLease S b" "cl_maintenance S"
    and "map_of (cl_veleroBackups S) (keyOf b) = None"
  shows "\<exists>r S' C'. reconcileOn (theController st dep d) (keyOf b) C = (r, C') \<and> \<not> atRest r \<and>
    (\<exists>v. keyOf v = keyOf b \<and> vb_status v = emptyVeleroBackupStatus \<and>
      S' = S\<lparr>cl_veleroBackups := store (keyOf b) v (cl_veleroBackups S)\<rparr>) \<and> situated (startedAt (cl_now S) b) S' C'"
proof (rule round_goes_on [OF assms(1-3)])
  fix b' w'
  assume b': "at b' S w'" "kin b b'" "underway b'"
  have kin: "kin (startedAt t b) (startedAt t b')" for t
    using b'(2) by (simp add: kin_def startedAt_def)
  have key: "keyOf b' = keyOf b" using b'(2) by (simp add: kin_def)
  have held: "holdsLease S b'" using assms(5) by (simp add: kin_holds [OF b'(2)])
  have none: "map_of (cl_veleroBackups S) (keyOf b') = None" using assms(7) key by simp
  from creates_providerBackup [OF b'(1,3) held assms(6) none, unfolded key]
  show "wp (runStages d (runStagesFromLease (NewReconciler clusterEnv st dep)) b') (\<lambda>r w'. \<not> atRest r \<and>
      (\<exists>S'. (\<exists>v. keyOf v = keyOf b \<and> vb_status v = emptyVeleroBackupStatus \<and>
        S' = S\<lparr>cl_veleroBackups := store (keyOf b) v (cl_veleroBackups S)\<rparr>) \<and>
        situated (startedAt (cl_now S) b) S' (outside w'))) w'"
    by (rule wp_conseq) (use carriesOn_situated [OF _ kin assms(4)] in blast)
qed

text \<open>While the provider backup has not ended, the controller waits; once it has, the run is closed.\<close>

lemma waiting_round:
  assumes "situated b S C" "inWindow S b (cl_now S)" "serves S st dep b" "d \<noteq> 0" "holdsLease S b" "cl_maintenance S"
    and "map_of (cl_veleroBackups S) (keyOf b) = Some v" "\<not> hasEnded (vb_phase v)"
  shows "\<exists>r S' C'. reconcileOn (theController st dep d) (keyOf b) C = (r, C') \<and> \<not> atRest r \<and> S' = S \<and> situated b S' C'"
proof (rule round_goes_on [OF assms(1-3)])
  fix b' w'
  assume b': "at b' S w'" "kin b b'" "underway b'"
  have key: "keyOf b' = keyOf b" using b'(2) by (simp add: kin_def)
  have held: "holdsLease S b'" using assms(5) by (simp add: kin_holds [OF b'(2)])
  have own: "map_of (cl_veleroBackups S) (keyOf b') = Some v" using assms(7) key by simp
  from waits_for_provider [OF b'(1,3) held assms(6) own assms(8,4)]
  show "wp (runStages d (runStagesFromLease (NewReconciler clusterEnv st dep)) b') (\<lambda>r w'. \<not> atRest r \<and>
      (\<exists>S'. S' = S \<and> situated b S' (outside w'))) w'"
    by (rule wp_conseq) (use goesAgain_situated [OF _ b'(2)] in blast)
qed

lemma closing_round:
  assumes "situated b S C" "inWindow S b (cl_now S)" "serves S st dep b" "holdsLease S b" "cl_maintenance S"
    and "map_of (cl_veleroBackups S) (keyOf b) = Some v" "hasEnded (vb_phase v)"
  shows "\<exists>r b'. reconcileOn (theController st dep d) (keyOf b) C = (r, putBackup b' (unlocked b S)) \<and> atRest r \<and>
    kin (endedAt (cl_now S) b) b' \<and> statusOf b' ConditionSucceeded = Some (resultOf (vb_phase v))"
proof -
  obtain b' where b': "C = putBackup b' S" "kin b b'" "underway b'" using assms(1) by (auto simp: situated_def)
  have key: "keyOf b' = keyOf b" using b'(2) by (simp add: kin_def)
  let ?Q = "\<lambda>r w'. atRest r \<and> (\<exists>b''. at b'' (unlocked b S) w' \<and> kin (endedAt (cl_now S) b) b'' \<and>
    statusOf b'' ConditionSucceeded = Some (resultOf (vb_phase v)))"
  have "wp (Reconcile (theController st dep d) (keyOf b')) ?Q \<lparr>outside = C, log = []\<rparr>"
  proof (rule wp_Reconcile [where S = S])
    fix b'' w''
    assume b'': "at b'' S w''" "kin b' b''" "underway b''"
    have kin: "kin b b''" using b'(2) b''(2) by (rule kin_trans)
    have held: "holdsLease S b''" using assms(4) by (simp add: kin_holds [OF kin])
    have own: "map_of (cl_veleroBackups S) (keyOf b'') = Some v" using assms(6) kin_key [OF kin] by simp
    have same: "unlocked b'' S = unlocked b S" "kin (endedAt t b'') x \<longleftrightarrow> kin (endedAt t b) x" for t x
      using kin kin_key [OF kin] by (simp_all add: unlocked_def kin_def endedAt_def)
    from ends_run [OF b''(1,3) held assms(5) own assms(7), unfolded same]
    show "wp (runStages d (runStagesFromLease (NewReconciler clusterEnv st dep)) b'') ?Q w''" .
  qed (use b' assms(2,3) kin_serves [OF b'(2)] in \<open>simp_all add: at_def\<close>)
  then show ?thesis
    unfolding key by (auto simp: wp_def reconcileOn_def at_def split: prod.splits)
qed

lemma loop_continues:
  "reconcileOn ct k C = (r, C') \<Longrightarrow> \<not> atRest r \<Longrightarrow> controlLoop ct k (f # fs) C = controlLoop ct k fs (moveOn k f C')"
  by simp

text \<open>How a loop ends that has seen the provider backup end.\<close>

definition closes :: "cluster controller \<Rightarrow> backup \<Rightarrow> tick list \<Rightarrow> instant \<Rightarrow> velero_backup_phase \<Rightarrow> cluster \<Rightarrow> bool" where
  "closes ct b fs t p C \<longleftrightarrow> (\<exists>r b' S. controlLoop ct (keyOf b) fs C = (r, putBackup b' (unlocked b S)) \<and>
     atRest r \<and> kin (endedAt t b) b' \<and> statusOf b' ConditionSucceeded = Some (resultOf p) \<and>
     map_option vb_phase (map_of (cl_veleroBackups S) (keyOf b)) = Some p)"

lemma closes_later:
  "reconcileOn ct (keyOf b) C = (r, C') \<Longrightarrow> \<not> atRest r \<Longrightarrow> closes ct b fs t p (moveOn (keyOf b) f C') \<Longrightarrow>
     closes ct b (f # fs) t p C"
  by (simp add: closes_def)

text \<open>From a tick after the creation of the provider backup on, up to the one that brings its end.\<close>

lemma waits_and_closes:
  assumes "situated b S C" "serves S st dep b" "d \<noteq> 0" "holdsLease S b" "cl_maintenance S"
    and "map_of (cl_veleroBackups S) (keyOf b) = Some v"
    and "\<forall>f \<in> set fs. inWindow S b (fst f) \<and> \<not> hasEnded (snd f)" "inWindow S b t" "hasEnded p" "fs @ [(t, p)] = g # gs"
  shows "closes (theController st dep d) b gs t p (moveOn (keyOf b) g C)"
  using assms(1,2,4-8,10)
proof (induction fs arbitrary: S C v g gs)
  case Nil
  let ?S = "moveOn (keyOf b) (t, p) S"
  have "\<exists>r b'. reconcileOn (theController st dep d) (keyOf b) (moveOn (keyOf b) (t, p) C) =
      (r, putBackup b' (unlocked b ?S)) \<and> atRest r \<and> kin (endedAt (cl_now ?S) b) b' \<and>
      statusOf b' ConditionSucceeded = Some (resultOf (vb_phase (v\<lparr>vb_status := (vb_status v)\<lparr>vs_phase := p\<rparr>\<rparr>)))"
    using Nil(2-7) assms(9)
    by (intro closing_round moveOn_situated moveOn_serves Nil(1)) simp_all
  then obtain r b' where closed: "reconcileOn (theController st dep d) (keyOf b) (moveOn (keyOf b) (t, p) C) =
      (r, putBackup b' (unlocked b ?S))" "atRest r" "kin (endedAt t b) b'"
      "statusOf b' ConditionSucceeded = Some (resultOf p)" by auto
  have "map_option vb_phase (map_of (cl_veleroBackups ?S) (keyOf b)) = Some p"
    using Nil(5) by simp
  with closed have "closes (theController st dep d) b [] t p (moveOn (keyOf b) (t, p) C)"
    unfolding closes_def controlLoop.simps by blast
  then show ?case
    using Nil(8) by simp
next
  case (Cons f fs)
  obtain u q where f: "f = (u, q)" by (cases f)
  obtain g' gs' where next_tick: "fs @ [(t, p)] = g' # gs'" by (cases "fs @ [(t, p)]") simp_all
  let ?S = "moveOn (keyOf b) f S" and ?v = "v\<lparr>vb_status := (vb_status v)\<lparr>vs_phase := q\<rparr>\<rparr>"
  have "\<exists>r S' C'. reconcileOn (theController st dep d) (keyOf b) (moveOn (keyOf b) f C) = (r, C') \<and> \<not> atRest r \<and>
      S' = ?S \<and> situated b S' C'"
    using Cons.prems(2-7) f
    by (intro waiting_round [where v = ?v] moveOn_situated moveOn_serves Cons.prems(1) assms(3)) simp_all
  then obtain r C' where round: "reconcileOn (theController st dep d) (keyOf b) (moveOn (keyOf b) f C) = (r, C')"
      "\<not> atRest r" "situated b ?S C'" by blast
  have "closes (theController st dep d) b gs' t p (moveOn (keyOf b) g' C')"
    using Cons.prems(1-7) f next_tick
    by (intro Cons.IH [of ?S _ ?v] round(3) moveOn_serves) simp_all
  from closes_later [OF round(1,2) this] show ?case
    using Cons.prems(8) next_tick by simp
qed

section \<open>From the new backup to the closed run\<close>

lemma startedAt_same [simp]:
  "o_namespace (startedAt t b) = o_namespace b" "o_name (startedAt t b) = o_name b" "o_uid (startedAt t b) = o_uid b"
  "unlocked (startedAt t b) S = unlocked b S"
  "inWindow S (startedAt t b) u = inWindow S b u" "serves S st dep (startedAt t b) = serves S st dep b"
  "holdsLease S (startedAt t b) = holdsLease S b"
  by (simp_all add: startedAt_def unlocked_def inWindow_def serves_def holdsLease_def IsHolder_def
      cong: option.case_cong split del: if_split)

lemma created_serves:
  assumes "serves S st dep b" "keyOf v = keyOf b"
  shows "serves (S\<lparr>cl_veleroBackups := store (keyOf b) v (cl_veleroBackups S)\<rparr>) st dep b"
  using assms by (auto simp: serves_def store_def list_all_iff)

lemma unlocked_simps [simp]:
  "cl_maintenance (unlocked b S) = False" "map_of (cl_leases (unlocked b S)) (leaseKeyOf b) = None"
  "cl_veleroBackups (unlocked b S) = cl_veleroBackups S"
  by (simp_all add: unlocked_def map_of_filter_key)

lemma run_closes:
  assumes "situated b S C" "map_of (cl_leases S) (leaseKeyOf b) = None" "\<not> cl_maintenance S"
    and "map_of (cl_veleroBackups S) (keyOf b) = None" "serves S st dep b" "d \<noteq> 0"
    and "inWindow S b (cl_now S)" "inWindow S b (fst f1)" "inWindow S b (fst f2)"
    and "\<forall>f \<in> set fs. inWindow S b (fst f) \<and> \<not> hasEnded (snd f)" "inWindow S b t" "hasEnded p"
  shows "closes (theController st dep d) (startedAt (fst f2) b) (f1 # f2 # fs @ [(t, p)]) t p C"
proof -
  let ?R = "reconcileOn (theController st dep d) (keyOf b)" and ?closes = "closes (theController st dep d)"
  obtain t1 p1 t2 p2 where f: "f1 = (t1, p1)" "f2 = (t2, p2)" by (cases f1, cases f2) blast
  obtain g gs where ticks: "fs @ [(t, p)] = g # gs" by (cases "fs @ [(t, p)]") simp_all
  from lease_round [OF assms(1,7,5,6,2)] obtain r1 C1 ls where
    r1: "?R C = (r1, C1)" "\<not> atRest r1" "holdsLease (S\<lparr>cl_leases := ls\<rparr>) b" "situated b (S\<lparr>cl_leases := ls\<rparr>) C1" by blast
  let ?S1 = "moveOn (keyOf b) f1 (S\<lparr>cl_leases := ls\<rparr>)"
  have window: "inWindow (X\<lparr>cl_leases := ls\<rparr>) b u = inWindow X b u" "inWindow (X\<lparr>cl_maintenance := m\<rparr>) b u = inWindow X b u"
      "serves (X\<lparr>cl_leases := ls\<rparr>) st dep b = serves X st dep b" "serves (X\<lparr>cl_maintenance := m\<rparr>) st dep b = serves X st dep b"
      "holdsLease (X\<lparr>cl_maintenance := m\<rparr>) b = holdsLease X b" "inWindow (X\<lparr>cl_veleroBackups := vs\<rparr>) b u = inWindow X b u"
      "holdsLease (X\<lparr>cl_veleroBackups := vs\<rparr>) b = holdsLease X b" for X ls m vs u
    by (simp_all add: inWindow_def retryLimit_def serves_def holdsLease_def)
  have "\<exists>r S' C'. ?R (moveOn (keyOf b) f1 C1) = (r, C') \<and> \<not> atRest r \<and> S' = ?S1\<lparr>cl_maintenance := True\<rparr> \<and> situated b S' C'"
    using assms r1(3) f by (intro maintenance_round moveOn_situated moveOn_serves r1(4)) (simp_all add: window)
  then obtain r2 C2 where r2: "?R (moveOn (keyOf b) f1 C1) = (r2, C2)" "\<not> atRest r2"
      "situated b (?S1\<lparr>cl_maintenance := True\<rparr>) C2" by blast
  let ?S2 = "moveOn (keyOf b) f2 (?S1\<lparr>cl_maintenance := True\<rparr>)"
  have serving: "serves ?S2 st dep b"
    using assms(5) by (intro moveOn_serves) (simp add: window moveOn_serves)
  have "\<exists>r S' C'. ?R (moveOn (keyOf b) f2 C2) = (r, C') \<and> \<not> atRest r \<and> (\<exists>v. keyOf v = keyOf b \<and>
      vb_status v = emptyVeleroBackupStatus \<and> S' = ?S2\<lparr>cl_veleroBackups := store (keyOf b) v (cl_veleroBackups ?S2)\<rparr>) \<and>
      situated (startedAt (cl_now ?S2) b) S' C'"
    using assms r1(3) f serving by (intro creation_round moveOn_situated r2(3)) (simp_all add: window)
  then obtain r3 C3 v where r3: "?R (moveOn (keyOf b) f2 C2) = (r3, C3)" "\<not> atRest r3" "keyOf v = keyOf b"
      "situated (startedAt (fst f2) b) (?S2\<lparr>cl_veleroBackups := store (keyOf b) v (cl_veleroBackups ?S2)\<rparr>) C3"
    using f by auto
  have "?closes (startedAt (fst f2) b) gs t p (moveOn (keyOf b) g C3)"
    using assms(10,11) r1(3) created_serves [OF serving r3(3)] f
    by (intro waits_and_closes [OF r3(4) _ assms(6) _ _ _ _ _ assms(12) ticks, simplified]) (simp_all add: window)
  moreover have later: "?R X = (r, X') \<Longrightarrow> \<not> atRest r \<Longrightarrow> ?closes (startedAt (fst f2) b) ys t p (moveOn (keyOf b) y X') \<Longrightarrow>
      ?closes (startedAt (fst f2) b) (y # ys) t p X" for X r X' y ys
    using closes_later [of "theController st dep d" "startedAt (fst f2) b"] by simp
  ultimately show ?thesis
    unfolding ticks by (intro later [OF r1(1,2)] later [OF r2(1,2)] later [OF r3(1,2)])
qed

text \<open>
  C2: Take a new backup in the in-memory cluster whose provider serves it, with the lease free. While the time
  window is open, Velero may take any number of steps through any phases that are not an end (among them the
  empty one, which the controller answers with an error) before it ends its backup. The control loop then
  comes to rest, without an error, with the run closed: the backup has succeeded if Velero completed
  it and has failed otherwise, it started when the Velero backup was created and ended when its end was seen,
  the lease is free again, the maintenance mode off, and the Velero backup still there.
\<close>

theorem backup_run_end_to_end:
  assumes "underway b" "isZero (startTimestamp (b_status b))" "isZero (completionTimestamp (b_status b))" "d \<noteq> 0"
    and "map_of (cl_leases S) (leaseKeyOf b) = None" "\<not> cl_maintenance S"
    and "map_of (cl_veleroBackups S) (keyOf b) = None" "serves S st dep b"
    and "\<forall>u \<in> {cl_now S, fst f1, fst f2, t} \<union> fst ` set fs. inWindow S b u"
    and "\<forall>f \<in> set fs. \<not> hasEnded (snd f)" "hasEnded p"
  shows "case controlLoop (backupController (NewReconciler clusterEnv st dep) d) (keyOf b)
      (f1 # f2 # fs @ [(t, p)]) (putBackup b S) of (r, C) \<Rightarrow>
    requeueAfter r = 0 \<and> rerr r = None \<and>
    map_of (cl_leases C) (leaseKeyOf b) = None \<and> \<not> cl_maintenance C \<and>
    map_option vb_phase (map_of (cl_veleroBackups C) (keyOf b)) = Some p \<and>
    (case map_of (cl_backups C) (keyOf b) of
       None \<Rightarrow> False
     | Some b' \<Rightarrow> statusOf b' ConditionSucceeded =
           Some (if p = BackupPhaseCompleted then ConditionTrue else ConditionFalse) \<and>
         startTimestamp (b_status b') = fst f2 \<and> completionTimestamp (b_status b') = t)"
proof -
  have "situated b S (putBackup b S)" using assms(1) by (auto simp: situated_def)
  from run_closes [OF this assms(5-8,4), of f1 f2 fs t p] assms(9-11)
  have "closes (theController st dep d) (startedAt (fst f2) b) (f1 # f2 # fs @ [(t, p)]) t p (putBackup b S)"
    by simp
  then obtain r b' S' where closed: "controlLoop (theController st dep d) (keyOf b) (f1 # f2 # fs @ [(t, p)]) (putBackup b S)
      = (r, putBackup b' (unlocked b S'))" "atRest r" "kin (endedAt t (startedAt (fst f2) b)) b'"
      "statusOf b' ConditionSucceeded = Some (resultOf p)"
      "map_option vb_phase (map_of (cl_veleroBackups S') (keyOf b)) = Some p"
    unfolding closes_def by auto
  then have "keyOf b' = keyOf b" "startTimestamp (b_status b') = fst f2" "completionTimestamp (b_status b') = t"
    using assms(2,3) by (simp_all add: kin_def endedAt_def startedAt_def)
  with closed show ?thesis
    by (auto simp: atRest_def resultOf_def)
qed

section \<open>A backup run, concretely\<close>

text \<open>A new backup, a cluster whose provider is ready, and a time limit of 30 minutes.\<close>

definition newBackup :: backup where
  "newBackup = demoBackup\<lparr>b_status := emptyBackupStatus\<rparr>"

definition readyCluster :: cluster where
  "readyCluster = (emptyCluster 100)\<lparr>
     cl_configMaps := [((''ns'', backupConfigMapName), obj_meta.extend (newMeta ''ns'' backupConfigMapName)
       \<lparr>cm_data = [backupRetryTimeLimitKey \<mapsto> showInt 30]\<rparr>)],
     cl_storageLocations := [((''ns'', ''default''), obj_meta.extend (newMeta ''ns'' ''default'')
       \<lparr>sl_phase = BackupStorageLocationPhaseAvailable\<rparr>)],
     cl_workloads := (\<lambda>_. [((''ns'', ''velero''), obj_meta.extend (newMeta ''ns'' ''velero'')
       \<lparr>w_replicas = Some 1, w_observedGeneration = 0, w_statusReplicas = 1, w_ready = 1, w_available = 1,
        w_updated = 1, w_unavailable = 0\<rparr>)])\<rparr>"

lemma newBackup_simps:
  "o_namespace newBackup = ''ns''" "o_name newBackup = ''b''" "o_creation newBackup = 0"
  "b_status newBackup = emptyBackupStatus" "underway newBackup"
  by (simp_all add: newBackup_def demoBackup_def obj_meta.defs newMeta_def underway_def statusIn_def emptyBackupStatus_def)

lemma readyCluster_simps:
  "cl_leases readyCluster = []" "\<not> cl_maintenance readyCluster" "cl_veleroBackups readyCluster = []"
  "cl_now readyCluster = 100" "serves readyCluster ''default'' ''velero'' newBackup"
  by (simp_all add: readyCluster_def emptyCluster_def serves_def newBackup_simps obj_meta.defs newMeta_def)

lemma readyCluster_window: "0 \<le> t \<Longrightarrow> t \<le> 30 * minute \<Longrightarrow> inWindow readyCluster newBackup t"
proof -
  have "retryLimit readyCluster ''ns'' = Some (30 * minute)"
    using parseInt_showInt [of 64 30]
    by (simp add: retryLimit_def readyCluster_def emptyCluster_def obj_meta.defs newMeta_def mulDuration_def
        wrap64_def duration_units)
  moreover assume "0 \<le> t" "t \<le> 30 * minute"
  ultimately show ?thesis
    by (simp add: inWindow_def newBackup_simps timeSub_def duration_units minInt64_def maxInt64_def)
qed

text \<open>Velero does not touch the backup at once, works on it, and fails in the end.\<close>

theorem backup_run_end_to_end_witness:
  "case controlLoop (backupController (NewReconciler clusterEnv ''default'' ''velero'') 10) (''ns'', ''b'')
      [(110, BackupPhaseNone), (120, BackupPhaseNone), (130, BackupPhaseNone), (140, BackupPhaseInProgress),
       (150, BackupPhasePartiallyFailed)] (putBackup newBackup readyCluster) of (r, C) \<Rightarrow>
    requeueAfter r = 0 \<and> rerr r = None \<and> cl_maintenance C = False \<and>
    map_of (cl_leases C) (''ns'', DefaultName) = None \<and>
    map_option (\<lambda>b. (statusOf b ConditionSucceeded, startTimestamp (b_status b), completionTimestamp (b_status b)))
      (map_of (cl_backups C) (''ns'', ''b'')) = Some (Some ConditionFalse, 120, 150)"
  using backup_run_end_to_end [of newBackup 10 readyCluster "''default''" "''velero''" "(110, BackupPhaseNone)"
      "(120, BackupPhaseNone)" 150 "[(130, BackupPhaseNone), (140, BackupPhaseInProgress)]" BackupPhasePartiallyFailed]
  by (simp add: newBackup_simps readyCluster_simps readyCluster_window duration_units emptyBackupStatus_def hasEnded_def
      veleroBackupFailedPhases_def del: controlLoop.simps split: prod.splits option.splits)

end
