(* ===== verification/Spec2Isabelle.thy ===== *)
theory Spec2Isabelle
  imports StatusProperties VeleroSync GarbageCollection ScheduledBackup RestoreSafety RestoreSettles
    ScheduleConvergence EntryProperties Watches LeaseSafety BackupProgress
    BackupLife
begin

text \<open>
  A model of the k8s-backup-operator, a Kubernetes operator that backs up and restores a Cloudogu
  ecosystem with Velero.

  \<^bold>\<open>The program.\<close> The backup controller (\<open>internal/controller/backup\<close>) drives a \<open>Backup\<close> through fifteen
  stages: it waits for the provider and a free time window, takes the namespace-wide lease, activates the
  maintenance mode, creates the Velero backup, watches it, deactivates the maintenance mode, releases the
  lease and closes the run. The restore controller (\<open>internal/controller/restore\<close>) drives a \<open>Restore\<close>
  through sixteen: it checks an existing Velero restore, takes the same lease, checks provider and source
  backup, activates the maintenance mode, scales the workloads down and cleans up, creates the Velero
  restore, watches it, scales up again, waits for the workloads, deactivates the maintenance mode and
  completes. Both are level-triggered: one reconciliation reads the object, runs stages until one asks to
  stop, and is called again. A third controller mirrors Velero backups, a fourth
  (\<open>internal/controller/schedule\<close>) keeps a CronJob in step with each \<open>BackupSchedule\<close>; two commands create
  scheduled backups and collect garbage by a retention strategy. \<open>cmd/main.go\<close> reads the configuration
  (\<open>internal/config\<close>), puts the controllers together and starts them, or runs one of the commands.

  \<^bold>\<open>The outside.\<close> API server, Velero, clock, maintenance mode, libraries and everybody else in the cluster
  are a record \<open>'s env\<close> of functions over an opaque state \<open>'s\<close> (\<open>Kube\<close>): each call may answer anything
  and change \<open>'s\<close> at will. Effectful code is in the state monad of the library over a world of \<open>'s\<close> and a
  log of events (\<open>Prelude\<close>). \<open>outcome m R\<close> says that every run of \<open>m\<close> returns a value and appends events
  related by \<open>R\<close>; \<open>preceded G B es\<close> says that every \<open>B\<close> event of a log has a \<open>G\<close> event before it, and
  \<open>guarded T G B es\<close> that it has one which fits the very object the log up to there shows to be at hand
  (\<open>theBackup\<close>, \<open>theRestore\<close>: the answer to the read of the requested key, or what the API server answered
  when that object was written or read again). Errors are
  values (\<open>err\<close>, left of a sum); wrapped errors keep their cause. Where a lemma needs documented behaviour
  of a library it names it: \<open>meta_laws\<close> (condition helpers), \<open>finalizer_laws\<close>, \<open>controller_laws\<close>.
  \<open>Cluster\<close> is one concrete environment, an in-memory API server, for the witnesses and for the control loops
  that are followed to their end; \<open>ClusterSteps\<close> has the rules to run programs in it: \<open>steps\<close>, which keeps the
  events, and \<open>wp\<close>, weakest preconditions.

  \<^bold>\<open>Theories and code.\<close>
  \<^item> \<open>Prelude\<close>, \<open>GoStd\<close>, \<open>Kube\<close>, \<open>Effects\<close>, \<open>Cluster\<close>: monad, trace logic, Go's time and strconv, Kubernetes
    objects and calls, effects of events, the concrete cluster.
  \<^item> \<open>Conditions\<close> (\<open>internal/conditions\<close>), \<open>Metrics\<close> (\<open>internal/metrics\<close>), \<open>Leases\<close> (\<open>internal/leases\<close>; the
    resolver is the locale \<open>holder_resolver\<close>, interpreted for backups and for restores),
    \<open>VeleroProvider\<close> and \<open>VeleroRestore\<close> (\<open>internal/provider/velero\<close>, \<open>internal/annotations\<close>).
  \<^item> \<open>BackupStatus\<close>, \<open>BackupBase\<close>, \<open>BackupRun\<close>, \<open>BackupWorkflow\<close>, \<open>BackupClosing\<close>, \<open>BackupDeletion\<close>, \<open>BackupLease\<close>,
    \<open>BackupController\<close>: \<open>reconciler.go\<close>, \<open>conditions*.go\<close>, \<open>backupLease.go\<close>, \<open>maintenance_gateway.go\<close> and
    \<open>controller.go\<close> of the backup controller. \<open>BackupStages\<close> has the contract of every stage, \<open>BackupRuns\<close>
    composes them under the locale \<open>backup_reconciler\<close>, \<open>BackupSafety\<close>, \<open>BackupProperties\<close>,
    \<open>StatusProperties\<close> and \<open>BackupProgress\<close> hold the properties. \<open>BackupCluster\<close> computes what the calls of the
    stages do in the in-memory cluster, \<open>BackupLife\<close> follows a backup there from its creation to its end.
  \<^item> \<open>LeaseProtocol\<close> reduces an attempt of a backup or a restore at the lease to the calls it may make next;
    \<open>LeaseSafety\<close> interleaves any number of attempts in front of one API server, as a step relation.
  \<^item> \<open>VeleroSync\<close> (\<open>velero_backup_*.go\<close>), \<open>Retention\<close> and \<open>GarbageCollection\<close> (\<open>internal/retention\<close>,
    \<open>internal/garbagecollection\<close>), \<open>ScheduledBackup\<close> (\<open>internal/scheduledbackup\<close>).
  \<^item> \<open>RestoreStatus\<close> (\<open>conditions.go\<close>, \<open>conditionUpdater.go\<close> of the restore controller), \<open>Scale\<close> (\<open>scale.go\<close>),
    \<open>Cleanup\<close> (\<open>internal/cleanup\<close>), \<open>RestoreBase\<close> (\<open>stageOutcome.go\<close>, lease and metadata stages),
    \<open>RestoreWorkflow\<close> (the other stages and \<open>Reconcile\<close>), \<open>RestoreController\<close> (the reconciler as
    \<open>cmd/main.go\<close> builds it).
  \<^item> \<open>RestoreStages\<close>: the contract of every restore stage, in the locale \<open>restore_managers\<close> (a scale manager
    and a cleanup that keep to their interfaces) where the stage uses them. \<open>RestoreRuns\<close>: an order every
    stage keeps is kept by the sequence. \<open>RestoreOrders\<close>, \<open>RestoreMilestones\<close>: the orders of the three
    operations. \<open>ScaleProperties\<close>, \<open>RestoreSafety\<close>, \<open>RestoreProgress\<close>, \<open>RestoreSettles\<close>: the properties. \<open>RestoreDemo\<close>: a
    reconciliation that completes a restore, evaluated.
  \<^item> \<open>Schedule\<close> (\<open>internal/controller/schedule\<close>); \<open>ScheduleRules\<close> has the contracts of its managers and the
    locale \<open>schedule_managers\<close>, \<open>ScheduleProperties\<close> the properties of one reconciliation,
    \<open>ScheduleConvergence\<close> those of a second one on an undisturbed cluster.
  \<^item> \<open>Config\<close> (\<open>internal/config\<close>), \<open>GoFlags\<close> (Go's flag package as far as it is used), \<open>EntryPoint\<close>
    (\<open>cmd/main.go\<close>) with \<open>EntryProperties\<close>, \<open>Watches\<close> (the \<open>SetupWithManager\<close> of all controllers).

  \<^bold>\<open>What is shown.\<close> For backups: who may create a provider backup and when, that a run is closed and a
  lease released only after the maintenance mode is handled, that the lease released and the lease under
  which the mode is switched name the very backup of the request, what deletion and cancellation need to have
  seen, exact status updates, time windows including their overflow, that a backup never stalls (the
  controller is not called again only when nothing is left to do), and the whole run of a new backup: the
  control loop, with the clock and Velero moving between its reconciliations (\<open>controlLoop\<close>, \<open>moveOn\<close>), ends with
  the run closed as Velero ended it, the lease free and the maintenance mode off. For backups and restores together: the
  lease excludes them from each other under every interleaving of their calls, with outdated reads of the
  lease, conflicts and lost answers; assumed is that objects are read as they are, that a terminal object
  stays terminal, and that nobody else writes the lease. For restores: the lease, named for
  the restore of the request, before any work, its own provider child as safety barrier, no cleanup
  unless the backup it asks for is usable, milestones only with
  evidence, deletion order, bounded status updates with their error behaviour, that the recovery never
  stalls in silence, and that with a positive delay a restore is not looked at again only when it is
  gone, deleted, cleaned up or reported as ended. For the scale manager a refinement to maps over stored workloads and the round
  trip down and up; for the cleanup that success means gone; for retention that each strategy keeps
  exactly the backups it documents, and how many, and that the garbage collection deletes exactly what
  the configured one removes of the completed backups. For schedules: no CronJob for an invalid expression,
  ready only when synchronised, the finalizer removed only after the CronJob was, the conditions as a
  function of what happened and of the validity of the specification, in the status that is written, and that the loop comes to rest: on an undisturbed cluster the second
  reconciliation changes nothing. For the process: the manager starts only when every controller and
  check has been added, the values of the configuration reach the controllers, which of them wrap
  around, and a scheduled job from its arguments to the created backup.

  \<^bold>\<open>Bounds.\<close> Loops over lists are structural recursion. \<open>conflictRetries E\<close> is the number of retries of
  client-go's \<open>RetryOnConflict\<close>: it calls a function again while it answers a conflict, that often at
  most; the lemmas hold for any number. \<open>polls E\<close> is the schedule of the waiting goroutines of the
  cleanup up to its deadline, any finite list; which ready case of the final \<^verbatim>\<open>select\<close> Go takes is
  \<open>selectsFirst E\<close>. No theorem assumes enough of either.

  \<^bold>\<open>Not modelled.\<close> Log lines and \<open>internal/logging\<close>; the runtime of the manager (queues, caches, leader
  election), of which \<open>EntryPoint\<close> sees the calls and \<open>Watches\<close> the registrations; the constructors of
  clients, which answer an error or none; interfaces that only declare mocks; waiting times of the
  cleanup. Parameters, because their code is not part of the repository: the name and the pod template
  of a schedule's CronJob (k8s-backup-lib), the cron parser, the version parser, the pattern engine for
  image names, the level parser of the logger, the helpers of controller-runtime, and the string constants of the CRD
  libraries (\<open>libConstant\<close>, by their Go names).
\<close>

end
